(* ===== verification/Waechter_Prelude.thy ===== *)
theory Waechter_Prelude
  imports Complex_Main "HOL-Library.Word" "HOL-Library.AList" "HOL-Library.Log_Nat"
begin

text \<open>
  Shared vocabulary of the Waechter development: the machine-integer types the C++
  sources use, the association lists that stand for \<^verbatim>\<open>std::unordered_map\<close>, the byte
  (de)composition of words, the conversion of a 64-bit counter to a \<^verbatim>\<open>double\<close>, and the
  two generic interfaces (a key-value store, a state machine with an invariant) that the
  component theories interpret.
\<close>

unbundle bit_operations_syntax

section \<open>Types\<close>

type_synonym u8 = "8 word"
type_synonym u16 = "16 word"
type_synonym u32 = "32 word"
type_synonym u64 = "64 word"

text \<open>\<^verbatim>\<open>WTrafficItemId\<close>, \<^verbatim>\<open>WSocketCookie\<close>, \<^verbatim>\<open>WProcessId\<close>, \<^verbatim>\<open>WBytes\<close>, \<^verbatim>\<open>WMsec\<close>
  (\<^verbatim>\<open>Util/Types.hpp\<close>, \<^verbatim>\<open>Util/Data/TrafficItem.hpp\<close>). A \<^verbatim>\<open>double\<close> is a real number: the
  rounding of the conversions from 64-bit integers is written out below.\<close>

type_synonym WTrafficItemId = u64
type_synonym WSocketCookie = u64
type_synonym WProcessId = int
type_synonym WBytes = u64
type_synonym WMsec = int
type_synonym WBytesPerSecond = real

text \<open>
  A \<^verbatim>\<open>std::unordered_map\<close> is an association list with distinct keys. The list order is
  the iteration order, which the C++ standard leaves open; every theorem that starts from
  an arbitrary map therefore holds for every iteration order.
\<close>

type_synonym ('k, 'v) umap = "('k \<times> 'v) list"

named_theorems rule_defs "unfolding rules of the rule inheritance"
named_theorems counter_defs "unfolding rules of the traffic counters"
named_theorems ebpf_defs "unfolding rules of the kernel programs"

section \<open>Association lists\<close>

definition um_contains :: "('k, 'v) umap \<Rightarrow> 'k \<Rightarrow> bool" where
  "um_contains m k \<longleftrightarrow> map_of m k \<noteq> None"

definition um_keys :: "('k, 'v) umap \<Rightarrow> 'k set" where
  "um_keys m = fst ` set m"

abbreviation um_distinct :: "('k, 'v) umap \<Rightarrow> bool" where
  "um_distinct m \<equiv> distinct (map fst m)"

lemma um_contains_iff [simp]: "um_contains m k \<longleftrightarrow> k \<in> um_keys m"
  by (simp add: um_contains_def um_keys_def dom_map_of_conv_image_fst [symmetric] dom_def)

lemma map_of_None_um_keys: "map_of m k = None \<longleftrightarrow> k \<notin> um_keys m"
  by (simp add: um_keys_def map_of_eq_None_iff)

lemma map_of_Some_um_keys: "map_of m k = Some v \<Longrightarrow> k \<in> um_keys m"
  by (metis map_of_None_um_keys option.distinct(1))

lemma um_map_of_update [simp]: "map_of (AList.update k v m) = (map_of m)(k \<mapsto> v)"
  by (rule update_conv')

lemma um_map_of_delete [simp]: "map_of (AList.delete k m) = (map_of m)(k := None)"
  by (rule delete_conv')

lemma um_keys_Nil [simp]: "um_keys [] = {}"
  by (simp add: um_keys_def)

lemma um_keys_Cons [simp]: "um_keys (p # m) = insert (fst p) (um_keys m)"
  by (simp add: um_keys_def)

lemma um_keys_append [simp]: "um_keys (m @ n) = um_keys m \<union> um_keys n"
  by (simp add: um_keys_def image_Un)

lemma um_keys_update [simp]: "um_keys (AList.update k v m) = insert k (um_keys m)"
  by (simp add: um_keys_def dom_update)

lemma um_keys_delete [simp]: "um_keys (AList.delete k m) = um_keys m - {k}"
  by (auto simp: um_keys_def AList.delete_eq)

lemma um_distinct_update [intro]: "um_distinct m \<Longrightarrow> um_distinct (AList.update k v m)"
  by (rule distinct_update)

lemma um_distinct_delete [intro]: "um_distinct m \<Longrightarrow> um_distinct (AList.delete k m)"
  by (rule distinct_delete)

lemma um_distinct_filter [intro]: "um_distinct m \<Longrightarrow> um_distinct (filter P m)"
  by (induction m) auto

lemma map_of_filter_distinct:
  "um_distinct m \<Longrightarrow> map_of (filter (\<lambda>p. P (snd p)) m) k =
     (case map_of m k of None \<Rightarrow> None | Some v \<Rightarrow> if P v then Some v else None)"
  by (induction m) (auto simp: map_of_eq_None_iff split: option.splits intro: rev_image_eqI)

lemma map_of_map_value:
  "map_of (map (\<lambda>p. (fst p, f (snd p))) m) k = map_option f (map_of m k)"
  by (induction m) auto

section \<open>Bytes of a word\<close>

text \<open>The idiom \<^verbatim>\<open>static_cast<uint8_t>(w >> n & 0xFF)\<close>.\<close>

definition byte_at :: "nat \<Rightarrow> u32 \<Rightarrow> u8" where
  "byte_at n w = ucast (drop_bit n w AND 0xFF)"

text \<open>\<^verbatim>\<open>ntohl\<close> and \<^verbatim>\<open>ntohs\<close> on the little-endian targets the eBPF objects and the daemon are
  built for: the bytes are swapped.\<close>

definition ntohl :: "u32 \<Rightarrow> u32" where
  "ntohl w = push_bit 24 (ucast (byte_at 0 w)) OR push_bit 16 (ucast (byte_at 8 w))
     OR push_bit 8 (ucast (byte_at 16 w)) OR ucast (byte_at 24 w)"

text \<open>Four consecutive bytes of memory read as a \<^verbatim>\<open>uint32_t\<close> on such a target.\<close>

definition load32 :: "u8 \<Rightarrow> u8 \<Rightarrow> u8 \<Rightarrow> u8 \<Rightarrow> u32" where
  "load32 b0 b1 b2 b3 = ucast b0 OR push_bit 8 (ucast b1) OR push_bit 16 (ucast b2)
     OR push_bit 24 (ucast b3)"

text \<open>Big-endian composition, \<^verbatim>\<open>b0 << 24 | b1 << 16 | b2 << 8 | b3\<close>.\<close>

definition be32 :: "u8 \<Rightarrow> u8 \<Rightarrow> u8 \<Rightarrow> u8 \<Rightarrow> u32" where
  "be32 b0 b1 b2 b3 = push_bit 24 (ucast b0) OR push_bit 16 (ucast b1)
     OR push_bit 8 (ucast b2) OR ucast b3"

lemma bit_byte_at: "bit (byte_at n w) i \<longleftrightarrow> i < 8 \<and> bit w (n + i)"
proof -
  have "drop_bit n w AND 0xFF = take_bit 8 (drop_bit n w)"
    by (simp add: take_bit_eq_mask mask_numeral)
  then show ?thesis
    by (auto simp: byte_at_def bit_simps dest: bit_imp_le_length)
qed

lemma byte_at_be32 [simp]:
  "byte_at 24 (be32 a b c d) = a" "byte_at 16 (be32 a b c d) = b"
  "byte_at 8 (be32 a b c d) = c" "byte_at 0 (be32 a b c d) = d"
  by (rule bit_eqI; auto simp: bit_byte_at be32_def bit_simps dest: bit_imp_le_length)+

lemma byte_at_load32 [simp]:
  "byte_at 0 (load32 a b c d) = a" "byte_at 8 (load32 a b c d) = b"
  "byte_at 16 (load32 a b c d) = c" "byte_at 24 (load32 a b c d) = d"
  by (rule bit_eqI; auto simp: bit_byte_at load32_def bit_simps dest: bit_imp_le_length)+

lemma ntohl_be32: "ntohl w = be32 (byte_at 0 w) (byte_at 8 w) (byte_at 16 w) (byte_at 24 w)"
  by (simp add: ntohl_def be32_def)

lemma load32_byte_at [simp]: "load32 (byte_at 0 w) (byte_at 8 w) (byte_at 16 w) (byte_at 24 w) = w"
proof (rule bit_word_eqI)
  fix n :: nat
  assume "n < LENGTH(32)"
  then show "bit (load32 (byte_at 0 w) (byte_at 8 w) (byte_at 16 w) (byte_at 24 w)) n = bit w n"
    by (cases "n < 8"; cases "n < 16"; cases "n < 24") (auto simp: load32_def bit_byte_at bit_simps)
qed

lemma ntohl_load32 [simp]: "ntohl (load32 a b c d) = be32 a b c d"
  by (simp add: ntohl_be32)

lemma be32_byte_at: "be32 (byte_at 24 w) (byte_at 16 w) (byte_at 8 w) (byte_at 0 w) = w"
proof (rule bit_eqI)
  fix n assume "possible_bit TYPE(u32) n"
  then have "n < 32" by simp
  then consider "n < 8" | "8 \<le> n" "n < 16" | "16 \<le> n" "n < 24" | "24 \<le> n" "n < 32" by linarith
  then show "bit (be32 (byte_at 24 w) (byte_at 16 w) (byte_at 8 w) (byte_at 0 w)) n = bit w n"
    by cases (auto simp: be32_def bit_byte_at bit_simps)
qed


lemma or_disjoint_add:
  "(x :: u32) OR y = x + y" if "\<And>i. \<not> (bit x i \<and> bit y i)"
  using that by (subst disjunctive_add_eq_or) (auto simp: bit_eq_iff bit_simps)

lemma unat_be32: "unat (be32 a b c d) = unat a * 2 ^ 24 + unat b * 2 ^ 16 + unat c * 2 ^ 8 + unat d"
  (is "_ = ?N")
proof -
  have bounds: "unat a < 256" "unat b < 256" "unat c < 256" "unat d < 256"
    using unsigned_less [of a] unsigned_less [of b] unsigned_less [of c] unsigned_less [of d] by simp_all
  have "be32 a b c d =
      push_bit 24 (ucast a) + push_bit 16 (ucast b) + push_bit 8 (ucast c) + ucast d"
    unfolding be32_def
    by (subst or_disjoint_add; (force simp: bit_simps dest: bit_imp_le_length)?)+
  also have "\<dots> = of_nat ?N"
    by (simp add: push_bit_eq_mult)
  finally have "unat (be32 a b c d) = ?N mod 2 ^ 32"
    by (simp only: unat_of_nat) (simp add: take_bit_eq_mod)
  then show ?thesis using bounds by simp
qed

section \<open>From a 64-bit counter to a double\<close>

text \<open>
  \<^verbatim>\<open>static_cast<double>(w)\<close> for a \<^verbatim>\<open>uint64_t\<close>: exact up to 53 significant bits, otherwise
  rounded to the nearest multiple of the last place, ties to even.
\<close>

definition round_half_even :: "nat \<Rightarrow> nat \<Rightarrow> nat" where
  "round_half_even n e =
     (let q = n div 2 ^ e; r = n mod 2 ^ e
      in if 2 * r > 2 ^ e \<or> (2 * r = 2 ^ e \<and> odd q) then q + 1 else q)"

definition double_of_u64 :: "u64 \<Rightarrow> real" where
  "double_of_u64 w =
     (let n = unat w; e = nat (bitlen (int n)) - 53
      in if n < 2 ^ 53 then real n else real (round_half_even n e * 2 ^ e))"

lemma double_of_u64_exact: "unat w < 2 ^ 53 \<Longrightarrow> double_of_u64 w = real (unat w)"
  by (simp add: double_of_u64_def Let_def)

lemma double_of_u64_0 [simp]: "double_of_u64 0 = 0"
  by (simp add: double_of_u64_def)

lemma round_half_even_ge: "round_half_even n e \<ge> n div 2 ^ e"
  by (simp add: round_half_even_def Let_def)

lemma double_of_u64_integral: "\<exists>n. double_of_u64 w = real n"
  unfolding double_of_u64_def Let_def by (metis (full_types))

lemma double_of_u64_pos: "w \<noteq> 0 \<Longrightarrow> 1 \<le> double_of_u64 w"
proof (cases "unat w < 2 ^ 53")
  case True
  assume "w \<noteq> 0"
  then have "unat w \<noteq> 0" by (simp add: unat_eq_0)
  then have "1 \<le> real (unat w)" by (metis One_nat_def Suc_leI neq0_conv of_nat_1 of_nat_le_iff)
  then show ?thesis by (simp only: double_of_u64_exact [OF True])
next
  case False
  define n where "n = unat w"
  define e where "e = nat (bitlen (int n)) - 53"
  have n: "0 < n" using False by (simp add: n_def)
  have "2 ^ nat (bitlen (int n) - 1) \<le> int n"
    using n bitlen_bounds [of "int n"] by simp
  moreover have "e \<le> nat (bitlen (int n) - 1)" by (simp add: e_def)
  then have "(2::int) ^ e \<le> 2 ^ nat (bitlen (int n) - 1)" by (simp add: power_increasing)
  ultimately have "(2::int) ^ e \<le> int n" by linarith
  then have "2 ^ e \<le> n" by (metis of_nat_le_iff of_nat_numeral of_nat_power)
  then have "1 \<le> n div 2 ^ e" by (simp add: Suc_leI div_greater_zero_iff)
  then have "1 \<le> round_half_even n e" using round_half_even_ge [of n e] by linarith
  then have "1 \<le> round_half_even n e * 2 ^ e" by (simp add: Suc_leI)
  then have "1 \<le> real (round_half_even n e * 2 ^ e)"
    by (metis of_nat_1 of_nat_le_iff)
  then show ?thesis
    using False by (simp add: double_of_u64_def Let_def n_def [symmetric] e_def [symmetric])
qed

lemma double_of_u64_eq_0 [simp]: "double_of_u64 w = 0 \<longleftrightarrow> w = 0"
  using double_of_u64_pos [of w] by (cases "w = 0") simp_all

section \<open>Reachable states and invariants\<close>

inductive reachable :: "('s \<Rightarrow> bool) \<Rightarrow> ('s \<Rightarrow> 's \<Rightarrow> bool) \<Rightarrow> 's \<Rightarrow> bool"
  for initial :: "'s \<Rightarrow> bool" and step :: "'s \<Rightarrow> 's \<Rightarrow> bool" where
  reach_start: "initial s \<Longrightarrow> reachable initial step s"
| reach_step: "reachable initial step s \<Longrightarrow> step s t \<Longrightarrow> reachable initial step t"

locale state_machine =
  fixes initial :: "'s \<Rightarrow> bool"
    and step :: "'s \<Rightarrow> 's \<Rightarrow> bool"
    and invar :: "'s \<Rightarrow> bool"
  assumes invar_initial: "initial s \<Longrightarrow> invar s"
    and invar_step: "invar s \<Longrightarrow> step s t \<Longrightarrow> invar t"
begin

lemma reachable_invar: "reachable initial step s \<Longrightarrow> invar s"
  by (induction rule: reachable.induct) (auto intro: invar_initial invar_step)

end

section \<open>Key-value stores\<close>

text \<open>
  The contract of a store that may refuse an insertion (the eBPF hash maps have a fixed
  capacity): an accepted update is what a later lookup returns, a refused one changes
  nothing, and a deleted key is gone.
\<close>

locale kv_store =
  fixes lookup :: "'m \<Rightarrow> 'k \<Rightarrow> 'v option"
    and update :: "'k \<Rightarrow> 'v \<Rightarrow> 'm \<Rightarrow> bool \<times> 'm"
    and delete :: "'k \<Rightarrow> 'm \<Rightarrow> bool \<times> 'm"
  assumes update_accepted: "update k v m = (True, m') \<Longrightarrow> lookup m' = (lookup m)(k \<mapsto> v)"
    and update_refused: "update k v m = (False, m') \<Longrightarrow> lookup m' = lookup m"
    and delete_lookup: "lookup (snd (delete k m)) = (lookup m)(k := None)"
begin

lemma update_dom_mono: "dom (lookup m) \<subseteq> dom (lookup (snd (update k v m)))"
  by (cases "update k v m"; cases "fst (update k v m)")
    (auto dest!: update_accepted update_refused)

lemma update_other: "k' \<noteq> k \<Longrightarrow> lookup (snd (update k v m)) k' = lookup m k'"
  by (cases "update k v m"; cases "fst (update k v m)")
    (auto dest!: update_accepted update_refused)

lemma update_cases: "lookup (snd (update k v m)) =
    (if fst (update k v m) then (lookup m)(k \<mapsto> v) else lookup m)"
  by (cases "update k v m"; cases "fst (update k v m)")
    (auto dest!: update_accepted update_refused)

end

end
