(* ===== verification/IP_Address.thy ===== *)
theory IP_Address
  imports Waechter_Prelude "HOL-Library.List_Lexorder"
begin

text \<open>
  \<^verbatim>\<open>Util/IPAddress.hpp\<close>: the address, endpoint and socket-tuple types shared by the daemon
  and the client, the classification predicates behind the default traffic filters, and
  the conversions from the kernel's address words.
\<close>

section \<open>Data\<close>

datatype EIPFamily = FamilyUnknown | IPv4 | IPv6

text \<open>\<^verbatim>\<open>EProtocol::Type\<close> is an 8-bit enum that the code also casts from raw header bytes, so
  every byte is a value of it.\<close>

type_synonym EProtocol = u8

abbreviation Proto_Unknown :: EProtocol where "Proto_Unknown \<equiv> 0"
abbreviation Proto_TCP :: EProtocol where "Proto_TCP \<equiv> 6"
abbreviation Proto_UDP :: EProtocol where "Proto_UDP \<equiv> 17"
abbreviation Proto_ICMP :: EProtocol where "Proto_ICMP \<equiv> 1"
abbreviation Proto_ESP :: EProtocol where "Proto_ESP \<equiv> 50"
abbreviation Proto_ICMPv6 :: EProtocol where "Proto_ICMPv6 \<equiv> 58"

definition EProtocol_ToString :: "EProtocol \<Rightarrow> string" where
  "EProtocol_ToString p =
     (if p = Proto_TCP then ''TCP'' else if p = Proto_UDP then ''UDP''
      else if p = Proto_ICMP then ''ICMP'' else if p = Proto_ESP then ''ESP''
      else if p = Proto_ICMPv6 then ''ICMPv6'' else ''Unknown'')"

record WIPAddress =
  Bytes :: "u8 list"
  Family :: EIPFamily

record WEndpoint =
  Address :: WIPAddress
  Port :: u16

record WSocketTuple =
  LocalEndpoint :: WEndpoint
  RemoteEndpoint :: WEndpoint
  Protocol :: EProtocol

definition WIPAddress_init :: WIPAddress where
  "WIPAddress_init = \<lparr>Bytes = replicate 16 0, Family = FamilyUnknown\<rparr>"

definition WEndpoint_init :: WEndpoint where
  "WEndpoint_init = \<lparr>Address = WIPAddress_init, Port = 0\<rparr>"

definition WSocketTuple_init :: WSocketTuple where
  "WSocketTuple_init = \<lparr>LocalEndpoint = WEndpoint_init, RemoteEndpoint = WEndpoint_init,
     Protocol = Proto_TCP\<rparr>"

text \<open>\<^verbatim>\<open>std::array<uint8_t, 16>\<close> always has sixteen elements.\<close>

definition wf_addr :: "WIPAddress \<Rightarrow> bool" where
  "wf_addr a \<longleftrightarrow> length (Bytes a) = 16"

lemma wf_addr_init [simp]: "wf_addr WIPAddress_init"
  by (simp add: wf_addr_def WIPAddress_init_def)

text \<open>\<^verbatim>\<open>operator<\<close>, \<^verbatim>\<open>operator<=\<close>: the bytes compared lexicographically. The family is not
  part of the comparison, so this is a preorder and not a partial order.\<close>

instantiation WIPAddress_ext :: (type) preorder
begin

definition less_WIPAddress_ext_def: "(a :: 'a WIPAddress_scheme) < b \<longleftrightarrow> Bytes a < Bytes b"
definition less_eq_WIPAddress_ext_def: "(a :: 'a WIPAddress_scheme) \<le> b \<longleftrightarrow> Bytes a \<le> Bytes b"

instance
  by standard (auto simp: less_WIPAddress_ext_def less_eq_WIPAddress_ext_def)

end

section \<open>Classification\<close>

definition IsLocalhost :: "WIPAddress \<Rightarrow> bool" where
  "IsLocalhost a =
     (case Family a of
        IPv4 \<Rightarrow> Bytes a ! 0 = 127
      | IPv6 \<Rightarrow> (\<forall>i<15. Bytes a ! i = 0) \<and> Bytes a ! 15 = 1
      | FamilyUnknown \<Rightarrow> False)"

definition IsZero :: "WIPAddress \<Rightarrow> bool" where
  "IsZero a =
     (case Family a of
        IPv4 \<Rightarrow> Bytes a ! 0 = 0 \<and> Bytes a ! 1 = 0 \<and> Bytes a ! 2 = 0 \<and> Bytes a ! 3 = 0
      | IPv6 \<Rightarrow> (\<forall>i<16. Bytes a ! i = 0)
      | FamilyUnknown \<Rightarrow> True)"

definition IsBroadcast :: "WIPAddress \<Rightarrow> bool" where
  "IsBroadcast a =
     (case Family a of
        IPv4 \<Rightarrow> Bytes a ! 0 = 255 \<and> Bytes a ! 1 = 255 \<and> Bytes a ! 2 = 255 \<and> Bytes a ! 3 = 255
      | _ \<Rightarrow> False)"

definition IsLANAddress :: "WIPAddress \<Rightarrow> bool" where
  "IsLANAddress a =
     (case Family a of
        IPv4 \<Rightarrow>
          (let B0 = Bytes a ! 0; B1 = Bytes a ! 1 in
           if B0 = 10 then True
           else if B0 = 172 \<and> B1 AND 0xF0 = 16 then True
           else if B0 = 192 \<and> B1 = 168 then True
           else False)
      | IPv6 \<Rightarrow> Bytes a ! 0 AND 0xFE = 0xFC
      | FamilyUnknown \<Rightarrow> False)"

definition IsInternetAddress :: "WIPAddress \<Rightarrow> bool" where
  "IsInternetAddress a =
     (case Family a of
        IPv4 \<Rightarrow>
          (let B0 = Bytes a ! 0; B1 = Bytes a ! 1 in
           if B0 = 0 then False
           else if B0 = 10 then False
           else if B0 = 100 \<and> B1 AND 0xC0 = 64 then False
           else if B0 = 127 then False
           else if B0 = 169 \<and> B1 = 254 then False
           else if B0 = 172 \<and> B1 AND 0xF0 = 16 then False
           else if B0 = 192 \<and> B1 = 168 then False
           else if B0 AND 0xF0 = 224 then False
           else if B0 AND 0xF0 = 240 then False
           else True)
      | IPv6 \<Rightarrow>
          (if IsZero a then False
           else if IsLocalhost a then False
           else if Bytes a ! 0 = 0xFF then False
           else if Bytes a ! 0 AND 0xFE = 0xFC then False
           else if Bytes a ! 0 = 0xFE \<and> Bytes a ! 1 AND 0xC0 = 0x80 then False
           else True)
      | FamilyUnknown \<Rightarrow> False)"

definition GetBytes :: "WIPAddress \<Rightarrow> u8 list" where
  "GetBytes a = (case Family a of IPv4 \<Rightarrow> take 4 (Bytes a) | IPv6 \<Rightarrow> take 16 (Bytes a)
     | FamilyUnknown \<Rightarrow> [])"

section \<open>Conversions\<close>

text \<open>\<^verbatim>\<open>ToInt\<close> asserts that the family is IPv4; the theorems that use it assume so.\<close>

definition ToInt :: "WIPAddress \<Rightarrow> u32" where
  "ToInt a = be32 (Bytes a ! 0) (Bytes a ! 1) (Bytes a ! 2) (Bytes a ! 3)"

definition FromIPv4Uint32 :: "u32 \<Rightarrow> WIPAddress \<Rightarrow> WIPAddress" where
  "FromIPv4Uint32 netorder a =
     (let hostorder = ntohl netorder in
      a\<lparr>Bytes := (Bytes a)[0 := byte_at 24 hostorder, 1 := byte_at 16 hostorder,
          2 := byte_at 8 hostorder, 3 := byte_at 0 hostorder],
        Family := IPv4\<rparr>)"

text \<open>The loop writes the four bytes of each word, most significant first, with no
  \<^verbatim>\<open>ntohl\<close>. All sixteen bytes are overwritten.\<close>

definition word_bytes :: "u32 \<Rightarrow> u8 list" where
  "word_bytes w = [byte_at 24 w, byte_at 16 w, byte_at 8 w, byte_at 0 w]"

definition FromIPv6Array :: "u32 list \<Rightarrow> WIPAddress \<Rightarrow> WIPAddress" where
  "FromIPv6Array ws a = a\<lparr>Bytes := concat (map word_bytes (take 4 ws)), Family := IPv6\<rparr>"

text \<open>\<^verbatim>\<open>inet_pton\<close> is the C library's: a parameter that gives the bytes of the parsed
  address in memory order, \<open>None\<close> where the call does not return 1.\<close>

definition FromStringV4 :: "(string \<Rightarrow> u8 list option) \<Rightarrow> string \<Rightarrow> WIPAddress option" where
  "FromStringV4 pton4 s =
     (case pton4 s of None \<Rightarrow> None
      | Some bs \<Rightarrow> Some \<lparr>Bytes = (Bytes WIPAddress_init)[0 := bs ! 0, 1 := bs ! 1, 2 := bs ! 2, 3 := bs ! 3],
                        Family = IPv4\<rparr>)"

definition FromStringV6 :: "(string \<Rightarrow> u8 list option) \<Rightarrow> string \<Rightarrow> WIPAddress option" where
  "FromStringV6 pton6 s =
     (case pton6 s of None \<Rightarrow> None
      | Some bs \<Rightarrow> Some \<lparr>Bytes = map (\<lambda>i. bs ! i) [0..<16], Family = IPv6\<rparr>)"

definition FromString ::
  "(string \<Rightarrow> u8 list option) \<Rightarrow> (string \<Rightarrow> u8 list option) \<Rightarrow> string \<Rightarrow> WIPAddress option" where
  "FromString pton4 pton6 s =
     (if CHR ''.'' \<in> set s \<and> CHR '':'' \<notin> set s then FromStringV4 pton4 s else FromStringV6 pton6 s)"

section \<open>Prefixes\<close>

text \<open>The reference notion: \<open>x\<close> agrees with \<open>base\<close> in its \<open>len\<close> leading bits.\<close>

definition in_cidr :: "u32 \<Rightarrow> nat \<Rightarrow> u32 \<Rightarrow> bool" where
  "in_cidr base len x \<longleftrightarrow> unat x div 2 ^ (32 - len) = unat base div 2 ^ (32 - len)"

definition excluded_v4 :: "(u32 \<times> nat) list" where
  "excluded_v4 =
     [(be32 0 0 0 0, 8), (be32 10 0 0 0, 8), (be32 100 64 0 0, 10), (be32 127 0 0 0, 8),
      (be32 169 254 0 0, 16), (be32 172 16 0 0, 12), (be32 192 168 0 0, 16),
      (be32 224 0 0 0, 4), (be32 240 0 0 0, 4), (be32 255 255 255 255, 32)]"

lemma unat_u8_less: "unat (b :: u8) < 256"
  using unsigned_less [of b] by simp

lemma high_bits_u8:
  assumes "(m :: u8) = push_bit n (mask (8 - n))" and "n \<le> 8"
  shows "unat (x AND m) = 2 ^ n * (unat x div 2 ^ n)"
proof -
  have "x AND m = push_bit n (drop_bit n x)"
    using assms by (intro bit_eqI) (auto simp: bit_simps dest: bit_imp_le_length)
  moreover have "unat (push_bit n (drop_bit n x)) = 2 ^ n * (unat x div 2 ^ n)"
  proof -
    have "2 ^ n * (unat x div 2 ^ n) < 2 ^ 8"
      using le_less_trans [OF times_div_less_eq_dividend unat_u8_less] by simp
    then show ?thesis
      unfolding unsigned_push_bit_eq unsigned_drop_bit_eq
      using unat_u8_less [of x] by (simp add: push_bit_eq_mult drop_bit_eq_div take_bit_eq_mod mult.commute)
  qed
  ultimately show ?thesis by simp
qed

lemma and_masks_u8:
  "(x :: u8) AND 0xF0 = 16 \<longleftrightarrow> unat x div 16 = 1"
  "(x :: u8) AND 0xF0 = 224 \<longleftrightarrow> unat x div 16 = 14"
  "(x :: u8) AND 0xF0 = 240 \<longleftrightarrow> unat x div 16 = 15"
  "(x :: u8) AND 0xC0 = 64 \<longleftrightarrow> unat x div 64 = 1"
  "(x :: u8) AND 0xC0 = 0x80 \<longleftrightarrow> unat x div 64 = 2"
  "(x :: u8) AND 0xFE = 0xFC \<longleftrightarrow> unat x div 2 = 126"
  using high_bits_u8 [of "0xF0" 4 x] high_bits_u8 [of "0xC0" 6 x] high_bits_u8 [of "0xFE" 1 x]
  by (simp_all add: word_unat_eq_iff mask_eq_exp_minus_1)

lemma digits_div:
  fixes a b r :: nat
  assumes b: "b < 256" and r: "r < 2 ^ 16"
  shows "(a * 2 ^ 24 + b * 2 ^ 16 + r) div 2 ^ 24 = a"
    and "(a * 2 ^ 24 + b * 2 ^ 16 + r) div 2 ^ 16 = a * 256 + b"
    and "(a * 2 ^ 24 + b * 2 ^ 16 + r) div 2 ^ 20 = a * 16 + b div 16"
    and "(a * 2 ^ 24 + b * 2 ^ 16 + r) div 2 ^ 22 = a * 4 + b div 64"
    and "(a * 2 ^ 24 + b * 2 ^ 16 + r) div 2 ^ 28 = a div 16"
proof -
  have "a * 2 ^ 24 + b * 2 ^ 16 + r = (a * 256 + b) * 2 ^ 16 + r" by simp
  then have *: "(a * 2 ^ 24 + b * 2 ^ 16 + r) div 2 ^ 16 = a * 256 + b"
    using r by (simp only: div_mult_self3) simp
  then show "(a * 2 ^ 24 + b * 2 ^ 16 + r) div 2 ^ 16 = a * 256 + b" .
  have split: "(a * 2 ^ 24 + b * 2 ^ 16 + r) div 2 ^ (16 + k) = (a * 256 + b) div 2 ^ k" for k
    by (simp only: power_add div_mult2_eq *)
  show "(a * 2 ^ 24 + b * 2 ^ 16 + r) div 2 ^ 24 = a" using split [of 8] b by simp
  show "(a * 2 ^ 24 + b * 2 ^ 16 + r) div 2 ^ 20 = a * 16 + b div 16"
    using split [of 4] by simp
  show "(a * 2 ^ 24 + b * 2 ^ 16 + r) div 2 ^ 22 = a * 4 + b div 64"
    using split [of 6] by simp
  have "(a * 256 + b) div 4096 = (a * 256 + b) div 256 div 16" by (simp add: div_mult2_eq [symmetric])
  also have "\<dots> = a div 16" using b by simp
  finally show "(a * 2 ^ 24 + b * 2 ^ 16 + r) div 2 ^ 28 = a div 16"
    using split [of 12] by simp
qed

lemma be32_div:
  "unat (be32 a b c d) div 2 ^ 24 = unat a"
  "unat (be32 a b c d) div 2 ^ 16 = unat a * 256 + unat b"
  "unat (be32 a b c d) div 2 ^ 20 = unat a * 16 + unat b div 16"
  "unat (be32 a b c d) div 2 ^ 22 = unat a * 4 + unat b div 64"
  "unat (be32 a b c d) div 2 ^ 28 = unat a div 16"
proof -
  have r: "unat c * 2 ^ 8 + unat d < 2 ^ 16"
    using unat_u8_less [of c] unat_u8_less [of d] by simp
  note * = digits_div [OF unat_u8_less [of b] r, of "unat a", simplified add.assoc [symmetric]]
  show "unat (be32 a b c d) div 2 ^ 24 = unat a"
    "unat (be32 a b c d) div 2 ^ 16 = unat a * 256 + unat b"
    "unat (be32 a b c d) div 2 ^ 20 = unat a * 16 + unat b div 16"
    "unat (be32 a b c d) div 2 ^ 22 = unat a * 4 + unat b div 64"
    "unat (be32 a b c d) div 2 ^ 28 = unat a div 16"
    unfolding unat_be32 by (rule *)+
qed


section \<open>Properties\<close>

lemmas be32_div_num = be32_div [simplified]

lemma digit_pair:
  fixes a b p q n :: nat
  assumes "b < n" and "q < n"
  shows "a * n + b = p * n + q \<longleftrightarrow> a = p \<and> b = q"
proof
  assume "a * n + b = p * n + q"
  then have "(a * n + b) div n = (p * n + q) div n" "(a * n + b) mod n = (p * n + q) mod n" by simp_all
  then show "a = p \<and> b = q" using assms by simp
qed simp

lemma cidr_tests:
  "in_cidr (be32 p q r s) 8 (be32 a b c d) \<longleftrightarrow> a = p"
  "in_cidr (be32 p q r s) 16 (be32 a b c d) \<longleftrightarrow> a = p \<and> b = q"
  "in_cidr (be32 p q r s) 12 (be32 a b c d) \<longleftrightarrow> a = p \<and> unat b div 16 = unat q div 16"
  "in_cidr (be32 p q r s) 10 (be32 a b c d) \<longleftrightarrow> a = p \<and> unat b div 64 = unat q div 64"
  "in_cidr (be32 p q r s) 4 (be32 a b c d) \<longleftrightarrow> unat a div 16 = unat p div 16"
  "in_cidr (be32 p q r s) 32 (be32 a b c d) \<longleftrightarrow> be32 a b c d = be32 p q r s"
proof -
  have "unat b < 256" "unat q < 256" "unat b div 16 < 16" "unat q div 16 < 16"
    "unat b div 64 < 4" "unat q div 64 < 4"
    using unat_u8_less [of b] unat_u8_less [of q] by (simp_all add: less_mult_imp_div_less)
  then show "in_cidr (be32 p q r s) 8 (be32 a b c d) \<longleftrightarrow> a = p"
    "in_cidr (be32 p q r s) 16 (be32 a b c d) \<longleftrightarrow> a = p \<and> b = q"
    "in_cidr (be32 p q r s) 12 (be32 a b c d) \<longleftrightarrow> a = p \<and> unat b div 16 = unat q div 16"
    "in_cidr (be32 p q r s) 10 (be32 a b c d) \<longleftrightarrow> a = p \<and> unat b div 64 = unat q div 64"
    "in_cidr (be32 p q r s) 4 (be32 a b c d) \<longleftrightarrow> unat a div 16 = unat p div 16"
    "in_cidr (be32 p q r s) 32 (be32 a b c d) \<longleftrightarrow> be32 a b c d = be32 p q r s"
    unfolding in_cidr_def word_unat_eq_iff by (simp_all add: be32_div_num digit_pair)
qed

lemma be32_all_ones: "be32 a b c d = be32 255 255 255 255 \<Longrightarrow> a = 255"
  by (metis byte_at_be32(1))

text \<open>
  \<^verbatim>\<open>IsInternetAddress\<close> on an IPv4 address is exactly "in none of the ranges its comment
  lists": 0.0.0.0/8, 10.0.0.0/8, 100.64.0.0/10, 127.0.0.0/8, 169.254.0.0/16, 172.16.0.0/12,
  192.168.0.0/16, 224.0.0.0/4, 240.0.0.0/4 and 255.255.255.255/32, with membership in a
  range defined by the leading bits of the 32-bit address.
\<close>

theorem IsInternetAddress_v4_iff_cidr:
  assumes "Family a = IPv4"
  shows "IsInternetAddress a \<longleftrightarrow> \<not> list_ex (\<lambda>(base, len). in_cidr base len (ToInt a)) excluded_v4"
  using assms be32_all_ones [of "Bytes a ! 0" "Bytes a ! 1" "Bytes a ! 2" "Bytes a ! 3"]
  by (auto simp: IsInternetAddress_def excluded_v4_def Let_def ToInt_def cidr_tests and_masks_u8)

theorem IsInternetAddress_v4_iff_cidr_witness:
  "IsInternetAddress (WIPAddress_init\<lparr>Bytes := [100, 128, 0, 1] @ replicate 12 0, Family := IPv4\<rparr>)
   \<and> \<not> list_ex (\<lambda>(base, len). in_cidr base len
       (ToInt (WIPAddress_init\<lparr>Bytes := [100, 128, 0, 1] @ replicate 12 0, Family := IPv4\<rparr>))) excluded_v4"
proof -
  let ?a = "WIPAddress_init\<lparr>Bytes := [100, 128, 0, 1] @ replicate 12 0, Family := IPv4\<rparr>"
  have fam: "Family ?a = IPv4" by simp
  have "IsInternetAddress ?a" by (simp add: IsInternetAddress_def Let_def)
  then show ?thesis using IsInternetAddress_v4_iff_cidr [OF fam] by simp
qed

text \<open>
  The three default filters ("Internet", "LAN", "Localhost") never count the same
  address twice: no address is classified by two of the predicates.
\<close>

theorem default_filter_classes_disjoint:
  "\<not> (IsInternetAddress a \<and> IsLANAddress a) \<and> \<not> (IsInternetAddress a \<and> IsLocalhost a)
   \<and> \<not> (IsLANAddress a \<and> IsLocalhost a)"
  by (cases "Family a")
    (auto simp: IsInternetAddress_def IsLANAddress_def IsLocalhost_def Let_def)

lemma length_Bytes_FromIPv4Uint32 [simp]: "length (Bytes (FromIPv4Uint32 w a)) = length (Bytes a)"
  by (simp add: FromIPv4Uint32_def Let_def)

lemma wf_addr_FromIPv4Uint32: "wf_addr a \<Longrightarrow> wf_addr (FromIPv4Uint32 w a)"
  by (simp add: wf_addr_def)

lemma length_concat_word_bytes: "length (concat (map word_bytes ws)) = 4 * length ws"
  by (induction ws) (simp_all add: word_bytes_def)

lemma wf_addr_FromIPv6Array: "length ws = 4 \<Longrightarrow> wf_addr (FromIPv6Array ws a)"
  by (simp add: wf_addr_def FromIPv6Array_def length_concat_word_bytes)

lemma take4_update4:
  "length xs = 16 \<Longrightarrow> take 4 (xs[0 := a, Suc 0 := b, 2 := c, 3 := d]) = [a, b, c, d]"
  by (rule nth_equalityI) (auto simp: nth_list_update less_Suc_eq numeral_eq_Suc)

text \<open>
  An IPv4 address word the kernel reports (the four address bytes in memory order, read
  as a 32-bit integer) becomes the address with exactly those bytes, and its integer value
  is their big-endian composition.
\<close>

theorem FromIPv4Uint32_kernel_bytes:
  assumes "wf_addr x"
  shows "GetBytes (FromIPv4Uint32 (load32 a b c d) x) = [a, b, c, d]
    \<and> ToInt (FromIPv4Uint32 (load32 a b c d) x) = be32 a b c d
    \<and> wf_addr (FromIPv4Uint32 (load32 a b c d) x)"
  using assms by (simp add: wf_addr_def FromIPv4Uint32_def GetBytes_def ToInt_def Let_def take4_update4)

theorem FromIPv4Uint32_kernel_bytes_witness:
  "GetBytes (FromIPv4Uint32 (load32 192 168 0 1) WIPAddress_init) = [192, 168, 0, 1]"
  using FromIPv4Uint32_kernel_bytes [OF wf_addr_init, of 192 168 0 1] by simp

text \<open>
  \<^verbatim>\<open>FromIPv6Array\<close> does not undo the network byte order: when the four words hold the
  address bytes in memory order (as \<^verbatim>\<open>u6_addr32\<close> and \<^verbatim>\<open>user_ip6\<close> do), the bytes of every
  32-bit group come out reversed. So the conversion is the identity on the address only
  when each group is a palindrome.
\<close>

theorem FromIPv6Array_reverses_groups:
  "GetBytes (FromIPv6Array [load32 a0 a1 a2 a3, load32 b0 b1 b2 b3, load32 c0 c1 c2 c3, load32 d0 d1 d2 d3] x) =
     [a3, a2, a1, a0, b3, b2, b1, b0, c3, c2, c1, c0, d3, d2, d1, d0]
   \<and> (GetBytes (FromIPv6Array [load32 a0 a1 a2 a3, load32 b0 b1 b2 b3, load32 c0 c1 c2 c3, load32 d0 d1 d2 d3] x) =
       [a0, a1, a2, a3, b0, b1, b2, b3, c0, c1, c2, c3, d0, d1, d2, d3]
      \<longleftrightarrow> a3 = a0 \<and> a2 = a1 \<and> b3 = b0 \<and> b2 = b1 \<and> c3 = c0 \<and> c2 = c1 \<and> d3 = d0 \<and> d2 = d1)"
  by (auto simp: FromIPv6Array_def GetBytes_def word_bytes_def)

end
