(* ===== verification/Packet_Parser.thy ===== *)
theory Packet_Parser
  imports IP_Address "HOL-Library.Monad_Syntax"
begin

text \<open>
  \<^verbatim>\<open>Daemon/Net/PacketParser.cpp\<close>: the parser that turns the first bytes of a captured packet
  into protocol and endpoints. A read of the packet buffer is checked: \<open>None\<close> is an
  out-of-range read (undefined behaviour in the source), \<open>Some (ok, Out)\<close> a return with the
  parser's result and its output object.
\<close>

section \<open>Model\<close>

record WPacketHeaderParser =
  L4Proto :: EProtocol
  Src :: WEndpoint
  Dst :: WEndpoint

definition WPacketHeaderParser_init :: WPacketHeaderParser where
  "WPacketHeaderParser_init = \<lparr>L4Proto = 0, Src = WEndpoint_init, Dst = WEndpoint_init\<rparr>"

text \<open>\<^verbatim>\<open>Buffer[i]\<close>, and a run of reads as the copy loops make them.\<close>

definition rd :: "u8 list \<Rightarrow> nat \<Rightarrow> u8 option" where
  "rd Buffer i = (if i < length Buffer then Some (Buffer ! i) else None)"

fun rd_n :: "u8 list \<Rightarrow> nat \<Rightarrow> nat \<Rightarrow> u8 list option" where
  "rd_n Buffer i 0 = Some []"
| "rd_n Buffer i (Suc n) = do { b \<leftarrow> rd Buffer i; bs \<leftarrow> rd_n Buffer (Suc i) n; Some (b # bs) }"

definition Read16 :: "u8 list \<Rightarrow> nat \<Rightarrow> u16 option" where
  "Read16 Buffer i = do { hi \<leftarrow> rd Buffer i; lo \<leftarrow> rd Buffer (i + 1);
     Some (push_bit 8 (ucast hi) OR ucast lo) }"

text \<open>The copy loop writes the first \<open>length bs\<close> bytes of the address array.\<close>

definition write_addr :: "u8 list \<Rightarrow> WEndpoint \<Rightarrow> WEndpoint" where
  "write_addr bs e = e\<lparr>Address := (Address e)\<lparr>Bytes := bs @ drop (length bs) (Bytes (Address e))\<rparr>\<rparr>"

definition set_family :: "EIPFamily \<Rightarrow> WEndpoint \<Rightarrow> WEndpoint" where
  "set_family f e = e\<lparr>Address := (Address e)\<lparr>Family := f\<rparr>\<rparr>"

definition ParseIPv4 ::
  "u8 list \<Rightarrow> nat \<Rightarrow> WPacketHeaderParser \<Rightarrow> (bool \<times> WPacketHeaderParser \<times> nat) option" where
  "ParseIPv4 Buffer Length Out =
     (if Length < 20 then Some (False, Out, 0)
      else do {
        Vihl \<leftarrow> rd Buffer 0;
        if drop_bit 4 Vihl \<noteq> 4 then Some (False, Out, 0)
        else do {
          let Ihl = (Vihl AND 0x0F) * 4;
          if Ihl < 20 \<or> Length < unat Ihl then Some (False, Out, 0)
          else do {
            proto \<leftarrow> rd Buffer 9;
            src \<leftarrow> rd_n Buffer 12 4;
            dst \<leftarrow> rd_n Buffer 16 4;
            Some (True,
              Out\<lparr>L4Proto := proto,
                  Src := write_addr src (set_family IPv4 (Src Out)),
                  Dst := write_addr dst (set_family IPv4 (Dst Out))\<rparr>,
              unat Ihl)
          }
        }
      })"

definition IsIPv6ExtensionHeader :: "u8 \<Rightarrow> bool" where
  "IsIPv6ExtensionHeader h \<longleftrightarrow> h \<in> {0, 43, 44, 50, 51, 60, 135, 139, 140, 59}"

text \<open>
  The extension-header loop. It ends at the first header that is not an extension
  (\<open>Inr\<close> with its offset) or fails (\<open>Inl\<close> with the protocol the failing branch stores, if
  any). Every continuing branch advances the offset by at least eight bytes within the
  buffer, which is the termination argument.
\<close>

function ipv6_ext_loop :: "u8 list \<Rightarrow> nat \<Rightarrow> u8 \<Rightarrow> nat \<Rightarrow> (EProtocol option + nat) option" where
  "ipv6_ext_loop Buffer Length Next Offset =
     (if \<not> IsIPv6ExtensionHeader Next then Some (Inr Offset)
      else if Next = 59 then Some (Inl (Some Proto_Unknown))
      else if Next = 44 then
        (if Length < Offset + 8 then Some (Inl None)
         else Option.bind (rd Buffer Offset) (\<lambda>n. ipv6_ext_loop Buffer Length n (Offset + 8)))
      else if Next = 51 then
        (if Length < Offset + 2 then Some (Inl None)
         else Option.bind (rd Buffer (Offset + 1)) (\<lambda>HdrLenWords.
           let HdrLen = (unat HdrLenWords + 2) * 4 in
           if Length < Offset + HdrLen then Some (Inl None)
           else Option.bind (rd Buffer Offset) (\<lambda>n. ipv6_ext_loop Buffer Length n (Offset + HdrLen))))
      else if Next = 50 then Some (Inl (Some Proto_ESP))
      else if Length < Offset + 2 then Some (Inl None)
      else Option.bind (rd Buffer (Offset + 1)) (\<lambda>HdrExtLen.
        let HdrLen = (unat HdrExtLen + 1) * 8 in
        if Length < Offset + HdrLen then Some (Inl None)
        else Option.bind (rd Buffer Offset) (\<lambda>n. ipv6_ext_loop Buffer Length n (Offset + HdrLen))))"
  by pat_completeness auto
termination
  by (relation "measure (\<lambda>(Buffer, Length, Next, Offset). Length - Offset)") auto

declare ipv6_ext_loop.simps [simp del]

definition ParseIPv6 ::
  "u8 list \<Rightarrow> nat \<Rightarrow> WPacketHeaderParser \<Rightarrow> (bool \<times> WPacketHeaderParser \<times> nat) option" where
  "ParseIPv6 Buffer Length Out =
     (if Length < 40 then Some (False, Out, 0)
      else do {
        b0 \<leftarrow> rd Buffer 0;
        if drop_bit 4 b0 \<noteq> 6 then Some (False, Out, 0)
        else do {
          src \<leftarrow> rd_n Buffer 8 16;
          dst \<leftarrow> rd_n Buffer 24 16;
          let Out1 = Out\<lparr>Src := write_addr src (set_family IPv6 (Src Out)),
                        Dst := write_addr dst (set_family IPv6 (Dst Out))\<rparr>;
          nxt \<leftarrow> rd Buffer 6;
          r \<leftarrow> ipv6_ext_loop Buffer Length nxt 40;
          (case r of
             Inl None \<Rightarrow> Some (False, Out1, 0)
           | Inl (Some p) \<Rightarrow> Some (False, Out1\<lparr>L4Proto := p\<rparr>, 0)
           | Inr Offset \<Rightarrow> Some (True, Out1\<lparr>L4Proto := Proto_Unknown\<rparr>, Offset))
        }
      })"

definition ParseL4 ::
  "u8 list \<Rightarrow> nat \<Rightarrow> WPacketHeaderParser \<Rightarrow> nat \<Rightarrow> (bool \<times> WPacketHeaderParser) option" where
  "ParseL4 Buffer Length Out L4Offset =
     (if L4Proto Out = Proto_TCP then
        (if Length < L4Offset + 20 then Some (False, Out)
         else do {
           sp \<leftarrow> Read16 Buffer L4Offset;
           dp \<leftarrow> Read16 Buffer (L4Offset + 2);
           let Out1 = Out\<lparr>Src := (Src Out)\<lparr>Port := sp\<rparr>, Dst := (Dst Out)\<lparr>Port := dp\<rparr>\<rparr>;
           b \<leftarrow> rd Buffer (L4Offset + 12);
           let DataOffset = drop_bit 4 b * 4;
           if DataOffset < 20 \<or> Length < L4Offset + unat DataOffset then Some (False, Out1)
           else Some (True, Out1)
         })
      else if L4Proto Out = Proto_UDP then
        (if Length < L4Offset + 8 then Some (False, Out)
         else do {
           sp \<leftarrow> Read16 Buffer L4Offset;
           dp \<leftarrow> Read16 Buffer (L4Offset + 2);
           Some (True, Out\<lparr>Src := (Src Out)\<lparr>Port := sp\<rparr>, Dst := (Dst Out)\<lparr>Port := dp\<rparr>\<rparr>)
         })
      else Some (True, Out))"

text \<open>\<^verbatim>\<open>ParsePacketL3\<close>; \<^verbatim>\<open>WPacketHeaderParser::ParsePacket\<close> and \<^verbatim>\<open>ParsePacketHeader\<close> forward to
  it. The output object is reset first, so the old one does not matter.\<close>

definition ParsePacketL3 :: "u8 list \<Rightarrow> nat \<Rightarrow> (bool \<times> WPacketHeaderParser) option" where
  "ParsePacketL3 Data Length =
     (let Out = WPacketHeaderParser_init in
      if Length = 0 then Some (False, Out)
      else do {
        b0 \<leftarrow> rd Data 0;
        (if drop_bit 4 b0 = 4 then do {
           (ok, Out1, off) \<leftarrow> ParseIPv4 Data Length Out;
           if \<not> ok then Some (False, Out1) else ParseL4 Data Length Out1 off }
         else if drop_bit 4 b0 = 6 then do {
           (ok, Out1, off) \<leftarrow> ParseIPv6 Data Length Out;
           if \<not> ok then Some (False, Out1) else ParseL4 Data Length Out1 off }
         else Some (False, Out))
      })"

definition ParsePacket :: "u8 list \<Rightarrow> nat \<Rightarrow> (bool \<times> WPacketHeaderParser) option" where
  "ParsePacket Data Length = ParsePacketL3 Data Length"

section \<open>Reads\<close>

lemma rd_Some [simp]: "i < length Buffer \<Longrightarrow> rd Buffer i = Some (Buffer ! i)"
  by (simp add: rd_def)

lemma rd_n_Some: "i + n \<le> length Buffer \<Longrightarrow> rd_n Buffer i n = Some (take n (drop i Buffer))"
  by (induction Buffer i n rule: rd_n.induct)
    (simp_all add: take_Suc_conv_app_nth Cons_nth_drop_Suc [symmetric])

lemma Read16_Some:
  "i + 1 < length Buffer \<Longrightarrow>
     Read16 Buffer i = Some (push_bit 8 (ucast (Buffer ! i)) OR ucast (Buffer ! (i + 1)))"
  by (simp add: Read16_def)

text \<open>Every branch of the parser checks the length before it reads, so on a buffer that
  holds \<open>Length\<close> bytes no read is out of range.\<close>

lemma ipv6_ext_loop_safe:
  "Length \<le> length Buffer \<Longrightarrow> \<exists>r. ipv6_ext_loop Buffer Length Next Offset = Some r"
proof (induction Buffer Length Next Offset rule: ipv6_ext_loop.induct)
  case (1 Buffer Length Next Offset)
  show ?case
    by (subst ipv6_ext_loop.simps) (use "1" in \<open>auto simp: Let_def\<close>)
qed

lemma ParseIPv4_safe:
  "Length \<le> length Buffer \<Longrightarrow> \<exists>r. ParseIPv4 Buffer Length Out = Some r"
  by (cases "Buffer = []") (auto simp: ParseIPv4_def Let_def rd_n_Some)

lemma ParseIPv6_safe:
  "Length \<le> length Buffer \<Longrightarrow> \<exists>r. ParseIPv6 Buffer Length Out = Some r"
  using ipv6_ext_loop_safe [of Length Buffer "Buffer ! 6" 40]
  by (cases "Buffer = []")
    (auto simp: ParseIPv6_def Let_def rd_n_Some split: sum.splits option.splits)

lemma ParseL4_safe:
  "Length \<le> length Buffer \<Longrightarrow> \<exists>r. ParseL4 Buffer Length Out off = Some r"
  by (auto simp: ParseL4_def Let_def Read16_Some)

text \<open>
  C11. The packet parser never reads outside the packet: whenever the buffer really holds
  \<open>Length\<close> bytes, parsing returns (it neither runs past the buffer nor loops on extension
  headers).
\<close>

theorem ParsePacket_memory_safe:
  assumes "Length \<le> length Data"
  shows "\<exists>ok Out. ParsePacket Data Length = Some (ok, Out)"
proof -
  obtain r4 r6 where r: "ParseIPv4 Data Length WPacketHeaderParser_init = Some r4"
    "ParseIPv6 Data Length WPacketHeaderParser_init = Some r6"
    using assms ParseIPv4_safe ParseIPv6_safe by blast
  have "\<exists>x. ParseL4 Data Length Out off = Some x" for Out off
    using assms by (rule ParseL4_safe)
  then show ?thesis
    using r assms
    by (cases "Data = []"; cases r4; cases r6) (auto simp: ParsePacket_def ParsePacketL3_def Let_def)
qed

theorem ParsePacket_memory_safe_witness:
  "\<exists>ok Out. ParsePacket [0x60, 0, 0] 3 = Some (ok, Out)"
  using ParsePacket_memory_safe [of 3 "[0x60, 0, 0]"] by simp

section \<open>Well-formed packets\<close>

text \<open>
  The wire format the parser should accept: an IPv4 header with \<open>k\<close> option words, the
  eight bytes between the first byte and the protocol, the checksum, the two addresses,
  the options and the transport segment.
\<close>

definition ipv4_packet ::
  "nat \<Rightarrow> u8 list \<Rightarrow> EProtocol \<Rightarrow> u8 list \<Rightarrow> u8 list \<Rightarrow> u8 list \<Rightarrow> u8 list \<Rightarrow> u8 list \<Rightarrow> u8 list" where
  "ipv4_packet k mid proto csum src dst options l4 =
     (0x40 OR of_nat (5 + k)) # mid @ proto # csum @ src @ dst @ options @ l4"

definition ipv4_fields_ok :: "nat \<Rightarrow> u8 list \<Rightarrow> u8 list \<Rightarrow> u8 list \<Rightarrow> u8 list \<Rightarrow> u8 list \<Rightarrow> bool" where
  "ipv4_fields_ok k mid csum src dst options \<longleftrightarrow>
     k \<le> 10 \<and> length mid = 8 \<and> length csum = 2 \<and> length src = 4 \<and> length dst = 4
     \<and> length options = 4 * k"

text \<open>A complete transport header: for TCP the data offset is at least five words and inside
  the segment, for UDP eight bytes.\<close>

definition l4_complete :: "EProtocol \<Rightarrow> u8 list \<Rightarrow> bool" where
  "l4_complete proto l4 \<longleftrightarrow>
     (if proto = Proto_TCP then 20 \<le> length l4 \<and> 5 \<le> unat (l4 ! 12) div 16
        \<and> 4 * (unat (l4 ! 12) div 16) \<le> length l4
      else if proto = Proto_UDP then 8 \<le> length l4 else True)"

definition l4_port :: "EProtocol \<Rightarrow> u8 list \<Rightarrow> nat \<Rightarrow> u16" where
  "l4_port proto l4 i =
     (if proto = Proto_TCP \<or> proto = Proto_UDP
      then push_bit 8 (ucast (l4 ! i)) OR ucast (l4 ! (i + 1)) else 0)"

definition v4_endpoint :: "u8 list \<Rightarrow> u16 \<Rightarrow> WEndpoint" where
  "v4_endpoint bs p = \<lparr>Address = \<lparr>Bytes = bs @ replicate 12 0, Family = IPv4\<rparr>, Port = p\<rparr>"

lemma vihl_fields:
  assumes "k \<le> 10"
  shows "drop_bit 4 (0x40 OR of_nat (5 + k) :: u8) = 4"
    and "((0x40 OR of_nat (5 + k) :: u8) AND 0x0F) * 4 = of_nat (20 + 4 * k)"
proof -
  have "k \<in> set [0..<11]" using assms by auto
  then show "drop_bit 4 (0x40 OR of_nat (5 + k) :: u8) = 4"
    "((0x40 OR of_nat (5 + k) :: u8) AND 0x0F) * 4 = of_nat (20 + 4 * k)"
    by (auto simp: upt_rec)
qed

lemma unat_drop_bit_4: "unat (drop_bit 4 (b :: u8)) = unat b div 16"
  unfolding unsigned_drop_bit_eq using unat_u8_less [of b] by (simp add: drop_bit_eq_div take_bit_eq_mod)

lemma data_offset_u8:
  fixes b :: u8
  shows "unat (drop_bit 4 b * 4) = 4 * (unat b div 16)"
    and "drop_bit 4 b * 4 < 20 \<longleftrightarrow> unat b div 16 < 5"
proof -
  have "unat b div 16 < 16" using unat_u8_less [of b] by simp
  then show *: "unat (drop_bit 4 b * 4) = 4 * (unat b div 16)"
    by (subst unat_word_ariths) (simp add: unat_drop_bit_4)
  then show "drop_bit 4 b * 4 < 20 \<longleftrightarrow> unat b div 16 < 5"
    by (simp add: word_less_nat_alt)
qed

lemma ParseIPv4_packet:
  assumes "ipv4_fields_ok k mid csum src dst options"
    and p: "p = ipv4_packet k mid proto csum src dst options l4"
  shows "ParseIPv4 p (length p) WPacketHeaderParser_init =
    Some (True, \<lparr>L4Proto = proto, Src = v4_endpoint src 0, Dst = v4_endpoint dst 0\<rparr>, 20 + 4 * k)"
proof -
  have len: "k \<le> 10" "length mid = 8" "length csum = 2" "length src = 4" "length dst = 4"
      "length options = 4 * k"
    using assms(1) by (auto simp: ipv4_fields_ok_def)
  have plen: "length p = 20 + 4 * k + length l4"
    using len by (simp add: p ipv4_packet_def)
  define I :: u8 where "I = of_nat (20 + 4 * k)"
  have "p ! 0 = 0x40 OR of_nat (5 + k)" by (simp add: p ipv4_packet_def)
  then have v: "drop_bit 4 (p ! 0) = 4" "(p ! 0 AND 0x0F) * 4 = I"
    using vihl_fields [OF len(1)] by (simp_all only: I_def)
  have proto: "p ! 9 = proto" using len by (simp add: p ipv4_packet_def nth_append)
  have addrs: "take 4 (drop 12 p) = src" "take 4 (drop 16 p) = dst"
    using len by (simp_all add: p ipv4_packet_def drop_Cons')
  have I: "unat I = 20 + 4 * k"
    using len(1) unfolding I_def unat_of_nat by (simp add: take_bit_eq_mod)
  then have "\<not> I < 20"
    by (simp add: word_less_nat_alt)
  then show ?thesis
    using plen
    by (simp add: ParseIPv4_def rd_n_Some addrs v proto Let_def I
        WPacketHeaderParser_init_def WEndpoint_init_def WIPAddress_init_def write_addr_def
        set_family_def v4_endpoint_def len)
qed

lemma ParseL4_segment:
  assumes "l4_complete proto l4" and "length hdr = off"
    and "L4Proto Out = proto" and "Port (Src Out) = 0" and "Port (Dst Out) = 0"
  shows "ParseL4 (hdr @ l4) (length (hdr @ l4)) Out off =
    Some (True, Out\<lparr>Src := (Src Out)\<lparr>Port := l4_port proto l4 0\<rparr>,
                   Dst := (Dst Out)\<lparr>Port := l4_port proto l4 2\<rparr>\<rparr>)"
  using assms
  by (auto simp: ParseL4_def l4_complete_def l4_port_def Read16_Some nth_append Let_def
      data_offset_u8 split: if_splits)

text \<open>
  C10. Parsing recovers what was sent: for every well-formed IPv4 packet (any options, any
  transport protocol with a complete header) the parser succeeds and returns the
  protocol, both addresses and, for TCP and UDP, both ports.
\<close>

theorem ParsePacket_ipv4_roundtrip:
  assumes "ipv4_fields_ok k mid csum src dst options" and "l4_complete proto l4"
    and "p = ipv4_packet k mid proto csum src dst options l4"
  shows "ParsePacket p (length p) =
    Some (True, \<lparr>L4Proto = proto, Src = v4_endpoint src (l4_port proto l4 0),
                 Dst = v4_endpoint dst (l4_port proto l4 2)\<rparr>)"
proof -
  let ?out = "\<lparr>L4Proto = proto, Src = v4_endpoint src 0, Dst = v4_endpoint dst 0\<rparr>"
  define hdr where "hdr = (0x40 OR of_nat (5 + k)) # mid @ proto # csum @ src @ dst @ options"
  have p: "p = hdr @ l4" and hdr: "length hdr = 20 + 4 * k" and k: "k \<le> 10"
    using assms(1,3) by (auto simp: hdr_def ipv4_packet_def ipv4_fields_ok_def)
  have "ParseL4 p (length p) ?out (20 + 4 * k) =
      Some (True, ?out\<lparr>Src := (Src ?out)\<lparr>Port := l4_port proto l4 0\<rparr>,
                       Dst := (Dst ?out)\<lparr>Port := l4_port proto l4 2\<rparr>\<rparr>)"
    unfolding p by (rule ParseL4_segment [OF assms(2) hdr]) (simp_all add: v4_endpoint_def)
  moreover have "p ! 0 = 0x40 OR of_nat (5 + k)" "p \<noteq> []"
    by (simp_all add: p hdr_def)
  ultimately show ?thesis
    using ParseIPv4_packet [OF assms(1,3)] vihl_fields(1) [OF k]
    by (simp add: ParsePacket_def ParsePacketL3_def Let_def v4_endpoint_def)
qed

theorem ParsePacket_ipv4_roundtrip_witness:
  "\<exists>p. length p = 28 \<and> ParsePacket p (length p) =
    Some (True, \<lparr>L4Proto = Proto_UDP, Src = v4_endpoint [10, 0, 0, 1] 53,
                 Dst = v4_endpoint [10, 0, 0, 2] 256\<rparr>)"
proof -
  let ?mid = "replicate 8 0" and ?l4 = "[0, 53, 1, 0, 0, 0, 0, 0] :: u8 list"
  let ?p = "ipv4_packet 0 ?mid Proto_UDP [0, 0] [10, 0, 0, 1] [10, 0, 0, 2] [] ?l4"
  have ok: "ipv4_fields_ok 0 ?mid [0, 0] [10, 0, 0, 1] [10, 0, 0, 2] []"
    by (simp add: ipv4_fields_ok_def)
  have l4: "l4_complete Proto_UDP ?l4" by (simp add: l4_complete_def)
  have "length ?p = 28" by (simp add: ipv4_packet_def)
  moreover have "l4_port Proto_UDP ?l4 0 = 53" "l4_port Proto_UDP ?l4 2 = 256"
    by (simp_all add: l4_port_def)
  ultimately show ?thesis
    using ParsePacket_ipv4_roundtrip [OF ok l4 refl] by (intro exI [of _ ?p]) simp
qed

lemma ParseIPv6_proto:
  "ParseIPv6 Buffer Length Out = Some (True, Out', off) \<Longrightarrow>
     L4Proto Out' = Proto_Unknown \<and> Port (Src Out') = Port (Src Out) \<and> Port (Dst Out') = Port (Dst Out)"
  by (auto simp: ParseIPv6_def Let_def write_addr_def set_family_def
      split: if_splits bind_splits sum.splits option.splits)

text \<open>
  For IPv6 the parser never reports a transport protocol or a port: every packet with
  version nibble 6 that parses successfully (TCP and UDP segments included) gives
  protocol \<^verbatim>\<open>Unknown\<close> and both ports 0, because \<^verbatim>\<open>ParseIPv6\<close> stores \<^verbatim>\<open>EProtocol::Unknown\<close>
  where the final next-header value is at hand.
\<close>

theorem ParsePacket_ipv6_drops_protocol:
  assumes "ParsePacket Data Length = Some (True, Out)" and "Length \<noteq> 0" and "drop_bit 4 (Data ! 0) = 6"
  shows "L4Proto Out = Proto_Unknown \<and> Port (Src Out) = 0 \<and> Port (Dst Out) = 0"
proof -
  obtain Out' off where v6: "ParseIPv6 Data Length WPacketHeaderParser_init = Some (True, Out', off)"
    and l4: "ParseL4 Data Length Out' off = Some (True, Out)"
    using assms by (auto simp: ParsePacket_def ParsePacketL3_def Let_def rd_def
        split: if_splits bind_splits)
  from ParseIPv6_proto [OF v6] have "L4Proto Out' = Proto_Unknown \<and> Port (Src Out') = 0 \<and> Port (Dst Out') = 0"
    by (simp add: WPacketHeaderParser_init_def WEndpoint_init_def)
  with l4 show ?thesis by (auto simp: ParseL4_def)
qed

text \<open>An IPv6 header followed by a UDP segment from port 53 to port 256.\<close>

definition ipv6_udp_sample :: "u8 list" where
  "ipv6_udp_sample = [0x60, 0, 0, 0, 0, 8, 17, 64] @ replicate 32 1 @ [0, 53, 1, 0, 0, 0, 0, 0]"

theorem ParsePacket_ipv6_drops_protocol_witness:
  "\<exists>Out. ParsePacket ipv6_udp_sample 48 = Some (True, Out) \<and> L4Proto Out = Proto_Unknown
     \<and> Port (Src Out) = 0 \<and> Port (Dst Out) = 0"
proof -
  have ext: "ipv6_ext_loop ipv6_udp_sample 48 17 40 = Some (Inr 40)"
    by (subst ipv6_ext_loop.simps) (simp add: IsIPv6ExtensionHeader_def)
  have len: "length ipv6_udp_sample = 48" by (simp add: ipv6_udp_sample_def)
  have b: "ipv6_udp_sample ! 0 = 0x60" "ipv6_udp_sample ! 6 = 17" "ipv6_udp_sample \<noteq> []"
    by (simp_all add: ipv6_udp_sample_def)
  obtain Out where ok: "ParsePacket ipv6_udp_sample 48 = Some (True, Out)"
    by (auto simp: ParsePacket_def ParsePacketL3_def ParseIPv6_def Let_def rd_n_Some len b ext ParseL4_def)
  moreover have "drop_bit 4 (ipv6_udp_sample ! 0) = 6" by (simp add: b)
  ultimately show ?thesis
    using ParsePacket_ipv6_drops_protocol [OF ok] by simp
qed

end
