(* ===== verification/Byte_Buffer.thy ===== *)
theory Byte_Buffer
  imports Waechter_Prelude
begin

text \<open>
  \<^verbatim>\<open>Util/Buffer.hpp\<close>: \<^verbatim>\<open>WBuffer\<close>, the growable byte queue every message passes through. Its
  contract is the locale \<open>byte_fifo\<close>: writing appends to the readable bytes, reading and
  consuming remove from their front. \<^verbatim>\<open>std::size_t\<close> values are naturals with the overflow
  checks of the source against \<open>SIZE_MAX\<close>; memory exhaustion is not modelled.
\<close>

section \<open>Model\<close>

record WBuffer =
  Data :: "u8 list"
  ReadPos :: nat
  WritePos :: nat

definition SIZE_MAX :: nat where
  "SIZE_MAX = 2 ^ 64 - 1"

definition WBuffer_init :: "nat \<Rightarrow> WBuffer" where
  "WBuffer_init Size = \<lparr>Data = replicate Size 0, ReadPos = 0, WritePos = 0\<rparr>"

text \<open>\<^verbatim>\<open>std::vector::resize\<close> and \<^verbatim>\<open>memcpy\<close> into the vector.\<close>

definition vec_resize :: "nat \<Rightarrow> u8 list \<Rightarrow> u8 list" where
  "vec_resize n xs = take n xs @ replicate (n - length xs) 0"

definition copy_at :: "nat \<Rightarrow> u8 list \<Rightarrow> u8 list \<Rightarrow> u8 list" where
  "copy_at p bs xs = take p xs @ bs @ drop (p + length bs) xs"

text \<open>The geometric growth loop. Doubling 0 would not end, so the loop is a partial function
  and that it returns is a theorem.\<close>

partial_function (option) grow_cap :: "nat \<Rightarrow> nat \<Rightarrow> nat option" where
  "grow_cap NewCap Needed =
     (if NewCap < Needed then
        (if NewCap > SIZE_MAX div 2 then Some Needed else grow_cap (NewCap * 2) Needed)
      else Some NewCap)"

definition EnsureCapacity :: "nat \<Rightarrow> WBuffer \<Rightarrow> WBuffer option" where
  "EnsureCapacity Needed b =
     (if Needed \<le> length (Data b) then Some b
      else case grow_cap (if Data b \<noteq> [] then length (Data b) else 1024) Needed of
          None \<Rightarrow> None
        | Some NewCap \<Rightarrow> Some (b\<lparr>Data := vec_resize NewCap (Data b)\<rparr>))"

definition HasDataToRead :: "WBuffer \<Rightarrow> bool" where
  "HasDataToRead b \<longleftrightarrow> ReadPos b < WritePos b"

definition GetReadableSize :: "WBuffer \<Rightarrow> nat" where
  "GetReadableSize b = WritePos b - ReadPos b"

definition GetReadableData :: "WBuffer \<Rightarrow> u8 list" where
  "GetReadableData b = take (GetReadableSize b) (drop (ReadPos b) (Data b))"

definition GetWrittenData :: "WBuffer \<Rightarrow> u8 list" where
  "GetWrittenData b = take (WritePos b) (Data b)"

definition Reset :: "WBuffer \<Rightarrow> WBuffer" where
  "Reset b = b\<lparr>ReadPos := 0, WritePos := 0\<rparr>"

definition Clear :: "WBuffer \<Rightarrow> WBuffer" where
  "Clear b = Reset (b\<lparr>Data := replicate (length (Data b)) 0\<rparr>)"

definition Consume :: "nat \<Rightarrow> WBuffer \<Rightarrow> WBuffer" where
  "Consume N b =
     (let Adv = min N (GetReadableSize b); b1 = b\<lparr>ReadPos := ReadPos b + Adv\<rparr>
      in if ReadPos b1 = WritePos b1 then Reset b1 else b1)"

definition Compact :: "WBuffer \<Rightarrow> WBuffer" where
  "Compact b =
     (if ReadPos b = 0 \<or> ReadPos b \<ge> WritePos b then b
      else let Remaining = WritePos b - ReadPos b in
        b\<lparr>Data := copy_at 0 (take Remaining (drop (ReadPos b) (Data b))) (Data b),
          ReadPos := 0, WritePos := Remaining\<rparr>)"

definition SetWritingPos :: "nat \<Rightarrow> WBuffer \<Rightarrow> WBuffer option" where
  "SetWritingPos Pos b =
     (case (if Pos > length (Data b) then EnsureCapacity Pos b else Some b) of
        None \<Rightarrow> None
      | Some b1 \<Rightarrow> Some (let b2 = b1\<lparr>WritePos := Pos\<rparr> in
          if ReadPos b2 > WritePos b2 then b2\<lparr>ReadPos := WritePos b2\<rparr> else b2))"

text \<open>\<^verbatim>\<open>Read\<close> into a span of \<open>n\<close> bytes: the bytes copied (their number is the return value)
  and the buffer after.\<close>

definition Read :: "nat \<Rightarrow> WBuffer \<Rightarrow> u8 list \<times> WBuffer" where
  "Read n b =
     (if n = 0 then ([], b)
      else let b1 = (if ReadPos b > WritePos b then b\<lparr>ReadPos := WritePos b\<rparr> else b);
               N = min n (WritePos b1 - ReadPos b1)
        in if N > 0 then (take N (drop (ReadPos b1) (Data b1)), b1\<lparr>ReadPos := ReadPos b1 + N\<rparr>)
           else ([], b1))"

definition Write :: "u8 list \<Rightarrow> WBuffer \<Rightarrow> WBuffer option" where
  "Write Buf b =
     (if Buf = [] then Some b
      else if length Buf > SIZE_MAX - WritePos b then Some b
      else case EnsureCapacity (WritePos b + length Buf) b of
          None \<Rightarrow> None
        | Some b1 \<Rightarrow> Some (b1\<lparr>Data := copy_at (WritePos b1) Buf (Data b1),
                            WritePos := WritePos b1 + length Buf\<rparr>))"

definition Resize :: "nat \<Rightarrow> WBuffer \<Rightarrow> WBuffer" where
  "Resize NewSize b =
     (let b1 = b\<lparr>Data := vec_resize NewSize (Data b)\<rparr>;
          b2 = (if WritePos b1 > NewSize then b1\<lparr>WritePos := NewSize\<rparr> else b1)
      in if ReadPos b2 > WritePos b2 then b2\<lparr>ReadPos := WritePos b2\<rparr> else b2)"

section \<open>Invariant and growth\<close>

definition buffer_inv :: "WBuffer \<Rightarrow> bool" where
  "buffer_inv b \<longleftrightarrow> ReadPos b \<le> WritePos b \<and> WritePos b \<le> length (Data b)"

lemma length_vec_resize [simp]: "length (vec_resize n xs) = n"
  by (simp add: vec_resize_def)

lemma take_vec_resize: "k \<le> length xs \<Longrightarrow> length xs \<le> n \<Longrightarrow> take k (vec_resize n xs) = take k xs"
  by (simp add: vec_resize_def)

lemma length_copy_at [simp]: "p + length bs \<le> length xs \<Longrightarrow> length (copy_at p bs xs) = length xs"
  by (simp add: copy_at_def)

lemma take_copy_at: "p \<le> length xs \<Longrightarrow> take (p + length bs) (copy_at p bs xs) = take p xs @ bs"
  by (simp add: copy_at_def)

lemma grow_cap_Some: "0 < c \<Longrightarrow> \<exists>r \<ge> n. grow_cap c n = Some r"
proof (induction "n - c" arbitrary: c rule: less_induct)
  case less
  show ?case
  proof (cases "c < n \<and> \<not> c > SIZE_MAX div 2")
    case True
    then have "n - c * 2 < n - c" using less.prems by auto
    with less.hyps [of "c * 2"] less.prems obtain r where "n \<le> r" "grow_cap (c * 2) n = Some r" by auto
    then show ?thesis using True by (subst grow_cap.simps) auto
  next
    case False
    then show ?thesis by (subst grow_cap.simps) auto
  qed
qed

lemma EnsureCapacity_Some:
  obtains b' where "EnsureCapacity n b = Some b'" "n \<le> length (Data b')"
    "length (Data b) \<le> length (Data b')" "ReadPos b' = ReadPos b" "WritePos b' = WritePos b"
    "take (length (Data b)) (Data b') = Data b"
proof (cases "n \<le> length (Data b)")
  case True
  then show ?thesis using that [of b] by (simp add: EnsureCapacity_def)
next
  case False
  have "0 < (if Data b \<noteq> [] then length (Data b) else 1024)" by simp
  then obtain r where r: "n \<le> r" "grow_cap (if Data b \<noteq> [] then length (Data b) else 1024) n = Some r"
    using grow_cap_Some by blast
  show ?thesis
    by (rule that [of "b\<lparr>Data := vec_resize r (Data b)\<rparr>"])
      (use False r in \<open>auto simp: EnsureCapacity_def vec_resize_def\<close>)
qed

lemma readable_split: "buffer_inv b \<Longrightarrow> take (WritePos b) (Data b) = take (ReadPos b) (Data b) @ GetReadableData b"
  by (simp add: GetReadableData_def GetReadableSize_def buffer_inv_def take_add [symmetric])

lemma readable_eq_drop: "buffer_inv b \<Longrightarrow> GetReadableData b = drop (ReadPos b) (take (WritePos b) (Data b))"
  by (simp add: GetReadableData_def GetReadableSize_def take_drop buffer_inv_def)

lemma length_readable: "buffer_inv b \<Longrightarrow> length (GetReadableData b) = GetReadableSize b"
  by (auto simp: GetReadableData_def GetReadableSize_def buffer_inv_def)

lemma Write_law:
  assumes "buffer_inv b" and "WritePos b + length bs \<le> SIZE_MAX"
  shows "\<exists>b'. Write bs b = Some b' \<and> buffer_inv b' \<and> GetReadableData b' = GetReadableData b @ bs"
proof (cases "bs = []")
  case True
  then show ?thesis using assms by (simp add: Write_def)
next
  case False
  obtain b1 where b1: "EnsureCapacity (WritePos b + length bs) b = Some b1"
    "WritePos b + length bs \<le> length (Data b1)" "length (Data b) \<le> length (Data b1)"
    "ReadPos b1 = ReadPos b" "WritePos b1 = WritePos b" "take (length (Data b)) (Data b1) = Data b"
    using EnsureCapacity_Some by blast
  let ?b' = "b1\<lparr>Data := copy_at (WritePos b1) bs (Data b1), WritePos := WritePos b1 + length bs\<rparr>"
  have w: "Write bs b = Some ?b'"
    using False assms(2) b1(1) by (simp add: Write_def)
  have inv: "buffer_inv ?b'"
    using assms(1) b1 by (simp add: buffer_inv_def)
  have "take (WritePos b) (Data b1) = take (WritePos b) (Data b)"
    using b1(6) assms(1) by (metis buffer_inv_def min_absorb1 take_take)
  then have "GetReadableData ?b' = GetReadableData b @ bs"
    using assms(1) b1 inv
    by (simp add: readable_eq_drop take_copy_at buffer_inv_def)
  with w inv show ?thesis by blast
qed

lemma Read_law:
  assumes inv: "buffer_inv b" and "Read n b = (xs, b')"
  shows "xs = take n (GetReadableData b) \<and> GetReadableData b' = drop n (GetReadableData b) \<and> buffer_inv b'"
proof (cases "min n (GetReadableSize b) = 0")
  case True
  then have "Read n b = ([], b)"
    using inv by (auto simp: Read_def GetReadableSize_def buffer_inv_def)
  moreover have "n = 0 \<or> GetReadableData b = []" using True by (auto simp: GetReadableData_def)
  ultimately show ?thesis using assms by auto
next
  case False
  let ?N = "min n (GetReadableSize b)"
  have "Read n b = (take ?N (drop (ReadPos b) (Data b)), b\<lparr>ReadPos := ReadPos b + ?N\<rparr>)"
    using False inv by (auto simp: Read_def Let_def GetReadableSize_def buffer_inv_def)
  moreover have "take ?N (drop (ReadPos b) (Data b)) = take n (GetReadableData b)"
    by (simp add: GetReadableData_def)
  moreover have "buffer_inv (b\<lparr>ReadPos := ReadPos b + ?N\<rparr>)"
    using inv by (auto simp: buffer_inv_def GetReadableSize_def)
  then have "GetReadableData (b\<lparr>ReadPos := ReadPos b + ?N\<rparr>) = drop ?N (GetReadableData b)"
    using inv by (simp add: readable_eq_drop add.commute)
  moreover have "drop ?N (GetReadableData b) = drop n (GetReadableData b)"
    using length_readable [OF inv] by (simp add: min_def)
  ultimately show ?thesis using assms by (auto simp: buffer_inv_def GetReadableSize_def)
qed

lemma Reset_law: "buffer_inv (Reset b) \<and> GetReadableData (Reset b) = [] \<and> WritePos (Reset b) = 0"
  by (simp add: Reset_def buffer_inv_def GetReadableData_def GetReadableSize_def)

lemma Consume_law:
  "buffer_inv b \<Longrightarrow> buffer_inv (Consume n b) \<and> GetReadableData (Consume n b) = drop n (GetReadableData b)"
  by (auto simp: Consume_def Let_def Reset_def buffer_inv_def GetReadableData_def GetReadableSize_def min_def
      take_drop add.commute)

lemma Compact_law:
  "buffer_inv b \<Longrightarrow> buffer_inv (Compact b) \<and> GetReadableData (Compact b) = GetReadableData b"
  by (auto simp: Compact_def Let_def buffer_inv_def GetReadableData_def GetReadableSize_def copy_at_def
      min_def)

lemma SetWritingPos_inv: "buffer_inv b \<Longrightarrow> \<exists>b'. SetWritingPos n b = Some b' \<and> buffer_inv b' \<and> WritePos b' = n"
  by (rule EnsureCapacity_Some [of n b]) (auto simp: SetWritingPos_def Let_def buffer_inv_def)

lemma SetWritingPos_keeps: "buffer_inv b \<Longrightarrow> SetWritingPos n b = Some b' \<Longrightarrow> buffer_inv b'"
  by (drule SetWritingPos_inv [of _ n]) auto

lemma Resize_inv: "buffer_inv b \<Longrightarrow> buffer_inv (Resize n b)"
  by (auto simp: Resize_def Let_def buffer_inv_def)

lemma Write_overflow: "bs \<noteq> [] \<Longrightarrow> SIZE_MAX < WritePos b + length bs \<Longrightarrow> Write bs b = Some b"
  by (cases bs) (auto simp: Write_def)

section \<open>The byte-queue contract\<close>

locale byte_fifo =
  fixes content :: "'b \<Rightarrow> u8 list"
    and invar :: "'b \<Rightarrow> bool"
    and room :: "'b \<Rightarrow> nat"
    and put :: "u8 list \<Rightarrow> 'b \<Rightarrow> 'b option"
    and get :: "nat \<Rightarrow> 'b \<Rightarrow> u8 list \<times> 'b"
    and clr :: "'b \<Rightarrow> 'b"
  assumes put_law: "invar b \<Longrightarrow> length bs \<le> room b \<Longrightarrow>
      \<exists>b'. put bs b = Some b' \<and> invar b' \<and> content b' = content b @ bs"
    and get_law: "invar b \<Longrightarrow> get n b = (xs, b') \<Longrightarrow>
      xs = take n (content b) \<and> content b' = drop n (content b) \<and> invar b'"
    and clr_law: "invar (clr b) \<and> content (clr b) = [] \<and> room (clr b) = SIZE_MAX"
begin

text \<open>The receive path: a buffer is reset, filled with one frame and then read.\<close>

lemma fill: "length bs \<le> SIZE_MAX \<Longrightarrow> \<exists>b'. put bs (clr b) = Some b' \<and> invar b' \<and> content b' = bs"
  using put_law [of "clr b" bs] clr_law [of b] by auto

lemma fill_get:
  assumes "put bs (clr b) = Some b'" and "length bs \<le> SIZE_MAX"
  shows "fst (get n b') = take n bs \<and> content (snd (get n b')) = drop n bs"
  using fill [OF assms(2), of b] assms(1) get_law [of b' n "fst (get n b')" "snd (get n b')"]
  by auto

end

interpretation wb: byte_fifo GetReadableData buffer_inv "\<lambda>b. SIZE_MAX - WritePos b" Write Read Reset
proof
  fix b :: WBuffer and bs :: "u8 list"
  assume "buffer_inv b" "length bs \<le> SIZE_MAX - WritePos b"
  then show "\<exists>b'. Write bs b = Some b' \<and> buffer_inv b' \<and> GetReadableData b' = GetReadableData b @ bs"
    by (cases bs) (simp add: Write_def, auto intro!: Write_law)
qed (use Read_law Reset_law in auto)

section \<open>Every reachable buffer\<close>

inductive buffer_step :: "WBuffer \<Rightarrow> WBuffer \<Rightarrow> bool" where
  write_step: "Write bs b = Some b' \<Longrightarrow> buffer_step b b'"
| read_step: "buffer_step b (snd (Read n b))"
| consume_step: "buffer_step b (Consume n b)"
| compact_step: "buffer_step b (Compact b)"
| setpos_step: "SetWritingPos n b = Some b' \<Longrightarrow> buffer_step b b'"
| resize_step: "buffer_step b (Resize n b)"
| reset_step: "buffer_step b (Reset b)"
| clear_step: "buffer_step b (Clear b)"

lemma Write_inv: "buffer_inv b \<Longrightarrow> Write bs b = Some b' \<Longrightarrow> buffer_inv b'"
  using Write_law [of b bs] Write_overflow [of bs b]
  by (cases "bs = []"; cases "WritePos b + length bs \<le> SIZE_MAX") (auto simp: Write_def)

interpretation buffer_sm: state_machine "\<lambda>b. \<exists>n. b = WBuffer_init n" buffer_step buffer_inv
proof
  show "\<exists>n. b = WBuffer_init n \<Longrightarrow> buffer_inv b" for b
    by (auto simp: WBuffer_init_def buffer_inv_def)
  show "buffer_inv b \<Longrightarrow> buffer_step b b' \<Longrightarrow> buffer_inv b'" for b b'
    by (erule buffer_step.cases)
      (auto intro: Write_inv Resize_inv SetWritingPos_keeps simp: Consume_law Compact_law Reset_law Clear_def
        dest: Read_law [OF _ surjective_pairing])
qed

text \<open>
  \<^verbatim>\<open>WBuffer\<close> implements a byte queue: as long as the write position does not overflow
  \<^verbatim>\<open>size_t\<close>, \<^verbatim>\<open>Write\<close> returns (the growth loop ends) and appends exactly the given bytes to
  the readable ones; \<^verbatim>\<open>Read\<close> returns the first bytes and removes them; \<^verbatim>\<open>Consume\<close> removes,
  \<^verbatim>\<open>Compact\<close> keeps and \<^verbatim>\<open>Reset\<close> empties them. The index invariant is kept throughout.
\<close>

theorem WBuffer_refines_byte_queue:
  assumes "buffer_inv b" and "WritePos b + length bs \<le> SIZE_MAX"
  shows "(\<exists>b'. Write bs b = Some b' \<and> buffer_inv b' \<and> GetReadableData b' = GetReadableData b @ bs)
    \<and> fst (Read n b) = take n (GetReadableData b) \<and> GetReadableData (snd (Read n b)) = drop n (GetReadableData b)
    \<and> GetReadableData (Consume n b) = drop n (GetReadableData b)
    \<and> GetReadableData (Compact b) = GetReadableData b
    \<and> GetReadableData (Reset b) = []"
  using Write_law [OF assms] wb.get_law [OF assms(1) surjective_pairing, of n]
    Consume_law [OF assms(1)] Compact_law [OF assms(1)] Reset_law by simp

theorem WBuffer_refines_byte_queue_witness:
  "(\<exists>b'. Write [7, 8] (WBuffer_init 1) = Some b' \<and> buffer_inv b' \<and> GetReadableData b' = [7, 8])"
proof -
  have inv: "buffer_inv (WBuffer_init 1)" by (simp add: buffer_inv_def WBuffer_init_def)
  have room: "WritePos (WBuffer_init 1) + length [7, 8 :: u8] \<le> SIZE_MAX"
    by (simp add: WBuffer_init_def SIZE_MAX_def)
  have "GetReadableData (WBuffer_init 1) = []"
    by (simp add: GetReadableData_def GetReadableSize_def WBuffer_init_def)
  then show ?thesis using WBuffer_refines_byte_queue [OF inv room] by simp
qed

text \<open>
  In every state a \<^verbatim>\<open>WBuffer\<close> can reach through its operations (including \<^verbatim>\<open>Resize\<close>,
  \<^verbatim>\<open>SetWritingPos\<close> and writes refused by the overflow guard) the read position is at most
  the write position, which is inside the allocation: no span handed out by the buffer
  points outside it.
\<close>

theorem WBuffer_reachable_in_bounds:
  assumes "reachable (\<lambda>b. \<exists>n. b = WBuffer_init n) buffer_step b"
  shows "ReadPos b \<le> WritePos b \<and> WritePos b \<le> length (Data b)"
  using buffer_sm.reachable_invar [OF assms] by (simp add: buffer_inv_def)

theorem WBuffer_reachable_in_bounds_witness:
  "WritePos (Resize 3 (WBuffer_init 8)) \<le> length (Data (Resize 3 (WBuffer_init 8)))"
proof -
  have "reachable (\<lambda>b. \<exists>n. b = WBuffer_init n) buffer_step (Resize 3 (WBuffer_init 8))"
    by (rule reachable.reach_step [OF reachable.reach_start]) (auto intro: buffer_step.resize_step)
  then show ?thesis using WBuffer_reachable_in_bounds by blast
qed

end
