(* ===== verification/Client_Socket.thy ===== *)
theory Client_Socket
  imports Byte_Buffer
begin

text \<open>
  \<^verbatim>\<open>Util/ClientSocket.cpp\<close> and \<^verbatim>\<open>Util/Messages.hpp\<close>: the length-prefixed framing on the unix
  sockets between the daemon, its clients and the \<^verbatim>\<open>waechter-iplink\<close> helper. The kernel is a
  list of answers to the \<^verbatim>\<open>send\<close> and \<^verbatim>\<open>recv\<close> calls, in order; a call with no answer left
  blocks. The payload serialisation (cereal) is outside: a payload is a byte list.
\<close>

section \<open>Model\<close>

text \<open>\<open>Wire\<close> is what \<^verbatim>\<open>send\<close> accepted so far and \<open>ClosedEvents\<close> counts the \<^verbatim>\<open>OnClosed\<close> signals.\<close>

record WClientSocket =
  SocketFd :: int
  bIsConnected :: bool
  bListenThreadRunning :: bool
  IncomingBuffer :: "u8 list"
  Wire :: "u8 list"
  ClosedEvents :: nat

datatype send_answer = Sent nat | SendInterrupted | SendFailed
datatype recv_answer = Received "u8 list" | Shutdown | RecvAgain | RecvFailed

definition IsConnected :: "WClientSocket \<Rightarrow> bool" where
  "IsConnected s \<longleftrightarrow> bIsConnected s \<and> SocketFd s \<ge> 0"

definition CloseSocket :: "WClientSocket \<Rightarrow> WClientSocket" where
  "CloseSocket s =
     (let bWasConnected = bIsConnected s;
          s1 = s\<lparr>bListenThreadRunning := False, bIsConnected := False\<rparr>;
          s2 = (if SocketFd s1 \<ge> 0 then s1\<lparr>SocketFd := -1\<rparr> else s1)
      in if bWasConnected then s2\<lparr>ClosedEvents := ClosedEvents s2 + 1\<rparr> else s2)"

text \<open>The \<^verbatim>\<open>send\<close> loop on the bytes still to be sent. The outer \<open>None\<close> is a call that has not
  returned.\<close>

fun send_loop :: "send_answer list \<Rightarrow> WClientSocket \<Rightarrow> u8 list \<Rightarrow>
    (bool \<times> WClientSocket \<times> send_answer list) option" where
  "send_loop answers s [] = Some (True, s, answers)"
| "send_loop [] s (b # bs) = None"
| "send_loop (SendInterrupted # answers) s (b # bs) = send_loop answers s (b # bs)"
| "send_loop (SendFailed # answers) s (b # bs) = Some (False, CloseSocket s, answers)"
| "send_loop (Sent n # answers) s (b # bs) =
     send_loop answers (s\<lparr>Wire := Wire s @ take n (b # bs)\<rparr>) (drop n (b # bs))"

definition Send :: "send_answer list \<Rightarrow> WClientSocket \<Rightarrow> u8 list \<Rightarrow>
    (bool \<times> WClientSocket \<times> send_answer list) option" where
  "Send answers s Payload =
     (if \<not> IsConnected s \<or> length Payload = 0 then Some (False, s, answers)
      else send_loop answers s Payload)"

text \<open>The four bytes of a \<^verbatim>\<open>uint32_t\<close> in memory.\<close>

definition store32 :: "u32 \<Rightarrow> u8 list" where
  "store32 w = [byte_at 0 w, byte_at 8 w, byte_at 16 w, byte_at 24 w]"

definition SendFramed :: "send_answer list \<Rightarrow> WClientSocket \<Rightarrow> u8 list \<Rightarrow>
    (bool \<times> WClientSocket \<times> send_answer list) option" where
  "SendFramed answers s Payload =
     (let Length = of_nat (length Payload) :: u32 in
      case Send answers s (store32 Length) of
        None \<Rightarrow> None
      | Some (ok, s1, answers1) \<Rightarrow>
          if \<not> ok then Some (False, s1, answers1) else Send answers1 s1 Payload)"

definition FrameLength :: "u8 list \<Rightarrow> nat" where
  "FrameLength bs = unat (load32 (bs ! 0) (bs ! 1) (bs ! 2) (bs ! 3))"

text \<open>The loop of \<^verbatim>\<open>TryPopBufferedFrame\<close> returns in its first iteration on every path.\<close>

definition TryPopBufferedFrame :: "WClientSocket \<Rightarrow> WBuffer \<Rightarrow> (bool \<times> WClientSocket \<times> WBuffer) option" where
  "TryPopBufferedFrame s Out =
     (if length (IncomingBuffer s) \<ge> 4 then
        (let n = FrameLength (IncomingBuffer s) in
         if length (IncomingBuffer s) < 4 + n then Some (False, s, Out)
         else case Write (take n (drop 4 (IncomingBuffer s))) (Reset Out) of
             None \<Rightarrow> None
           | Some Out1 \<Rightarrow> Some (True, s\<lparr>IncomingBuffer := drop (4 + n) (IncomingBuffer s)\<rparr>, Out1))
      else Some (False, s, Out))"

definition ReceiveRaw :: "recv_answer \<Rightarrow> WClientSocket \<Rightarrow> u8 list \<times> WClientSocket" where
  "ReceiveRaw answer s =
     (if \<not> IsConnected s then ([], s)
      else case answer of
          Received bs \<Rightarrow> (take 4096 bs, if bs = [] then CloseSocket s else s)
        | Shutdown \<Rightarrow> ([], CloseSocket s)
        | RecvAgain \<Rightarrow> ([], s)
        | RecvFailed \<Rightarrow> ([], CloseSocket s))"

datatype recv_outcome = Popped | NoFrame | Blocked

definition ReceiveFramed :: "recv_answer list \<Rightarrow> WClientSocket \<Rightarrow> WBuffer \<Rightarrow>
    (recv_outcome \<times> recv_answer list \<times> WClientSocket \<times> WBuffer) option" where
  "ReceiveFramed answers s Out =
     (if \<not> IsConnected s then Some (NoFrame, answers, s, Out)
      else case TryPopBufferedFrame s Out of
          None \<Rightarrow> None
        | Some (True, s1, Out1) \<Rightarrow> Some (Popped, answers, s1, Out1)
        | Some (False, s1, Out1) \<Rightarrow>
            (case answers of
               [] \<Rightarrow> Some (Blocked, [], s1, Out1)
             | a # answers1 \<Rightarrow>
                 (case ReceiveRaw a s1 of
                    ([], s2) \<Rightarrow> Some (NoFrame, answers1, s2, Out1)
                  | (bs, s2) \<Rightarrow>
                      (case TryPopBufferedFrame (s2\<lparr>IncomingBuffer := IncomingBuffer s2 @ bs\<rparr>) Out1 of
                         None \<Rightarrow> None
                       | Some (True, s3, Out2) \<Rightarrow> Some (Popped, answers1, s3, Out2)
                       | Some (False, s3, Out2) \<Rightarrow> Some (NoFrame, answers1, s3, Out2)))))"

text \<open>What the kernel still has to deliver bounds the listener's work.\<close>

fun answer_bytes :: "recv_answer \<Rightarrow> nat" where
  "answer_bytes (Received bs) = length bs"
| "answer_bytes _ = 0"

definition listen_work :: "recv_answer list \<Rightarrow> WClientSocket \<Rightarrow> nat" where
  "listen_work answers s = length (IncomingBuffer s) + sum_list (map answer_bytes answers) + length answers"

lemma TryPop_frame:
  "TryPopBufferedFrame s Out = Some (True, s1, Out1) \<Longrightarrow> length (IncomingBuffer s1) + 4 \<le> length (IncomingBuffer s)"
  by (auto simp: TryPopBufferedFrame_def Let_def split: if_splits option.splits)

lemma TryPop_none:
  "TryPopBufferedFrame s Out = Some (False, s1, Out1) \<Longrightarrow> s1 = s \<and> Out1 = Out"
  by (auto simp: TryPopBufferedFrame_def Let_def split: if_splits option.splits)

lemma IncomingBuffer_CloseSocket [simp]: "IncomingBuffer (CloseSocket s) = IncomingBuffer s"
  by (simp add: CloseSocket_def Let_def)

lemma ReceiveRaw_bytes:
  "ReceiveRaw a s = (bs, s1) \<Longrightarrow> length bs \<le> answer_bytes a \<and> IncomingBuffer s1 = IncomingBuffer s"
  by (cases a) (auto simp: ReceiveRaw_def split: if_splits)

lemma ReceiveFramed_decreases:
  assumes "ReceiveFramed answers s Out = Some (r, answers1, s1, Out1)"
    and "r = Popped \<or> r = NoFrame" and "IsConnected s"
  shows "listen_work answers1 s1 < listen_work answers s"
  using assms
  by (fastforce simp: ReceiveFramed_def listen_work_def
      dest: TryPop_frame TryPop_none ReceiveRaw_bytes
      split: option.splits prod.splits bool.splits list.splits)

text \<open>\<^verbatim>\<open>ListenThreadFunction\<close>: the payloads handed to \<^verbatim>\<open>OnData\<close>, in order, until the socket is
  closed or the kernel has no more answers. The callback does not touch the socket.\<close>

function ListenThread :: "recv_answer list \<Rightarrow> WClientSocket \<Rightarrow> WBuffer \<Rightarrow>
    (u8 list list \<times> WClientSocket \<times> WBuffer) option" where
  "ListenThread answers s RecvBuf =
     (if \<not> (bListenThreadRunning s \<and> IsConnected s)
      then Some ([], s\<lparr>bListenThreadRunning := False\<rparr>, RecvBuf)
      else case ReceiveFramed answers s RecvBuf of
          None \<Rightarrow> None
        | Some (Popped, answers1, s1, RecvBuf1) \<Rightarrow>
            (case ListenThread answers1 s1 (Reset RecvBuf1) of
               None \<Rightarrow> None
             | Some (ps, s2, RecvBuf2) \<Rightarrow> Some (GetReadableData RecvBuf1 # ps, s2, RecvBuf2))
        | Some (NoFrame, answers1, s1, RecvBuf1) \<Rightarrow> ListenThread answers1 s1 RecvBuf1
        | Some (Blocked, answers1, s1, RecvBuf1) \<Rightarrow> Some ([], s1, RecvBuf1))"
  by pat_completeness auto
termination
  by (relation "measure (\<lambda>(answers, s, RecvBuf). listen_work answers s)")
    (auto intro: ReceiveFramed_decreases)

declare ListenThread.simps [simp del]

text \<open>\<^verbatim>\<open>ReadMessageTypeFromBuffer\<close>: the first byte as an \<^verbatim>\<open>int8_t\<close>; \<open>MT_Count\<close> is 19.\<close>

abbreviation MT_Invalid :: int where "MT_Invalid \<equiv> -1"
abbreviation MT_Count :: int where "MT_Count \<equiv> 19"

definition ReadMessageTypeFromBuffer :: "WBuffer \<Rightarrow> int \<times> WBuffer" where
  "ReadMessageTypeFromBuffer Buf =
     (case Read 1 Buf of
        ([], Buf1) \<Rightarrow> (MT_Invalid, Buf1)
      | (b # _, Buf1) \<Rightarrow>
          let Type = sint b in
          if Type < 0 \<or> Type > MT_Count then (MT_Invalid, Buf1) else (Type, Buf1))"

section \<open>The framing as a specification\<close>

definition frame :: "u8 list \<Rightarrow> u8 list" where
  "frame p = store32 (of_nat (length p)) @ p"

definition has_frame :: "u8 list \<Rightarrow> bool" where
  "has_frame bs \<longleftrightarrow> length bs \<ge> 4 \<and> length bs \<ge> 4 + FrameLength bs"

text \<open>The payloads of a byte stream and what is left behind the last complete frame.\<close>

function frames :: "u8 list \<Rightarrow> u8 list list \<times> u8 list" where
  "frames bs =
     (if has_frame bs
      then (let n = FrameLength bs; (ps, rest) = frames (drop (4 + n) bs)
            in (take n (drop 4 bs) # ps, rest))
      else ([], bs))"
  by pat_completeness auto
termination
  by (relation "measure length") (auto simp: has_frame_def)

declare frames.simps [simp del]

lemma store32_load32 [simp]: "FrameLength (store32 w @ bs) = unat w"
  by (simp add: FrameLength_def store32_def)

lemma length_store32 [simp]: "length (store32 w) = 4"
  by (simp add: store32_def)

lemma frames_frame:
  assumes "length p < 2 ^ 32"
  shows "frames (frame p @ bs) = (p # fst (frames bs), snd (frames bs))"
proof -
  have n: "FrameLength (frame p @ bs) = length p"
    using assms by (simp add: frame_def unat_of_nat take_bit_nat_eq_self)
  then have "has_frame (frame p @ bs)" by (simp add: has_frame_def frame_def)
  then show ?thesis
    by (subst frames.simps) (simp add: n Let_def split_beta, simp add: frame_def)
qed

lemma frames_concat:
  "\<forall>p \<in> set ps. length p < 2 ^ 32 \<Longrightarrow> frames (concat (map frame ps)) = (ps, [])"
proof (induction ps)
  case Nil
  then show ?case by (subst frames.simps) (simp add: has_frame_def)
next
  case (Cons p ps)
  then show ?case by (simp add: frames_frame)
qed

lemma FrameLength_append: "4 \<le> length bs \<Longrightarrow> FrameLength (bs @ cs) = FrameLength bs"
  by (cases bs) (auto simp: FrameLength_def nth_append)

lemma has_frame_append: "has_frame bs \<Longrightarrow> has_frame (bs @ cs)"
  by (simp add: has_frame_def FrameLength_append)

lemma frames_append:
  assumes "has_frame bs"
  shows "frames (bs @ cs) =
    (take (FrameLength bs) (drop 4 bs) # fst (frames (drop (4 + FrameLength bs) bs @ cs)),
     snd (frames (drop (4 + FrameLength bs) bs @ cs)))"
proof -
  have "4 \<le> length bs" "4 + FrameLength bs \<le> length bs" using assms by (auto simp: has_frame_def)
  then show ?thesis using has_frame_append [OF assms, of cs]
    by (subst frames.simps) (simp add: FrameLength_append split_beta Let_def)
qed

lemma FrameLength_le: "FrameLength bs \<le> SIZE_MAX"
proof -
  have "FrameLength bs < 2 ^ 32"
    unfolding FrameLength_def using unsigned_less [of "load32 (bs ! 0) (bs ! 1) (bs ! 2) (bs ! 3)"] by simp
  then show ?thesis by (simp add: SIZE_MAX_def)
qed

lemma TryPop_has_frame:
  assumes "has_frame (IncomingBuffer s)"
  shows "\<exists>Out1. TryPopBufferedFrame s Out =
      Some (True, s\<lparr>IncomingBuffer := drop (4 + FrameLength (IncomingBuffer s)) (IncomingBuffer s)\<rparr>, Out1)
    \<and> GetReadableData Out1 = take (FrameLength (IncomingBuffer s)) (drop 4 (IncomingBuffer s))"
  using assms FrameLength_le [of "IncomingBuffer s"]
    wb.fill [of "take (FrameLength (IncomingBuffer s)) (drop 4 (IncomingBuffer s))" Out]
  by (auto simp: TryPopBufferedFrame_def has_frame_def Let_def)

lemma TryPop_no_frame:
  "\<not> has_frame (IncomingBuffer s) \<Longrightarrow> TryPopBufferedFrame s Out = Some (False, s, Out)"
  by (auto simp: TryPopBufferedFrame_def has_frame_def Let_def)

section \<open>The listener refines the framing\<close>

text \<open>An interruption-free run of the kernel: the stream in chunks of at most \<^verbatim>\<open>sizeof(IoBuf)\<close> bytes.\<close>

definition chunked :: "recv_answer list \<Rightarrow> bool" where
  "chunked answers \<longleftrightarrow> (\<forall>a \<in> set answers. a = RecvAgain \<or> (\<exists>bs. a = Received bs \<and> bs \<noteq> [] \<and> length bs \<le> 4096))"

fun answer_data :: "recv_answer \<Rightarrow> u8 list" where
  "answer_data (Received bs) = bs"
| "answer_data _ = []"

abbreviation stream :: "recv_answer list \<Rightarrow> u8 list" where
  "stream answers \<equiv> concat (map answer_data answers)"

definition listening :: "WClientSocket \<Rightarrow> bool" where
  "listening s \<longleftrightarrow> bListenThreadRunning s \<and> IsConnected s"

lemma listening_update [simp]: "listening (s\<lparr>IncomingBuffer := bs\<rparr>) = listening s"
  by (simp add: listening_def IsConnected_def)

text \<open>One call of \<^verbatim>\<open>ReceiveFramed\<close> pops at most one frame of what is buffered and pending.\<close>

lemma ReceiveFramed_refines:
  assumes "listening s" and "chunked answers"
  shows "(\<exists>Out1 answers1 bs. ReceiveFramed answers s Out = Some (Popped, answers1, s\<lparr>IncomingBuffer := bs\<rparr>, Out1)
            \<and> chunked answers1
            \<and> frames (IncomingBuffer s @ stream answers)
              = (GetReadableData Out1 # fst (frames (bs @ stream answers1)), snd (frames (bs @ stream answers1))))
       \<or> (\<exists>Out1 answers1 bs. ReceiveFramed answers s Out = Some (NoFrame, answers1, s\<lparr>IncomingBuffer := bs\<rparr>, Out1)
            \<and> chunked answers1 \<and> bs @ stream answers1 = IncomingBuffer s @ stream answers)
       \<or> (answers = [] \<and> \<not> has_frame (IncomingBuffer s) \<and> ReceiveFramed answers s Out = Some (Blocked, [], s, Out))"
proof (cases "has_frame (IncomingBuffer s)")
  case True
  with assms TryPop_has_frame [OF True, of Out] show ?thesis
    by (auto simp: ReceiveFramed_def listening_def frames_append intro!: exI)
next
  case False
  note nopop = TryPop_no_frame [OF False, of Out]
  show ?thesis
  proof (cases answers)
    case Nil
    then show ?thesis using False assms nopop by (simp add: ReceiveFramed_def listening_def)
  next
    case (Cons a answers1)
    then have ch: "chunked answers1" and a: "a = RecvAgain \<or> (\<exists>bs. a = Received bs \<and> bs \<noteq> [] \<and> length bs \<le> 4096)"
      using assms(2) by (auto simp: chunked_def)
    show ?thesis
    proof (cases "a = RecvAgain")
      case True
      then have "ReceiveFramed answers s Out = Some (NoFrame, answers1, s, Out)"
        using assms(1) nopop Cons by (simp add: ReceiveFramed_def ReceiveRaw_def listening_def)
      then show ?thesis using ch Cons True
        by (intro disjI2 disjI1 exI [of _ Out] exI [of _ answers1] exI [of _ "IncomingBuffer s"]) simp
    next
      case False
      then obtain bs where bs: "a = Received bs" "bs \<noteq> []" "length bs \<le> 4096" using a by auto
      let ?s = "s\<lparr>IncomingBuffer := IncomingBuffer s @ bs\<rparr>"
      have step: "ReceiveFramed answers s Out =
          (case TryPopBufferedFrame ?s Out of
             None \<Rightarrow> None
           | Some (True, s3, Out2) \<Rightarrow> Some (Popped, answers1, s3, Out2)
           | Some (False, s3, Out2) \<Rightarrow> Some (NoFrame, answers1, s3, Out2))"
        using assms(1) nopop Cons bs
        by (cases bs) (simp_all add: ReceiveFramed_def ReceiveRaw_def listening_def)
      show ?thesis
      proof (cases "has_frame (IncomingBuffer ?s)")
        case True
        with TryPop_has_frame [OF True, of Out] show ?thesis
          using step ch Cons bs frames_append [OF True, of "stream answers1"]
          by (auto simp del: take_append drop_append)
      next
        case False
        then show ?thesis using step TryPop_no_frame [OF False, of Out] ch Cons bs
          by (intro disjI2 disjI1 exI [of _ Out] exI [of _ answers1] exI [of _ "IncomingBuffer s @ bs"]) simp
      qed
    qed
  qed
qed

lemma IncomingBuffer_same: "IncomingBuffer s = bs \<Longrightarrow> s\<lparr>IncomingBuffer := bs\<rparr> = s"
  by auto

lemma ListenThread_refines:
  assumes "listening s" and "chunked answers"
  shows "\<exists>Out1. ListenThread answers s Out =
    Some (fst (frames (IncomingBuffer s @ stream answers)),
          s\<lparr>IncomingBuffer := snd (frames (IncomingBuffer s @ stream answers))\<rparr>, Out1)"
  using assms
proof (induction "listen_work answers s" arbitrary: answers s Out rule: less_induct)
  case less
  have live: "bListenThreadRunning s" "IsConnected s" using less.prems by (auto simp: listening_def)
  from ReceiveFramed_refines [OF less.prems, of Out] consider
    (pop) Out1 answers1 bs where "ReceiveFramed answers s Out = Some (Popped, answers1, s\<lparr>IncomingBuffer := bs\<rparr>, Out1)"
      "chunked answers1" "frames (IncomingBuffer s @ stream answers)
        = (GetReadableData Out1 # fst (frames (bs @ stream answers1)), snd (frames (bs @ stream answers1)))"
  | (more) Out1 answers1 bs where "ReceiveFramed answers s Out = Some (NoFrame, answers1, s\<lparr>IncomingBuffer := bs\<rparr>, Out1)"
      "chunked answers1" "bs @ stream answers1 = IncomingBuffer s @ stream answers"
  | (blocked) "answers = []" "\<not> has_frame (IncomingBuffer s)" "ReceiveFramed answers s Out = Some (Blocked, [], s, Out)"
    by blast
  then show ?case
  proof cases
    case pop
    have "listen_work answers1 (s\<lparr>IncomingBuffer := bs\<rparr>) < listen_work answers s"
      using ReceiveFramed_decreases [OF pop(1)] live by simp
    from less.hyps [OF this, of "Reset Out1"] less.prems pop(2) show ?thesis
      using pop live by (subst ListenThread.simps) auto
  next
    case more
    have "listen_work answers1 (s\<lparr>IncomingBuffer := bs\<rparr>) < listen_work answers s"
      using ReceiveFramed_decreases [OF more(1)] live by simp
    from less.hyps [OF this, of Out1] less.prems more(2) show ?thesis
      using more live by (subst ListenThread.simps) auto
  next
    case blocked
    then show ?thesis using live frames.simps [of "IncomingBuffer s"]
      by (subst ListenThread.simps) auto
  qed
qed

text \<open>
  C7. Framing is lossless: however the kernel cuts a stream of frames into \<^verbatim>\<open>recv\<close> results (at
  most 4096 bytes each, interruptions included), the listener hands exactly the payloads that
  were framed to \<^verbatim>\<open>OnData\<close>, once each and in order, terminates its work on what arrived and
  leaves no byte behind.
\<close>

theorem ListenThread_delivers_all_frames:
  assumes "bListenThreadRunning s" and "IsConnected s" and "IncomingBuffer s = []"
    and "\<forall>p \<in> set ps. length p < 2 ^ 32"
    and "chunked answers" and "stream answers = concat (map frame ps)"
  shows "\<exists>Out1. ListenThread answers s Out = Some (ps, s, Out1)"
proof -
  have "listening s" using assms by (simp add: listening_def)
  from ListenThread_refines [OF this assms(5), of Out] show ?thesis
    using assms frames_concat [OF assms(4)] by (simp add: IncomingBuffer_same)
qed

section \<open>Sending\<close>

lemma send_loop_wire:
  "send_loop answers s bs = Some (ok, s1, answers1) \<Longrightarrow>
     (ok \<longrightarrow> s1 = s\<lparr>Wire := Wire s @ bs\<rparr>)
     \<and> (\<not> ok \<longrightarrow> (\<exists>k < length bs. s1 = CloseSocket (s\<lparr>Wire := Wire s @ take k bs\<rparr>)))"
proof (induction answers s bs rule: send_loop.induct)
  case (5 n answers s b bs)
  show ?case
  proof (cases "n < length (b # bs)")
    case True
    then have "take n (b # bs) @ take k (drop n (b # bs)) = take (n + k) (b # bs)" for k
      by (simp only: take_add)
    moreover have "k < length (drop n (b # bs)) \<Longrightarrow> n + k < length (b # bs)" for k
      using True by simp
    ultimately show ?thesis using 5 by (fastforce simp del: take_Suc_Cons)
  next
    case False
    then show ?thesis using 5 by auto
  qed
qed auto


lemma send_loop_cases:
  assumes "send_loop answers s bs = Some (ok, s1, answers1)"
  obtains (sent) "ok" "s1 = s\<lparr>Wire := Wire s @ bs\<rparr>"
  | (broken) k where "\<not> ok" "k < length bs" "s1 = CloseSocket (s\<lparr>Wire := Wire s @ take k bs\<rparr>)"
  using send_loop_wire [OF assms] by blast

lemma CloseSocket_simps [simp]:
  "IsConnected (CloseSocket s) = False" "Wire (CloseSocket s) = Wire s"
  by (simp_all add: CloseSocket_def IsConnected_def Let_def)

lemma IsConnected_Wire [simp]: "IsConnected (s\<lparr>Wire := w\<rparr>) = IsConnected s"
  by (simp add: IsConnected_def)

text \<open>
  Sending a frame on a connected socket: what reached the wire is a prefix of the frame, the
  call returns true exactly when the payload is not empty and the whole frame was accepted, and
  then nothing else of the socket changed; when a non-empty payload was cut short the socket is
  closed, so the receiver can never take the bytes of a later frame for the rest of this one.
  An empty payload puts a complete frame on the wire and is still reported as a failure.
\<close>

theorem SendFramed_wire:
  assumes conn: "IsConnected s" and snd: "SendFramed answers s p = Some (ok, s1, answers1)"
  shows "\<exists>k. Wire s1 = Wire s @ take k (frame p) \<and> k \<le> 4 + length p
    \<and> (ok \<longleftrightarrow> p \<noteq> [] \<and> k = 4 + length p)
    \<and> (ok \<longrightarrow> s1 = s\<lparr>Wire := Wire s @ frame p\<rparr>)
    \<and> (IsConnected s1 \<longleftrightarrow> k = 4 + length p)"
proof -
  let ?h = "store32 (of_nat (length p))"
  have ne: "?h \<noteq> []" by (simp add: store32_def)
  obtain ok0 s0 answers0 where hdr: "send_loop answers s ?h = Some (ok0, s0, answers0)"
    and rest: "(if \<not> ok0 then Some (False, s0, answers0) else Send answers0 s0 p) = Some (ok, s1, answers1)"
    using snd conn ne by (auto simp: SendFramed_def Send_def Let_def split: option.splits)
  from hdr show ?thesis
  proof (cases rule: send_loop_cases)
    case sent
    show ?thesis
    proof (cases "p = []")
      case True
      then show ?thesis using sent rest conn by (auto simp: Send_def frame_def intro!: exI [of _ 4])
    next
      case False
      with sent rest conn have "send_loop answers0 s0 p = Some (ok, s1, answers1)"
        by (simp add: Send_def)
      then show ?thesis
      proof (cases rule: send_loop_cases)
        case sent1: sent
        then show ?thesis using sent conn False by (intro exI [of _ "4 + length p"]) (simp add: frame_def)
      next
        case (broken k)
        then show ?thesis using sent by (intro exI [of _ "4 + k"]) (simp add: frame_def)
      qed
    qed
  next
    case (broken k)
    then show ?thesis using rest by (intro exI [of _ k]) (auto simp: frame_def)
  qed
qed

definition test_socket :: WClientSocket where
  "test_socket = \<lparr>SocketFd = 7, bIsConnected = True, bListenThreadRunning = True, IncomingBuffer = [],
     Wire = [], ClosedEvents = 0\<rparr>"

theorem ListenThread_delivers_all_frames_witness:
  "\<exists>Out1. ListenThread [Received [2, 0], RecvAgain, Received [0, 0, 5], Received [6, 1, 0, 0, 0, 9]] test_socket
     (WBuffer_init 0) = Some ([[5, 6], [9]], test_socket, Out1)"
  by (rule ListenThread_delivers_all_frames)
    (simp_all add: test_socket_def IsConnected_def chunked_def frame_def store32_def byte_at_def)

theorem SendFramed_wire_witness:
  "\<exists>k. Wire (test_socket\<lparr>Wire := [2, 0, 0, 0, 5, 6]\<rparr>) = Wire test_socket @ take k (frame [5, 6])
    \<and> k \<le> 4 + length [5, 6 :: u8]
    \<and> (True \<longleftrightarrow> [5, 6 :: u8] \<noteq> [] \<and> k = 4 + length [5, 6 :: u8])
    \<and> (True \<longrightarrow> test_socket\<lparr>Wire := [2, 0, 0, 0, 5, 6]\<rparr> = test_socket\<lparr>Wire := Wire test_socket @ frame [5, 6]\<rparr>)
    \<and> (IsConnected (test_socket\<lparr>Wire := [2, 0, 0, 0, 5, 6]\<rparr>) \<longleftrightarrow> k = 4 + length [5, 6 :: u8])"
  by (rule SendFramed_wire [of test_socket "[Sent 3, SendInterrupted, Sent 1, Sent 2]" "[5, 6]" True _ "[]"])
    (simp_all add: test_socket_def IsConnected_def SendFramed_def Send_def store32_def byte_at_def)

end
