(* ===== verification/Traffic_Counter.thy ===== *)
theory Traffic_Counter
  imports IP_Address
begin

text \<open>
  \<^verbatim>\<open>Util/TrafficCounter.hpp\<close>, the items of \<^verbatim>\<open>Util/Data/\<close> the counters point to and the
  counter of a UDP tuple (\<^verbatim>\<open>Daemon/Data/Counters.hpp\<close>). The clock is an argument \<open>Now\<close>. A
  counter owns its item, as each \<^verbatim>\<open>shared_ptr\<close> in the code has exactly one counter; the item
  record is extensible, as \<^verbatim>\<open>TTrafficCounter\<close> is a template over it. The speeds are reals: every
  value the code stores in them is an integer a \<^verbatim>\<open>double\<close> holds exactly, which is the invariant
  \<open>counter_inv\<close> below, so the subtractions and comparisons of the source are exact.
\<close>

section \<open>Model\<close>

datatype ETrafficItemType = TI_System | TI_Application | TI_Filter | TI_Process | TI_Socket | TI_Tuple

record ITrafficItem =
  ItemId :: WTrafficItemId
  DownloadSpeed :: WBytesPerSecond
  UploadSpeed :: WBytesPerSecond
  TotalDownloadBytes :: WBytes
  TotalUploadBytes :: WBytes

datatype ECounterState = CS_Inactive | CS_Active | CS_PendingRemoval

record 'a TTrafficCounter =
  RecentUpload :: WBytes
  RecentDownload :: WBytes
  TimeWindowStart :: WMsec
  RemovalTimeStamp :: WMsec
  CounterState :: ECounterState
  InactiveCounter :: u8
  TrafficItem :: "'a ITrafficItem_scheme"

abbreviation RecentTrafficTimeWindow :: WMsec where "RecentTrafficTimeWindow \<equiv> 1000"
abbreviation RemovalTimeWindow :: WMsec where "RemovalTimeWindow \<equiv> 5000"

definition TTrafficCounter_init :: "WMsec \<Rightarrow> 'a ITrafficItem_scheme \<Rightarrow> 'a TTrafficCounter" where
  "TTrafficCounter_init Now Item =
     \<lparr>RecentUpload = 0, RecentDownload = 0, TimeWindowStart = Now, RemovalTimeStamp = 0,
      CounterState = CS_Inactive, InactiveCounter = 0, TrafficItem = Item\<rparr>"

definition PushOutgoingTraffic :: "WBytes \<Rightarrow> 'a TTrafficCounter \<Rightarrow> 'a TTrafficCounter" where
  "PushOutgoingTraffic n c = c\<lparr>RecentUpload := RecentUpload c + n, CounterState := CS_Active, InactiveCounter := 0\<rparr>"

definition PushIncomingTraffic :: "WBytes \<Rightarrow> 'a TTrafficCounter \<Rightarrow> 'a TTrafficCounter" where
  "PushIncomingTraffic n c = c\<lparr>RecentDownload := RecentDownload c + n, CounterState := CS_Active, InactiveCounter := 0\<rparr>"

definition IsActive :: "'a TTrafficCounter \<Rightarrow> bool" where
  "IsActive c \<longleftrightarrow> CounterState c = CS_Active"

definition IsMarkedForRemoval :: "'a TTrafficCounter \<Rightarrow> bool" where
  "IsMarkedForRemoval c \<longleftrightarrow> CounterState c = CS_PendingRemoval"

text \<open>The body of \<^verbatim>\<open>Refresh\<close> statement by statement; \<open>c1\<close> to \<open>c6\<close> are the states between the
  statements. \<^verbatim>\<open>std::min<uint8_t>(static_cast<uint8_t>(InactiveCounter + 1), 255)\<close> wraps before
  the minimum is taken.\<close>

definition RefreshWindow :: "WMsec \<Rightarrow> 'a TTrafficCounter \<Rightarrow> 'a TTrafficCounter" where
  "RefreshWindow TimeStampMS c =
     (let NewDownloadSpeed = double_of_u64 (RecentDownload c) / (real_of_int RecentTrafficTimeWindow / 1000);
          NewUploadSpeed = double_of_u64 (RecentUpload c) / (real_of_int RecentTrafficTimeWindow / 1000);
          c1 = (if \<bar>NewDownloadSpeed - DownloadSpeed (TrafficItem c)\<bar> > 1 / 100
                then c\<lparr>TrafficItem := (TrafficItem c)\<lparr>DownloadSpeed := NewDownloadSpeed\<rparr>, CounterState := CS_Active\<rparr> else c);
          c2 = (if \<bar>NewUploadSpeed - UploadSpeed (TrafficItem c1)\<bar> > 1 / 100
                then c1\<lparr>TrafficItem := (TrafficItem c1)\<lparr>UploadSpeed := NewUploadSpeed\<rparr>, CounterState := CS_Active\<rparr> else c1);
          c3 = (if DownloadSpeed (TrafficItem c2) < 1
                then c2\<lparr>TrafficItem := (TrafficItem c2)\<lparr>DownloadSpeed := 0\<rparr>\<rparr> else c2);
          c4 = (if UploadSpeed (TrafficItem c3) < 1
                then c3\<lparr>TrafficItem := (TrafficItem c3)\<lparr>UploadSpeed := 0\<rparr>\<rparr> else c3);
          c5 = (if DownloadSpeed (TrafficItem c4) = 0 \<and> UploadSpeed (TrafficItem c4) = 0
                then c4\<lparr>InactiveCounter := min (InactiveCounter c4 + 1) 255\<rparr> else c4);
          c6 = (if InactiveCounter c5 \<ge> 3 then c5\<lparr>CounterState := CS_Inactive\<rparr> else c5)
      in c6\<lparr>TrafficItem := (TrafficItem c6)\<lparr>TotalDownloadBytes := TotalDownloadBytes (TrafficItem c6) + RecentDownload c6,
                TotalUploadBytes := TotalUploadBytes (TrafficItem c6) + RecentUpload c6\<rparr>,
            RecentDownload := 0, RecentUpload := 0, TimeWindowStart := TimeStampMS\<rparr>)"

definition Refresh :: "WMsec \<Rightarrow> 'a TTrafficCounter \<Rightarrow> 'a TTrafficCounter" where
  "Refresh Now c =
     (if CounterState c = CS_PendingRemoval
      then c\<lparr>TrafficItem := (TrafficItem c)\<lparr>DownloadSpeed := 0, UploadSpeed := 0\<rparr>\<rparr>
      else if Now - TimeWindowStart c \<ge> RecentTrafficTimeWindow then RefreshWindow Now c
      else c)"

definition MarkForRemoval :: "WMsec \<Rightarrow> 'a TTrafficCounter \<Rightarrow> 'a TTrafficCounter" where
  "MarkForRemoval Now c =
     (if CounterState c = CS_PendingRemoval then c
      else c\<lparr>CounterState := CS_PendingRemoval,
             TrafficItem := (TrafficItem c)\<lparr>UploadSpeed := 0, DownloadSpeed := 0\<rparr>,
             RemovalTimeStamp := Now + RemovalTimeWindow\<rparr>)"

definition DueForRemoval :: "WMsec \<Rightarrow> 'a TTrafficCounter \<Rightarrow> bool" where
  "DueForRemoval Now c \<longleftrightarrow> CounterState c = CS_PendingRemoval \<and> Now \<ge> RemovalTimeStamp c"

text \<open>\<^verbatim>\<open>WTupleCounter::Refresh\<close>.\<close>

definition RefreshTuple :: "WMsec \<Rightarrow> 'a TTrafficCounter \<Rightarrow> 'a TTrafficCounter" where
  "RefreshTuple Now c =
     (let c1 = Refresh Now c in
      if CounterState c1 \<noteq> CS_PendingRemoval \<and> InactiveCounter c1 \<ge> 5 then MarkForRemoval Now c1 else c1)"

section \<open>The speed invariant\<close>

text \<open>The speeds are what the conversion to \<^verbatim>\<open>double\<close> yields: integers.\<close>

definition counter_inv :: "'a TTrafficCounter \<Rightarrow> bool" where
  "counter_inv c \<longleftrightarrow> DownloadSpeed (TrafficItem c) \<in> range double_of_u64
     \<and> UploadSpeed (TrafficItem c) \<in> range double_of_u64"

lemma zero_speed [simp]: "0 \<in> range double_of_u64"
  by (rule range_eqI [of _ _ 0]) simp

lemma double_gap: "double_of_u64 v \<noteq> double_of_u64 w \<Longrightarrow> \<bar>double_of_u64 v - double_of_u64 w\<bar> \<ge> 1"
proof -
  obtain m n where mn: "double_of_u64 v = real m" "double_of_u64 w = real n"
    using double_of_u64_integral by meson
  assume "double_of_u64 v \<noteq> double_of_u64 w"
  with mn have "\<bar>int m - int n\<bar> \<ge> 1" by auto
  then have "\<bar>real_of_int (int m - int n)\<bar> \<ge> 1" by linarith
  then show ?thesis using mn by simp
qed

lemma speed_clamp: "double_of_u64 w < 1 \<longleftrightarrow> w = 0"
  using double_of_u64_pos [of w] by (cases "w = 0") auto

lemma min_u8 [simp]: "min (x :: u8) 255 = x"
proof -
  have "unat x < 2 ^ 8" using unsigned_less [of x] by simp
  then show ?thesis by (simp add: min_def word_le_nat_alt)
qed

text \<open>What a refresh does when the window is over: one equation for the whole body.\<close>

definition after_window :: "WMsec \<Rightarrow> 'a TTrafficCounter \<Rightarrow> 'a TTrafficCounter" where
  "after_window Now c =
     (let idle = RecentDownload c = 0 \<and> RecentUpload c = 0;
          changed = double_of_u64 (RecentDownload c) \<noteq> DownloadSpeed (TrafficItem c)
            \<or> double_of_u64 (RecentUpload c) \<noteq> UploadSpeed (TrafficItem c);
          k = (if idle then InactiveCounter c + 1 else InactiveCounter c)
      in c\<lparr>RecentUpload := 0, RecentDownload := 0, TimeWindowStart := Now,
           CounterState := (if k \<ge> 3 then CS_Inactive else if changed then CS_Active else CounterState c),
           InactiveCounter := k,
           TrafficItem := (TrafficItem c)\<lparr>DownloadSpeed := double_of_u64 (RecentDownload c),
             UploadSpeed := double_of_u64 (RecentUpload c),
             TotalDownloadBytes := TotalDownloadBytes (TrafficItem c) + RecentDownload c,
             TotalUploadBytes := TotalUploadBytes (TrafficItem c) + RecentUpload c\<rparr>\<rparr>)"

lemma speed_threshold:
  "old \<in> range double_of_u64 \<Longrightarrow> \<bar>double_of_u64 w - old\<bar> * 100 > 1 \<longleftrightarrow> double_of_u64 w \<noteq> old"
  using double_gap [of w] by force

text \<open>The statements of the body one by one.\<close>

lemma set_download:
  assumes "DownloadSpeed (TrafficItem c) \<in> range double_of_u64"
  shows "(if \<bar>double_of_u64 w - DownloadSpeed (TrafficItem c)\<bar> > 1 / 100
      then c\<lparr>TrafficItem := (TrafficItem c)\<lparr>DownloadSpeed := double_of_u64 w\<rparr>, CounterState := CS_Active\<rparr> else c)
    = c\<lparr>TrafficItem := (TrafficItem c)\<lparr>DownloadSpeed := double_of_u64 w\<rparr>,
        CounterState := if double_of_u64 w \<noteq> DownloadSpeed (TrafficItem c) then CS_Active else CounterState c\<rparr>"
  using speed_threshold [OF assms, of w] by simp

lemma set_upload:
  assumes "UploadSpeed (TrafficItem c) \<in> range double_of_u64"
  shows "(if \<bar>double_of_u64 w - UploadSpeed (TrafficItem c)\<bar> > 1 / 100
      then c\<lparr>TrafficItem := (TrafficItem c)\<lparr>UploadSpeed := double_of_u64 w\<rparr>, CounterState := CS_Active\<rparr> else c)
    = c\<lparr>TrafficItem := (TrafficItem c)\<lparr>UploadSpeed := double_of_u64 w\<rparr>,
        CounterState := if double_of_u64 w \<noteq> UploadSpeed (TrafficItem c) then CS_Active else CounterState c\<rparr>"
  using speed_threshold [OF assms, of w] by simp

lemma clamp_download:
  "DownloadSpeed (TrafficItem c) \<in> range double_of_u64 \<Longrightarrow>
     (if DownloadSpeed (TrafficItem c) < 1 then c\<lparr>TrafficItem := (TrafficItem c)\<lparr>DownloadSpeed := 0\<rparr>\<rparr> else c) = c"
  by (auto simp: speed_clamp)

lemma clamp_upload:
  "UploadSpeed (TrafficItem c) \<in> range double_of_u64 \<Longrightarrow>
     (if UploadSpeed (TrafficItem c) < 1 then c\<lparr>TrafficItem := (TrafficItem c)\<lparr>UploadSpeed := 0\<rparr>\<rparr> else c) = c"
  by (auto simp: speed_clamp)

lemma RefreshWindow_eq:
  assumes inv: "counter_inv c"
  shows "RefreshWindow Now c = after_window Now c"
proof -
  let ?d = "double_of_u64 (RecentDownload c)" and ?u = "double_of_u64 (RecentUpload c)"
  define c1 where "c1 = c\<lparr>TrafficItem := (TrafficItem c)\<lparr>DownloadSpeed := ?d\<rparr>,
    CounterState := if ?d \<noteq> DownloadSpeed (TrafficItem c) then CS_Active else CounterState c\<rparr>"
  define c2 where "c2 = c1\<lparr>TrafficItem := (TrafficItem c1)\<lparr>UploadSpeed := ?u\<rparr>,
    CounterState := if ?u \<noteq> UploadSpeed (TrafficItem c1) then CS_Active else CounterState c1\<rparr>"
  define c5 where "c5 = (if DownloadSpeed (TrafficItem c2) = 0 \<and> UploadSpeed (TrafficItem c2) = 0
    then c2\<lparr>InactiveCounter := InactiveCounter c2 + 1\<rparr> else c2)"
  have r: "UploadSpeed (TrafficItem c1) \<in> range double_of_u64" "DownloadSpeed (TrafficItem c2) \<in> range double_of_u64"
    "UploadSpeed (TrafficItem c2) \<in> range double_of_u64"
    using inv by (simp_all add: counter_inv_def c1_def c2_def)
  have one: "real_of_int RecentTrafficTimeWindow / 1000 = 1" by simp
  have inv1: "DownloadSpeed (TrafficItem c) \<in> range double_of_u64" using inv by (simp add: counter_inv_def)
  have "RefreshWindow Now c = (let c6 = (if InactiveCounter c5 \<ge> 3 then c5\<lparr>CounterState := CS_Inactive\<rparr> else c5)
    in c6\<lparr>TrafficItem := (TrafficItem c6)\<lparr>TotalDownloadBytes := TotalDownloadBytes (TrafficItem c6) + RecentDownload c6,
                TotalUploadBytes := TotalUploadBytes (TrafficItem c6) + RecentUpload c6\<rparr>,
            RecentDownload := 0, RecentUpload := 0, TimeWindowStart := Now\<rparr>)"
    unfolding RefreshWindow_def one div_by_1 set_download [OF inv1] c1_def [symmetric] min_u8
    unfolding Let_def set_download [OF inv1] c1_def [symmetric]
    unfolding set_upload [OF r(1)] c2_def [symmetric] clamp_download [OF r(2)] clamp_upload [OF r(3)]
    by (simp only: c5_def)
  also have "\<dots> = after_window Now c"
  proof -
    define k where "k = (if RecentDownload c = 0 \<and> RecentUpload c = 0 then InactiveCounter c + 1 else InactiveCounter c)"
    have "c5 = c2\<lparr>InactiveCounter := k\<rparr>"
      by (cases "RecentDownload c = 0 \<and> RecentUpload c = 0") (auto simp: c5_def c2_def c1_def k_def)
    then show ?thesis
      unfolding after_window_def k_def [symmetric] Let_def by (cases "3 \<le> k") (simp_all add: c2_def c1_def)
  qed
  finally show ?thesis .
qed

text \<open>Projections of the closed form, for the proofs below.\<close>

lemma Refresh_open: "Now - TimeWindowStart c < 1000 \<Longrightarrow> CounterState c \<noteq> CS_PendingRemoval \<Longrightarrow> Refresh Now c = c"
  by (simp add: Refresh_def)

lemma Refresh_closed:
  "counter_inv c \<Longrightarrow> 1000 \<le> Now - TimeWindowStart c \<Longrightarrow> CounterState c \<noteq> CS_PendingRemoval \<Longrightarrow>
     Refresh Now c = after_window Now c"
  by (simp add: Refresh_def RefreshWindow_eq)

lemma counter_inv_after [simp]: "counter_inv (after_window Now c)"
  by (simp add: after_window_def counter_inv_def Let_def)

lemma counter_inv_push [intro]:
  "counter_inv c \<Longrightarrow> counter_inv (PushOutgoingTraffic n c)"
  "counter_inv c \<Longrightarrow> counter_inv (PushIncomingTraffic n c)"
  "counter_inv c \<Longrightarrow> counter_inv (MarkForRemoval Now c)"
  by (auto simp: PushOutgoingTraffic_def PushIncomingTraffic_def counter_inv_def MarkForRemoval_def)

lemma counter_inv_Refresh [intro]: "counter_inv c \<Longrightarrow> counter_inv (Refresh Now c)"
  using RefreshWindow_eq [of c Now]
  by (auto simp: Refresh_def counter_inv_def [of "TrafficItem_update _ _"])

lemma counter_inv_RefreshTuple [intro]: "counter_inv c \<Longrightarrow> counter_inv (RefreshTuple Now c)"
  by (auto simp: RefreshTuple_def Let_def)

section \<open>Runs of a counter\<close>

datatype counter_op = PushUp WBytes | PushDown WBytes | Tick WMsec | Mark WMsec

fun counter_do :: "counter_op \<Rightarrow> 'a TTrafficCounter \<Rightarrow> 'a TTrafficCounter" where
  "counter_do (PushUp n) c = PushOutgoingTraffic n c"
| "counter_do (PushDown n) c = PushIncomingTraffic n c"
| "counter_do (Tick t) c = Refresh t c"
| "counter_do (Mark t) c = MarkForRemoval t c"

abbreviation counter_run :: "counter_op list \<Rightarrow> 'a TTrafficCounter \<Rightarrow> 'a TTrafficCounter" where
  "counter_run ops c \<equiv> fold counter_do ops c"

fun pushed_up :: "counter_op \<Rightarrow> WBytes" where
  "pushed_up (PushUp n) = n" | "pushed_up _ = 0"

fun pushed_down :: "counter_op \<Rightarrow> WBytes" where
  "pushed_down (PushDown n) = n" | "pushed_down _ = 0"

definition accounted :: "'a TTrafficCounter \<Rightarrow> WBytes \<times> WBytes" where
  "accounted c = (TotalUploadBytes (TrafficItem c) + RecentUpload c, TotalDownloadBytes (TrafficItem c) + RecentDownload c)"

lemma counter_inv_do: "counter_inv c \<Longrightarrow> counter_inv (counter_do op c)"
  by (cases op) auto

lemma accounted_Refresh: "counter_inv c \<Longrightarrow> accounted (Refresh Now c) = accounted c"
  by (simp add: Refresh_def RefreshWindow_eq accounted_def after_window_def Let_def)

lemma accounted_do: "counter_inv c \<Longrightarrow>
    accounted (counter_do op c) = (fst (accounted c) + pushed_up op, snd (accounted c) + pushed_down op)"
proof (cases op)
  case (Tick t)
  then show "counter_inv c \<Longrightarrow> ?thesis" by (simp add: accounted_Refresh)
qed (auto simp: accounted_def PushOutgoingTraffic_def PushIncomingTraffic_def MarkForRemoval_def)

lemma counter_inv_init [simp]:
  "DownloadSpeed Item = 0 \<Longrightarrow> UploadSpeed Item = 0 \<Longrightarrow> counter_inv (TTrafficCounter_init Now Item)"
  by (simp add: TTrafficCounter_init_def counter_inv_def)

lemma accounted_run:
  "counter_inv c \<Longrightarrow> counter_inv (counter_run ops c) \<and> accounted (counter_run ops c) =
     (fst (accounted c) + sum_list (map pushed_up ops), snd (accounted c) + sum_list (map pushed_down ops))"
  by (induction ops arbitrary: c) (simp_all add: counter_inv_do accounted_do add.assoc)

text \<open>
  C8. No byte is lost or counted twice: after any sequence of pushes, refreshes and removal
  marks on a new counter, the totals of the item plus the current window are exactly the bytes
  that were pushed in each direction (modulo 2^64, the width of the totals).
\<close>

theorem traffic_bytes_conserved:
  assumes "DownloadSpeed Item = 0" and "UploadSpeed Item = 0"
    and "c = counter_run ops (TTrafficCounter_init Now Item)"
  shows "TotalUploadBytes (TrafficItem c) + RecentUpload c = TotalUploadBytes Item + sum_list (map pushed_up ops)
    \<and> TotalDownloadBytes (TrafficItem c) + RecentDownload c = TotalDownloadBytes Item + sum_list (map pushed_down ops)"
  using accounted_run [OF counter_inv_init [OF assms(1,2), of Now], of ops]
  by (auto simp: assms(3) accounted_def TTrafficCounter_init_def)


text \<open>
  A finished window is reported exactly: on every counter that a run of operations can
  produce and that is not being removed, a refresh one second or more after the window began sets
  both speeds to the bytes of that window (as doubles), adds them to the totals and starts an
  empty window now. The tolerance of 0.01 and the clamp below 1 never distort a speed.
\<close>

theorem Refresh_reports_window:
  assumes "DownloadSpeed Item = 0" and "UploadSpeed Item = 0"
    and "c = counter_run ops (TTrafficCounter_init T0 Item)"
    and "\<not> IsMarkedForRemoval c" and "Now \<ge> TimeWindowStart c + 1000"
  shows "DownloadSpeed (TrafficItem (Refresh Now c)) = double_of_u64 (RecentDownload c)
    \<and> UploadSpeed (TrafficItem (Refresh Now c)) = double_of_u64 (RecentUpload c)
    \<and> TotalDownloadBytes (TrafficItem (Refresh Now c)) = TotalDownloadBytes (TrafficItem c) + RecentDownload c
    \<and> TotalUploadBytes (TrafficItem (Refresh Now c)) = TotalUploadBytes (TrafficItem c) + RecentUpload c
    \<and> RecentDownload (Refresh Now c) = 0 \<and> RecentUpload (Refresh Now c) = 0
    \<and> TimeWindowStart (Refresh Now c) = Now"
proof -
  have "counter_inv c" using accounted_run counter_inv_init [OF assms(1,2)] assms(3) by blast
  with assms(4,5) have "Refresh Now c = after_window Now c"
    by (intro Refresh_closed) (auto simp: IsMarkedForRemoval_def)
  then show ?thesis by (simp add: after_window_def Let_def)
qed

section \<open>Idle counters\<close>

fun spaced :: "WMsec \<Rightarrow> WMsec list \<Rightarrow> bool" where
  "spaced t0 [] = True"
| "spaced t0 (t # ts) \<longleftrightarrow> t - t0 \<ge> 1000 \<and> spaced t ts"

definition quiet :: "'a TTrafficCounter \<Rightarrow> bool" where
  "quiet c \<longleftrightarrow> counter_inv c \<and> RecentDownload c = 0 \<and> RecentUpload c = 0"

lemma after_window_quiet:
  assumes "quiet c"
  shows "quiet (after_window t c)" "InactiveCounter (after_window t c) = InactiveCounter c + 1"
    "TimeWindowStart (after_window t c) = t"
    "DownloadSpeed (TrafficItem (after_window t c)) = 0" "UploadSpeed (TrafficItem (after_window t c)) = 0"
    "CounterState c \<noteq> CS_PendingRemoval \<Longrightarrow> CounterState (after_window t c) \<noteq> CS_PendingRemoval"
    "InactiveCounter c + 1 < 3 \<Longrightarrow> CounterState c = CS_Active \<Longrightarrow> CounterState (after_window t c) = CS_Active"
    "3 \<le> InactiveCounter c + 1 \<Longrightarrow> CounterState (after_window t c) = CS_Inactive"
    "DownloadSpeed (TrafficItem c) = 0 \<Longrightarrow> UploadSpeed (TrafficItem c) = 0 \<Longrightarrow> CounterState c = CS_Inactive \<Longrightarrow>
       CounterState (after_window t c) = CS_Inactive"
  using assms by (auto simp: quiet_def after_window_def Let_def counter_inv_def)

definition idle_state :: "nat \<Rightarrow> 'a TTrafficCounter \<Rightarrow> bool" where
  "idle_state n c \<longleftrightarrow> quiet c \<and> InactiveCounter c = of_nat n
     \<and> CounterState c = (if n < 3 then CS_Active else CS_Inactive)
     \<and> (n \<ge> 1 \<longrightarrow> DownloadSpeed (TrafficItem c) = 0 \<and> UploadSpeed (TrafficItem c) = 0)"

lemma idle_step:
  assumes "idle_state n c" and "t - TimeWindowStart c \<ge> 1000"
  shows "idle_state (Suc n) (Refresh t c) \<and> TimeWindowStart (Refresh t c) = t"
proof -
  have q: "quiet c" and k: "InactiveCounter c = of_nat n"
    and st: "CounterState c = (if n < 3 then CS_Active else CS_Inactive)"
    and z: "n \<ge> 1 \<Longrightarrow> DownloadSpeed (TrafficItem c) = 0 \<and> UploadSpeed (TrafficItem c) = 0"
    using assms(1) by (auto simp: idle_state_def)
  have r: "Refresh t c = after_window t c"
    using assms(2) q st by (intro Refresh_closed) (auto simp: quiet_def)
  consider "n < 2" | "n = 2" | "n \<ge> 3" by linarith
  then have "CounterState (after_window t c) = (if Suc n < 3 then CS_Active else CS_Inactive)"
  proof cases
    case 1
    then have "n = 0 \<or> n = 1" by auto
    then show ?thesis using after_window_quiet [OF q] st k by auto
  next
    case 2
    then show ?thesis using after_window_quiet(8) [OF q] k by simp
  next
    case 3
    then show ?thesis using after_window_quiet(9) [OF q] st z by simp
  qed
  then show ?thesis using r after_window_quiet [OF q] k by (simp add: idle_state_def add.commute)
qed

lemma idle_run:
  "idle_state n c \<Longrightarrow> spaced (TimeWindowStart c) ts \<Longrightarrow> idle_state (n + length ts) (fold Refresh ts c)"
proof (induction ts arbitrary: n c)
  case (Cons t ts)
  then show ?case using idle_step [of n c t] Cons.IH [of "Suc n" "Refresh t c"] by simp
qed simp

text \<open>
  Silence is announced and then costs nothing: from a counter whose window has just been
  closed with traffic, \<open>n\<close> idle seconds leave the counter active (clients get its update, with
  speed 0 from the first on) for \<open>n < 3\<close> and inactive for every \<open>n \<ge> 3\<close>; the tick count is \<open>n\<close>
  modulo 256, not clamped at 255 as its comment says.
\<close>

theorem idle_counter_fades:
  assumes "counter_inv c" and "RecentDownload c = 0" and "RecentUpload c = 0"
    and "CounterState c = CS_Active" and "InactiveCounter c = 0"
    and "spaced (TimeWindowStart c) ts" and "ts \<noteq> []"
  shows "(IsActive (fold Refresh ts c) \<longleftrightarrow> length ts < 3)
    \<and> InactiveCounter (fold Refresh ts c) = of_nat (length ts)
    \<and> DownloadSpeed (TrafficItem (fold Refresh ts c)) = 0 \<and> UploadSpeed (TrafficItem (fold Refresh ts c)) = 0"
proof -
  have "idle_state 0 c" using assms by (simp add: idle_state_def quiet_def)
  from idle_run [OF this assms(6)] have "idle_state (length ts) (fold Refresh ts c)" by simp
  then show ?thesis
    using assms(7) by (auto simp: idle_state_def IsActive_def Suc_le_eq)
qed

lemma RefreshTuple_early:
  "idle_state (Suc n) (Refresh t c) \<Longrightarrow> Suc n < 5 \<Longrightarrow> RefreshTuple t c = Refresh t c"
proof -
  assume "idle_state (Suc n) (Refresh t c)" "Suc n < 5"
  then have "InactiveCounter (Refresh t c) = of_nat (Suc n)" "n = 0 \<or> n = 1 \<or> n = 2 \<or> n = 3"
    by (auto simp: idle_state_def)
  then show ?thesis by (auto simp: RefreshTuple_def Let_def word_le_nat_alt)
qed

lemma tuple_run_early:
  "idle_state n c \<Longrightarrow> spaced (TimeWindowStart c) ts \<Longrightarrow> n + length ts < 5 \<Longrightarrow>
     fold RefreshTuple ts c = fold Refresh ts c"
proof (induction ts arbitrary: n c)
  case (Cons t ts)
  have "idle_state (Suc n) (Refresh t c)" "TimeWindowStart (Refresh t c) = t"
    using idle_step [of n c t] Cons.prems by auto
  then show ?case using Cons RefreshTuple_early [of n t c] by simp
qed simp

lemma RefreshTuple_pending:
  "CounterState c = CS_PendingRemoval \<Longrightarrow>
     CounterState (RefreshTuple t c) = CS_PendingRemoval \<and> RemovalTimeStamp (RefreshTuple t c) = RemovalTimeStamp c"
  by (simp add: RefreshTuple_def Refresh_def)

lemma tuple_run_pending:
  "CounterState c = CS_PendingRemoval \<Longrightarrow>
     CounterState (fold RefreshTuple ts c) = CS_PendingRemoval
     \<and> RemovalTimeStamp (fold RefreshTuple ts c) = RemovalTimeStamp c"
  by (induction ts arbitrary: c) (simp_all add: RefreshTuple_pending)

lemma tuple_fifth_tick:
  assumes "idle_state 4 c" and "t - TimeWindowStart c \<ge> 1000"
  shows "CounterState (RefreshTuple t c) = CS_PendingRemoval \<and> RemovalTimeStamp (RefreshTuple t c) = t + 5000"
proof -
  have "idle_state 5 (Refresh t c)" using idle_step [OF assms] by simp
  then have "InactiveCounter (Refresh t c) = 5" "CounterState (Refresh t c) = CS_Inactive"
    by (auto simp: idle_state_def)
  then show ?thesis by (simp add: RefreshTuple_def MarkForRemoval_def Let_def)
qed

lemma spaced_append: "spaced t0 (xs @ ys) \<longleftrightarrow> spaced t0 xs \<and> spaced (last (t0 # xs)) ys"
  by (induction xs arbitrary: t0) auto

lemma idle_run_window:
  "idle_state n c \<Longrightarrow> spaced (TimeWindowStart c) ts \<Longrightarrow>
     TimeWindowStart (fold Refresh ts c) = last (TimeWindowStart c # ts)"
proof (induction ts arbitrary: n c)
  case (Cons t ts)
  then show ?case using idle_step [of n c t] Cons.IH [of "Suc n" "Refresh t c"] by simp
qed simp

text \<open>
  A silent UDP tuple is retired: under idle refreshes one second or more apart it is marked
  for removal by the fifth of them, not earlier, and becomes due for removal exactly five seconds
  after that refresh, whatever refreshes follow.
\<close>

theorem idle_tuple_removed:
  assumes "counter_inv c" and "RecentDownload c = 0" and "RecentUpload c = 0"
    and "CounterState c = CS_Active" and "InactiveCounter c = 0"
    and "spaced (TimeWindowStart c) ts"
  shows "(IsMarkedForRemoval (fold RefreshTuple ts c) \<longleftrightarrow> length ts \<ge> 5)
    \<and> (DueForRemoval Now (fold RefreshTuple ts c) \<longleftrightarrow> length ts \<ge> 5 \<and> Now \<ge> ts ! 4 + 5000)"
proof -
  have i0: "idle_state 0 c" using assms by (simp add: idle_state_def quiet_def)
  have pend: "CounterState (fold RefreshTuple ts c) = CS_PendingRemoval
      \<and> RemovalTimeStamp (fold RefreshTuple ts c) = ts ! 4 + 5000" if len: "length ts \<ge> 5"
  proof -
    have split: "ts = take 4 ts @ ts ! 4 # drop (Suc 4) ts"
      by (rule id_take_nth_drop) (use len in simp)
    have "spaced (TimeWindowStart c) (take 4 ts @ ts ! 4 # drop (Suc 4) ts)"
      using assms(6) split by argo
    then have sp: "spaced (TimeWindowStart c) (take 4 ts)" "ts ! 4 - last (TimeWindowStart c # take 4 ts) \<ge> 1000"
      by (simp_all only: spaced_append spaced.simps)
    have "idle_state 4 (fold Refresh (take 4 ts) c)"
      using idle_run [OF i0 sp(1)] len by simp
    then have "CounterState (RefreshTuple (ts ! 4) (fold Refresh (take 4 ts) c)) = CS_PendingRemoval
       \<and> RemovalTimeStamp (RefreshTuple (ts ! 4) (fold Refresh (take 4 ts) c)) = ts ! 4 + 5000"
      by (rule tuple_fifth_tick) (use sp(2) idle_run_window [OF i0 sp(1)] in \<open>simp only:\<close>)
    moreover have "fold RefreshTuple (take 4 ts) c = fold Refresh (take 4 ts) c"
      using tuple_run_early [OF i0 sp(1)] by simp
    moreover have "fold RefreshTuple ts c =
        fold RefreshTuple (drop (Suc 4) ts) (RefreshTuple (ts ! 4) (fold RefreshTuple (take 4 ts) c))"
      by (subst split) (simp only: fold_append fold_simps o_apply)
    ultimately show ?thesis by (simp only: tuple_run_pending)
  qed
  have "\<not> IsMarkedForRemoval (fold RefreshTuple ts c)" if "length ts < 5"
    using idle_run [OF i0 assms(6)] tuple_run_early [OF i0 assms(6)] that
    by (auto simp: idle_state_def IsMarkedForRemoval_def)
  then show ?thesis
    using pend by (cases "length ts \<ge> 5") (auto simp: IsMarkedForRemoval_def DueForRemoval_def)
qed

definition test_counter :: "unit TTrafficCounter" where
  "test_counter = TTrafficCounter_init 0 \<lparr>ItemId = 1, DownloadSpeed = 0, UploadSpeed = 0,
     TotalDownloadBytes = 0, TotalUploadBytes = 7\<rparr>"

theorem traffic_bytes_conserved_witness:
  "TotalUploadBytes (TrafficItem (counter_run [PushUp 5, Tick 1000, PushUp 6, Mark 1100] test_counter))
     + RecentUpload (counter_run [PushUp 5, Tick 1000, PushUp 6, Mark 1100] test_counter) = 18"
  using traffic_bytes_conserved [of "TrafficItem test_counter" "counter_run [PushUp 5, Tick 1000, PushUp 6, Mark 1100] test_counter"
      "[PushUp 5, Tick 1000, PushUp 6, Mark 1100]" 0]
  by (simp add: test_counter_def TTrafficCounter_init_def)

theorem Refresh_reports_window_witness:
  "DownloadSpeed (TrafficItem (Refresh 1500 (counter_run [PushDown 42] test_counter))) = 42"
  using Refresh_reports_window [of "TrafficItem test_counter" "counter_run [PushDown 42] test_counter" "[PushDown 42]" 0 1500]
  by (simp add: test_counter_def TTrafficCounter_init_def PushIncomingTraffic_def IsMarkedForRemoval_def
      double_of_u64_exact)

definition test_idle :: "unit TTrafficCounter" where
  "test_idle = test_counter\<lparr>CounterState := CS_Active,
     TrafficItem := (TrafficItem test_counter)\<lparr>DownloadSpeed := double_of_u64 42\<rparr>\<rparr>"

lemma test_idle_ok: "counter_inv test_idle" "RecentDownload test_idle = 0" "RecentUpload test_idle = 0"
  "CounterState test_idle = CS_Active" "InactiveCounter test_idle = 0" "TimeWindowStart test_idle = 0"
  by (simp_all add: test_idle_def test_counter_def TTrafficCounter_init_def counter_inv_def)

theorem idle_counter_fades_witness:
  "\<not> IsActive (fold Refresh [1000, 2000, 3100] test_idle) \<and> InactiveCounter (fold Refresh [1000, 2000, 3100] test_idle) = 3"
  using idle_counter_fades [OF test_idle_ok(1-5), of "[1000, 2000, 3100]"] by (simp add: test_idle_ok)

theorem idle_tuple_removed_witness:
  "DueForRemoval 10000 (fold RefreshTuple [1000, 2000, 3000, 4000, 5000] test_idle)
   \<and> \<not> DueForRemoval 9999 (fold RefreshTuple [1000, 2000, 3000, 4000, 5000] test_idle)"
  using idle_tuple_removed [OF test_idle_ok(1-5), of "[1000, 2000, 3000, 4000, 5000]"]
  by (simp add: test_idle_ok)

end
