(* ===== verification/Traffic_Items.thy ===== *)
theory Traffic_Items
  imports Traffic_Counter
begin

text \<open>
  The item tree of \<^verbatim>\<open>Util/Data/\<close> that the daemon keeps and sends to its clients: the system item
  with its applications, their processes, their sockets and, for UDP, the tuples of a socket.
  Each item extends \<open>ITrafficItem\<close>; a child map is an association list. The records are
  parametric in what stands for a \<^verbatim>\<open>shared_ptr\<close> to a child: an address where sharing matters (the
  system map), the child itself where the tree is only read (the rules, the clients).
\<close>

datatype ESocketConnectionState = ConnUnknown | Created | Connecting | Connected | Closed

text \<open>\<^verbatim>\<open>ESocketType::Type\<close>, bit flags.\<close>

abbreviation ST_Unknown :: u8 where "ST_Unknown \<equiv> 0"
abbreviation ST_Connect :: u8 where "ST_Connect \<equiv> 1"
abbreviation ST_Listen :: u8 where "ST_Listen \<equiv> 2"
abbreviation ST_Accept :: u8 where "ST_Accept \<equiv> 4"

record WTupleItem = ITrafficItem +
  TupleEndpoint :: WEndpoint

record 't WSocketItem = ITrafficItem +
  SocketTuple :: WSocketTuple
  UDPPerConnectionTraffic :: "'t list"
  Cookie :: WSocketCookie
  SocketType :: u8
  ConnectionState :: ESocketConnectionState

record 's WProcessItem = ITrafficItem +
  ProcessId :: WProcessId
  Sockets :: "(WSocketCookie, 's) umap"

record 'p WApplicationItem = ITrafficItem +
  ApplicationName :: string
  ApplicationPath :: string
  ApplicationCommandLine :: string
  Processes :: "(WProcessId, 'p) umap"

record WFilterItem = ITrafficItem +
  FilterName :: string

record ('f, 'a) WSystemItem = ITrafficItem +
  HostName :: string
  Filters :: "'f list"
  Applications :: "(string, 'a) umap"

text \<open>The tree as values.\<close>

type_synonym SocketTree = "WTupleItem WSocketItem"
type_synonym ProcessTree = "SocketTree WProcessItem"
type_synonym ApplicationTree = "ProcessTree WApplicationItem"
type_synonym SystemTree = "(WFilterItem, ApplicationTree) WSystemItem"

text \<open>A \<^verbatim>\<open>shared_ptr<ITrafficItem>\<close> and its dynamic type.\<close>

datatype traffic_item = SystemItemPtr SystemTree | ApplicationItemPtr ApplicationTree
  | ProcessItemPtr ProcessTree | SocketItemPtr SocketTree | TupleItemPtr WTupleItem | FilterItemPtr WFilterItem

fun GetType :: "traffic_item \<Rightarrow> ETrafficItemType" where
  "GetType (SystemItemPtr _) = TI_System"
| "GetType (ApplicationItemPtr _) = TI_Application"
| "GetType (ProcessItemPtr _) = TI_Process"
| "GetType (SocketItemPtr _) = TI_Socket"
| "GetType (TupleItemPtr _) = TI_Tuple"
| "GetType (FilterItemPtr _) = TI_Filter"

definition HaveUDPTuple :: "WEndpoint \<Rightarrow> SocketTree \<Rightarrow> bool" where
  "HaveUDPTuple E s \<longleftrightarrow> (\<exists>t \<in> set (UDPPerConnectionTraffic s). TupleEndpoint t = E)"

definition FindTuple :: "WEndpoint \<Rightarrow> SocketTree \<Rightarrow> WTupleItem option" where
  "FindTuple E s = find (\<lambda>t. TupleEndpoint t = E) (UDPPerConnectionTraffic s)"

definition EraseTuple :: "WEndpoint \<Rightarrow> SocketTree \<Rightarrow> SocketTree" where
  "EraseTuple E s = s\<lparr>UDPPerConnectionTraffic := filter (\<lambda>t. TupleEndpoint t \<noteq> E) (UDPPerConnectionTraffic s)\<rparr>"

text \<open>\<^verbatim>\<open>RemoveChild\<close>: erase the first child with the id, if there is one.\<close>

fun remove_child :: "('i \<Rightarrow> WTrafficItemId) \<Rightarrow> WTrafficItemId \<Rightarrow> ('k, 'i) umap \<Rightarrow> bool \<times> ('k, 'i) umap" where
  "remove_child idf Ident [] = (False, [])"
| "remove_child idf Ident ((k, i) # m) =
     (if idf i = Ident then (True, m) else let (ok, m1) = remove_child idf Ident m in (ok, (k, i) # m1))"

definition RemoveChildProcess :: "('s \<Rightarrow> WTrafficItemId) \<Rightarrow> WTrafficItemId \<Rightarrow> 's WProcessItem \<Rightarrow> bool \<times> 's WProcessItem" where
  "RemoveChildProcess idf Ident p = (let (ok, m) = remove_child idf Ident (Sockets p) in (ok, p\<lparr>Sockets := m\<rparr>))"

definition RemoveChildApplication :: "('p \<Rightarrow> WTrafficItemId) \<Rightarrow> WTrafficItemId \<Rightarrow> 'p WApplicationItem \<Rightarrow> bool \<times> 'p WApplicationItem" where
  "RemoveChildApplication idf Ident a = (let (ok, m) = remove_child idf Ident (Processes a) in (ok, a\<lparr>Processes := m\<rparr>))"

definition RemoveChildSystem :: "('a \<Rightarrow> WTrafficItemId) \<Rightarrow> WTrafficItemId \<Rightarrow> ('f, 'a) WSystemItem \<Rightarrow> bool \<times> ('f, 'a) WSystemItem" where
  "RemoveChildSystem idf Ident s = (let (ok, m) = remove_child idf Ident (Applications s) in (ok, s\<lparr>Applications := m\<rparr>))"

lemma FindTuple_iff: "HaveUDPTuple E s \<longleftrightarrow> FindTuple E s \<noteq> None"
  by (auto simp: HaveUDPTuple_def FindTuple_def find_None_iff)

lemma EraseTuple_gone [simp]: "\<not> HaveUDPTuple E (EraseTuple E s)"
  by (simp add: HaveUDPTuple_def EraseTuple_def)

lemma remove_child_distinct:
  "distinct (map (idf \<circ> snd) m) \<Longrightarrow>
     remove_child idf Ident m = (\<exists>p \<in> set m. idf (snd p) = Ident, filter (\<lambda>p. idf (snd p) \<noteq> Ident) m)"
proof (induction m)
  case (Cons p m)
  obtain k i where p: "p = (k, i)" by force
  show ?case
  proof (cases "idf i = Ident")
    case True
    then have "\<forall>q \<in> set m. idf (snd q) \<noteq> Ident" using Cons.prems p by force
    then show ?thesis using p True by (simp add: filter_True)
  qed (use Cons p in simp)
qed simp

end
