(* ===== verification/Ebpf_Maps.thy ===== *)
theory Ebpf_Maps
  imports IP_Address
begin

text \<open>
  The types the daemon shares with its kernel programs (\<^verbatim>\<open>Util/EBPFCommon.h\<close>), the kernel hash
  maps (\<^verbatim>\<open>EBPF/EBPFInternal.h\<close>) and the daemon's handle on them (\<^verbatim>\<open>Daemon/EBPF/EbpfMap.hpp\<close>).
  The kernel's side of a map is a HOL map. Whether the kernel takes an update (the maps have a
  fixed capacity) is decided by a parameter \<open>accepts\<close>; the interface the rest of the development
  uses is the locale \<open>kv_store\<close>, interpreted here for every \<open>accepts\<close>.
\<close>

section \<open>Shared types\<close>

type_synonym ESwitchState = u8

abbreviation SS_None :: ESwitchState where "SS_None \<equiv> 0"
abbreviation SS_Block :: ESwitchState where "SS_Block \<equiv> 1"
abbreviation SS_Allow :: ESwitchState where "SS_Allow \<equiv> 2"

record WTrafficItemRulesBase =
  UploadSwitch :: ESwitchState
  DownloadSwitch :: ESwitchState
  UploadMark :: u32
  DownloadMark :: u32

datatype EPacketDirection = PD_Outgoing | PD_Incoming

datatype ENetEventType = NE_SocketCreate | NE_SocketConnect_4 | NE_SocketConnect_6 | NE_SocketBind_4
  | NE_SocketBind_6 | NE_TCPSocketEstablished_4 | NE_TCPSocketEstablished_6 | NE_TCPSocketListening
  | NE_SocketAccept_4 | NE_SocketAccept_6 | NE_SocketClosed | NE_Traffic | NE_Synthetic

text \<open>The event payloads. The union \<^verbatim>\<open>{Addr4; Addr6[4]}\<close> is the list of its four words, of which
  \<^verbatim>\<open>Addr4\<close> is the first.\<close>

record WSocketBindEventData =
  BindUserPort :: u32
  bImplicitBind :: bool
  BindAddr :: "u32 list"

record WSocketConnectEventData =
  UserFamily :: u32
  ConnectProtocol :: u32
  ConnectUserPort :: u32
  ConnectAddr :: "u32 list"

record WSocketTCPEstablishedEventData =
  EstUserPort :: u32
  EstRemotePort :: u32
  bIsAccept :: bool
  EstAddr :: "u32 list"
  EstRemoteAddr :: "u32 list"

record WSocketTrafficEventData =
  RawData :: "u8 list"
  TrafficBytes :: u64
  Timestamp :: u64
  Direction :: EPacketDirection

record WSocketCreateEventData =
  CreateProtocol :: u32
  CreateFamily :: u32
  CreateType :: u32

record WSocketAcceptEventData =
  SourcePort :: u32
  DestinationPort :: u32
  AcceptFamily :: u32
  AcceptType :: u32
  SourceAddr :: "u32 list"
  DestinationAddr :: "u32 list"

datatype WSocketEventData = ConnectEventData WSocketConnectEventData
  | TrafficEventData WSocketTrafficEventData
  | SocketCreateEventData WSocketCreateEventData
  | TCPSocketEstablishedEventData WSocketTCPEstablishedEventData
  | SocketBindEventData WSocketBindEventData
  | SocketAcceptEventData WSocketAcceptEventData
  | SocketCloseEventData u32
  | ZeroEventData

record WSocketEvent =
  EventType :: ENetEventType
  EventCookie :: u64
  PidTgId :: u64
  CgroupId :: u64
  EventData :: WSocketEventData

section \<open>Kernel hash maps\<close>

text \<open>\<^verbatim>\<open>bpf_map_lookup_elem\<close>, \<^verbatim>\<open>bpf_map_update_elem\<close> with \<^verbatim>\<open>BPF_ANY\<close> and \<^verbatim>\<open>bpf_map_delete_elem\<close>
  on a hash map, and the results \<^verbatim>\<open>TEbpfMap\<close> makes of them.\<close>

definition Lookup :: "('k \<rightharpoonup> 'v) \<Rightarrow> 'k \<Rightarrow> 'v option" where
  "Lookup m k = m k"

definition Update :: "(('k \<rightharpoonup> 'v) \<Rightarrow> 'k \<Rightarrow> bool) \<Rightarrow> 'k \<Rightarrow> 'v \<Rightarrow> ('k \<rightharpoonup> 'v) \<Rightarrow> bool \<times> ('k \<rightharpoonup> 'v)" where
  "Update accepts k v m = (if accepts m k then (True, m(k \<mapsto> v)) else (False, m))"

definition Delete :: "'k \<Rightarrow> ('k \<rightharpoonup> 'v) \<Rightarrow> bool \<times> ('k \<rightharpoonup> 'v)" where
  "Delete k m = (m k \<noteq> None, m(k := None))"

text \<open>The documented capacity rule: an existing key can be overwritten, a new one needs a free slot.\<close>

definition has_room :: "nat \<Rightarrow> ('k \<rightharpoonup> 'v) \<Rightarrow> 'k \<Rightarrow> bool" where
  "has_room max_entries m k \<longleftrightarrow> m k \<noteq> None \<or> card (dom m) < max_entries"

interpretation ebpf: kv_store Lookup "Update accepts" Delete for accepts
  by unfold_locales (auto simp: Lookup_def Update_def Delete_def split: if_splits)

lemma has_room_bound:
  "finite (dom m) \<Longrightarrow> card (dom m) \<le> n \<Longrightarrow> Update (has_room n) k v m = (ok, m') \<Longrightarrow>
     finite (dom m') \<and> card (dom m') \<le> n"
  by (auto simp: Update_def has_room_def card_insert_if split: if_splits)

text \<open>The maps of one loaded program, as the daemon's \<^verbatim>\<open>WEbpfData\<close> holds them.\<close>

record kernel_maps =
  socket_rules :: "WSocketCookie \<rightharpoonup> WTrafficItemRulesBase"
  ingress_port_marks :: "u16 \<rightharpoonup> u16"
  pid_download_marks :: "u32 \<rightharpoonup> u32"
  port_to_pid :: "u16 \<rightharpoonup> u32"

text \<open>The kernel's decision per map.\<close>

record kernel_accepts =
  accepts_rules :: "(WSocketCookie \<rightharpoonup> WTrafficItemRulesBase) \<Rightarrow> WSocketCookie \<Rightarrow> bool"
  accepts_marks :: "(u16 \<rightharpoonup> u16) \<Rightarrow> u16 \<Rightarrow> bool"
  accepts_pid_marks :: "(u32 \<rightharpoonup> u32) \<Rightarrow> u32 \<Rightarrow> bool"
  accepts_ports :: "(u16 \<rightharpoonup> u32) \<Rightarrow> u16 \<Rightarrow> bool"

definition UpdateSocketRules :: "kernel_accepts \<Rightarrow> WSocketCookie \<Rightarrow> WTrafficItemRulesBase \<Rightarrow> kernel_maps \<Rightarrow> bool \<times> kernel_maps" where
  "UpdateSocketRules A Cookie Rules K =
     (let (ok, m) = Update (accepts_rules A) Cookie Rules (socket_rules K) in (ok, K\<lparr>socket_rules := m\<rparr>))"

definition UpdateSocketMarks :: "kernel_accepts \<Rightarrow> u16 \<Rightarrow> u16 \<Rightarrow> kernel_maps \<Rightarrow> bool \<times> kernel_maps" where
  "UpdateSocketMarks A DestPort Mark K =
     (let (ok, m) = Update (accepts_marks A) DestPort Mark (ingress_port_marks K) in (ok, K\<lparr>ingress_port_marks := m\<rparr>))"

definition UpdatePidDownloadMarks :: "kernel_accepts \<Rightarrow> u32 \<Rightarrow> u32 \<Rightarrow> kernel_maps \<Rightarrow> bool \<times> kernel_maps" where
  "UpdatePidDownloadMarks A Pid Mark K =
     (let (ok, m) = Update (accepts_pid_marks A) Pid Mark (pid_download_marks K) in (ok, K\<lparr>pid_download_marks := m\<rparr>))"

definition DeletePidDownloadMarks :: "u32 \<Rightarrow> kernel_maps \<Rightarrow> bool \<times> kernel_maps" where
  "DeletePidDownloadMarks Pid K =
     (let (ok, m) = Delete Pid (pid_download_marks K) in (ok, K\<lparr>pid_download_marks := m\<rparr>))"

definition UpdatePortToPid :: "kernel_accepts \<Rightarrow> u16 \<Rightarrow> u32 \<Rightarrow> kernel_maps \<Rightarrow> bool \<times> kernel_maps" where
  "UpdatePortToPid A DestPort Pid K =
     (let (ok, m) = Update (accepts_ports A) DestPort Pid (port_to_pid K) in (ok, K\<lparr>port_to_pid := m\<rparr>))"

lemma Lookup_id [simp]: "Lookup m = m"
  by (rule ext) (simp add: Lookup_def)

lemma socket_rules_UpdateSocketRules:
  "socket_rules (snd (UpdateSocketRules A k r K)) =
     (if fst (UpdateSocketRules A k r K) then (socket_rules K)(k \<mapsto> r) else socket_rules K)"
  using ebpf.update_cases [of "accepts_rules A" k r "socket_rules K"]
  by (simp add: UpdateSocketRules_def split_beta)

lemma maps_frame [simp]:
  "socket_rules (snd (UpdateSocketMarks A p m K)) = socket_rules K"
  "socket_rules (snd (UpdatePidDownloadMarks A i m' K)) = socket_rules K"
  "socket_rules (snd (DeletePidDownloadMarks i K)) = socket_rules K"
  "socket_rules (snd (UpdatePortToPid A p i K)) = socket_rules K"
  "ingress_port_marks (snd (UpdateSocketRules A k r K)) = ingress_port_marks K"
  "ingress_port_marks (snd (UpdatePidDownloadMarks A i m' K)) = ingress_port_marks K"
  "ingress_port_marks (snd (DeletePidDownloadMarks i K)) = ingress_port_marks K"
  "pid_download_marks (snd (UpdateSocketRules A k r K)) = pid_download_marks K"
  "pid_download_marks (snd (UpdateSocketMarks A p m K)) = pid_download_marks K"
  by (simp_all add: UpdateSocketMarks_def UpdatePidDownloadMarks_def DeletePidDownloadMarks_def
      UpdatePortToPid_def UpdateSocketRules_def split_beta)

end
