(* ===== verification/IP_Link.thy ===== *)
theory IP_Link
  imports Ebpf_Maps
begin

text \<open>
  \<^verbatim>\<open>Daemon/Net/IPLink.cpp\<close>: the daemon's registry of bandwidth limits. Every limit owns a packet
  mark and a traffic class; the classes live in the kernel and are managed by the privileged
  helper \<^verbatim>\<open>waechter-iplink\<close>, to which the registry sends messages (\<^verbatim>\<open>Util/IPLinkMsg.hpp\<close>). \<open>SentMsgs\<close> is
  what went into the socket, in order. A limit removed from a registry map dies there: nothing
  else keeps the \<^verbatim>\<open>shared_ptr\<close>, so its destructor runs at the erase.
\<close>

section \<open>Model\<close>

datatype ELimitDirection = Upload | Download

record WBandwidthLimit =
  LimitDirection :: ELimitDirection
  Mark :: u32
  MinorId :: u16
  bIsRoot :: bool
  RateLimit :: WBytesPerSecond

datatype EIPLinkMsgType = Exit | SetupHtbClassType | RemoveHtbClassType | LookupEndpointsType

record WRemoveHtbClassMsg =
  rmInterfaceName :: string
  rmMark :: u32
  rmMinorId :: u16
  rmIsRoot :: bool

record WSetupHtbClassMsg =
  suInterfaceName :: string
  suMark :: u32
  suMinorId :: u16
  suIsRoot :: bool
  suRateLimit :: WBytesPerSecond

record WIPLinkMsg =
  MsgType :: EIPLinkMsgType
  SetupHtbClassMsg :: "WSetupHtbClassMsg option"
  RemoveHtbClassMsg :: "WRemoveHtbClassMsg option"
  LookupEndpointsMsg :: "WEndpoint list option"

definition WIPLinkMsg_init :: "EIPLinkMsgType \<Rightarrow> WIPLinkMsg" where
  "WIPLinkMsg_init T = \<lparr>MsgType = T, SetupHtbClassMsg = None, RemoveHtbClassMsg = None, LookupEndpointsMsg = None\<rparr>"

record WIPLink =
  NextMark :: u32
  NextMinorId :: u16
  ActiveUploadLimits :: "(WTrafficItemId, WBandwidthLimit) umap"
  ActiveDownloadLimits :: "(WTrafficItemId, WBandwidthLimit) umap"
  SentMsgs :: "WIPLinkMsg list"

definition WIPLink_init :: WIPLink where
  "WIPLink_init = \<lparr>NextMark = 1, NextMinorId = 11, ActiveUploadLimits = [], ActiveDownloadLimits = [], SentMsgs = []\<rparr>"

definition IfbDev :: string where "IfbDev = ''ifb0''"

text \<open>\<open>Net\<close> is the configured main interface (\<^verbatim>\<open>WDaemonConfig::NetworkInterfaceName\<close>).\<close>

definition SendMsg :: "WIPLinkMsg \<Rightarrow> WIPLink \<Rightarrow> WIPLink" where
  "SendMsg m s = s\<lparr>SentMsgs := SentMsgs s @ [m]\<rparr>"

definition WBandwidthLimit_destroy :: "string \<Rightarrow> WBandwidthLimit \<Rightarrow> WIPLink \<Rightarrow> WIPLink" where
  "WBandwidthLimit_destroy Net l s =
     (let IfName = (if LimitDirection l = Upload then Net else IfbDev) in
      SendMsg ((WIPLinkMsg_init RemoveHtbClassType)\<lparr>RemoveHtbClassMsg :=
        Some \<lparr>rmInterfaceName = IfName, rmMark = Mark l, rmMinorId = MinorId l, rmIsRoot = bIsRoot l\<rparr>\<rparr>) s)"

definition SetupHTBLimitClass :: "WBandwidthLimit \<Rightarrow> string \<Rightarrow> bool \<Rightarrow> WIPLink \<Rightarrow> WIPLink" where
  "SetupHTBLimitClass Limit IfName Root s =
     SendMsg ((WIPLinkMsg_init SetupHtbClassType)\<lparr>SetupHtbClassMsg :=
       Some \<lparr>suInterfaceName = IfName, suMark = Mark Limit, suMinorId = MinorId Limit, suIsRoot = Root,
             suRateLimit = RateLimit Limit\<rparr>\<rparr>) s"

definition SetupEgressHTBClass :: "string \<Rightarrow> WBandwidthLimit \<Rightarrow> bool \<Rightarrow> WIPLink \<Rightarrow> WIPLink" where
  "SetupEgressHTBClass Net Limit Root s = SetupHTBLimitClass Limit Net Root s"

definition SetupIngressHTBClass :: "WBandwidthLimit \<Rightarrow> bool \<Rightarrow> WIPLink \<Rightarrow> WIPLink" where
  "SetupIngressHTBClass Limit Root s = SetupHTBLimitClass Limit IfbDev Root s"

definition RemoveUploadLimit :: "string \<Rightarrow> WTrafficItemId \<Rightarrow> WIPLink \<Rightarrow> WIPLink" where
  "RemoveUploadLimit Net Item s =
     (case map_of (ActiveUploadLimits s) Item of
        None \<Rightarrow> s
      | Some l \<Rightarrow> WBandwidthLimit_destroy Net l (s\<lparr>ActiveUploadLimits := AList.delete Item (ActiveUploadLimits s)\<rparr>))"

definition RemoveDownloadLimit :: "string \<Rightarrow> WTrafficItemId \<Rightarrow> WIPLink \<Rightarrow> WIPLink" where
  "RemoveDownloadLimit Net Item s =
     (case map_of (ActiveDownloadLimits s) Item of
        None \<Rightarrow> s
      | Some l \<Rightarrow> WBandwidthLimit_destroy Net l (s\<lparr>ActiveDownloadLimits := AList.delete Item (ActiveDownloadLimits s)\<rparr>))"

definition GetUploadLimit :: "string \<Rightarrow> WTrafficItemId \<Rightarrow> WBytesPerSecond \<Rightarrow> WIPLink \<Rightarrow> WBandwidthLimit \<times> WIPLink" where
  "GetUploadLimit Net Item Limit s =
     (case map_of (ActiveUploadLimits s) Item of
        Some l \<Rightarrow>
          if RateLimit l \<noteq> Limit
          then let l1 = l\<lparr>RateLimit := Limit\<rparr> in
            (l1, SetupEgressHTBClass Net l1 (Item = 0) (s\<lparr>ActiveUploadLimits := AList.update Item l1 (ActiveUploadLimits s)\<rparr>))
          else (l, s)
      | None \<Rightarrow>
          let l = \<lparr>LimitDirection = Upload, Mark = NextMark s, MinorId = NextMinorId s, bIsRoot = (Item = 0), RateLimit = Limit\<rparr>;
              s1 = s\<lparr>NextMark := NextMark s + 1, NextMinorId := NextMinorId s + 1,
                     ActiveUploadLimits := AList.update Item l (ActiveUploadLimits s)\<rparr>
          in (l, SetupEgressHTBClass Net l (Item = 0) s1))"

definition GetDownloadLimit :: "WTrafficItemId \<Rightarrow> WBytesPerSecond \<Rightarrow> WIPLink \<Rightarrow> WBandwidthLimit \<times> WIPLink" where
  "GetDownloadLimit Item Limit s =
     (case map_of (ActiveDownloadLimits s) Item of
        Some l \<Rightarrow>
          if RateLimit l \<noteq> Limit
          then let l1 = l\<lparr>RateLimit := Limit\<rparr> in
            (l1, SetupIngressHTBClass l1 (Item = 0) (s\<lparr>ActiveDownloadLimits := AList.update Item l1 (ActiveDownloadLimits s)\<rparr>))
          else (l, s)
      | None \<Rightarrow>
          let l = \<lparr>LimitDirection = Download, Mark = NextMark s, MinorId = NextMinorId s, bIsRoot = (Item = 0), RateLimit = Limit\<rparr>;
              s1 = s\<lparr>NextMark := NextMark s + 1, NextMinorId := NextMinorId s + 1,
                     ActiveDownloadLimits := AList.update Item l (ActiveDownloadLimits s)\<rparr>
          in (l, SetupIngressHTBClass l (Item = 0) s1))"

definition Deinit :: "string \<Rightarrow> WIPLink \<Rightarrow> WIPLink" where
  "Deinit Net s =
     (let s1 = fold (\<lambda>p. WBandwidthLimit_destroy Net (snd p)) (ActiveUploadLimits s) (s\<lparr>ActiveUploadLimits := []\<rparr>)
      in fold (\<lambda>p. WBandwidthLimit_destroy Net (snd p)) (ActiveDownloadLimits s1) (s1\<lparr>ActiveDownloadLimits := []\<rparr>))"

definition SendLookupMessage :: "WEndpoint list \<Rightarrow> WIPLink \<Rightarrow> WIPLink" where
  "SendLookupMessage Endpoints s =
     SendMsg ((WIPLinkMsg_init LookupEndpointsType)\<lparr>LookupEndpointsMsg := Some Endpoints\<rparr>) s"

text \<open>The static functions on the kernel maps.\<close>

definition SetupIngressPortRouting :: "kernel_accepts \<Rightarrow> u32 \<Rightarrow> u16 \<Rightarrow> kernel_maps \<Rightarrow> kernel_maps" where
  "SetupIngressPortRouting A DMark DestPort K = snd (UpdateSocketMarks A DestPort (ucast DMark) K)"

definition RemoveIngressPortRouting :: "kernel_accepts \<Rightarrow> u16 \<Rightarrow> kernel_maps \<Rightarrow> kernel_maps" where
  "RemoveIngressPortRouting A DestPort K = snd (UpdateSocketMarks A DestPort 0 K)"

definition SetPidDownloadMark :: "kernel_accepts \<Rightarrow> u32 \<Rightarrow> u32 \<Rightarrow> kernel_maps \<Rightarrow> kernel_maps" where
  "SetPidDownloadMark A Pid DMark K = snd (UpdatePidDownloadMarks A Pid DMark K)"

definition RemovePidDownloadMark :: "u32 \<Rightarrow> kernel_maps \<Rightarrow> kernel_maps" where
  "RemovePidDownloadMark Pid K = snd (DeletePidDownloadMarks Pid K)"

text \<open>\<^verbatim>\<open>WIPLink::OnSocketRemoved\<close> for a socket with this item id and local port.\<close>

definition IPLink_OnSocketRemoved :: "kernel_accepts \<Rightarrow> string \<Rightarrow> WTrafficItemId \<Rightarrow> u16 \<Rightarrow> WIPLink \<times> kernel_maps \<Rightarrow> WIPLink \<times> kernel_maps" where
  "IPLink_OnSocketRemoved A Net Item LocalPort st =
     (case st of (s, K) \<Rightarrow>
        (RemoveUploadLimit Net Item (RemoveDownloadLimit Net Item s), RemoveIngressPortRouting A LocalPort K))"


section \<open>The helper's view as a specification\<close>

text \<open>What the messages build on the other side: the shaping classes with their filter mark and rate,
  and the rate of the root class of an interface (\<open>None\<close>: the 1 Gbit default).\<close>

record htb_table =
  htb_class :: "string \<times> u16 \<rightharpoonup> u32 \<times> WBytesPerSecond"
  htb_root :: "string \<rightharpoonup> WBytesPerSecond"

definition htb_init :: htb_table where
  "htb_init = \<lparr>htb_class = Map.empty, htb_root = Map.empty\<rparr>"

definition htb_setup :: "WSetupHtbClassMsg \<Rightarrow> htb_table \<Rightarrow> htb_table" where
  "htb_setup m T =
     (if suIsRoot m then T\<lparr>htb_root := (htb_root T)(suInterfaceName m \<mapsto> suRateLimit m)\<rparr>
      else T\<lparr>htb_class := (htb_class T)((suInterfaceName m, suMinorId m) \<mapsto> (suMark m, suRateLimit m))\<rparr>)"

definition htb_remove :: "WRemoveHtbClassMsg \<Rightarrow> htb_table \<Rightarrow> htb_table" where
  "htb_remove m T =
     (if rmIsRoot m then T\<lparr>htb_root := (htb_root T)(rmInterfaceName m := None)\<rparr>
      else T\<lparr>htb_class := (htb_class T)((rmInterfaceName m, rmMinorId m) := None)\<rparr>)"

definition htb_apply :: "WIPLinkMsg \<Rightarrow> htb_table \<Rightarrow> htb_table" where
  "htb_apply m T =
     (if MsgType m = SetupHtbClassType then (case SetupHtbClassMsg m of None \<Rightarrow> T | Some d \<Rightarrow> htb_setup d T)
      else if MsgType m = RemoveHtbClassType then (case RemoveHtbClassMsg m of None \<Rightarrow> T | Some d \<Rightarrow> htb_remove d T)
      else T)"

definition htb_of :: "WIPLink \<Rightarrow> htb_table" where
  "htb_of s = fold htb_apply (SentMsgs s) htb_init"

definition iface :: "string \<Rightarrow> ELimitDirection \<Rightarrow> string" where
  "iface Net d = (if d = Upload then Net else IfbDev)"

definition limit_of :: "WIPLink \<Rightarrow> ELimitDirection \<Rightarrow> WTrafficItemId \<rightharpoonup> WBandwidthLimit" where
  "limit_of s d = map_of (if d = Upload then ActiveUploadLimits s else ActiveDownloadLimits s)"

text \<open>The registry and the table agree: every class belongs to exactly one limit, and marks are
  given out once. \<open>n\<close> is the next mark.\<close>

definition limit_ok :: "nat \<Rightarrow> ELimitDirection \<Rightarrow> WTrafficItemId \<Rightarrow> WBandwidthLimit \<Rightarrow> bool" where
  "limit_ok n d Item l \<longleftrightarrow> LimitDirection l = d \<and> bIsRoot l = (Item = 0) \<and> 1 \<le> unat (Mark l) \<and> unat (Mark l) < n
     \<and> unat (MinorId l) = unat (Mark l) + 10"

definition registry_ok :: "nat \<Rightarrow> (ELimitDirection \<Rightarrow> WTrafficItemId \<rightharpoonup> WBandwidthLimit) \<Rightarrow> bool" where
  "registry_ok n L \<longleftrightarrow> (\<forall>d i l. L d i = Some l \<longrightarrow> limit_ok n d i l)
     \<and> (\<forall>d i l d' i' l'. L d i = Some l \<longrightarrow> L d' i' = Some l' \<longrightarrow> Mark l = Mark l' \<longrightarrow> d = d' \<and> i = i')"

definition mirrors :: "string \<Rightarrow> (ELimitDirection \<Rightarrow> WTrafficItemId \<rightharpoonup> WBandwidthLimit) \<Rightarrow> htb_table \<Rightarrow> bool" where
  "mirrors Net L T \<longleftrightarrow>
     (\<forall>f m k r. htb_class T (f, m) = Some (k, r) \<longleftrightarrow>
        (\<exists>d i l. L d i = Some l \<and> i \<noteq> 0 \<and> f = iface Net d \<and> m = MinorId l \<and> k = Mark l \<and> r = RateLimit l))
     \<and> (\<forall>d. htb_root T (iface Net d) = map_option RateLimit (L d 0))"

abbreviation lim_put where
  "lim_put L d i v \<equiv> L(d := (L d)(i := v))"

definition setup_msg :: "string \<Rightarrow> WBandwidthLimit \<Rightarrow> bool \<Rightarrow> WSetupHtbClassMsg" where
  "setup_msg f l rt = \<lparr>suInterfaceName = f, suMark = Mark l, suMinorId = MinorId l, suIsRoot = rt, suRateLimit = RateLimit l\<rparr>"

definition remove_msg :: "string \<Rightarrow> WBandwidthLimit \<Rightarrow> WRemoveHtbClassMsg" where
  "remove_msg f l = \<lparr>rmInterfaceName = f, rmMark = Mark l, rmMinorId = MinorId l, rmIsRoot = bIsRoot l\<rparr>"

lemma iface_inj [simp]: "Net \<noteq> IfbDev \<Longrightarrow> iface Net d = iface Net d' \<longleftrightarrow> d = d'"
  by (cases d; cases d') (auto simp: iface_def)

lemma mark_of_minor:
  assumes "limit_ok n d i l" and "limit_ok n' d' i' l'" and "MinorId l = MinorId l'"
  shows "Mark l = Mark l'"
proof -
  have "unat (Mark l) = unat (Mark l')" using assms by (auto simp: limit_ok_def)
  then show ?thesis by (simp add: word_unat_eq_iff)
qed

lemma registry_put:
  assumes "registry_ok n L" and "limit_ok n' d i l" and "n \<le> n'"
    and "\<And>d' i' l'. L d' i' = Some l' \<Longrightarrow> Mark l' = Mark l \<Longrightarrow> d' = d \<and> i' = i"
  shows "registry_ok n' (lim_put L d i (Some l))"
  using assms unfolding registry_ok_def
  by (auto simp: limit_ok_def split: if_splits) (metis le_trans less_le_trans)+

lemma registry_del: "registry_ok n L \<Longrightarrow> registry_ok n (lim_put L d i None)"
  unfolding registry_ok_def by (auto split: if_splits)

lemma registry_ok_limit: "registry_ok n L \<Longrightarrow> L d i = Some l \<Longrightarrow> limit_ok n d i l"
  by (simp add: registry_ok_def)

lemma registry_inj:
  assumes "registry_ok n L" and "L d i = Some l" and "L d' i' = Some l'" and "MinorId l = MinorId l'"
  shows "d = d' \<and> i = i'"
proof -
  have "Mark l = Mark l'" using assms registry_ok_limit [of n L] by (blast intro: mark_of_minor)
  then show ?thesis using assms unfolding registry_ok_def by blast
qed

lemma mirrors_put:
  assumes net: "Net \<noteq> IfbDev" and M: "mirrors Net L T"
    and R: "registry_ok n (lim_put L d i (Some l))"
    and old: "\<And>l0. L d i = Some l0 \<Longrightarrow> MinorId l0 = MinorId l"
  shows "mirrors Net (lim_put L d i (Some l)) (htb_setup (setup_msg (iface Net d) l (i = 0)) T)"
proof (cases "i = 0")
  case True
  have c: "htb_class (htb_setup (setup_msg (iface Net d) l (i = 0)) T) = htb_class T"
    using True by (simp add: htb_setup_def setup_msg_def)
  have "(\<exists>d' i' l'. lim_put L d i (Some l) d' i' = Some l' \<and> i' \<noteq> 0 \<and> P d' l') \<longleftrightarrow>
      (\<exists>d' i' l'. L d' i' = Some l' \<and> i' \<noteq> 0 \<and> P d' l')" for P
    using True by (metis fun_upd_apply)
  then show ?thesis using M True net c unfolding mirrors_def
    by (auto simp: htb_setup_def setup_msg_def)
next
  case False
  let ?L = "lim_put L d i (Some l)" and ?T = "htb_setup (setup_msg (iface Net d) l (i = 0)) T"
  have c: "htb_class ?T = (htb_class T)((iface Net d, MinorId l) \<mapsto> (Mark l, RateLimit l))" "htb_root ?T = htb_root T"
    using False by (simp_all add: htb_setup_def setup_msg_def)
  have here: "?L d i = Some l" by simp
  have "htb_class ?T (f, m) = Some (k, r) \<longleftrightarrow>
      (\<exists>d' i' l'. ?L d' i' = Some l' \<and> i' \<noteq> 0 \<and> f = iface Net d' \<and> m = MinorId l' \<and> k = Mark l' \<and> r = RateLimit l')" for f m k r
  proof (cases "(f, m) = (iface Net d, MinorId l)")
    case True
    have only: "l' = l" if "?L d' i' = Some l'" "MinorId l = MinorId l'" for d' i' l'
      using registry_inj [OF R here that] here that(1) by (metis option.inject)
    have "htb_class ?T (f, m) = Some (k, r) \<longleftrightarrow> k = Mark l \<and> r = RateLimit l"
      using True c by auto
    also have "\<dots> \<longleftrightarrow> (\<exists>d' i' l'. ?L d' i' = Some l' \<and> i' \<noteq> 0 \<and> f = iface Net d' \<and> m = MinorId l' \<and> k = Mark l' \<and> r = RateLimit l')"
      using True False here only by (metis Pair_inject)
    finally show ?thesis .
  next
    case out: False
    have eq: "?L d' i' = Some l' \<and> i' \<noteq> 0 \<and> f = iface Net d' \<and> m = MinorId l' \<and> k = Mark l' \<and> r = RateLimit l' \<longleftrightarrow>
        L d' i' = Some l' \<and> i' \<noteq> 0 \<and> f = iface Net d' \<and> m = MinorId l' \<and> k = Mark l' \<and> r = RateLimit l'" for d' i' l'
      using out old by (cases "d' = d \<and> i' = i") auto
    have "htb_class ?T (f, m) = htb_class T (f, m)" using out c by auto
    then show ?thesis using M unfolding mirrors_def eq by metis
  qed
  moreover have "htb_root ?T (iface Net d') = map_option RateLimit (?L d' 0)" for d'
    using False M c by (simp add: mirrors_def)
  ultimately show ?thesis unfolding mirrors_def by (intro conjI allI)
qed

lemma mirrors_del:
  assumes net: "Net \<noteq> IfbDev" and M: "mirrors Net L T" and R: "registry_ok n L" and here: "L d i = Some l"
  shows "mirrors Net (lim_put L d i None) (htb_remove (remove_msg (iface Net d) l) T)"
proof (cases "i = 0")
  case True
  then have root: "bIsRoot l" using registry_ok_limit [OF R here] by (simp add: limit_ok_def)
  have "(\<exists>d' i' l'. lim_put L d i None d' i' = Some l' \<and> i' \<noteq> 0 \<and> P d' l') \<longleftrightarrow>
      (\<exists>d' i' l'. L d' i' = Some l' \<and> i' \<noteq> 0 \<and> P d' l')" for P
    using True by (metis fun_upd_apply)
  then show ?thesis using M True net root unfolding mirrors_def
    by (auto simp: htb_remove_def remove_msg_def)
next
  case False
  then have nroot: "\<not> bIsRoot l" using registry_ok_limit [OF R here] by (simp add: limit_ok_def)
  let ?L = "lim_put L d i None" and ?T = "htb_remove (remove_msg (iface Net d) l) T"
  have c: "htb_class ?T = (htb_class T)((iface Net d, MinorId l) := None)" "htb_root ?T = htb_root T"
    using nroot by (simp_all add: htb_remove_def remove_msg_def)
  have "htb_class ?T (f, m) = Some (k, r) \<longleftrightarrow>
      (\<exists>d' i' l'. ?L d' i' = Some l' \<and> i' \<noteq> 0 \<and> f = iface Net d' \<and> m = MinorId l' \<and> k = Mark l' \<and> r = RateLimit l')" for f m k r
  proof (cases "(f, m) = (iface Net d, MinorId l)")
    case True
    have "MinorId l \<noteq> MinorId l'" if "?L d' i' = Some l'" for d' i' l'
    proof
      assume m: "MinorId l = MinorId l'"
      have "L d' i' = Some l'" using that by (simp split: if_splits)
      with registry_inj [OF R here this m] that show False by simp
    qed
    moreover have "htb_class ?T (f, m) = None" using True c by simp
    ultimately show ?thesis using True by (metis Pair_inject option.distinct(1))
  next
    case out: False
    have eq: "?L d' i' = Some l' \<and> i' \<noteq> 0 \<and> f = iface Net d' \<and> m = MinorId l' \<and> k = Mark l' \<and> r = RateLimit l' \<longleftrightarrow>
        L d' i' = Some l' \<and> i' \<noteq> 0 \<and> f = iface Net d' \<and> m = MinorId l' \<and> k = Mark l' \<and> r = RateLimit l'" for d' i' l'
      using out here by (cases "d' = d \<and> i' = i") auto
    have "htb_class ?T (f, m) = htb_class T (f, m)" using out c by auto
    then show ?thesis using M unfolding mirrors_def eq by metis
  qed
  moreover have "htb_root ?T (iface Net d') = map_option RateLimit (?L d' 0)" for d'
    using False M c by (simp add: mirrors_def)
  ultimately show ?thesis unfolding mirrors_def by (intro conjI allI)
qed

section \<open>The operations keep the registry and the helper in step\<close>

definition link_inv :: "string \<Rightarrow> nat \<Rightarrow> WIPLink \<Rightarrow> bool" where
  "link_inv Net n s \<longleftrightarrow> unat (NextMark s) = n \<and> 1 \<le> n \<and> unat (NextMinorId s) = n + 10
     \<and> registry_ok n (limit_of s) \<and> mirrors Net (limit_of s) (htb_of s)"

lemma htb_of_setup: "htb_of (SetupHTBLimitClass l f rt s) = htb_setup (setup_msg f l rt) (htb_of s)"
  by (simp add: htb_of_def SetupHTBLimitClass_def SendMsg_def WIPLinkMsg_init_def htb_apply_def setup_msg_def)

lemma htb_of_destroy: "LimitDirection l = d \<Longrightarrow>
    htb_of (WBandwidthLimit_destroy Net l s) = htb_remove (remove_msg (iface Net d) l) (htb_of s)"
  by (cases d) (simp_all add: htb_of_def WBandwidthLimit_destroy_def SendMsg_def WIPLinkMsg_init_def
      htb_apply_def remove_msg_def iface_def)

lemma link_frame [simp]:
  "limit_of (SetupHTBLimitClass l f rt s) = limit_of s" "NextMark (SetupHTBLimitClass l f rt s) = NextMark s"
  "NextMinorId (SetupHTBLimitClass l f rt s) = NextMinorId s"
  "limit_of (WBandwidthLimit_destroy Net l s) = limit_of s" "NextMark (WBandwidthLimit_destroy Net l s) = NextMark s"
  "NextMinorId (WBandwidthLimit_destroy Net l s) = NextMinorId s"
  by (simp_all add: SetupHTBLimitClass_def WBandwidthLimit_destroy_def SendMsg_def limit_of_def fun_eq_iff)

text \<open>The two directions of each operation are one operation on \<open>limit_of\<close>.\<close>

fun lim_update :: "ELimitDirection \<Rightarrow> WTrafficItemId \<Rightarrow> WBandwidthLimit \<Rightarrow> WIPLink \<Rightarrow> WIPLink" where
  "lim_update Upload i l s = s\<lparr>ActiveUploadLimits := AList.update i l (ActiveUploadLimits s)\<rparr>"
| "lim_update Download i l s = s\<lparr>ActiveDownloadLimits := AList.update i l (ActiveDownloadLimits s)\<rparr>"

fun lim_delete :: "ELimitDirection \<Rightarrow> WTrafficItemId \<Rightarrow> WIPLink \<Rightarrow> WIPLink" where
  "lim_delete Upload i s = s\<lparr>ActiveUploadLimits := AList.delete i (ActiveUploadLimits s)\<rparr>"
| "lim_delete Download i s = s\<lparr>ActiveDownloadLimits := AList.delete i (ActiveDownloadLimits s)\<rparr>"

fun get_limit :: "string \<Rightarrow> ELimitDirection \<Rightarrow> WTrafficItemId \<Rightarrow> WBytesPerSecond \<Rightarrow> WIPLink \<Rightarrow> WBandwidthLimit \<times> WIPLink" where
  "get_limit Net Upload i r s = GetUploadLimit Net i r s"
| "get_limit Net Download i r s = GetDownloadLimit i r s"

fun remove_limit :: "string \<Rightarrow> ELimitDirection \<Rightarrow> WTrafficItemId \<Rightarrow> WIPLink \<Rightarrow> WIPLink" where
  "remove_limit Net Upload i s = RemoveUploadLimit Net i s"
| "remove_limit Net Download i s = RemoveDownloadLimit Net i s"

lemma lim_update [simp]: "limit_of (lim_update d i l s) = lim_put (limit_of s) d i (Some l)"
proof (intro ext)
  fix d' j
  show "limit_of (lim_update d i l s) d' j = (lim_put (limit_of s) d i (Some l)) d' j"
    by (cases d; cases d') (simp_all add: limit_of_def)
qed

lemma lim_update_frame [simp]:
  "NextMark (lim_update d i l s) = NextMark s" "NextMinorId (lim_update d i l s) = NextMinorId s"
  "htb_of (lim_update d i l s) = htb_of s"
  by (cases d; simp add: htb_of_def)+

lemma lim_delete [simp]: "limit_of (lim_delete d i s) = lim_put (limit_of s) d i None"
proof (intro ext)
  fix d' j
  show "limit_of (lim_delete d i s) d' j = (lim_put (limit_of s) d i None) d' j"
    by (cases d; cases d') (simp_all add: limit_of_def)
qed

lemma lim_delete_frame [simp]:
  "NextMark (lim_delete d i s) = NextMark s" "NextMinorId (lim_delete d i s) = NextMinorId s"
  "htb_of (lim_delete d i s) = htb_of s"
  by (cases d; simp add: htb_of_def)+

lemma lim_next [simp]:
  "limit_of (s\<lparr>NextMark := a, NextMinorId := b\<rparr>) = limit_of s" "htb_of (s\<lparr>NextMark := a, NextMinorId := b\<rparr>) = htb_of s"
  by (simp_all add: limit_of_def htb_of_def fun_eq_iff)

lemma get_limit_cases:
  "get_limit Net d i r s =
     (case limit_of s d i of
        Some l \<Rightarrow> if RateLimit l \<noteq> r
          then (l\<lparr>RateLimit := r\<rparr>, SetupHTBLimitClass (l\<lparr>RateLimit := r\<rparr>) (iface Net d) (i = 0) (lim_update d i (l\<lparr>RateLimit := r\<rparr>) s))
          else (l, s)
      | None \<Rightarrow> let l = \<lparr>LimitDirection = d, Mark = NextMark s, MinorId = NextMinorId s, bIsRoot = (i = 0), RateLimit = r\<rparr>
          in (l, SetupHTBLimitClass l (iface Net d) (i = 0)
                  (lim_update d i l (s\<lparr>NextMark := NextMark s + 1, NextMinorId := NextMinorId s + 1\<rparr>))))"
  by (cases d) (simp_all add: GetUploadLimit_def GetDownloadLimit_def limit_of_def iface_def SetupEgressHTBClass_def
      SetupIngressHTBClass_def Let_def split: option.splits)

lemma remove_limit_cases:
  "remove_limit Net d i s =
     (case limit_of s d i of None \<Rightarrow> s | Some l \<Rightarrow> WBandwidthLimit_destroy Net l (lim_delete d i s))"
  by (cases d) (simp_all add: RemoveUploadLimit_def RemoveDownloadLimit_def limit_of_def split: option.splits)

lemma link_inv_existing:
  assumes net: "Net \<noteq> IfbDev" and inv: "link_inv Net n s" and here: "limit_of s d i = Some l"
  shows "link_inv Net n (SetupHTBLimitClass (l\<lparr>RateLimit := r\<rparr>) (iface Net d) (i = 0) (lim_update d i (l\<lparr>RateLimit := r\<rparr>) s))"
proof -
  let ?l = "l\<lparr>RateLimit := r\<rparr>"
  have ok: "registry_ok n (limit_of s)" and M: "mirrors Net (limit_of s) (htb_of s)" using inv by (auto simp: link_inv_def)
  have "limit_ok n d i ?l" using registry_ok_limit [OF ok here] by (simp add: limit_ok_def)
  moreover have "d' = d \<and> i' = i" if "limit_of s d' i' = Some l'" "Mark l' = Mark ?l" for d' i' l'
    using ok here that unfolding registry_ok_def by auto
  ultimately have R: "registry_ok n (lim_put (limit_of s) d i (Some ?l))"
    using registry_put [OF ok] by blast
  have "mirrors Net (lim_put (limit_of s) d i (Some ?l)) (htb_setup (setup_msg (iface Net d) ?l (i = 0)) (htb_of s))"
    by (rule mirrors_put [OF net M R]) (simp add: here)
  then show ?thesis using inv R by (simp add: link_inv_def htb_of_setup)
qed

lemma link_inv_new:
  assumes net: "Net \<noteq> IfbDev" and inv: "link_inv Net n s" and new: "limit_of s d i = None" and room: "n + 11 < 2 ^ 16"
    and l: "l = \<lparr>LimitDirection = d, Mark = NextMark s, MinorId = NextMinorId s, bIsRoot = (i = 0), RateLimit = r\<rparr>"
  shows "link_inv Net (Suc n) (SetupHTBLimitClass l (iface Net d) (i = 0)
      (lim_update d i l (s\<lparr>NextMark := NextMark s + 1, NextMinorId := NextMinorId s + 1\<rparr>)))"
proof -
  have ok: "registry_ok n (limit_of s)" and M: "mirrors Net (limit_of s) (htb_of s)"
    and n: "unat (NextMark s) = n" "unat (NextMinorId s) = n + 10" "1 \<le> n"
    using inv by (auto simp: link_inv_def)
  have suc: "unat (NextMark s + 1) = Suc n" "unat (NextMinorId s + 1) = n + 11"
    using n room by (simp_all add: unat_word_ariths)
  have "limit_ok (Suc n) d i l" using n by (simp add: l limit_ok_def)
  moreover have "d' = d \<and> i' = i" if "limit_of s d' i' = Some l'" "Mark l' = Mark l" for d' i' l'
    using registry_ok_limit [OF ok that(1)] that(2) n by (simp add: limit_ok_def l)
  ultimately have R: "registry_ok (Suc n) (lim_put (limit_of s) d i (Some l))"
    using registry_put [OF ok] by (meson le_SucI order_refl)
  have "mirrors Net (lim_put (limit_of s) d i (Some l)) (htb_setup (setup_msg (iface Net d) l (i = 0)) (htb_of s))"
    by (rule mirrors_put [OF net M R]) (simp add: new)
  then show ?thesis using R suc by (simp add: link_inv_def htb_of_setup)
qed

lemma link_inv_get:
  assumes "Net \<noteq> IfbDev" and "link_inv Net n s" and "n + 11 < 2 ^ 16"
  shows "\<exists>n' \<le> Suc n. link_inv Net n' (snd (get_limit Net d i r s))"
  using assms link_inv_existing [OF assms(1,2)] link_inv_new [OF assms(1,2) _ assms(3) refl]
  by (auto simp: get_limit_cases Let_def split: option.splits intro: le_SucI)

lemma link_inv_remove:
  assumes net: "Net \<noteq> IfbDev" and inv: "link_inv Net n s"
  shows "link_inv Net n (remove_limit Net d i s)"
proof (cases "limit_of s d i")
  case None
  then show ?thesis using inv by (simp add: remove_limit_cases)
next
  case (Some l)
  have ok: "registry_ok n (limit_of s)" and M: "mirrors Net (limit_of s) (htb_of s)" using inv by (auto simp: link_inv_def)
  have "LimitDirection l = d" using registry_ok_limit [OF ok Some] by (simp add: limit_ok_def)
  then show ?thesis
    using inv Some registry_del [OF ok] mirrors_del [OF net M ok Some]
    by (simp add: remove_limit_cases link_inv_def htb_of_destroy)
qed

datatype link_op = GetLimit ELimitDirection WTrafficItemId WBytesPerSecond
  | RemoveLimit ELimitDirection WTrafficItemId | LookupEndpoints "WEndpoint list"

fun link_do :: "string \<Rightarrow> link_op \<Rightarrow> WIPLink \<Rightarrow> WIPLink" where
  "link_do Net (GetLimit d i r) s = snd (get_limit Net d i r s)"
| "link_do Net (RemoveLimit d i) s = remove_limit Net d i s"
| "link_do Net (LookupEndpoints es) s = SendLookupMessage es s"

lemma link_inv_lookup: "link_inv Net n s \<Longrightarrow> link_inv Net n (SendLookupMessage es s)"
  by (simp add: link_inv_def SendLookupMessage_def SendMsg_def htb_of_def htb_apply_def WIPLinkMsg_init_def
      limit_of_def [abs_def] cong: if_cong)

lemma link_inv_do:
  assumes "Net \<noteq> IfbDev" and "link_inv Net n s" and "n + 11 < 2 ^ 16"
  shows "\<exists>n' \<le> Suc n. link_inv Net n' (link_do Net op s)"
proof (cases op)
  case (GetLimit d i r)
  then show ?thesis using link_inv_get [OF assms] by simp
next
  case (RemoveLimit d i)
  then show ?thesis using link_inv_remove [OF assms(1,2), of d i] by (intro exI [of _ n]) simp
next
  case (LookupEndpoints es)
  then show ?thesis using link_inv_lookup [OF assms(2), of es] by (intro exI [of _ n]) simp
qed

lemma link_inv_run:
  "Net \<noteq> IfbDev \<Longrightarrow> link_inv Net n s \<Longrightarrow> n + length ops + 10 < 2 ^ 16 \<Longrightarrow>
     \<exists>n'. link_inv Net n' (fold (link_do Net) ops s)"
proof (induction ops arbitrary: n s)
  case (Cons op ops)
  then obtain n' where "n' \<le> Suc n" "link_inv Net n' (link_do Net op s)"
    using link_inv_do [of Net n s op] by auto
  then show ?case using Cons.IH [of n' "link_do Net op s"] Cons.prems by simp
qed auto

lemma link_inv_init: "link_inv Net 1 WIPLink_init"
  by (simp add: link_inv_def WIPLink_init_def registry_ok_def mirrors_def limit_of_def htb_of_def htb_init_def)

text \<open>
  C2. The registry of bandwidth limits and the kernel's shaping classes stay in step: after any
  sequence of at most 65524 requests, replaying the messages sent to the helper gives exactly one
  class per active limit, on the interface of its direction and with its mark and rate, the root
  class has the rate of the system limit, and no two active limits share a mark. (The bound is
  where the 16-bit class id would wrap around.)
\<close>

theorem limits_mirror_classes:
  assumes "Net \<noteq> IfbDev" and "length ops \<le> 65524" and "s = fold (link_do Net) ops WIPLink_init"
  shows "(\<forall>f m k r. htb_class (htb_of s) (f, m) = Some (k, r) \<longleftrightarrow>
      (\<exists>d i l. limit_of s d i = Some l \<and> i \<noteq> 0 \<and> f = iface Net d \<and> m = MinorId l \<and> k = Mark l \<and> r = RateLimit l))
    \<and> (\<forall>d. htb_root (htb_of s) (iface Net d) = map_option RateLimit (limit_of s d 0))
    \<and> (\<forall>d i l d' i' l'. limit_of s d i = Some l \<and> limit_of s d' i' = Some l' \<and> Mark l = Mark l' \<longrightarrow> d = d' \<and> i = i')"
proof -
  obtain n where "link_inv Net n s"
    using link_inv_run [OF assms(1) link_inv_init, of ops] assms(2,3) by auto
  then have "mirrors Net (limit_of s) (htb_of s)" "registry_ok n (limit_of s)" by (auto simp: link_inv_def)
  then show ?thesis unfolding mirrors_def registry_ok_def by blast
qed

theorem limits_mirror_classes_witness:
  "htb_class (htb_of (fold (link_do ''eth0'') [GetLimit Download 5 1000, GetLimit Upload 5 64, RemoveLimit Download 5] WIPLink_init))
     (''eth0'', 12) = Some (2, 64)"
proof -
  let ?ops = "[GetLimit Download 5 1000, GetLimit Upload 5 64, RemoveLimit Download 5]"
  let ?s = "fold (link_do ''eth0'') ?ops WIPLink_init"
  have net: "''eth0'' \<noteq> IfbDev" by (simp add: IfbDev_def)
  have "\<exists>l. limit_of ?s Upload 5 = Some l \<and> 12 = MinorId l \<and> 2 = Mark l \<and> 64 = RateLimit l"
    by (simp add: limit_of_def WIPLink_init_def GetUploadLimit_def GetDownloadLimit_def RemoveDownloadLimit_def
        SetupEgressHTBClass_def SetupIngressHTBClass_def SetupHTBLimitClass_def WBandwidthLimit_destroy_def SendMsg_def Let_def)
  moreover have "''eth0'' = iface ''eth0'' Upload" "(5 :: u64) \<noteq> 0" by (simp_all add: iface_def)
  moreover have len: "length ?ops \<le> 65524" by simp
  ultimately show ?thesis
    by (subst conjunct1 [OF limits_mirror_classes [OF net len refl], rule_format]) blast
qed

end
