(* ===== verification/Ebpf_Traffic.thy ===== *)
theory Ebpf_Traffic
  imports Ebpf_Maps
begin

text \<open>
  The kernel programs that see every packet (\<^verbatim>\<open>EBPF/EBPFTraffic.h\<close>): the cgroup programs that
  drop blocked traffic and report the rest, and the tc classifiers that put the shaping mark on a
  packet. A packet is its \<^verbatim>\<open>__sk_buff\<close>; the socket cookie the helper returns for it, the
  clock and whether the ring buffer has room are arguments.
\<close>

section \<open>Model\<close>

record sk_buff =
  protocol :: u16
  len :: u32
  mark :: u32
  data :: "u8 list"

text \<open>\<^verbatim>\<open>bpf_htons\<close> on the little-endian target, and the load of a 16-bit field in network order.\<close>

definition bpf_htons :: "u16 \<Rightarrow> u16" where
  "bpf_htons w = push_bit 8 (w AND 0xFF) OR drop_bit 8 w"

abbreviation ETH_P_IP :: u16 where "ETH_P_IP \<equiv> 0x0800"
abbreviation ETH_P_IPV6 :: u16 where "ETH_P_IPV6 \<equiv> 0x86DD"

definition net16 :: "u8 list \<Rightarrow> nat \<Rightarrow> u16" where
  "net16 d i = push_bit 8 (ucast (d ! i)) OR ucast (d ! (i + 1))"

definition GetSocketRules :: "kernel_maps \<Rightarrow> WSocketCookie \<Rightarrow> WTrafficItemRulesBase option" where
  "GetSocketRules K Cookie = Lookup (socket_rules K) Cookie"

definition MakeSocketEvent2 :: "bool \<Rightarrow> u64 \<Rightarrow> u64 \<Rightarrow> WSocketCookie \<Rightarrow> ENetEventType \<Rightarrow> bool \<Rightarrow> WSocketEvent option" where
  "MakeSocketEvent2 reserved cgroup pidtgid Cookie Type bWithPID =
     (if Cookie = 0 then None
      else if \<not> reserved then None
      else Some \<lparr>EventType = Type, EventCookie = Cookie,
        PidTgId = (if bWithPID then pidtgid else 0), CgroupId = (if bWithPID then cgroup else 0),
        EventData = ZeroEventData\<rparr>)"

abbreviation PACKET_HEADER_SIZE :: u32 where "PACKET_HEADER_SIZE \<equiv> 128"

text \<open>\<^verbatim>\<open>bpf_skb_load_bytes\<close> copies when the packet has that many bytes and otherwise leaves the
  zeroed buffer.\<close>

definition load_header :: "sk_buff \<Rightarrow> u8 list" where
  "load_header Skb =
     (let Slen = len Skb; Len = (if Slen < PACKET_HEADER_SIZE then Slen else PACKET_HEADER_SIZE); n = unat Len
      in if Len > 0 \<and> n \<le> length (data Skb) then take n (data Skb) @ replicate (128 - n) 0 else replicate 128 0)"

definition traffic_event :: "bool \<Rightarrow> u64 \<Rightarrow> EPacketDirection \<Rightarrow> WSocketCookie \<Rightarrow> sk_buff \<Rightarrow> WSocketEvent option" where
  "traffic_event reserved Now Dir Cookie Skb =
     (case MakeSocketEvent2 reserved 0 0 Cookie NE_Traffic False of
        None \<Rightarrow> None
      | Some E \<Rightarrow> Some (E\<lparr>EventData := TrafficEventData
          \<lparr>RawData = load_header Skb, TrafficBytes = ucast (len Skb), Timestamp = Now, Direction = Dir\<rparr>\<rparr>))"

datatype verdict = SK_DROP | SK_PASS

definition cgskb_ingress :: "kernel_maps \<Rightarrow> bool \<Rightarrow> u64 \<Rightarrow> WSocketCookie \<Rightarrow> sk_buff \<Rightarrow> verdict \<times> WSocketEvent option" where
  "cgskb_ingress K reserved Now Cookie Skb =
     (let Proto = protocol Skb in
      if Proto \<noteq> bpf_htons ETH_P_IP \<and> Proto \<noteq> bpf_htons ETH_P_IPV6 then (SK_PASS, None)
      else let Rules = GetSocketRules K Cookie; SystemRules = GetSocketRules K 0 in
        if (case SystemRules of None \<Rightarrow> False | Some r \<Rightarrow> DownloadSwitch r = SS_Block) then (SK_DROP, None)
        else if (case Rules of None \<Rightarrow> False | Some r \<Rightarrow> DownloadSwitch r = SS_Block) then (SK_DROP, None)
        else (SK_PASS, traffic_event reserved Now PD_Incoming Cookie Skb))"

definition cgskb_egress :: "kernel_maps \<Rightarrow> bool \<Rightarrow> u64 \<Rightarrow> WSocketCookie \<Rightarrow> sk_buff \<Rightarrow> verdict \<times> WSocketEvent option" where
  "cgskb_egress K reserved Now Cookie Skb =
     (let Proto = protocol Skb in
      if Proto \<noteq> bpf_htons ETH_P_IP \<and> Proto \<noteq> bpf_htons ETH_P_IPV6 then (SK_PASS, None)
      else let Rules = GetSocketRules K Cookie; SystemRules = GetSocketRules K 0 in
        if (case SystemRules of None \<Rightarrow> False | Some r \<Rightarrow> UploadSwitch r = SS_Block) then (SK_DROP, None)
        else if (case Rules of None \<Rightarrow> False | Some r \<Rightarrow> UploadSwitch r = SS_Block) then (SK_DROP, None)
        else (SK_PASS, traffic_event reserved Now PD_Outgoing Cookie Skb))"

definition cls_egress :: "kernel_maps \<Rightarrow> WSocketCookie \<Rightarrow> sk_buff \<Rightarrow> sk_buff" where
  "cls_egress K Cookie skb =
     (case GetSocketRules K Cookie of
        None \<Rightarrow> skb
      | Some Rules \<Rightarrow> if UploadMark Rules \<noteq> 0 then skb\<lparr>mark := UploadMark Rules\<rparr> else skb)"

text \<open>The header walk of \<^verbatim>\<open>ifb_cls_egress\<close>: the offset of the transport header and the protocol
  number, or \<open>None\<close> where the program returns \<^verbatim>\<open>TC_ACT_OK\<close> early. \<open>off\<close> is where the IP header starts.\<close>

definition ifb_ipv4 :: "u8 list \<Rightarrow> nat \<Rightarrow> (u8 \<times> nat) option" where
  "ifb_ipv4 d off =
     (if off + 20 > length d then None
      else if drop_bit 4 (d ! off) \<noteq> 4 then None
      else let IPHeaderLen = unat (d ! off AND 0x0F) * 4 in
        if IPHeaderLen < 20 \<or> IPHeaderLen > 60 then None
        else Some (d ! (off + 9), off + IPHeaderLen))"

definition ifb_ipv6 :: "u8 list \<Rightarrow> nat \<Rightarrow> (u8 \<times> nat) option" where
  "ifb_ipv6 d off = (if off + 40 > length d then None else Some (d ! (off + 6), off + 40))"

definition ifb_transport :: "u8 list \<Rightarrow> (u8 \<times> nat) option" where
  "ifb_transport d =
     (if 1 > length d then None
      else let Version = drop_bit 4 (d ! 0) in
        if Version = 4 then ifb_ipv4 d 0
        else if Version = 6 then ifb_ipv6 d 0
        else if 14 > length d then None
        else let h_proto = net16 d 12 in
          if h_proto = ETH_P_IP then ifb_ipv4 d 14
          else if h_proto = ETH_P_IPV6 then ifb_ipv6 d 14
          else None)"

definition ifb_port :: "u8 list \<Rightarrow> u16 option" where
  "ifb_port d =
     (case ifb_transport d of
        None \<Rightarrow> None
      | Some (IPProto, h) \<Rightarrow>
          if IPProto = 6 then (if h + 20 > length d then None else Some (net16 d (h + 2)))
          else if IPProto = 17 then (if h + 8 > length d then None else Some (net16 d (h + 2)))
          else None)"

definition ifb_cls_egress :: "kernel_maps \<Rightarrow> sk_buff \<Rightarrow> sk_buff" where
  "ifb_cls_egress K skb =
     (case ifb_port (data skb) of
        None \<Rightarrow> skb
      | Some DstPort \<Rightarrow>
          (case Lookup (ingress_port_marks K) DstPort of
             Some m \<Rightarrow> if m \<noteq> 0 then skb\<lparr>mark := ucast m\<rparr> else
               (case Lookup (port_to_pid K) DstPort of
                  None \<Rightarrow> skb
                | Some Pid \<Rightarrow> (case Lookup (pid_download_marks K) Pid of
                    None \<Rightarrow> skb
                  | Some PidMark \<Rightarrow> if PidMark \<noteq> 0 then skb\<lparr>mark := PidMark\<rparr> else skb))
           | None \<Rightarrow>
               (case Lookup (port_to_pid K) DstPort of
                  None \<Rightarrow> skb
                | Some Pid \<Rightarrow> (case Lookup (pid_download_marks K) Pid of
                    None \<Rightarrow> skb
                  | Some PidMark \<Rightarrow> if PidMark \<noteq> 0 then skb\<lparr>mark := PidMark\<rparr> else skb))))"

section \<open>Verdicts\<close>

definition is_ip :: "sk_buff \<Rightarrow> bool" where
  "is_ip Skb \<longleftrightarrow> protocol Skb = bpf_htons ETH_P_IP \<or> protocol Skb = bpf_htons ETH_P_IPV6"

definition blocks :: "(WTrafficItemRulesBase \<Rightarrow> ESwitchState) \<Rightarrow> kernel_maps \<Rightarrow> WSocketCookie \<Rightarrow> bool" where
  "blocks switch K Cookie \<longleftrightarrow> (\<exists>r. socket_rules K Cookie = Some r \<and> switch r = SS_Block)"

lemma cgskb_ingress_verdict:
  "fst (cgskb_ingress K reserved Now Cookie Skb) = SK_DROP \<longleftrightarrow>
     is_ip Skb \<and> (blocks DownloadSwitch K 0 \<or> blocks DownloadSwitch K Cookie)"
  by (auto simp: cgskb_ingress_def is_ip_def blocks_def GetSocketRules_def Let_def split: option.splits)

lemma cgskb_egress_verdict:
  "fst (cgskb_egress K reserved Now Cookie Skb) = SK_DROP \<longleftrightarrow>
     is_ip Skb \<and> (blocks UploadSwitch K 0 \<or> blocks UploadSwitch K Cookie)"
  by (auto simp: cgskb_egress_def is_ip_def blocks_def GetSocketRules_def Let_def split: option.splits)

lemma length_load_header [simp]: "length (load_header Skb) = 128"
proof -
  have "unat (if len Skb < 128 then len Skb else 128) \<le> 128"
    by (simp add: word_less_nat_alt)
  then show ?thesis by (simp add: load_header_def Let_def)
qed

lemma load_header_take:
  assumes "length (data Skb) = unat (len Skb)"
  shows "load_header Skb = take 128 (data Skb @ replicate 128 0)"
proof (cases "len Skb < 128")
  case True
  then have n: "length (data Skb) < 128" using assms by (simp add: word_less_nat_alt)
  then have "take 128 (data Skb @ replicate 128 0) = data Skb @ replicate (128 - length (data Skb)) 0"
    by simp
  then show ?thesis using True assms by (cases "len Skb = 0") (auto simp: load_header_def Let_def word_gt_0)
next
  case False
  then have n: "128 \<le> length (data Skb)" using assms by (simp add: word_less_nat_alt)
  then show ?thesis using False by (simp add: load_header_def Let_def)
qed

definition traffic_report :: "u64 \<Rightarrow> EPacketDirection \<Rightarrow> WSocketCookie \<Rightarrow> sk_buff \<Rightarrow> WSocketEvent option" where
  "traffic_report Now Dir Cookie Skb =
     (if Cookie = 0 then None
      else Some \<lparr>EventType = NE_Traffic, EventCookie = Cookie, PidTgId = 0, CgroupId = 0,
        EventData = TrafficEventData \<lparr>RawData = take 128 (data Skb @ replicate 128 0), TrafficBytes = ucast (len Skb),
          Timestamp = Now, Direction = Dir\<rparr>\<rparr>)"

lemma traffic_event_report:
  "length (data Skb) = unat (len Skb) \<Longrightarrow> traffic_event True Now Dir Cookie Skb = traffic_report Now Dir Cookie Skb"
  by (simp add: traffic_event_def traffic_report_def MakeSocketEvent2_def load_header_take)

text \<open>
  C9. The cgroup programs on a packet whose bytes are at hand, with room in the ring buffer: a
  packet that is not IP passes unseen; an IP packet is dropped exactly when the system rule
  (cookie 0) or the rule of its socket blocks its direction; every other packet passes and, if the
  socket has a cookie, is reported once with its cookie, direction, full length and its first 128
  bytes padded with zeros.
\<close>

theorem cgskb_drops_or_reports:
  assumes "length (data Skb) = unat (len Skb)"
  shows "cgskb_ingress K True Now Cookie Skb =
      (if \<not> is_ip Skb then (SK_PASS, None)
       else if blocks DownloadSwitch K 0 \<or> blocks DownloadSwitch K Cookie then (SK_DROP, None)
       else (SK_PASS, traffic_report Now PD_Incoming Cookie Skb))
    \<and> cgskb_egress K True Now Cookie Skb =
      (if \<not> is_ip Skb then (SK_PASS, None)
       else if blocks UploadSwitch K 0 \<or> blocks UploadSwitch K Cookie then (SK_DROP, None)
       else (SK_PASS, traffic_report Now PD_Outgoing Cookie Skb))"
  using traffic_event_report [OF assms]
  by (auto simp: cgskb_ingress_def cgskb_egress_def is_ip_def blocks_def GetSocketRules_def Let_def
      split: option.splits)

definition test_skb :: sk_buff where
  "test_skb = \<lparr>protocol = 8, len = 3, mark = 0, data = [0x45, 0, 1]\<rparr>"

definition no_maps :: kernel_maps where
  "no_maps = \<lparr>socket_rules = Map.empty, ingress_port_marks = Map.empty, pid_download_marks = Map.empty,
     port_to_pid = Map.empty\<rparr>"

theorem cgskb_drops_or_reports_witness:
  "cgskb_ingress no_maps True 9 77 test_skb = (SK_PASS, traffic_report 9 PD_Incoming 77 test_skb)
   \<and> cgskb_egress (no_maps\<lparr>socket_rules := [77 \<mapsto> \<lparr>UploadSwitch = SS_Block, DownloadSwitch = SS_None, UploadMark = 0, DownloadMark = 0\<rparr>]\<rparr>)
       True 9 77 test_skb = (SK_DROP, None)"
  using cgskb_drops_or_reports [of test_skb no_maps 9 77]
    cgskb_drops_or_reports [of test_skb "no_maps\<lparr>socket_rules := [77 \<mapsto> \<lparr>UploadSwitch = SS_Block, DownloadSwitch = SS_None, UploadMark = 0, DownloadMark = 0\<rparr>]\<rparr>" 9 77]
  by (simp add: test_skb_def no_maps_def is_ip_def bpf_htons_def blocks_def)

section \<open>Marks\<close>

definition nonzero :: "'a::zero option \<Rightarrow> 'a option" where
  "nonzero v = (case v of None \<Rightarrow> None | Some x \<Rightarrow> if x = 0 then None else Some x)"

text \<open>The mark of an ingress packet: by its port, else by the process that owns the port.\<close>

lemma ifb_cls_egress_mark:
  "ifb_cls_egress K skb =
     (case Option.bind (ifb_port (data skb)) (\<lambda>p.
        case nonzero (ingress_port_marks K p) of
          Some m \<Rightarrow> Some (ucast m)
        | None \<Rightarrow> nonzero (Option.bind (port_to_pid K p) (pid_download_marks K))) of
        None \<Rightarrow> skb | Some m \<Rightarrow> skb\<lparr>mark := m\<rparr>)"
  by (auto simp: ifb_cls_egress_def nonzero_def split: option.splits)

end
