(* ===== verification/Rule_Manager.thy ===== *)
theory Rule_Manager
  imports Traffic_Items IP_Link Ebpf_Traffic
begin

text \<open>
  \<^verbatim>\<open>Daemon/Rules/RuleManager.cpp\<close> and \<^verbatim>\<open>Util/Data/Rule.hpp\<close>: the rules a user sets on the system, on
  applications, processes and sockets, how a socket inherits them, the cache of effective rules per
  socket cookie and its transfer to the kernel. The item tree and the lookup of an item by its id
  (\<^verbatim>\<open>WSystemMap\<close>) are arguments. A handler runs on the record \<open>rule_world\<close>: the manager, the
  registry of limits, the kernel maps, the rule table of the database and what was broadcast to
  the clients. Reading the first row of an empty result is the error value \<open>FrontOfEmptyResult\<close>.
\<close>

section \<open>Rules and inheritance\<close>

datatype ERuleType = Implicit | Explicit

record WTrafficItemRules = WTrafficItemRulesBase +
  UploadLimit :: WBytesPerSecond
  DownloadLimit :: WBytesPerSecond
  RuleType :: ERuleType

definition WTrafficItemRules_init :: WTrafficItemRules where
  "WTrafficItemRules_init = \<lparr>UploadSwitch = SS_None, DownloadSwitch = SS_None, UploadMark = 0, DownloadMark = 0,
     UploadLimit = 0, DownloadLimit = 0, RuleType = Implicit\<rparr>"

definition AsBase :: "WTrafficItemRules \<Rightarrow> WTrafficItemRulesBase" where
  "AsBase R = \<lparr>UploadSwitch = UploadSwitch R, DownloadSwitch = DownloadSwitch R, UploadMark = UploadMark R,
     DownloadMark = DownloadMark R\<rparr>"

definition IsDefault :: "WTrafficItemRules \<Rightarrow> bool" where
  "IsDefault R \<longleftrightarrow> UploadSwitch R = SS_None \<and> DownloadSwitch R = SS_None \<and> UploadMark R = 0 \<and> DownloadMark R = 0
     \<and> UploadLimit R = 0 \<and> DownloadLimit R = 0"

definition GetEffectiveSwitchState :: "ESwitchState \<Rightarrow> ESwitchState \<Rightarrow> ERuleType \<Rightarrow> ESwitchState" where
  "GetEffectiveSwitchState ParentState ItemState ItemRuleType =
     (if ItemRuleType = Implicit then ParentState
      else if ItemState = SS_None then ParentState
      else ItemState)"

definition GetEffectiveMark :: "u32 \<Rightarrow> u32 \<Rightarrow> ERuleType \<Rightarrow> u32" where
  "GetEffectiveMark ParentMark ItemMark ItemRuleType =
     (if ItemRuleType = Implicit then ParentMark
      else if ItemMark = 0 then ParentMark
      else ItemMark)"

definition GetEffectiveLimit :: "WBytesPerSecond \<Rightarrow> WBytesPerSecond \<Rightarrow> ERuleType \<Rightarrow> WBytesPerSecond" where
  "GetEffectiveLimit ParentLimit ItemLimit ItemRuleType =
     (if ItemRuleType = Implicit then ParentLimit
      else if ParentLimit \<noteq> 0 then ParentLimit
      else ItemLimit)"

definition GetEffectiveRules :: "WTrafficItemRules \<Rightarrow> WTrafficItemRules \<Rightarrow> WTrafficItemRules" where
  "GetEffectiveRules ParentRules ItemRules = ItemRules
     \<lparr>UploadSwitch := GetEffectiveSwitchState (UploadSwitch ParentRules) (UploadSwitch ItemRules) (RuleType ItemRules),
      DownloadSwitch := GetEffectiveSwitchState (DownloadSwitch ParentRules) (DownloadSwitch ItemRules) (RuleType ItemRules),
      UploadMark := GetEffectiveMark (UploadMark ParentRules) (UploadMark ItemRules) (RuleType ItemRules),
      DownloadMark := GetEffectiveMark (DownloadMark ParentRules) (DownloadMark ItemRules) (RuleType ItemRules),
      DownloadLimit := GetEffectiveLimit (DownloadLimit ParentRules) (DownloadLimit ItemRules) (RuleType ItemRules),
      UploadLimit := GetEffectiveLimit (UploadLimit ParentRules) (UploadLimit ItemRules) (RuleType ItemRules)\<rparr>"

text \<open>\<^verbatim>\<open>operator==\<close> of the base with the full rules.\<close>

definition rules_eq :: "WTrafficItemRulesBase \<Rightarrow> WTrafficItemRules \<Rightarrow> bool" where
  "rules_eq A B \<longleftrightarrow> UploadSwitch A = UploadSwitch B \<and> DownloadSwitch A = DownloadSwitch B
     \<and> UploadMark A = UploadMark B \<and> DownloadMark A = DownloadMark B"

lemmas effective_defs [rule_defs] =
  GetEffectiveRules_def GetEffectiveSwitchState_def GetEffectiveMark_def GetEffectiveLimit_def

section \<open>State\<close>

record WSocketRules =
  Rules :: WTrafficItemRulesBase
  SocketId :: WTrafficItemId
  bDirty :: bool

record WRuleManager =
  SystemRules :: WTrafficItemRules
  ApplicationRules :: "(WTrafficItemId, WTrafficItemRules) umap"
  ProcessRules :: "(WTrafficItemId, WTrafficItemRules) umap"
  SocketRules :: "(WTrafficItemId, WTrafficItemRules) umap"
  SocketCookieRules :: "(WSocketCookie, WSocketRules) umap"

definition WRuleManager_init :: WRuleManager where
  "WRuleManager_init = \<lparr>SystemRules = WTrafficItemRules_init, ApplicationRules = [], ProcessRules = [],
     SocketRules = [], SocketCookieRules = []\<rparr>"

record WRuleUpdate =
  UpdateRules :: WTrafficItemRules
  TrafficItemId :: WTrafficItemId
  ParentAppId :: WTrafficItemId

text \<open>A row of the table \<^verbatim>\<open>Rule\<close>; the limits are integer columns.\<close>

record rule_row =
  RowID :: int
  Target :: string
  RowDownloadLimit :: int
  RowUploadLimit :: int
  RowDownloadSwitchState :: int
  RowUploadSwitchState :: int

record rule_world =
  Manager :: WRuleManager
  Link :: WIPLink
  Kernel :: kernel_maps
  RuleTable :: "rule_row list"
  Broadcasts :: "WRuleUpdate list"

text \<open>What the manager sees of \<^verbatim>\<open>WSystemMap\<close>.\<close>

record system_view =
  ViewSystemItem :: SystemTree
  GetTrafficItemById :: "WTrafficItemId \<rightharpoonup> traffic_item"

datatype rule_error = FrontOfEmptyResult

text \<open>The environment of a handler: the kernel's acceptance, the main interface, how the SQL layer
  stores a \<^verbatim>\<open>double\<close> in an integer column and which id it gives a new row.\<close>

record rule_env =
  EnvAccepts :: kernel_accepts
  EnvNet :: string
  EnvColumn :: "real \<Rightarrow> int"
  EnvNewID :: "rule_row list \<Rightarrow> int"

section \<open>The cache of effective rules\<close>

definition rules_or_default :: "(WTrafficItemId, WTrafficItemRules) umap \<Rightarrow> WTrafficItemId \<Rightarrow> WTrafficItemRules" where
  "rules_or_default m i = (case map_of m i of None \<Rightarrow> WTrafficItemRules_init | Some R \<Rightarrow> R)"

definition cache_socket :: "WTrafficItemRules \<Rightarrow> WSocketCookie \<times> SocketTree \<Rightarrow> WRuleManager \<Rightarrow> WRuleManager" where
  "cache_socket EffectiveProcRules p M =
     (case p of (C, Sock) \<Rightarrow>
        let SockRules = rules_or_default (SocketRules M) (ItemId Sock);
            EffectiveSockRules = GetEffectiveRules EffectiveProcRules SockRules;
            M1 = M\<lparr>SocketRules := AList.update (ItemId Sock) SockRules (SocketRules M)\<rparr>
        in case map_of (SocketCookieRules M1) C of
             Some R \<Rightarrow>
               if rules_eq (Rules R) EffectiveSockRules then M1
               else M1\<lparr>SocketCookieRules := AList.update C (R\<lparr>Rules := AsBase EffectiveSockRules, bDirty := True\<rparr>) (SocketCookieRules M1)\<rparr>
           | None \<Rightarrow>
               M1\<lparr>SocketCookieRules := AList.update C
                 \<lparr>Rules = AsBase EffectiveSockRules, SocketId = ItemId Sock, bDirty = True\<rparr> (SocketCookieRules M1)\<rparr>)"

definition cache_process :: "WTrafficItemRules \<Rightarrow> ProcessTree \<Rightarrow> WRuleManager \<Rightarrow> WRuleManager" where
  "cache_process EffectiveAppRules Proc M =
     (let EffectiveProcRules = GetEffectiveRules EffectiveAppRules (rules_or_default (ProcessRules M) (ItemId Proc))
      in fold (cache_socket EffectiveProcRules) (Sockets Proc) M)"

definition cache_app :: "ApplicationTree \<Rightarrow> WRuleManager \<Rightarrow> WRuleManager" where
  "cache_app App M =
     (let EffectiveAppRules = GetEffectiveRules (SystemRules M) (rules_or_default (ApplicationRules M) (ItemId App))
      in fold (\<lambda>p. cache_process EffectiveAppRules (snd p)) (Processes App) M)"

fun UpdateRuleCache :: "system_view \<Rightarrow> traffic_item option \<Rightarrow> WRuleManager \<Rightarrow> WRuleManager" where
  "UpdateRuleCache V None M = M"
| "UpdateRuleCache V (Some (SystemItemPtr _)) M =
     fold (\<lambda>p. cache_app (snd p)) (Applications (ViewSystemItem V)) M"
| "UpdateRuleCache V (Some (ApplicationItemPtr App)) M = cache_app App M"
| "UpdateRuleCache V (Some _) M = M"

text \<open>One entry of the loop of \<^verbatim>\<open>SyncRules\<close>.\<close>

definition sync_entry :: "kernel_accepts \<Rightarrow> system_view \<Rightarrow> WSocketCookie \<Rightarrow> WSocketRules \<Rightarrow> kernel_maps \<Rightarrow> WSocketRules \<times> kernel_maps" where
  "sync_entry A V C SockRules K =
     (if \<not> bDirty SockRules then (SockRules, K)
      else let (ok, K1) = UpdateSocketRules A C (Rules SockRules) K;
               SockRules1 = (if ok then SockRules\<lparr>bDirty := False\<rparr> else SockRules);
               K2 = (case GetTrafficItemById V (SocketId SockRules) of
                   Some (SocketItemPtr Sock) \<Rightarrow>
                     (let LocalPort = Port (LocalEndpoint (SocketTuple Sock)) in
                      if DownloadMark (Rules SockRules) = 0 then RemoveIngressPortRouting A LocalPort K1
                      else if LocalPort \<noteq> 0 then SetupIngressPortRouting A (DownloadMark (Rules SockRules)) LocalPort K1
                      else K1)
                 | _ \<Rightarrow> K1)
        in (SockRules1, K2))"

fun sync_loop :: "kernel_accepts \<Rightarrow> system_view \<Rightarrow> (WSocketCookie, WSocketRules) umap \<Rightarrow> kernel_maps \<Rightarrow>
    (WSocketCookie, WSocketRules) umap \<times> kernel_maps" where
  "sync_loop A V [] K = ([], K)"
| "sync_loop A V ((C, R) # m) K =
     (let (R1, K1) = sync_entry A V C R K; (m1, K2) = sync_loop A V m K1 in ((C, R1) # m1, K2))"

definition SyncRules :: "kernel_accepts \<Rightarrow> system_view \<Rightarrow> WRuleManager \<times> kernel_maps \<Rightarrow> WRuleManager \<times> kernel_maps" where
  "SyncRules A V MK =
     (case MK of (M, K) \<Rightarrow>
        let (m, K1) = sync_loop A V (SocketCookieRules M) K in (M\<lparr>SocketCookieRules := m\<rparr>, K1))"

definition empty_base :: "WTrafficItemRulesBase \<Rightarrow> bool" where
  "empty_base R \<longleftrightarrow> DownloadMark R = 0 \<and> UploadMark R = 0 \<and> UploadSwitch R = SS_None \<and> DownloadSwitch R = SS_None"

definition RemoveEmptyRules :: "WRuleManager \<Rightarrow> WRuleManager" where
  "RemoveEmptyRules M =
     M\<lparr>SystemRules := (if IsDefault (SystemRules M) then WTrafficItemRules_init else SystemRules M),
       ApplicationRules := filter (\<lambda>p. \<not> IsDefault (snd p)) (ApplicationRules M),
       ProcessRules := filter (\<lambda>p. \<not> IsDefault (snd p)) (ProcessRules M),
       SocketRules := filter (\<lambda>p. \<not> IsDefault (snd p)) (SocketRules M),
       SocketCookieRules := filter (\<lambda>p. \<not> empty_base (Rules (snd p))) (SocketCookieRules M)\<rparr>"

section \<open>The rule table\<close>

definition insert_rule :: "rule_env \<Rightarrow> string \<Rightarrow> WTrafficItemRules \<Rightarrow> rule_row list \<Rightarrow> rule_row list" where
  "insert_rule E T R rows = rows @ [\<lparr>RowID = EnvNewID E rows, Target = T,
     RowDownloadLimit = EnvColumn E (DownloadLimit R), RowUploadLimit = EnvColumn E (UploadLimit R),
     RowDownloadSwitchState = uint (DownloadSwitch R), RowUploadSwitchState = uint (UploadSwitch R)\<rparr>]"

definition update_rule :: "rule_env \<Rightarrow> int \<Rightarrow> WTrafficItemRules \<Rightarrow> rule_row list \<Rightarrow> rule_row list" where
  "update_rule E ID R rows = map (\<lambda>row. if RowID row = ID
     then row\<lparr>RowDownloadLimit := EnvColumn E (DownloadLimit R), RowUploadLimit := EnvColumn E (UploadLimit R),
        RowDownloadSwitchState := uint (DownloadSwitch R), RowUploadSwitchState := uint (UploadSwitch R)\<rparr>
     else row) rows"

definition WriteAppRuleToDb :: "rule_env \<Rightarrow> WRuleUpdate \<Rightarrow> ApplicationTree \<Rightarrow> rule_row list \<Rightarrow> rule_error + rule_row list" where
  "WriteAppRuleToDb E U App rows =
     (let RuleResult = filter (\<lambda>row. Target row = ApplicationPath App) rows; R = UpdateRules U in
      if RuleResult = [] \<and> \<not> IsDefault R then Inr (insert_rule E (ApplicationPath App) R rows)
      else case RuleResult of
          [] \<Rightarrow> Inl FrontOfEmptyResult
        | row # _ \<Rightarrow>
            if IsDefault R then Inr (filter (\<lambda>r. RowID r \<noteq> RowID row) rows)
            else Inr (update_rule E (RowID row) R rows))"

definition WriteSystemRuleToDb :: "rule_env \<Rightarrow> WRuleUpdate \<Rightarrow> rule_row list \<Rightarrow> rule_row list" where
  "WriteSystemRuleToDb E U rows =
     (let RuleResult = filter (\<lambda>row. Target row = ''system'') rows; R = UpdateRules U in
      case RuleResult of
        [] \<Rightarrow> if \<not> IsDefault R then insert_rule E ''system'' R rows else rows
      | row # _ \<Rightarrow>
          if IsDefault R then filter (\<lambda>r. RowID r \<noteq> RowID row) rows
          else update_rule E (RowID row) R rows)"

text \<open>The rules a row stands for, before the marks are fetched.\<close>

definition rules_of_row :: "rule_row \<Rightarrow> WTrafficItemRules" where
  "rules_of_row row = WTrafficItemRules_init
     \<lparr>DownloadSwitch := word_of_int (RowDownloadSwitchState row), UploadSwitch := word_of_int (RowUploadSwitchState row),
      RuleType := Explicit,
      DownloadLimit := of_int (RowDownloadLimit row), UploadLimit := of_int (RowUploadLimit row)\<rparr>"

section \<open>Handlers\<close>

text \<open>The limits of a loaded rule and their marks.\<close>

definition fetch_marks :: "string \<Rightarrow> WTrafficItemId \<Rightarrow> WTrafficItemRules \<Rightarrow> WIPLink \<Rightarrow> WTrafficItemRules \<times> WIPLink" where
  "fetch_marks Net Item R L =
     (let (R1, L1) = (if DownloadLimit R > 0
            then (let (l, L') = GetDownloadLimit Item (DownloadLimit R) L in (R\<lparr>DownloadMark := Mark l\<rparr>, L'))
            else (R, L))
      in if UploadLimit R1 > 0
         then (let (l, L') = GetUploadLimit Net Item (UploadLimit R1) L1 in (R1\<lparr>UploadMark := Mark l\<rparr>, L'))
         else (R1, L1))"

definition recache :: "rule_env \<Rightarrow> system_view \<Rightarrow> traffic_item option \<Rightarrow> rule_world \<Rightarrow> rule_world" where
  "recache E V it w =
     (let (M, K) = SyncRules (EnvAccepts E) V (UpdateRuleCache V it (Manager w), Kernel w)
      in w\<lparr>Manager := M, Kernel := K\<rparr>)"

definition OnSocketConnected :: "rule_env \<Rightarrow> system_view \<Rightarrow> ApplicationTree \<Rightarrow> ProcessTree \<Rightarrow> rule_world \<Rightarrow> rule_world" where
  "OnSocketConnected E V App Proc w =
     (let M = Manager w;
          EffectiveAppRules = GetEffectiveRules (SystemRules M) (rules_or_default (ApplicationRules M) (ItemId App));
          EffectiveProcRules = GetEffectiveRules EffectiveAppRules (rules_or_default (ProcessRules M) (ItemId Proc))
      in if \<not> IsDefault EffectiveProcRules
         then let w1 = recache E V (Some (ApplicationItemPtr App)) w in
           if DownloadMark EffectiveProcRules \<noteq> 0
           then w1\<lparr>Kernel := SetPidDownloadMark (EnvAccepts E) (word_of_int (ProcessId Proc)) (DownloadMark EffectiveProcRules) (Kernel w1)\<rparr>
           else w1
         else w)"

definition OnSocketRemoved :: "SocketTree \<Rightarrow> rule_world \<Rightarrow> rule_world" where
  "OnSocketRemoved Sock w =
     w\<lparr>Manager := (Manager w)\<lparr>SocketRules := AList.delete (ItemId Sock) (SocketRules (Manager w)),
         SocketCookieRules := AList.delete (Cookie Sock) (SocketCookieRules (Manager w))\<rparr>\<rparr>"

definition OnProcessRemoved :: "ProcessTree \<Rightarrow> rule_world \<Rightarrow> rule_world" where
  "OnProcessRemoved Proc w =
     w\<lparr>Manager := (Manager w)\<lparr>ProcessRules := AList.delete (ItemId Proc) (ProcessRules (Manager w))\<rparr>,
       Kernel := RemovePidDownloadMark (word_of_int (ProcessId Proc)) (Kernel w)\<rparr>"

definition OnAppFirstTimeConnected :: "rule_env \<Rightarrow> system_view \<Rightarrow> ApplicationTree \<Rightarrow> rule_world \<Rightarrow> rule_world" where
  "OnAppFirstTimeConnected E V App w =
     (case filter (\<lambda>row. Target row = ApplicationPath App) (RuleTable w) of
        [] \<Rightarrow> w
      | row # _ \<Rightarrow>
          let (R, L) = fetch_marks (EnvNet E) (ItemId App) (rules_of_row row) (Link w); w1 = w\<lparr>Link := L\<rparr> in
          if \<not> IsDefault R
          then recache E V (Some (ApplicationItemPtr App))
            (w1\<lparr>Manager := (Manager w1)\<lparr>ApplicationRules := AList.update (ItemId App) R (ApplicationRules (Manager w1))\<rparr>\<rparr>)
          else w1)"

definition LoadSystemRule :: "rule_env \<Rightarrow> system_view \<Rightarrow> rule_world \<Rightarrow> rule_world" where
  "LoadSystemRule E V w =
     (case filter (\<lambda>row. Target row = ''system'') (RuleTable w) of
        [] \<Rightarrow> w
      | row # _ \<Rightarrow>
          let (R, L) = fetch_marks (EnvNet E) 0 (rules_of_row row) (Link w); w1 = w\<lparr>Link := L\<rparr> in
          if \<not> IsDefault R
          then recache E V (Some (SystemItemPtr (ViewSystemItem V))) (w1\<lparr>Manager := (Manager w1)\<lparr>SystemRules := R\<rparr>\<rparr>)
          else w1)"

definition SendCurrentRulesToClient :: "WRuleManager \<Rightarrow> WRuleUpdate list" where
  "SendCurrentRulesToClient M =
     (let send = map (\<lambda>p. \<lparr>UpdateRules = snd p, TrafficItemId = fst p, ParentAppId = 0\<rparr>) in
      (if \<not> IsDefault (SystemRules M) then [\<lparr>UpdateRules = SystemRules M, TrafficItemId = 0, ParentAppId = 0\<rparr>] else [])
      @ send (ApplicationRules M) @ send (ProcessRules M) @ send (SocketRules M))"

text \<open>\<^verbatim>\<open>HandleRuleChange\<close>, in the order of its body: the early system rule, the two limits, the switch
  over the item type, and the common tail.\<close>

definition early_system_rule :: "rule_env \<Rightarrow> traffic_item \<Rightarrow> WRuleUpdate \<Rightarrow> rule_world \<Rightarrow> rule_world" where
  "early_system_rule E it U w =
     (if GetType it = TI_System
      then w\<lparr>Kernel := snd (UpdateSocketRules (EnvAccepts E) 0 (AsBase (UpdateRules U)) (Kernel w))\<rparr> else w)"

definition apply_download_limit :: "rule_env \<Rightarrow> traffic_item \<Rightarrow> WRuleUpdate \<times> rule_world \<Rightarrow> WRuleUpdate \<times> rule_world" where
  "apply_download_limit E it Uw =
     (case Uw of (U, w) \<Rightarrow>
        if DownloadLimit (UpdateRules U) = 0
        then let w1 = (case it of
                 SocketItemPtr Sock \<Rightarrow> w\<lparr>Kernel := RemoveIngressPortRouting (EnvAccepts E) (Port (LocalEndpoint (SocketTuple Sock))) (Kernel w)\<rparr>
               | _ \<Rightarrow> w)
          in (U, w1\<lparr>Link := RemoveDownloadLimit (EnvNet E) (TrafficItemId U) (Link w1)\<rparr>)
        else let (l, L) = GetDownloadLimit (TrafficItemId U) (DownloadLimit (UpdateRules U)) (Link w)
          in (U\<lparr>UpdateRules := (UpdateRules U)\<lparr>DownloadMark := Mark l\<rparr>\<rparr>, w\<lparr>Link := L\<rparr>))"

definition apply_upload_limit :: "rule_env \<Rightarrow> WRuleUpdate \<times> rule_world \<Rightarrow> WRuleUpdate \<times> rule_world" where
  "apply_upload_limit E Uw =
     (case Uw of (U, w) \<Rightarrow>
        if UploadLimit (UpdateRules U) = 0
        then (U, w\<lparr>Link := RemoveUploadLimit (EnvNet E) (TrafficItemId U) (Link w)\<rparr>)
        else let (l, L) = GetUploadLimit (EnvNet E) (TrafficItemId U) (UploadLimit (UpdateRules U)) (Link w)
          in (U\<lparr>UpdateRules := (UpdateRules U)\<lparr>UploadMark := Mark l\<rparr>\<rparr>, w\<lparr>Link := L\<rparr>))"

definition set_pid_marks :: "rule_env \<Rightarrow> WTrafficItemRules \<Rightarrow> WProcessId list \<Rightarrow> kernel_maps \<Rightarrow> kernel_maps" where
  "set_pid_marks E R Pids K =
     (if DownloadMark R \<noteq> 0 then fold (\<lambda>p. SetPidDownloadMark (EnvAccepts E) (word_of_int p) (DownloadMark R)) Pids K
      else if DownloadLimit R = 0 then fold (\<lambda>p. RemovePidDownloadMark (word_of_int p)) Pids K
      else K)"

definition store_rule :: "rule_env \<Rightarrow> traffic_item \<Rightarrow> WRuleUpdate \<Rightarrow> rule_world \<Rightarrow> rule_error + rule_world" where
  "store_rule E it U w =
     (let R = UpdateRules U; M = Manager w in
      case it of
        SystemItemPtr _ \<Rightarrow>
          Inr (w\<lparr>Manager := M\<lparr>SystemRules := R\<rparr>, RuleTable := WriteSystemRuleToDb E U (RuleTable w)\<rparr>)
      | ApplicationItemPtr App \<Rightarrow>
          (let w1 = w\<lparr>Manager := M\<lparr>ApplicationRules := AList.update (TrafficItemId U) R (ApplicationRules M)\<rparr>,
                      Kernel := set_pid_marks E R (map fst (Processes App)) (Kernel w)\<rparr>
           in case WriteAppRuleToDb E U App (RuleTable w1) of
                Inl err \<Rightarrow> Inl err
              | Inr rows \<Rightarrow> Inr (w1\<lparr>RuleTable := rows\<rparr>))
      | ProcessItemPtr Proc \<Rightarrow>
          Inr (w\<lparr>Manager := M\<lparr>ProcessRules := AList.update (TrafficItemId U) R (ProcessRules M)\<rparr>,
                 Kernel := set_pid_marks E R [ProcessId Proc] (Kernel w)\<rparr>)
      | SocketItemPtr _ \<Rightarrow>
          Inr (w\<lparr>Manager := M\<lparr>SocketRules := AList.update (TrafficItemId U) R (SocketRules M)\<rparr>\<rparr>)
      | _ \<Rightarrow> Inr w)"

definition finish_change :: "rule_env \<Rightarrow> system_view \<Rightarrow> traffic_item \<Rightarrow> WRuleUpdate \<Rightarrow> rule_world \<Rightarrow> rule_world" where
  "finish_change E V CacheRoot U w =
     (let w1 = recache E V (Some CacheRoot) w
      in w1\<lparr>Manager := RemoveEmptyRules (Manager w1), Broadcasts := Broadcasts w1 @ [U]\<rparr>)"

definition HandleRuleChange :: "rule_env \<Rightarrow> system_view \<Rightarrow> WRuleUpdate option \<Rightarrow> rule_world \<Rightarrow> rule_error + rule_world" where
  "HandleRuleChange E V msg w =
     (case msg of None \<Rightarrow> Inr w
      | Some U0 \<Rightarrow>
        (case GetTrafficItemById V (TrafficItemId U0) of
           None \<Rightarrow> Inr w
         | Some it \<Rightarrow>
             (case (if GetType it = TI_System then Some it else GetTrafficItemById V (ParentAppId U0)) of
                None \<Rightarrow> Inr w
              | Some CacheRoot \<Rightarrow>
                  let w1 = early_system_rule E it U0 w;
                      (U, w2) = apply_upload_limit E (apply_download_limit E it (U0, w1))
                  in case store_rule E it U w2 of
                       Inl err \<Rightarrow> Inl err
                     | Inr w3 \<Rightarrow> Inr (finish_change E V CacheRoot U w3))))"

section \<open>Inheritance\<close>

text \<open>Everything of a rule but its type.\<close>

definition rule_vals :: "WTrafficItemRules \<Rightarrow> u8 \<times> u8 \<times> u32 \<times> u32 \<times> real \<times> real" where
  "rule_vals R = (UploadSwitch R, DownloadSwitch R, UploadMark R, DownloadMark R, UploadLimit R, DownloadLimit R)"

lemma rule_vals_effective:
  "rule_vals P = rule_vals P' \<Longrightarrow> rule_vals (GetEffectiveRules P I) = rule_vals (GetEffectiveRules P' I)"
  by (simp add: rule_vals_def rule_defs)

lemma rule_vals_default: "IsDefault I \<Longrightarrow> rule_vals (GetEffectiveRules P I) = rule_vals P"
  by (simp add: rule_vals_def IsDefault_def rule_defs)

lemma IsDefault_init [simp]: "IsDefault WTrafficItemRules_init"
  by (simp add: IsDefault_def WTrafficItemRules_init_def)

lemma rule_vals_IsDefault: "IsDefault I \<Longrightarrow> rule_vals I = rule_vals WTrafficItemRules_init"
  by (simp add: rule_vals_def IsDefault_def WTrafficItemRules_init_def)

lemma AsBase_rule_vals: "rule_vals R = rule_vals R' \<Longrightarrow> AsBase R = AsBase R'"
  by (simp add: rule_vals_def AsBase_def)

lemma rules_eq_AsBase: "rules_eq A B \<longleftrightarrow> A = AsBase B"
  by (auto simp: rules_eq_def AsBase_def)

definition effective :: "WRuleManager \<Rightarrow> ApplicationTree \<Rightarrow> ProcessTree \<Rightarrow> SocketTree \<Rightarrow> WTrafficItemRules" where
  "effective M App Proc Sock =
     GetEffectiveRules (GetEffectiveRules (GetEffectiveRules (SystemRules M)
       (rules_or_default (ApplicationRules M) (ItemId App)))
       (rules_or_default (ProcessRules M) (ItemId Proc)))
       (rules_or_default (SocketRules M) (ItemId Sock))"

section \<open>The cache after an update\<close>

definition same_rules :: "WRuleManager \<Rightarrow> WRuleManager \<Rightarrow> bool" where
  "same_rules M M' \<longleftrightarrow> SystemRules M' = SystemRules M \<and> ApplicationRules M' = ApplicationRules M
     \<and> ProcessRules M' = ProcessRules M \<and> rules_or_default (SocketRules M') = rules_or_default (SocketRules M)"

definition cookie_rules :: "WRuleManager \<Rightarrow> WSocketCookie \<rightharpoonup> WTrafficItemRulesBase" where
  "cookie_rules M C = map_option Rules (map_of (SocketCookieRules M) C)"

definition put_pair :: "'k \<times> 'v \<Rightarrow> ('k \<rightharpoonup> 'v) \<Rightarrow> ('k \<rightharpoonup> 'v)" where
  "put_pair p m = m(fst p \<mapsto> snd p)"

definition cache_ok :: "WRuleManager \<Rightarrow> kernel_maps \<Rightarrow> bool" where
  "cache_ok M K \<longleftrightarrow> um_distinct (SocketCookieRules M) \<and> um_distinct (ApplicationRules M)
     \<and> um_distinct (ProcessRules M) \<and> um_distinct (SocketRules M) \<and> 0 \<notin> um_keys (SocketCookieRules M)
     \<and> (\<forall>C R. map_of (SocketCookieRules M) C = Some R \<and> \<not> bDirty R \<longrightarrow> socket_rules K C = Some (Rules R))"

lemma same_rules_refl [simp]: "same_rules M M"
  by (simp add: same_rules_def)

lemma same_rules_trans: "same_rules M M' \<Longrightarrow> same_rules M' M'' \<Longrightarrow> same_rules M M''"
  by (simp add: same_rules_def)

lemma effective_same: "same_rules M M' \<Longrightarrow> effective M' = effective M"
  by (simp add: same_rules_def effective_def fun_eq_iff)

lemma rules_or_default_self:
  "rules_or_default (AList.update i (rules_or_default m i) m) = rules_or_default m"
  by (simp add: rules_or_default_def fun_eq_iff split: option.splits)

lemma cache_socket_same: "same_rules M (cache_socket E p M)"
  by (simp add: cache_socket_def same_rules_def Let_def rules_or_default_self split: prod.splits option.splits)

lemma cache_socket_cookie:
  "cookie_rules (cache_socket E (C, S) M) =
     put_pair (C, AsBase (GetEffectiveRules E (rules_or_default (SocketRules M) (ItemId S)))) (cookie_rules M)"
  by (auto simp: put_pair_def cache_socket_def cookie_rules_def Let_def rules_eq_AsBase fun_eq_iff split: option.splits)

lemma cache_socket_ok: "cache_ok M K \<Longrightarrow> C \<noteq> 0 \<Longrightarrow> cache_ok (cache_socket E (C, S) M) K"
  by (auto simp: cache_ok_def cache_socket_def Let_def split: option.splits if_splits)

text \<open>The sockets of an application with their process, and the rules the cache should hold for them.\<close>

definition app_sockets :: "ApplicationTree \<Rightarrow> (ProcessTree \<times> WSocketCookie \<times> SocketTree) list" where
  "app_sockets App = concat (map (\<lambda>q. map (\<lambda>s. (snd q, s)) (Sockets (snd q))) (Processes App))"

definition wanted :: "WRuleManager \<Rightarrow> ApplicationTree \<Rightarrow> (WSocketCookie \<times> WTrafficItemRulesBase) list" where
  "wanted M App = map (\<lambda>(p, c, s). (c, AsBase (effective M App p s))) (app_sockets App)"

lemma fold_cache_sockets:
  assumes "\<forall>q \<in> set ss. fst q \<noteq> 0"
  shows "same_rules M (fold (cache_socket E) ss M)
    \<and> (cache_ok M K \<longrightarrow> cache_ok (fold (cache_socket E) ss M) K)
    \<and> cookie_rules (fold (cache_socket E) ss M) =
        fold put_pair (map (\<lambda>q. (fst q, AsBase (GetEffectiveRules E (rules_or_default (SocketRules M) (ItemId (snd q)))))) ss)
          (cookie_rules M)"
  using assms
proof (induction ss arbitrary: M)
  case (Cons q ss)
  obtain C S where q: "q = (C, S)" by force
  let ?M = "cache_socket E (C, S) M"
  have "same_rules M ?M" by (rule cache_socket_same)
  moreover from this have "rules_or_default (SocketRules ?M) = rules_or_default (SocketRules M)"
    by (simp add: same_rules_def)
  ultimately show ?case using Cons.IH [of ?M] Cons.prems q
    by (auto simp: cache_socket_cookie intro: same_rules_trans cache_socket_ok)
qed simp

lemma fold_cache_processes:
  assumes "\<forall>q \<in> set ps. \<forall>s \<in> set (Sockets (snd q)). fst s \<noteq> 0"
    and "E = GetEffectiveRules (SystemRules M) (rules_or_default (ApplicationRules M) (ItemId App))"
  shows "same_rules M (fold (\<lambda>q. cache_process E (snd q)) ps M)
    \<and> (cache_ok M K \<longrightarrow> cache_ok (fold (\<lambda>q. cache_process E (snd q)) ps M) K)
    \<and> cookie_rules (fold (\<lambda>q. cache_process E (snd q)) ps M) =
        fold put_pair (concat (map (\<lambda>q. map (\<lambda>s. (fst s, AsBase (effective M App (snd q) (snd s)))) (Sockets (snd q))) ps))
          (cookie_rules M)"
  using assms
proof (induction ps arbitrary: M)
  case (Cons q ps)
  let ?E = "GetEffectiveRules E (rules_or_default (ProcessRules M) (ItemId (snd q)))"
  let ?M = "cache_process E (snd q) M"
  have F: "same_rules M ?M" "cache_ok M K \<longrightarrow> cache_ok ?M K" "cookie_rules ?M =
      fold put_pair (map (\<lambda>s. (fst s, AsBase (effective M App (snd q) (snd s)))) (Sockets (snd q))) (cookie_rules M)"
    using fold_cache_sockets [of "Sockets (snd q)" M ?E K] Cons.prems
    by (simp_all add: cache_process_def Let_def effective_def)
  then have "E = GetEffectiveRules (SystemRules ?M) (rules_or_default (ApplicationRules ?M) (ItemId App))"
    using Cons.prems(2) by (simp add: same_rules_def)
  then show ?case using Cons.IH [of ?M] Cons.prems(1) F effective_same [OF F(1)]
    by (auto intro: same_rules_trans)
qed simp

lemma wanted_alt: "wanted M App =
    concat (map (\<lambda>q. map (\<lambda>s. (fst s, AsBase (effective M App (snd q) (snd s)))) (Sockets (snd q))) (Processes App))"
  by (simp add: wanted_def app_sockets_def map_concat o_def split_beta)

lemma cache_app_spec:
  assumes "\<forall>x \<in> set (app_sockets App). fst (snd x) \<noteq> 0"
  shows "same_rules M (cache_app App M) \<and> (cache_ok M K \<longrightarrow> cache_ok (cache_app App M) K)
    \<and> cookie_rules (cache_app App M) = fold put_pair (wanted M App) (cookie_rules M)"
proof -
  have "\<forall>q \<in> set (Processes App). \<forall>s \<in> set (Sockets (snd q)). fst s \<noteq> 0"
    using assms by (auto simp: app_sockets_def)
  from fold_cache_processes [OF this refl, where K = K] show ?thesis
    by (simp add: cache_app_def Let_def wanted_alt)
qed

lemma fold_cache_apps:
  assumes "\<forall>App \<in> set apps. \<forall>x \<in> set (app_sockets App). fst (snd x) \<noteq> 0"
  shows "same_rules M (fold cache_app apps M) \<and> (cache_ok M K \<longrightarrow> cache_ok (fold cache_app apps M) K)
    \<and> cookie_rules (fold cache_app apps M) = fold put_pair (concat (map (wanted M) apps)) (cookie_rules M)"
  using assms
proof (induction apps arbitrary: M)
  case (Cons App apps)
  have F: "same_rules M (cache_app App M)" "cache_ok M K \<longrightarrow> cache_ok (cache_app App M) K"
    "cookie_rules (cache_app App M) = fold put_pair (wanted M App) (cookie_rules M)"
    using cache_app_spec [of App M K] Cons.prems by auto
  have "wanted (cache_app App M) = wanted M"
    using effective_same [OF F(1)] by (simp add: wanted_def fun_eq_iff)
  then show ?case using Cons.IH [of "cache_app App M"] Cons.prems F
    by (auto intro: same_rules_trans)
qed simp

lemma fold_upd_other: "C \<notin> fst ` set xs \<Longrightarrow> fold put_pair xs m C = m C"
  by (induction xs arbitrary: m) (auto simp: put_pair_def)

lemma fold_upd_distinct: "distinct (map fst xs) \<Longrightarrow> (C, v) \<in> set xs \<Longrightarrow> fold put_pair xs m C = Some v"
  by (induction xs arbitrary: m) (auto simp: fold_upd_other put_pair_def)

section \<open>The kernel after a synchronisation\<close>

definition always_accepts :: "kernel_accepts \<Rightarrow> bool" where
  "always_accepts A \<longleftrightarrow> (\<forall>m C. accepts_rules A m C)"

lemma routing_socket_rules [simp]:
  "socket_rules (SetupIngressPortRouting A m p K) = socket_rules K"
  "socket_rules (RemoveIngressPortRouting A p K) = socket_rules K"
  "socket_rules (SetPidDownloadMark A i m' K) = socket_rules K"
  "socket_rules (RemovePidDownloadMark i K) = socket_rules K"
  by (simp_all add: SetupIngressPortRouting_def RemoveIngressPortRouting_def SetPidDownloadMark_def
      RemovePidDownloadMark_def)

lemma UpdateSocketRules_accepts:
  "always_accepts A \<Longrightarrow> UpdateSocketRules A C R K = (True, K\<lparr>socket_rules := (socket_rules K)(C \<mapsto> R)\<rparr>)"
  by (simp add: UpdateSocketRules_def Update_def always_accepts_def)

lemma sync_entry_spec:
  assumes "always_accepts A" and "sync_entry A V C R K = (R1, K1)"
    and "\<not> bDirty R \<Longrightarrow> socket_rules K C = Some (Rules R)"
  shows "R1 = R\<lparr>bDirty := False\<rparr> \<and> socket_rules K1 = (socket_rules K)(C \<mapsto> Rules R)"
  using assms
  by (cases "bDirty R")
    (auto simp: sync_entry_def UpdateSocketRules_accepts Let_def fun_upd_idem_iff
      split: option.splits traffic_item.splits if_splits)

lemma sync_loop_spec:
  assumes "always_accepts A" and "sync_loop A V m K = (m1, K1)" and "um_distinct m"
    and "\<And>C R. map_of m C = Some R \<Longrightarrow> \<not> bDirty R \<Longrightarrow> socket_rules K C = Some (Rules R)"
  shows "m1 = map (\<lambda>p. (fst p, (snd p)\<lparr>bDirty := False\<rparr>)) m
    \<and> socket_rules K1 = socket_rules K ++ (\<lambda>C. map_option Rules (map_of m C))"
  using assms(2-)
proof (induction m arbitrary: K m1 K1)
  case Nil
  then show ?case by (simp add: map_add_def)
next
  case (Cons p m)
  obtain C R where p: "p = (C, R)" by force
  obtain R1 K' where e: "sync_entry A V C R K = (R1, K')" by force
  obtain m' where l: "sync_loop A V m K' = (m', K1)" and m1: "m1 = (C, R1) # m'"
    using Cons.prems(1) p e by (auto simp: Let_def split: prod.splits)
  have E: "R1 = R\<lparr>bDirty := False\<rparr>" "socket_rules K' = (socket_rules K)(C \<mapsto> Rules R)"
    using sync_entry_spec [OF assms(1) e] Cons.prems(3) [of C R] p by auto
  have new: "map_of m C = None" using Cons.prems(2) p by (simp add: map_of_eq_None_iff)
  have "m' = map (\<lambda>p. (fst p, (snd p)\<lparr>bDirty := False\<rparr>)) m
      \<and> socket_rules K1 = socket_rules K' ++ (\<lambda>C. map_option Rules (map_of m C))"
  proof (rule Cons.IH [OF l])
    show "um_distinct m" using Cons.prems(2) by simp
    show "socket_rules K' D = Some (Rules S)" if "map_of m D = Some S" "\<not> bDirty S" for D S
      using Cons.prems(3) [of D S] that p new E(2) by (cases "D = C") auto
  qed
  moreover have "(socket_rules K)(C \<mapsto> Rules R) ++ (\<lambda>C. map_option Rules (map_of m C))
      = socket_rules K ++ (\<lambda>D. map_option Rules (map_of (p # m) D))"
    using new p by (auto simp: fun_eq_iff map_add_def split: option.splits)
  ultimately show ?case using m1 E p by simp
qed

lemma SyncRules_spec:
  assumes "always_accepts A" and "cache_ok M K" and "SyncRules A V (M, K) = (M1, K1)"
  shows "cache_ok M1 K1 \<and> same_rules M M1 \<and> cookie_rules M1 = cookie_rules M
    \<and> socket_rules K1 = socket_rules K ++ cookie_rules M"
proof -
  obtain m where l: "sync_loop A V (SocketCookieRules M) K = (m, K1)" and M1: "M1 = M\<lparr>SocketCookieRules := m\<rparr>"
    using assms(3) by (auto simp: SyncRules_def Let_def split: prod.splits)
  have S: "m = map (\<lambda>p. (fst p, (snd p)\<lparr>bDirty := False\<rparr>)) (SocketCookieRules M)"
      "socket_rules K1 = socket_rules K ++ (\<lambda>C. map_option Rules (map_of (SocketCookieRules M) C))"
    using sync_loop_spec [OF assms(1) l] assms(2) by (auto simp: cache_ok_def)
  have mo: "map_of m C = map_option (\<lambda>R. R\<lparr>bDirty := False\<rparr>) (map_of (SocketCookieRules M) C)" for C
    unfolding S(1) by (rule map_of_map_value)
  have "map fst m = map fst (SocketCookieRules M)" by (simp add: S(1) o_def)
  then have "um_distinct m" "um_keys m = um_keys (SocketCookieRules M)"
    using assms(2) by (simp_all add: cache_ok_def um_keys_def flip: set_map)
  moreover have "cookie_rules M1 = cookie_rules M"
    by (simp add: M1 cookie_rules_def mo fun_eq_iff option.map_comp o_def)
  moreover have "socket_rules K1 C = Some (Rules R)" if "map_of m C = Some R" for C R
    using that mo [of C] S(2) by auto
  moreover have "(\<lambda>C. map_option Rules (map_of (SocketCookieRules M) C)) = cookie_rules M"
    by (simp add: fun_eq_iff cookie_rules_def)
  ultimately show ?thesis using assms(2) S(2)
    by (auto simp: cache_ok_def M1 same_rules_def)
qed

section \<open>Dropping empty rules\<close>

lemma vals_filter:
  assumes "um_distinct m" and "rule_vals P = rule_vals P'"
  shows "rule_vals (GetEffectiveRules P (rules_or_default (filter (\<lambda>p. \<not> IsDefault (snd p)) m) i))
    = rule_vals (GetEffectiveRules P' (rules_or_default m i))"
proof (cases "map_of m i")
  case None
  then have "map_of (filter (\<lambda>p. \<not> IsDefault (snd p)) m) i = None"
    using map_of_filter_distinct [OF assms(1), of "\<lambda>R. \<not> IsDefault R" i] by simp
  then show ?thesis using None assms(2) by (simp add: rules_or_default_def rule_vals_default)
next
  case (Some R)
  then have "map_of (filter (\<lambda>p. \<not> IsDefault (snd p)) m) i = (if IsDefault R then None else Some R)"
    using map_of_filter_distinct [OF assms(1), of "\<lambda>R. \<not> IsDefault R" i] by simp
  then show ?thesis using Some assms(2) rule_vals_effective [OF assms(2), of R]
    by (cases "IsDefault R") (simp_all add: rules_or_default_def rule_vals_default)
qed

lemma effective_RemoveEmptyRules:
  assumes "cache_ok M K"
  shows "AsBase (effective (RemoveEmptyRules M) App p s) = AsBase (effective M App p s)"
proof -
  have "rule_vals (SystemRules (RemoveEmptyRules M)) = rule_vals (SystemRules M)"
    using rule_vals_IsDefault [of "SystemRules M"] by (simp add: RemoveEmptyRules_def)
  moreover have "um_distinct (ApplicationRules M)" "um_distinct (ProcessRules M)" "um_distinct (SocketRules M)"
    using assms by (auto simp: cache_ok_def)
  ultimately have "rule_vals (effective (RemoveEmptyRules M) App p s) = rule_vals (effective M App p s)"
    by (simp add: effective_def RemoveEmptyRules_def vals_filter)
  then show ?thesis by (rule AsBase_rule_vals)
qed

lemma cache_ok_RemoveEmptyRules: "cache_ok M K \<Longrightarrow> cache_ok (RemoveEmptyRules M) K"
  unfolding cache_ok_def RemoveEmptyRules_def
  by (auto simp: um_keys_def dest!: map_of_SomeD)

section \<open>A rule change reaches the kernel\<close>

fun root_apps :: "system_view \<Rightarrow> traffic_item \<Rightarrow> ApplicationTree list" where
  "root_apps V (SystemItemPtr _) = map snd (Applications (ViewSystemItem V))"
| "root_apps V (ApplicationItemPtr App) = [App]"
| "root_apps V _ = []"

definition tree_ok :: "ApplicationTree list \<Rightarrow> bool" where
  "tree_ok apps \<longleftrightarrow> distinct (concat (map (\<lambda>App. map (\<lambda>x. fst (snd x)) (app_sockets App)) apps))
     \<and> (\<forall>App \<in> set apps. \<forall>x \<in> set (app_sockets App). fst (snd x) \<noteq> 0)"

lemma UpdateRuleCache_apps: "UpdateRuleCache V (Some it) M = fold cache_app (root_apps V it) M"
  by (cases it) (simp_all add: fold_map o_def)

lemma recache_spec:
  assumes A: "always_accepts (EnvAccepts E)" and ok: "cache_ok (Manager w) (Kernel w)" and tree: "tree_ok (root_apps V it)"
  shows "cache_ok (Manager (recache E V (Some it) w)) (Kernel (recache E V (Some it) w))
    \<and> same_rules (Manager w) (Manager (recache E V (Some it) w))
    \<and> (\<forall>App \<in> set (root_apps V it). \<forall>(p, C, s) \<in> set (app_sockets App).
        socket_rules (Kernel (recache E V (Some it) w)) C = Some (AsBase (effective (Manager w) App p s)))"
proof -
  let ?apps = "root_apps V it" and ?M = "Manager w"
  define M1 where "M1 = fold cache_app ?apps ?M"
  have F: "same_rules ?M M1" "cache_ok M1 (Kernel w)"
    "cookie_rules M1 = fold put_pair (concat (map (wanted ?M) ?apps)) (cookie_rules ?M)"
    using fold_cache_apps [of ?apps ?M "Kernel w"] tree ok by (auto simp: tree_ok_def M1_def)
  obtain M2 K2 where s: "SyncRules (EnvAccepts E) V (M1, Kernel w) = (M2, K2)" by force
  have r: "recache E V (Some it) w = w\<lparr>Manager := M2, Kernel := K2\<rparr>"
    using s by (simp add: recache_def UpdateRuleCache_apps M1_def)
  have S: "cache_ok M2 K2" "same_rules M1 M2" "socket_rules K2 = socket_rules (Kernel w) ++ cookie_rules M1"
    using SyncRules_spec [OF A F(2) s] by auto
  have "map fst (concat (map (wanted ?M) ?apps)) = concat (map (\<lambda>App. map (\<lambda>x. fst (snd x)) (app_sockets App)) ?apps)"
    by (simp add: map_concat wanted_def o_def split_beta)
  then have dist: "distinct (map fst (concat (map (wanted ?M) ?apps)))" using tree by (simp add: tree_ok_def)
  have "socket_rules K2 C = Some (AsBase (effective ?M App p s))"
    if "App \<in> set ?apps" "(p, C, s) \<in> set (app_sockets App)" for App p C s
  proof -
    have "(C, AsBase (effective ?M App p s)) \<in> set (concat (map (wanted ?M) ?apps))"
      using that by (force simp: wanted_def)
    then show ?thesis using fold_upd_distinct [OF dist] F(3) S(3) by (simp add: map_add_def)
  qed
  then show ?thesis using S(1,2) F(1) r by (auto intro: same_rules_trans)
qed

text \<open>The steps of a rule change before the cache is refreshed keep the invariant.\<close>

lemma cache_ok_kernel:
  "cache_ok M K \<Longrightarrow> (\<And>C. C \<noteq> 0 \<Longrightarrow> socket_rules K' C = socket_rules K C) \<Longrightarrow> cache_ok M K'"
  unfolding cache_ok_def by (metis map_of_Some_um_keys)

lemma cache_ok_early:
  "cache_ok (Manager w) (Kernel w) \<Longrightarrow>
     cache_ok (Manager (early_system_rule E it U w)) (Kernel (early_system_rule E it U w))"
  by (auto simp: early_system_rule_def socket_rules_UpdateSocketRules elim!: cache_ok_kernel)

lemma cache_ok_limits:
  assumes "apply_upload_limit E (apply_download_limit E it (U0, w)) = (U, w1)"
  shows "Manager w1 = Manager w" "socket_rules (Kernel w1) = socket_rules (Kernel w)"
  using assms by (auto simp: apply_upload_limit_def apply_download_limit_def Let_def split: if_splits prod.splits traffic_item.splits)

lemma set_pid_marks_rules [simp]: "socket_rules (set_pid_marks E R ps K) = socket_rules K"
proof -
  have "socket_rules (fold (\<lambda>p. SetPidDownloadMark A (word_of_int p) m) ps K) = socket_rules K" for A m
    by (induction ps arbitrary: K) simp_all
  moreover have "socket_rules (fold (\<lambda>p. RemovePidDownloadMark (word_of_int p)) ps K) = socket_rules K"
    by (induction ps arbitrary: K) simp_all
  ultimately show ?thesis by (simp add: set_pid_marks_def)
qed

lemma cache_ok_store:
  assumes "cache_ok (Manager w) (Kernel w)" and "store_rule E it U w = Inr w1"
  shows "cache_ok (Manager w1) (Kernel w1) \<and> socket_rules (Kernel w1) = socket_rules (Kernel w)"
  using assms
  by (cases it) (auto simp: store_rule_def Let_def cache_ok_def split: sum.splits)

text \<open>
  C1. A rule change takes effect: when the daemon has handled a rule update without error and the
  kernel took the map updates, the kernel map holds for every socket below the changed application
  (or below every application, for the system rule) exactly the rules the socket inherits from the
  manager's state, and the kernel program drops its IP packets in exactly the directions in which
  these rules, or the system rule under cookie 0, say block.
\<close>

theorem HandleRuleChange_enforced:
  assumes A: "always_accepts (EnvAccepts E)" and ok: "cache_ok (Manager w) (Kernel w)"
    and it: "GetTrafficItemById V (TrafficItemId U) = Some it"
    and root: "(if GetType it = TI_System then Some it else GetTrafficItemById V (ParentAppId U)) = Some CacheRoot"
    and tree: "tree_ok (root_apps V CacheRoot)"
    and run: "HandleRuleChange E V (Some U) w = Inr w'"
    and sock: "App \<in> set (root_apps V CacheRoot)" "(Proc, C, Sock) \<in> set (app_sockets App)"
  shows "cache_ok (Manager w') (Kernel w')
    \<and> socket_rules (Kernel w') C = Some (AsBase (effective (Manager w') App Proc Sock))
    \<and> (is_ip Skb \<longrightarrow>
        (fst (cgskb_ingress (Kernel w') reserved Now C Skb) = SK_DROP \<longleftrightarrow>
           DownloadSwitch (effective (Manager w') App Proc Sock) = SS_Block \<or> blocks DownloadSwitch (Kernel w') 0)
        \<and> (fst (cgskb_egress (Kernel w') reserved Now C Skb) = SK_DROP \<longleftrightarrow>
           UploadSwitch (effective (Manager w') App Proc Sock) = SS_Block \<or> blocks UploadSwitch (Kernel w') 0))"
proof -
  obtain U1 w2 where lim: "apply_upload_limit E (apply_download_limit E it (U, early_system_rule E it U w)) = (U1, w2)"
    by force
  obtain w3 where st: "store_rule E it U1 w2 = Inr w3" and w': "w' = finish_change E V CacheRoot U1 w3"
    using run it root lim by (auto simp: HandleRuleChange_def Let_def split: sum.splits)
  have "cache_ok (Manager w2) (Kernel w2)"
    using cache_ok_kernel [OF cache_ok_early [OF ok]] cache_ok_limits [OF lim] by metis
  then have ok3: "cache_ok (Manager w3) (Kernel w3)" using cache_ok_store [OF _ st] by blast
  define w4 where "w4 = recache E V (Some CacheRoot) w3"
  have R: "cache_ok (Manager w4) (Kernel w4)" "same_rules (Manager w3) (Manager w4)"
    "socket_rules (Kernel w4) C = Some (AsBase (effective (Manager w3) App Proc Sock))"
    using recache_spec [OF A ok3 tree] sock unfolding w4_def by auto
  have fin: "Manager w' = RemoveEmptyRules (Manager w4)" "Kernel w' = Kernel w4"
    by (simp_all add: w' finish_change_def w4_def Let_def)
  have eff: "AsBase (effective (Manager w') App Proc Sock) = AsBase (effective (Manager w3) App Proc Sock)"
    using effective_RemoveEmptyRules [OF R(1)] effective_same [OF R(2)] fin(1) by simp
  have here: "socket_rules (Kernel w') C = Some (AsBase (effective (Manager w') App Proc Sock))"
    using R(3) eff fin(2) by simp
  then show ?thesis using cache_ok_RemoveEmptyRules [OF R(1)] fin
    by (auto simp: cgskb_ingress_verdict cgskb_egress_verdict blocks_def AsBase_def)
qed

definition test_socket_item :: SocketTree where
  "test_socket_item = \<lparr>ItemId = 12, DownloadSpeed = 0, UploadSpeed = 0, TotalDownloadBytes = 0, TotalUploadBytes = 0,
     SocketTuple = WSocketTuple_init, UDPPerConnectionTraffic = [], Cookie = 7, SocketType = ST_Connect,
     ConnectionState = Connected\<rparr>"

definition test_process :: ProcessTree where
  "test_process = \<lparr>ItemId = 11, DownloadSpeed = 0, UploadSpeed = 0, TotalDownloadBytes = 0, TotalUploadBytes = 0,
     ProcessId = 4711, Sockets = [(7, test_socket_item)]\<rparr>"

definition test_app :: ApplicationTree where
  "test_app = \<lparr>ItemId = 10, DownloadSpeed = 0, UploadSpeed = 0, TotalDownloadBytes = 0, TotalUploadBytes = 0,
     ApplicationName = ''ssh'', ApplicationPath = ''/usr/bin/ssh'', ApplicationCommandLine = ''ssh'',
     Processes = [(4711, test_process)]\<rparr>"

definition test_system :: SystemTree where
  "test_system = \<lparr>ItemId = 0, DownloadSpeed = 0, UploadSpeed = 0, TotalDownloadBytes = 0, TotalUploadBytes = 0,
     HostName = ''System'', Filters = [], Applications = [(''/usr/bin/ssh'', test_app)]\<rparr>"

definition test_view :: system_view where
  "test_view = \<lparr>ViewSystemItem = test_system, GetTrafficItemById = [0 \<mapsto> SystemItemPtr test_system,
     10 \<mapsto> ApplicationItemPtr test_app, 11 \<mapsto> ProcessItemPtr test_process, 12 \<mapsto> SocketItemPtr test_socket_item]\<rparr>"

definition test_env :: rule_env where
  "test_env = \<lparr>EnvAccepts = \<lparr>accepts_rules = \<lambda>_ _. True, accepts_marks = \<lambda>_ _. True, accepts_pid_marks = \<lambda>_ _. True,
     accepts_ports = \<lambda>_ _. True\<rparr>, EnvNet = ''eth0'', EnvColumn = \<lambda>r. \<lfloor>r\<rfloor>, EnvNewID = \<lambda>rows. int (length rows) + 1\<rparr>"

definition test_world :: rule_world where
  "test_world = \<lparr>Manager = WRuleManager_init, Link = WIPLink_init, Kernel = no_maps, RuleTable = [], Broadcasts = []\<rparr>"

definition test_update :: WRuleUpdate where
  "test_update = \<lparr>UpdateRules = WTrafficItemRules_init\<lparr>DownloadSwitch := SS_Block, RuleType := Explicit\<rparr>,
     TrafficItemId = 10, ParentAppId = 10\<rparr>"

lemmas test_defs = test_socket_item_def test_process_def test_app_def test_system_def test_view_def test_env_def
  test_world_def test_update_def no_maps_def

lemma test_run: "HandleRuleChange test_env test_view (Some test_update) test_world
    = Inr (projr (HandleRuleChange test_env test_view (Some test_update) test_world))"
proof -
  have "\<not> isl (HandleRuleChange test_env test_view (Some test_update) test_world)"
    by (simp add: HandleRuleChange_def test_defs early_system_rule_def apply_download_limit_def apply_upload_limit_def
        store_rule_def WriteAppRuleToDb_def IsDefault_def WTrafficItemRules_init_def Let_def)
  then show ?thesis by (cases "HandleRuleChange test_env test_view (Some test_update) test_world") simp_all
qed

lemma test_rule: "DownloadSwitch (effective (Manager (projr (HandleRuleChange test_env test_view (Some test_update) test_world)))
    test_app test_process test_socket_item) = SS_Block"
  by (simp add: HandleRuleChange_def test_defs early_system_rule_def apply_download_limit_def apply_upload_limit_def
      store_rule_def WriteAppRuleToDb_def IsDefault_def WTrafficItemRules_init_def Let_def finish_change_def
      recache_def cache_app_def cache_process_def cache_socket_def rules_or_default_def WRuleManager_init_def
      SyncRules_def sync_entry_def UpdateSocketRules_def Update_def RemoveEmptyRules_def effective_def rule_defs)

theorem HandleRuleChange_enforced_witness:
  "fst (cgskb_ingress (Kernel (projr (HandleRuleChange test_env test_view (Some test_update) test_world))) True 0 7 test_skb) = SK_DROP"
proof -
  have 1: "always_accepts (EnvAccepts test_env)" by (simp add: always_accepts_def test_env_def)
  have 2: "cache_ok (Manager test_world) (Kernel test_world)"
    by (simp add: cache_ok_def test_world_def WRuleManager_init_def)
  have 3: "GetTrafficItemById test_view (TrafficItemId test_update) = Some (ApplicationItemPtr test_app)"
    by (simp add: test_view_def test_update_def)
  have 4: "(if GetType (ApplicationItemPtr test_app) = TI_System then Some (ApplicationItemPtr test_app)
      else GetTrafficItemById test_view (ParentAppId test_update)) = Some (ApplicationItemPtr test_app)"
    by (simp add: test_view_def test_update_def)
  have 5: "tree_ok (root_apps test_view (ApplicationItemPtr test_app))"
    by (simp add: tree_ok_def app_sockets_def test_app_def test_process_def)
  have 6: "test_app \<in> set (root_apps test_view (ApplicationItemPtr test_app))"
    "(test_process, 7, test_socket_item) \<in> set (app_sockets test_app)"
    by (simp_all add: app_sockets_def test_app_def test_process_def)
  have 7: "is_ip test_skb" by (simp add: is_ip_def test_skb_def bpf_htons_def)
  show ?thesis
    using HandleRuleChange_enforced [OF 1 2 3 4 5 test_run 6, of test_skb True 0] 7 test_rule by simp
qed

section \<open>Inheritance as a specification\<close>

text \<open>The switch of the innermost level that is explicit and set; \<open>levels\<close> from the system inwards.\<close>

definition nearest :: "'v::zero \<Rightarrow> ('v \<times> ERuleType) list \<Rightarrow> 'v" where
  "nearest outer levels =
     (case filter (\<lambda>l. snd l = Explicit \<and> fst l \<noteq> 0) (rev levels) of [] \<Rightarrow> outer | l # _ \<Rightarrow> fst l)"

text \<open>The limit of the outermost level that has one.\<close>

definition outermost :: "'v::zero \<Rightarrow> ('v \<times> ERuleType) list \<Rightarrow> 'v" where
  "outermost outer levels =
     (if outer \<noteq> 0 then outer
      else case filter (\<lambda>l. snd l = Explicit \<and> fst l \<noteq> 0) levels of [] \<Rightarrow> 0 | l # _ \<Rightarrow> fst l)"

definition levels :: "(WTrafficItemRules \<Rightarrow> 'v) \<Rightarrow> WRuleManager \<Rightarrow> ApplicationTree \<Rightarrow> ProcessTree \<Rightarrow> SocketTree \<Rightarrow>
    ('v \<times> ERuleType) list" where
  "levels f M App Proc Sock =
     map (\<lambda>R. (f R, RuleType R)) [rules_or_default (ApplicationRules M) (ItemId App),
       rules_or_default (ProcessRules M) (ItemId Proc), rules_or_default (SocketRules M) (ItemId Sock)]"

text \<open>
  C36. What a socket inherits: its switches and its marks are those of the innermost of socket,
  process and application whose rule is explicit and sets them, else the system's; its limits are
  those of the outermost level that has one. So when both an application and one of its sockets
  are limited, the socket's packets carry the mark of the socket's own class although the limit
  that counts as effective is the application's.
\<close>

theorem effective_inheritance:
  "UploadSwitch (effective M App Proc Sock) = nearest (UploadSwitch (SystemRules M)) (levels UploadSwitch M App Proc Sock)
   \<and> DownloadSwitch (effective M App Proc Sock) = nearest (DownloadSwitch (SystemRules M)) (levels DownloadSwitch M App Proc Sock)
   \<and> UploadMark (effective M App Proc Sock) = nearest (UploadMark (SystemRules M)) (levels UploadMark M App Proc Sock)
   \<and> DownloadMark (effective M App Proc Sock) = nearest (DownloadMark (SystemRules M)) (levels DownloadMark M App Proc Sock)
   \<and> UploadLimit (effective M App Proc Sock) = outermost (UploadLimit (SystemRules M)) (levels UploadLimit M App Proc Sock)
   \<and> DownloadLimit (effective M App Proc Sock) = outermost (DownloadLimit (SystemRules M)) (levels DownloadLimit M App Proc Sock)"
proof -
  have cases: "RuleType R = Implicit \<or> RuleType R = Explicit" for R :: WTrafficItemRules
    by (cases "RuleType R") auto
  show ?thesis
    using cases [of "rules_or_default (ApplicationRules M) (ItemId App)"]
      cases [of "rules_or_default (ProcessRules M) (ItemId Proc)"]
      cases [of "rules_or_default (SocketRules M) (ItemId Sock)"]
    unfolding effective_def levels_def nearest_def outermost_def rule_defs
    by (intro conjI) (elim disjE; simp)+
qed

section \<open>The rule table\<close>

definition one_row :: "string \<Rightarrow> rule_row list \<Rightarrow> bool" where
  "one_row T rows \<longleftrightarrow> length (filter (\<lambda>row. Target row = T) rows) \<le> 1 \<and> distinct (map RowID rows)"

lemma Target_update_rule:
  "filter (\<lambda>row. Target row = T) (update_rule E ID R rows) = update_rule E ID R (filter (\<lambda>row. Target row = T) rows)"
  by (induction rows) (auto simp: update_rule_def)

text \<open>
  A stored application rule comes back: after a non-default rule was written for an
  application, the table's row for its path loads as an explicit rule with the same switches and
  with the limits as the integer column stored them; after a default rule was written over an
  existing row, no row is left. Writing a default rule when there is no row reads the first row of
  an empty result.
\<close>

theorem WriteAppRuleToDb_roundtrip:
  assumes "one_row (ApplicationPath App) rows"
  shows "case WriteAppRuleToDb E U App rows of
      Inl err \<Rightarrow> IsDefault (UpdateRules U) \<and> filter (\<lambda>row. Target row = ApplicationPath App) rows = []
    | Inr rows' \<Rightarrow>
        (if IsDefault (UpdateRules U) then filter (\<lambda>row. Target row = ApplicationPath App) rows' = []
         else \<exists>row. filter (\<lambda>row. Target row = ApplicationPath App) rows' = [row]
           \<and> rules_of_row row = WTrafficItemRules_init
             \<lparr>DownloadSwitch := DownloadSwitch (UpdateRules U), UploadSwitch := UploadSwitch (UpdateRules U), RuleType := Explicit,
              DownloadLimit := of_int (EnvColumn E (DownloadLimit (UpdateRules U))),
              UploadLimit := of_int (EnvColumn E (UploadLimit (UpdateRules U)))\<rparr>)"
proof (cases "filter (\<lambda>row. Target row = ApplicationPath App) rows")
  case Nil
  then show ?thesis
    by (auto simp: WriteAppRuleToDb_def insert_rule_def rules_of_row_def Let_def)
next
  case (Cons row rest)
  then have one: "filter (\<lambda>row. Target row = ApplicationPath App) rows = [row]"
    using assms by (cases rest) (auto simp: one_row_def)
  have "filter (\<lambda>r. Target r = ApplicationPath App) (filter (\<lambda>r. RowID r \<noteq> RowID row) rows)
      = filter (\<lambda>r. RowID r \<noteq> RowID row) [row]"
    by (simp only: one [symmetric] filter_filter) (simp add: conj_commute)
  then show ?thesis using one
    by (simp add: WriteAppRuleToDb_def Let_def Target_update_rule)
      (simp add: update_rule_def rules_of_row_def)
qed

theorem WriteAppRuleToDb_roundtrip_witness:
  "case WriteAppRuleToDb test_env test_update test_app [] of
     Inl err \<Rightarrow> False
   | Inr rows' \<Rightarrow> \<exists>row. filter (\<lambda>row. Target row = ApplicationPath test_app) rows' = [row]
       \<and> DownloadSwitch (rules_of_row row) = SS_Block"
  using WriteAppRuleToDb_roundtrip [where App = test_app and rows = "[]" and E = test_env and U = test_update]
  by (auto simp: one_row_def IsDefault_def test_update_def split: sum.splits)

end
