(* ===== verification/String_Format.thy ===== *)
theory String_Format
  imports Waechter_Prelude
begin

text \<open>
  The string helpers of \<^verbatim>\<open>Util/Format.hpp\<close> and the parsing helpers of \<^verbatim>\<open>Util/Filesystem.hpp\<close> that the
  rest of the daemon builds on. A \<^verbatim>\<open>std::string\<close> is a character list; \<open>find_char\<close> and
  \<open>find_str\<close> are \<^verbatim>\<open>std::string::find\<close> from a position, with \<open>None\<close> for \<^verbatim>\<open>npos\<close>.
\<close>

section \<open>Model\<close>

definition find_char :: "char \<Rightarrow> string \<Rightarrow> nat \<Rightarrow> nat option" where
  "find_char c s p =
     (let n = p + length (takeWhile (\<lambda>x. x \<noteq> c) (drop p s)) in if n < length s then Some n else None)"

function find_str :: "string \<Rightarrow> string \<Rightarrow> nat \<Rightarrow> nat option" where
  "find_str needle s p =
     (if p + length needle > length s then None
      else if take (length needle) (drop p s) = needle then Some p
      else find_str needle s (p + 1))"
  by pat_completeness auto
termination
  by (relation "measure (\<lambda>(needle, s, p). length s + 1 - p)") auto

declare find_str.simps [simp del]

definition Trim :: "string \<Rightarrow> string" where
  "Trim Str = rev (dropWhile (\<lambda>c. c = CHR '' '') (rev (dropWhile (\<lambda>c. c = CHR '' '') Str)))"

function split_loop :: "char \<Rightarrow> string \<Rightarrow> nat \<Rightarrow> string list" where
  "split_loop Delimiter Str Start =
     (case find_char Delimiter Str Start of
        None \<Rightarrow> [drop Start Str]
      | Some End \<Rightarrow> take (End - Start) (drop Start Str) # split_loop Delimiter Str (End + 1))"
  by pat_completeness auto
termination
  by (relation "measure (\<lambda>(d, s, p). length s + 1 - p)") (auto simp: find_char_def Let_def split: if_splits)

declare split_loop.simps [simp del]

definition SplitString :: "string \<Rightarrow> char \<Rightarrow> string list" where
  "SplitString Str Delimiter = (if Str = [] then [] else split_loop Delimiter Str 0)"

text \<open>The replacement loop edits the string in place. With an empty needle it would never end.\<close>

partial_function (option) replace_loop :: "string \<Rightarrow> string \<Rightarrow> string \<Rightarrow> nat \<Rightarrow> string option" where
  "replace_loop Needle Replacement Result Pos =
     (case find_str Needle Result Pos of
        None \<Rightarrow> Some Result
      | Some p \<Rightarrow> replace_loop Needle Replacement
          (take p Result @ Replacement @ drop (p + length Needle) Result) (p + length Replacement))"

definition ReplaceAll :: "string \<Rightarrow> string \<Rightarrow> string \<Rightarrow> string option" where
  "ReplaceAll Haystack Needle Replacement = replace_loop Needle Replacement Haystack 0"

definition StartsWith :: "string \<Rightarrow> string \<Rightarrow> bool" where
  "StartsWith Str Prefix \<longleftrightarrow> length Str \<ge> length Prefix \<and> take (length Prefix) Str = Prefix"

definition EndsWith :: "string \<Rightarrow> string \<Rightarrow> bool" where
  "EndsWith Str Suffix \<longleftrightarrow> length Str \<ge> length Suffix \<and> drop (length Str - length Suffix) Str = Suffix"

fun JoinStrings :: "string list \<Rightarrow> char \<Rightarrow> string" where
  "JoinStrings [] d = []"
| "JoinStrings [s] d = s"
| "JoinStrings (s # t # ss) d = s @ [d, CHR '' ''] @ JoinStrings (t # ss) d"

datatype ETrafficUnit = TU_Bps | TU_KiBps | TU_MiBps | TU_GiBps | TU_Auto

definition ConvertFromBps :: "real \<Rightarrow> ETrafficUnit \<Rightarrow> real" where
  "ConvertFromBps Value ToUnit = (case ToUnit of
     TU_Bps \<Rightarrow> Value | TU_KiBps \<Rightarrow> Value / 1024 | TU_MiBps \<Rightarrow> Value / (1024 * 1024)
   | TU_GiBps \<Rightarrow> Value / (1024 * 1024 * 1024) | TU_Auto \<Rightarrow> Value)"

definition ConvertToBps :: "real \<Rightarrow> ETrafficUnit \<Rightarrow> real" where
  "ConvertToBps Value ToUnit = (case ToUnit of
     TU_Bps \<Rightarrow> Value | TU_KiBps \<Rightarrow> Value * 1024 | TU_MiBps \<Rightarrow> Value * 1024 * 1024
   | TU_GiBps \<Rightarrow> Value * 1024 * 1024 * 1024 | TU_Auto \<Rightarrow> Value)"

text \<open>\<^verbatim>\<open>ReadProc\<close> and \<^verbatim>\<open>ReadProcNulSeparated\<close> on the content of the file.\<close>

abbreviation NUL :: char where "NUL \<equiv> CHR 0x00"

definition ReadProc :: "string \<Rightarrow> string" where
  "ReadProc Content = (if Content = [] then [] else Trim (map (\<lambda>c. if c = NUL then CHR '' '' else c) Content))"

fun nul_loop :: "string \<Rightarrow> string \<Rightarrow> string list \<Rightarrow> string list \<times> string" where
  "nul_loop Current [] Parts = (Parts, Current)"
| "nul_loop Current (C # Buffer) Parts =
     (if C = NUL then nul_loop [] Buffer (Parts @ [Current]) else nul_loop (Current @ [C]) Buffer Parts)"

definition ReadProcNulSeparated :: "string \<Rightarrow> string list" where
  "ReadProcNulSeparated Buffer =
     (if Buffer = [] then []
      else let (Parts, Current) = nul_loop [] Buffer []; Parts1 = (if Current \<noteq> [] then Parts @ [Current] else Parts)
        in if Parts1 \<noteq> [] \<and> last Parts1 = [] then butlast Parts1 else Parts1)"

definition StripDeletedSuffix :: "string \<Rightarrow> string" where
  "StripDeletedSuffix S =
     (let Suffix = '' (deleted)'' in if EndsWith S Suffix then take (length S - length Suffix) S else S)"

section \<open>Splitting\<close>

text \<open>The inverse of splitting: the parts with the delimiter between them.\<close>

fun join_with :: "char \<Rightarrow> string list \<Rightarrow> string" where
  "join_with d [] = []"
| "join_with d [s] = s"
| "join_with d (s # t # ss) = s @ d # join_with d (t # ss)"

lemma find_char_Some:
  assumes "find_char d s p = Some e"
  shows "p \<le> e" "e < length s" "drop p s = take (e - p) (drop p s) @ d # drop (e + 1) s"
    "d \<notin> set (take (e - p) (drop p s))"
proof -
  let ?w = "takeWhile (\<lambda>x. x \<noteq> d) (drop p s)"
  have e: "e = p + length ?w" "e < length s" using assms by (auto simp: find_char_def Let_def split: if_splits)
  then show "p \<le> e" "e < length s" by auto
  have w: "take (e - p) (drop p s) = ?w" using e by (metis takeWhile_eq_take diff_add_inverse)
  have "length ?w < length (drop p s)" using e by simp
  then have "drop p s ! length ?w = d"
    using nth_length_takeWhile [of "\<lambda>x. x \<noteq> d" "drop p s"] by simp
  then have "drop (length ?w) (drop p s) = d # drop (Suc (length ?w)) (drop p s)"
    using \<open>length ?w < length (drop p s)\<close> by (metis Cons_nth_drop_Suc)
  then show "drop p s = take (e - p) (drop p s) @ d # drop (e + 1) s"
    using w e by (metis add.commute add_Suc_right append_take_drop_id drop_drop diff_add_inverse Suc_eq_plus1)
  show "d \<notin> set (take (e - p) (drop p s))" using w set_takeWhileD by fastforce
qed

lemma find_char_None:
  assumes "find_char d s p = None"
  shows "d \<notin> set (drop p s)"
proof -
  let ?w = "takeWhile (\<lambda>x. x \<noteq> d) (drop p s)"
  have "length (drop p s) \<le> length ?w" using assms by (auto simp: find_char_def Let_def split: if_splits)
  then have "?w = drop p s" by (metis takeWhile_eq_take take_all)
  then show ?thesis by (metis (mono_tags, lifting) takeWhile_eq_all_conv)
qed

lemma split_loop_join:
  "join_with d (split_loop d s p) = drop p s \<and> split_loop d s p \<noteq> [] \<and> (\<forall>x \<in> set (split_loop d s p). d \<notin> set x)"
proof (induction "length s + 1 - p" arbitrary: p rule: less_induct)
  case less
  show ?case
  proof (cases "find_char d s p")
    case None
    then show ?thesis using find_char_None [OF None] by (simp add: split_loop.simps)
  next
    case (Some e)
    note F = find_char_Some [OF Some]
    have IH: "join_with d (split_loop d s (e + 1)) = drop (e + 1) s" "split_loop d s (e + 1) \<noteq> []"
      "\<forall>x \<in> set (split_loop d s (e + 1)). d \<notin> set x"
      using less [of "e + 1"] F(1,2) by auto
    have eq: "split_loop d s p = take (e - p) (drop p s) # split_loop d s (e + 1)"
      using Some by (simp add: split_loop.simps [of d s p])
    obtain t ts where "split_loop d s (e + 1) = t # ts" using IH(2) by (cases "split_loop d s (e + 1)") auto
    then show ?thesis using IH F(3,4) eq by simp
  qed
qed

text \<open>
  Splitting loses nothing: the parts of a split string contain no delimiter, and joining them
  with the delimiter gives the string back.
\<close>

theorem SplitString_roundtrip:
  "join_with d (SplitString s d) = s \<and> (\<forall>x \<in> set (SplitString s d). d \<notin> set x)"
  using split_loop_join [of d s 0] by (simp add: SplitString_def)


theorem SplitString_roundtrip_witness:
  "join_with (CHR '':'') (SplitString ''a::b'' (CHR '':'')) = ''a::b''"
  using SplitString_roundtrip [of "CHR '':''" "''a::b''"] by blast

section \<open>Replacing\<close>

text \<open>Left-to-right replacement of non-overlapping occurrences.\<close>

function subst_all :: "string \<Rightarrow> string \<Rightarrow> string \<Rightarrow> string" where
  "subst_all n r s =
     (if s = [] \<or> n = [] then s
      else if take (length n) s = n then r @ subst_all n r (drop (length n) s)
      else hd s # subst_all n r (tl s))"
  by pat_completeness auto
termination
  by (relation "measure (\<lambda>(n, r, s). length s)") auto

declare subst_all.simps [simp del]

lemma subst_all_short: "length s < length n \<Longrightarrow> subst_all n r s = s"
proof (induction s)
  case (Cons c s)
  have "take (length n) (c # s) \<noteq> n"
  proof
    assume "take (length n) (c # s) = n"
    then have "length n = min (length (c # s)) (length n)" by (metis length_take)
    with Cons.prems show False by simp
  qed
  then show ?case using Cons by (subst subst_all.simps) auto
qed (simp add: subst_all.simps)

lemma replace_loop_subst:
  "n \<noteq> [] \<Longrightarrow> replace_loop n r (pre @ rest) (length pre) = Some (pre @ subst_all n r rest)"
proof (induction "length rest" arbitrary: pre rest rule: less_induct)
  case less
  show ?case
  proof (cases "length rest < length n")
    case True
    then have "find_str n (pre @ rest) (length pre) = None" by (simp add: find_str.simps)
    then show ?thesis using True by (simp add: replace_loop.simps subst_all_short)
  next
    case long: False
    then have "rest \<noteq> []" using less.prems by auto
    show ?thesis
    proof (cases "take (length n) rest = n")
      case True
      then have "find_str n (pre @ rest) (length pre) = Some (length pre)" using long by (simp add: find_str.simps)
      then have "replace_loop n r (pre @ rest) (length pre)
          = replace_loop n r ((pre @ r) @ drop (length n) rest) (length (pre @ r))"
        by (subst replace_loop.simps) simp
      also have "\<dots> = Some ((pre @ r) @ subst_all n r (drop (length n) rest))"
        by (rule less.hyps) (use less.prems \<open>rest \<noteq> []\<close> in auto)
      finally show ?thesis using True less.prems \<open>rest \<noteq> []\<close> by (simp add: subst_all.simps [of n r rest])
    next
      case False
      then have "find_str n (pre @ rest) (length pre) = find_str n ((pre @ [hd rest]) @ tl rest) (length (pre @ [hd rest]))"
        using long \<open>rest \<noteq> []\<close> by (subst find_str.simps) simp
      then have "replace_loop n r (pre @ rest) (length pre)
          = replace_loop n r ((pre @ [hd rest]) @ tl rest) (length (pre @ [hd rest]))"
        using \<open>rest \<noteq> []\<close>
        by (simp add: replace_loop.simps [of n r "pre @ rest" "length pre"]
            replace_loop.simps [of n r "pre @ rest" "Suc (length pre)"])
      also have "\<dots> = Some ((pre @ [hd rest]) @ subst_all n r (tl rest))"
        by (rule less.hyps) (use less.prems \<open>rest \<noteq> []\<close> in auto)
      finally show ?thesis using False less.prems \<open>rest \<noteq> []\<close> by (simp add: subst_all.simps [of n r rest])
    qed
  qed
qed

lemma find_str_empty: "p \<le> length s \<Longrightarrow> find_str [] s p = Some p"
  by (simp add: find_str.simps)

lemma replace_loop_empty:
  assumes "replace_loop n r s p = Some y"
  shows "n = [] \<longrightarrow> length s < p"
proof (rule replace_loop.raw_induct [where P = "\<lambda>n r s p y. n = [] \<longrightarrow> length s < p", OF _ assms])
  fix loop :: "string \<Rightarrow> string \<Rightarrow> string \<Rightarrow> nat \<Rightarrow> string option" and n r s p y
  assume IH: "\<And>n r s p y. loop n r s p = Some y \<Longrightarrow> n = [] \<longrightarrow> length s < p"
    and body: "(case find_str n s p of None \<Rightarrow> Some s
      | Some q \<Rightarrow> loop n r (take q s @ r @ drop (q + length n) s) (q + length r)) = Some y"
  show "n = [] \<longrightarrow> length s < p"
  proof (intro impI, rule ccontr)
    assume "n = []" "\<not> length s < p"
    then have "loop [] r (take p s @ r @ drop p s) (p + length r) = Some y"
      using body by (simp add: find_str_empty)
    from IH [OF this] \<open>\<not> length s < p\<close> show False by simp
  qed
qed

text \<open>
  C40. Replacing all occurrences: for a non-empty needle the in-place loop returns, and its result
  is the left-to-right replacement of the non-overlapping occurrences (replacements are never
  scanned again). For an empty needle it does not return at all.
\<close>

theorem ReplaceAll_spec:
  "ReplaceAll h n r = (if n = [] then None else Some (subst_all n r h))"
proof (cases "n = []")
  case True
  then show ?thesis using replace_loop_empty [of n r h 0]
    by (cases "replace_loop n r h 0") (auto simp: ReplaceAll_def)
next
  case False
  then show ?thesis using replace_loop_subst [of n r "[]" h] by (simp add: ReplaceAll_def)
qed

section \<open>Trimming and joining\<close>

lemma Trim_empty [simp]: "Trim [] = []"
  by (simp add: Trim_def)

lemma Trim_spec:
  "\<exists>k m. s = replicate k (CHR '' '') @ Trim s @ replicate m (CHR '' '')
     \<and> (Trim s = [] \<or> hd (Trim s) \<noteq> CHR '' '' \<and> last (Trim s) \<noteq> CHR '' '')"
proof -
  let ?P = "\<lambda>c. c = CHR '' ''" and ?sp = "CHR '' ''"
  have rep: "takeWhile ?P xs = replicate (length (takeWhile ?P xs)) ?sp" for xs
    by (rule replicate_eqI) (auto dest: set_takeWhileD)
  let ?a = "dropWhile ?P s"
  have s: "s = replicate (length (takeWhile ?P s)) ?sp @ ?a"
    using rep [of s] takeWhile_dropWhile_id [of ?P s] by simp
  have "rev ?a = replicate (length (takeWhile ?P (rev ?a))) ?sp @ rev (Trim s)"
    using rep [of "rev ?a"] takeWhile_dropWhile_id [of ?P "rev ?a"] by (simp add: Trim_def)
  then have a: "?a = Trim s @ replicate (length (takeWhile ?P (rev ?a))) ?sp"
    by (metis rev_append rev_replicate rev_rev_ident)
  have "Trim s = [] \<or> last (Trim s) \<noteq> ?sp"
    using hd_dropWhile [of ?P "rev ?a"] by (auto simp: Trim_def last_rev)
  moreover have "Trim s = [] \<or> hd (Trim s) \<noteq> ?sp"
    using hd_dropWhile [of ?P s] a by (metis append_is_Nil_conv hd_append2)
  ultimately show ?thesis using s a by (metis append.assoc)
qed

lemma ConvertToBps_inverse: "ConvertToBps (ConvertFromBps v u) u = v"
  by (cases u) (simp_all add: ConvertToBps_def ConvertFromBps_def)

text \<open>Arguments without NUL survive the NUL-terminated encoding of the proc files.\<close>

lemma nul_loop_part: "NUL \<notin> set a \<Longrightarrow> nul_loop cur (a @ NUL # rest) ps = nul_loop [] rest (ps @ [cur @ a])"
  by (induction a arbitrary: cur) auto

lemma nul_loop_all:
  "\<forall>a \<in> set args. NUL \<notin> set a \<Longrightarrow> nul_loop [] (concat (map (\<lambda>a. a @ [NUL]) args)) ps = (ps @ args, [])"
  by (induction args arbitrary: ps) (auto simp: nul_loop_part [where cur = "[]"])

text \<open>
  The command line of a process is read back as its argument list: for arguments without NUL,
  the last of them not empty, splitting the NUL-terminated arguments returns them.
\<close>

theorem ReadProcNulSeparated_roundtrip:
  assumes "\<forall>a \<in> set args. NUL \<notin> set a" and "args = [] \<or> last args \<noteq> []"
  shows "ReadProcNulSeparated (concat (map (\<lambda>a. a @ [NUL]) args)) = args"
  using nul_loop_all [OF assms(1), of "[]"] assms(2)
  by (cases args) (auto simp: ReadProcNulSeparated_def Let_def)

theorem ReadProcNulSeparated_roundtrip_witness:
  "ReadProcNulSeparated (concat (map (\<lambda>a. a @ [NUL]) [''ssh'', [], ''host''])) = [''ssh'', [], ''host'']"
  by (rule ReadProcNulSeparated_roundtrip) simp_all

end
