(* ===== verification/Process_Names.thy ===== *)
theory Process_Names
  imports String_Format
begin

text \<open>
  How the daemon names an application (\<^verbatim>\<open>Daemon/Data/SystemMap.cpp\<close>, the anonymous namespace,
  \<^verbatim>\<open>MapSocket\<close> and the key of \<^verbatim>\<open>FindOrMapApplication\<close>; \<^verbatim>\<open>Util/Filesystem.hpp\<close>). The proc file
  system and the path queries of the operating system are the record \<open>proc_env\<close>; paths are
  strings and the path operations used are written out.
\<close>

section \<open>Environment\<close>

record proc_env =
  ExeLink :: "WProcessId \<Rightarrow> string"
  CwdLink :: "WProcessId \<Rightarrow> string"
  RootLink :: "WProcessId \<Rightarrow> string"
  CmdlineFile :: "WProcessId \<Rightarrow> string"
  EnvironFile :: "WProcessId \<Rightarrow> string"
  CommFile :: "WProcessId \<Rightarrow> string"
  PathExists :: "string \<Rightarrow> bool"
  WeaklyCanonical :: "string \<Rightarrow> string option"
  LexicallyNormal :: "string \<Rightarrow> string"
  ProcessRunning :: "WProcessId \<Rightarrow> bool"

definition GetProcessExePath :: "proc_env \<Rightarrow> WProcessId \<Rightarrow> string" where
  "GetProcessExePath P PID =
     (if PID \<le> 0 then [] else let T = ExeLink P PID in if T = [] then [] else StripDeletedSuffix T)"

definition GetProcessCwd :: "proc_env \<Rightarrow> WProcessId \<Rightarrow> string" where
  "GetProcessCwd P PID = (if PID \<le> 0 then [] else StripDeletedSuffix (CwdLink P PID))"

definition GetProcessCmdlineArgs :: "proc_env \<Rightarrow> WProcessId \<Rightarrow> string list" where
  "GetProcessCmdlineArgs P PID = (if PID \<le> 0 then [] else ReadProcNulSeparated (CmdlineFile P PID))"

section \<open>Names and paths\<close>

definition CanonicalizePath :: "proc_env \<Rightarrow> string \<Rightarrow> string" where
  "CanonicalizePath P Path = (case WeaklyCanonical P Path of Some c \<Rightarrow> c | None \<Rightarrow> LexicallyNormal P Path)"

text \<open>The part behind the last slash.\<close>

definition after_last_slash :: "string \<Rightarrow> string" where
  "after_last_slash s = rev (takeWhile (\<lambda>c. c \<noteq> CHR ''/'') (rev s))"

definition GetBasename :: "string \<Rightarrow> string" where
  "GetBasename Path = Trim (after_last_slash Path)"

definition before_space :: "string \<Rightarrow> string" where
  "before_space s = takeWhile (\<lambda>c. c \<noteq> CHR '' '') s"

definition pop_colons :: "string \<Rightarrow> string" where
  "pop_colons s = rev (dropWhile (\<lambda>c. c = CHR '':'') (rev s))"

definition SanitizeProcessBinaryCandidate :: "string \<Rightarrow> string" where
  "SanitizeProcessBinaryCandidate Value0 =
     (let v1 = Trim Value0 in
      if v1 = [] then []
      else let v2 = Trim (pop_colons (Trim (before_space v1))) in
        if v2 = [] \<or> v2 = ''main'' \<or> v2 = ''Main'' then []
        else if hd v2 = CHR ''['' \<and> last v2 = CHR '']'' then []
        else v2)"

definition is_absolute :: "string \<Rightarrow> bool" where
  "is_absolute p \<longleftrightarrow> p \<noteq> [] \<and> hd p = CHR ''/''"

text \<open>\<^verbatim>\<open>operator/\<close> and \<^verbatim>\<open>relative_path\<close> of \<^verbatim>\<open>std::filesystem::path\<close> on a POSIX system.\<close>

definition path_append :: "string \<Rightarrow> string \<Rightarrow> string" where
  "path_append p q =
     (if is_absolute q then q else if p = [] then q
      else if last p = CHR ''/'' then p @ q else p @ CHR ''/'' # q)"

definition relative_path :: "string \<Rightarrow> string" where
  "relative_path p = dropWhile (\<lambda>c. c = CHR ''/'') p"

definition ProcessVisiblePathExists :: "proc_env \<Rightarrow> string \<Rightarrow> string \<Rightarrow> bool" where
  "ProcessVisiblePathExists P LogicalPath ProcessRoot =
     (if LogicalPath = [] then False
      else if PathExists P LogicalPath then True
      else if ProcessRoot \<noteq> [] \<and> is_absolute LogicalPath
        then PathExists P (path_append ProcessRoot (relative_path LogicalPath))
      else False)"

definition AddUniqueEntry :: "string list \<Rightarrow> string \<Rightarrow> string list" where
  "AddUniqueEntry Entries Entry0 =
     (let Entry = Trim Entry0 in if Entry = [] then Entries else if Entry \<in> set Entries then Entries else Entries @ [Entry])"

fun path_var :: "string list \<Rightarrow> string list \<Rightarrow> string list" where
  "path_var [] Paths = Paths"
| "path_var (EnvVar # rest) Paths =
     (if \<not> StartsWith EnvVar ''PATH='' then path_var rest Paths
      else fold (\<lambda>e ps. AddUniqueEntry ps e) (SplitString (drop 5 EnvVar) (CHR '':'')) Paths)"

definition GetExecutableSearchPaths :: "proc_env \<Rightarrow> WProcessId \<Rightarrow> string list" where
  "GetExecutableSearchPaths P PID =
     fold (\<lambda>e ps. AddUniqueEntry ps e)
       [''/usr/local/sbin'', ''/usr/local/bin'', ''/usr/sbin'', ''/usr/bin'', ''/sbin'', ''/bin'', ''/snap/bin'']
       (path_var (ReadProcNulSeparated (EnvironFile P PID)) [])"

text \<open>The regular expression \<^verbatim>\<open>^/tmp/[^/]+/usr/bin/(.*)$\<close>: one path component below \<^verbatim>\<open>/tmp\<close>, then
  \<^verbatim>\<open>usr/bin\<close>; the rest has no line break, which the dot does not match.\<close>

definition NormalizeAppImagePaths :: "string \<Rightarrow> string" where
  "NormalizeAppImagePaths path =
     (if StartsWith path ''/tmp/'' then
        let rest = drop 5 path; comp = takeWhile (\<lambda>c. c \<noteq> CHR ''/'') rest; tail = drop (length comp) rest
        in if comp \<noteq> [] \<and> StartsWith tail ''/usr/bin/'' \<and> CHR 0x0A \<notin> set (drop 9 tail) \<and> CHR 0x0D \<notin> set (drop 9 tail)
           then ''/tmp/appimage/bin/'' @ drop 9 tail else path
      else path)"

fun resolve_search :: "proc_env \<Rightarrow> string \<Rightarrow> string \<Rightarrow> string list \<Rightarrow> string \<Rightarrow> string option" where
  "resolve_search P Cwd Root [] Candidate = None"
| "resolve_search P Cwd Root (SearchPath # sps) Candidate =
     (if \<not> is_absolute SearchPath \<and> Cwd = [] then resolve_search P Cwd Root sps Candidate
      else let BasePath = (if is_absolute SearchPath then SearchPath else path_append Cwd SearchPath);
               ResolvedPath = path_append BasePath Candidate
        in if ProcessVisiblePathExists P ResolvedPath Root
           then Some (NormalizeAppImagePaths (CanonicalizePath P ResolvedPath))
           else resolve_search P Cwd Root sps Candidate)"

definition resolve_candidate :: "proc_env \<Rightarrow> string \<Rightarrow> string \<Rightarrow> string list \<Rightarrow> string \<Rightarrow> string option" where
  "resolve_candidate P Cwd Root SearchPaths RawCandidate =
     (let Candidate = SanitizeProcessBinaryCandidate RawCandidate in
      if Candidate = [] then None
      else if hd Candidate = CHR ''/'' then
        (if ProcessVisiblePathExists P Candidate Root
         then Some (NormalizeAppImagePaths (CanonicalizePath P Candidate)) else None)
      else if CHR ''/'' \<in> set Candidate \<and> Cwd \<noteq> [] \<and> ProcessVisiblePathExists P (path_append Cwd Candidate) Root
        then Some (NormalizeAppImagePaths (CanonicalizePath P (path_append Cwd Candidate)))
      else resolve_search P Cwd Root SearchPaths Candidate)"

fun first_candidate :: "proc_env \<Rightarrow> string \<Rightarrow> string \<Rightarrow> string list \<Rightarrow> string list \<Rightarrow> string" where
  "first_candidate P Cwd Root SearchPaths [] = []"
| "first_candidate P Cwd Root SearchPaths (c # cs) =
     (case resolve_candidate P Cwd Root SearchPaths c of
        Some r \<Rightarrow> r
      | None \<Rightarrow> first_candidate P Cwd Root SearchPaths cs)"

definition ResolveProcessBinaryPath :: "proc_env \<Rightarrow> WProcessId \<Rightarrow> string list \<Rightarrow> string \<Rightarrow> string" where
  "ResolveProcessBinaryPath P PID Argv Comm =
     (let Candidates = AddUniqueEntry (if Argv \<noteq> [] then AddUniqueEntry [] (hd Argv) else []) Comm
      in first_candidate P (GetProcessCwd P PID) (RootLink P PID) (GetExecutableSearchPaths P PID) Candidates)"

text \<open>The first half of \<^verbatim>\<open>MapSocket\<close>: executable path, command line and name of a process.\<close>

definition ProcessInfo :: "proc_env \<Rightarrow> WProcessId \<Rightarrow> string \<times> string \<times> string" where
  "ProcessInfo P PID =
     (let ExePath0 = NormalizeAppImagePaths (GetProcessExePath P PID);
          Argv0 = GetProcessCmdlineArgs P PID;
          Comm0 = ReadProc (CommFile P PID);
          Comm1 = (if Comm0 \<noteq> [] \<and> last Comm0 = CHR 0x0A then butlast Comm0 else Comm0);
          Argv = (if Argv0 = [] then (if ExePath0 \<noteq> [] then [ExePath0] else if Comm1 \<noteq> [] then [Comm1] else []) else Argv0);
          ExePath = (if ExePath0 = [] then ResolveProcessBinaryPath P PID Argv Comm1 else ExePath0);
          CmdLine = join_with (CHR '' '') Argv;
          Comm2 = Trim Comm1;
          Comm = (if (Comm2 = [] \<or> Comm2 = ''main'' \<or> Comm2 = ''Main'') \<and> ExePath \<noteq> []
            then (let b = GetBasename ExePath in if b = [] then (if ExePath = [] then ''unknown'' else ExePath) else b)
            else Comm2)
      in (ExePath, CmdLine, Comm))"

text \<open>The key of \<^verbatim>\<open>FindOrMapApplication\<close>.\<close>

definition AppKey :: "string \<Rightarrow> string \<Rightarrow> string \<Rightarrow> string" where
  "AppKey ExePath CommandLine AppName =
     (let k1 = (if ExePath = [] then CommandLine else ExePath);
          k2 = (if k1 = [] then AppName else k1);
          k3 = Trim (before_space k2);
          k4 = (if k3 = [] \<or> hd k3 \<noteq> CHR ''/'' then SanitizeProcessBinaryCandidate k3 else k3);
          k5 = NormalizeAppImagePaths k4
      in if k5 = [] then (if AppName = [] then ''unknown'' else Trim AppName) else k5)"

text \<open>The display name of a new application.\<close>

definition DisplayName :: "string \<Rightarrow> string \<Rightarrow> string" where
  "DisplayName Key AppName =
     (if AppName \<noteq> [] then AppName
      else let n = Trim (after_last_slash Key) in if n = [] then (if Key = [] then ''unknown'' else Key) else n)"

section \<open>Properties\<close>

lemma StartsWith_append [simp]: "StartsWith (p @ s) p"
  by (simp add: StartsWith_def)

lemma StartsWith_iff: "StartsWith s p \<longleftrightarrow> (\<exists>t. s = p @ t)"
  by (metis StartsWith_append StartsWith_def append_take_drop_id)

lemma Normalize_appimage:
  assumes "m \<noteq> []" "CHR ''/'' \<notin> set m" "CHR 0x0A \<notin> set rest" "CHR 0x0D \<notin> set rest"
  shows "NormalizeAppImagePaths (''/tmp/'' @ m @ ''/usr/bin/'' @ rest) = ''/tmp/appimage/bin/'' @ rest"
proof -
  have "takeWhile (\<lambda>c. c \<noteq> CHR ''/'') (m @ ''/usr/bin/'' @ rest) = m"
    using assms(2) by (subst takeWhile_append2) auto
  then show ?thesis using assms by (simp add: NormalizeAppImagePaths_def Let_def StartsWith_def)
qed

lemma Normalize_fixed: "NormalizeAppImagePaths (''/tmp/appimage/bin/'' @ rest) = ''/tmp/appimage/bin/'' @ rest"
  by (simp add: NormalizeAppImagePaths_def Let_def StartsWith_def)

lemma Normalize_cases: "NormalizeAppImagePaths p = p \<or> (\<exists>rest. NormalizeAppImagePaths p = ''/tmp/appimage/bin/'' @ rest)"
  by (auto simp: NormalizeAppImagePaths_def Let_def)

text \<open>
  The path normalisation identifies the mounts of an AppImage: two paths that differ only in
  the mount directory below /tmp have the same normal form, and normalising twice changes nothing
  more.
\<close>

theorem NormalizeAppImagePaths_canonical:
  assumes "m \<noteq> []" "CHR ''/'' \<notin> set m" "m' \<noteq> []" "CHR ''/'' \<notin> set m'"
    and "CHR 0x0A \<notin> set rest" "CHR 0x0D \<notin> set rest"
  shows "NormalizeAppImagePaths (''/tmp/'' @ m @ ''/usr/bin/'' @ rest) = NormalizeAppImagePaths (''/tmp/'' @ m' @ ''/usr/bin/'' @ rest)
    \<and> NormalizeAppImagePaths (NormalizeAppImagePaths p) = NormalizeAppImagePaths p"
  using Normalize_appimage [OF assms(1,2,5,6)] Normalize_appimage [OF assms(3-6)] Normalize_cases [of p] Normalize_fixed
  by metis

theorem NormalizeAppImagePaths_canonical_witness:
  "NormalizeAppImagePaths (''/tmp/'' @ ''.mount_Ab'' @ ''/usr/bin/'' @ ''app'') = NormalizeAppImagePaths (''/tmp/'' @ ''.mount_Xy'' @ ''/usr/bin/'' @ ''app'')
   \<and> NormalizeAppImagePaths (NormalizeAppImagePaths ''/bin/ls'') = NormalizeAppImagePaths ''/bin/ls''"
  by (rule NormalizeAppImagePaths_canonical) simp_all

text \<open>A resolved binary exists, as the process sees the file system.\<close>

lemma resolve_search_exists:
  "resolve_search P Cwd Root sps c = Some r \<Longrightarrow>
     \<exists>p. ProcessVisiblePathExists P p Root \<and> r = NormalizeAppImagePaths (CanonicalizePath P p)"
  by (induction P Cwd Root sps c rule: resolve_search.induct) (auto simp: Let_def split: if_splits)

lemma resolve_candidate_exists:
  "resolve_candidate P Cwd Root sps c = Some r \<Longrightarrow>
     \<exists>p. ProcessVisiblePathExists P p Root \<and> r = NormalizeAppImagePaths (CanonicalizePath P p)"
  by (auto simp: resolve_candidate_def Let_def dest: resolve_search_exists split: if_splits)

lemma first_candidate_exists:
  "first_candidate P Cwd Root sps cs \<noteq> [] \<Longrightarrow>
     \<exists>p. ProcessVisiblePathExists P p Root \<and> first_candidate P Cwd Root sps cs = NormalizeAppImagePaths (CanonicalizePath P p)"
  by (induction cs) (auto split: option.splits dest: resolve_candidate_exists)

lemma ResolveProcessBinaryPath_exists:
  "ResolveProcessBinaryPath P PID Argv Comm \<noteq> [] \<Longrightarrow>
     \<exists>p. ProcessVisiblePathExists P p (RootLink P PID)
       \<and> ResolveProcessBinaryPath P PID Argv Comm = NormalizeAppImagePaths (CanonicalizePath P p)"
  unfolding ResolveProcessBinaryPath_def Let_def by (rule first_candidate_exists)

lemma AppKey_nonempty: "Trim n = n \<Longrightarrow> AppKey e c n \<noteq> []"
  by (auto simp: AppKey_def Let_def)

end
