(* ===== verification/Socket_Events.thy ===== *)
theory Socket_Events
  imports Traffic_Items Ebpf_Maps
begin

text \<open>
  \<^verbatim>\<open>WSocketCounter::ProcessSocketEvent\<close> (\<^verbatim>\<open>Daemon/Data/Counters.cpp\<close>): what a lifecycle event from the
  kernel does to the item of its socket, whether it fires \<^verbatim>\<open>OnSocketConnected\<close> and whether clients
  are told. The kernel writes the union member that belongs to the event type; the accessors give
  the zeroed member otherwise, which is what the kernel programs initialise the event with.
\<close>

section \<open>Model\<close>

abbreviation AF_INET :: u32 where "AF_INET \<equiv> 2"
abbreviation AF_INET6 :: u32 where "AF_INET6 \<equiv> 10"
abbreviation SOCK_STREAM :: u32 where "SOCK_STREAM \<equiv> 1"
abbreviation SOCK_DGRAM :: u32 where "SOCK_DGRAM \<equiv> 2"

definition zero_addr :: "u32 list" where "zero_addr = replicate 4 0"

fun connect_data :: "WSocketEventData \<Rightarrow> WSocketConnectEventData" where
  "connect_data (ConnectEventData d) = d"
| "connect_data _ = \<lparr>UserFamily = 0, ConnectProtocol = 0, ConnectUserPort = 0, ConnectAddr = zero_addr\<rparr>"

fun create_data :: "WSocketEventData \<Rightarrow> WSocketCreateEventData" where
  "create_data (SocketCreateEventData d) = d"
| "create_data _ = \<lparr>CreateProtocol = 0, CreateFamily = 0, CreateType = 0\<rparr>"

fun established_data :: "WSocketEventData \<Rightarrow> WSocketTCPEstablishedEventData" where
  "established_data (TCPSocketEstablishedEventData d) = d"
| "established_data _ = \<lparr>EstUserPort = 0, EstRemotePort = 0, bIsAccept = False, EstAddr = zero_addr, EstRemoteAddr = zero_addr\<rparr>"

fun bind_data :: "WSocketEventData \<Rightarrow> WSocketBindEventData" where
  "bind_data (SocketBindEventData d) = d"
| "bind_data _ = \<lparr>BindUserPort = 0, bImplicitBind = False, BindAddr = zero_addr\<rparr>"

fun accept_data :: "WSocketEventData \<Rightarrow> WSocketAcceptEventData" where
  "accept_data (SocketAcceptEventData d) = d"
| "accept_data _ = \<lparr>SourcePort = 0, DestinationPort = 0, AcceptFamily = 0, AcceptType = 0,
     SourceAddr = zero_addr, DestinationAddr = zero_addr\<rparr>"

text \<open>Assignments to the parts of the socket tuple.\<close>

definition set_protocol :: "EProtocol \<Rightarrow> 't WSocketItem \<Rightarrow> 't WSocketItem" where
  "set_protocol p i = i\<lparr>SocketTuple := (SocketTuple i)\<lparr>Protocol := p\<rparr>\<rparr>"

definition set_local :: "(WEndpoint \<Rightarrow> WEndpoint) \<Rightarrow> 't WSocketItem \<Rightarrow> 't WSocketItem" where
  "set_local f i = i\<lparr>SocketTuple := (SocketTuple i)\<lparr>LocalEndpoint := f (LocalEndpoint (SocketTuple i))\<rparr>\<rparr>"

definition set_remote :: "(WEndpoint \<Rightarrow> WEndpoint) \<Rightarrow> 't WSocketItem \<Rightarrow> 't WSocketItem" where
  "set_remote f i = i\<lparr>SocketTuple := (SocketTuple i)\<lparr>RemoteEndpoint := f (RemoteEndpoint (SocketTuple i))\<rparr>\<rparr>"

definition assign_port :: "u32 \<Rightarrow> WEndpoint \<Rightarrow> WEndpoint" where
  "assign_port p e = e\<lparr>Port := ucast p\<rparr>"

definition assign_v4 :: "u32 list \<Rightarrow> WEndpoint \<Rightarrow> WEndpoint" where
  "assign_v4 a e = e\<lparr>Address := FromIPv4Uint32 (hd a) (Address e)\<rparr>"

definition assign_v6 :: "u32 list \<Rightarrow> WEndpoint \<Rightarrow> WEndpoint" where
  "assign_v6 a e = e\<lparr>Address := FromIPv6Array a (Address e)\<rparr>"

definition assign_family :: "EIPFamily \<Rightarrow> WEndpoint \<Rightarrow> WEndpoint" where
  "assign_family f e = e\<lparr>Address := (Address e)\<lparr>Family := f\<rparr>\<rparr>"

definition on_connect :: "(u32 list \<Rightarrow> WEndpoint \<Rightarrow> WEndpoint) \<Rightarrow> WSocketConnectEventData \<Rightarrow> 't WSocketItem \<Rightarrow> 't WSocketItem" where
  "on_connect addr d i =
     set_remote (addr (ConnectAddr d) \<circ> assign_port (ConnectUserPort d))
       (set_protocol (ucast (ConnectProtocol d))
         (i\<lparr>ConnectionState := Connecting, SocketType := SocketType i OR ST_Connect\<rparr>))"

definition on_create :: "WSocketCreateEventData \<Rightarrow> 't WSocketItem \<Rightarrow> 't WSocketItem" where
  "on_create d i =
     (let i1 = set_protocol (ucast (CreateProtocol d)) (i\<lparr>ConnectionState := Created\<rparr>) in
      if CreateFamily d = AF_INET then set_local (assign_family IPv4) i1
      else if CreateFamily d = AF_INET6 then set_local (assign_family IPv6) i1
      else i1)"

definition on_established :: "(u32 list \<Rightarrow> WEndpoint \<Rightarrow> WEndpoint) \<Rightarrow> WSocketTCPEstablishedEventData \<Rightarrow> 't WSocketItem \<Rightarrow> 't WSocketItem" where
  "on_established addr d i =
     (let i1 = (set_protocol Proto_TCP
           (set_remote (addr (EstRemoteAddr d) \<circ> assign_port (EstRemotePort d))
             (set_local (addr (EstAddr d) \<circ> assign_port (EstUserPort d)) i)))\<lparr>ConnectionState := Connected\<rparr>
      in if bIsAccept d then i1\<lparr>SocketType := ST_Accept\<rparr> else i1)"

text \<open>The common tail of the two bind branches.\<close>

definition on_bind :: "WSocketBindEventData \<Rightarrow> 't WSocketItem \<Rightarrow> 't WSocketItem" where
  "on_bind d i =
     (let i1 = (set_local (assign_port (BindUserPort d)) i)\<lparr>ConnectionState := Connected\<rparr> in
      if bImplicitBind d then i1\<lparr>SocketType := SocketType i1 OR ST_Connect\<rparr>
      else if Protocol (SocketTuple i1) = Proto_UDP then i1\<lparr>SocketType := SocketType i1 OR ST_Listen\<rparr>
      else i1)"

definition on_accept :: "(u32 list \<Rightarrow> WEndpoint \<Rightarrow> WEndpoint) \<Rightarrow> WSocketAcceptEventData \<Rightarrow> 't WSocketItem \<Rightarrow> 't WSocketItem" where
  "on_accept addr d i =
     (let i1 = i\<lparr>ConnectionState := Connected\<rparr>;
          i2 = (if AcceptType d = SOCK_STREAM then (set_protocol Proto_TCP i1)\<lparr>SocketType := ST_Accept\<rparr>
                else if AcceptType d = SOCK_DGRAM then (set_protocol Proto_UDP i1)\<lparr>SocketType := SocketType i1 OR ST_Accept\<rparr>
                else i1)
      in set_local (addr (SourceAddr d) \<circ> assign_port (SourcePort d))
           (set_remote (addr (DestinationAddr d) \<circ> assign_port (DestinationPort d)) i2))"

text \<open>The branches of the handler; the flag says whether \<^verbatim>\<open>OnSocketConnected\<close> fires.\<close>

definition apply_event :: "WSocketEvent \<Rightarrow> 't WSocketItem \<Rightarrow> 't WSocketItem \<times> bool" where
  "apply_event Event i =
     (let t = EventType Event; d = EventData Event in
      if t = NE_SocketConnect_4 \<and> ConnectionState i \<noteq> Connecting then (on_connect assign_v4 (connect_data d) i, False)
      else if t = NE_SocketConnect_6 \<and> ConnectionState i \<noteq> Connecting then (on_connect assign_v6 (connect_data d) i, False)
      else if t = NE_SocketCreate then (on_create (create_data d) i, False)
      else if t = NE_TCPSocketEstablished_4 then (on_established assign_v4 (established_data d) i, True)
      else if t = NE_TCPSocketEstablished_6 then (on_established assign_v6 (established_data d) i, True)
      else if t = NE_SocketBind_4 then
        (let b = bind_data d; i1 = (if hd (BindAddr b) \<noteq> 0 then set_local (assign_v4 (BindAddr b)) i else i)
         in (on_bind b i1, True))
      else if t = NE_SocketBind_6 then
        (let b = bind_data d in (on_bind b (set_local (assign_v6 (BindAddr b)) i), True))
      else if t = NE_TCPSocketListening then
        (i\<lparr>ConnectionState := Connected, SocketType := SocketType i OR ST_Listen\<rparr>, False)
      else if t = NE_SocketAccept_4 then (on_accept assign_v4 (accept_data d) i, True)
      else if t = NE_SocketAccept_6 then (on_accept assign_v6 (accept_data d) i, True)
      else (i, False))"

text \<open>\<^verbatim>\<open>WSocketItem::operator==\<close>.\<close>

definition same_socket :: "'t WSocketItem \<Rightarrow> 't WSocketItem \<Rightarrow> bool" where
  "same_socket a b \<longleftrightarrow> SocketTuple a = SocketTuple b \<and> SocketType a = SocketType b
     \<and> ConnectionState a = ConnectionState b \<and> Cookie a = Cookie b"

record WTrafficTreeSocketStateChange =
  ChangeItemId :: WTrafficItemId
  NewState :: ESocketConnectionState
  ChangeSocketType :: u8
  ChangeTuple :: WSocketTuple

definition state_change_of :: "'t WSocketItem \<Rightarrow> WTrafficTreeSocketStateChange" where
  "state_change_of i = \<lparr>ChangeItemId = ItemId i, NewState = ConnectionState i, ChangeSocketType = SocketType i, ChangeTuple = SocketTuple i\<rparr>"

text \<open>The whole handler: the new item, whether \<^verbatim>\<open>OnSocketConnected\<close> fired, and the state change for the
  clients.\<close>

definition ProcessSocketEvent :: "WSocketEvent \<Rightarrow> 't WSocketItem \<Rightarrow>
    't WSocketItem \<times> bool \<times> WTrafficTreeSocketStateChange option" where
  "ProcessSocketEvent Event i =
     (let (i1, connected) = apply_event Event i
      in (i1, connected, if \<not> same_socket i i1 then Some (state_change_of i1) else None))"

section \<open>Properties\<close>

lemmas set_defs = set_protocol_def set_local_def set_remote_def

lemmas event_defs = apply_event_def on_connect_def on_create_def on_established_def on_bind_def on_accept_def set_defs

lemma apply_event_frame:
  "ItemId (fst (apply_event E i)) = ItemId i" "Cookie (fst (apply_event E i)) = Cookie i"
  "UDPPerConnectionTraffic (fst (apply_event E i)) = UDPPerConnectionTraffic i"
  "DownloadSpeed (fst (apply_event E i)) = DownloadSpeed i" "UploadSpeed (fst (apply_event E i)) = UploadSpeed i"
  "TotalDownloadBytes (fst (apply_event E i)) = TotalDownloadBytes i"
  "TotalUploadBytes (fst (apply_event E i)) = TotalUploadBytes i"
  by (simp_all add: event_defs Let_def)

text \<open>The life of a TCP connection as the events can report it.\<close>

lemma connect_then_established:
  assumes "ConnectionState i \<noteq> Connecting" and "EventType E1 = NE_SocketConnect_4" and "EventType E2 = NE_TCPSocketEstablished_4"
  shows "ConnectionState (fst (apply_event E1 i)) = Connecting
    \<and> ConnectionState (fst (apply_event E2 (fst (apply_event E1 i)))) = Connected"
  using assms by (simp add: event_defs Let_def)

definition in_sync :: "WTrafficTreeSocketStateChange \<Rightarrow> 't WSocketItem \<Rightarrow> bool" where
  "in_sync c i \<longleftrightarrow> ChangeItemId c = ItemId i \<and> NewState c = ConnectionState i \<and> ChangeSocketType c = SocketType i
     \<and> ChangeTuple c = SocketTuple i"

fun event_run :: "WSocketEvent list \<Rightarrow> 't WSocketItem \<Rightarrow> 't WSocketItem \<times> WTrafficTreeSocketStateChange list" where
  "event_run [] i = (i, [])"
| "event_run (E # Es) i =
     (let (i1, _, c) = ProcessSocketEvent E i; (i2, cs) = event_run Es i1
      in (i2, (case c of None \<Rightarrow> cs | Some x \<Rightarrow> x # cs)))"

lemma ProcessSocketEvent_sync:
  assumes "ProcessSocketEvent E i = (i1, k, c)"
  shows "in_sync (case c of None \<Rightarrow> state_change_of i | Some x \<Rightarrow> x) i1"
  using assms apply_event_frame [of E i]
  by (auto simp: ProcessSocketEvent_def in_sync_def state_change_of_def same_socket_def split: prod.splits if_splits)

lemma event_run_sync:
  "event_run Es i = (i', cs) \<Longrightarrow> in_sync (if cs = [] then state_change_of i else last cs) i'"
proof (induction Es arbitrary: i i' cs)
  case Nil
  then show ?case by (simp add: in_sync_def state_change_of_def)
next
  case (Cons E Es)
  obtain i1 k c where e: "ProcessSocketEvent E i = (i1, k, c)" by (metis prod_cases3)
  obtain cs1 where r: "event_run Es i1 = (i', cs1)" "cs = (case c of None \<Rightarrow> cs1 | Some x \<Rightarrow> x # cs1)"
    using Cons.prems e by (auto simp: Let_def split: prod.splits)
  note IH = Cons.IH [OF r(1)]
  show ?case
  proof (cases "cs1 = []")
    case True
    then have "in_sync (state_change_of i1) i'" using IH by simp
    then show ?thesis using True r(2) ProcessSocketEvent_sync [OF e]
      by (cases c) (auto simp: in_sync_def state_change_of_def)
  next
    case False
    then show ?thesis using IH r(2) by (cases c) auto
  qed
qed

text \<open>
  C39. Clients see the socket as it is: after any sequence of kernel events the last state change
  that was queued for the clients (or, if none was, the state they already had) carries the
  socket's current connection state, type, endpoints and protocol, and the events never touch the
  identity, the traffic totals or the speeds of the item.
\<close>

theorem socket_events_reach_clients:
  assumes "event_run Es i = (i', cs)"
  shows "in_sync (if cs = [] then state_change_of i else last cs) i'
    \<and> ItemId i' = ItemId i \<and> Cookie i' = Cookie i \<and> TotalDownloadBytes i' = TotalDownloadBytes i
    \<and> TotalUploadBytes i' = TotalUploadBytes i \<and> DownloadSpeed i' = DownloadSpeed i \<and> UploadSpeed i' = UploadSpeed i"
proof -
  have "ItemId i' = ItemId i \<and> Cookie i' = Cookie i \<and> TotalDownloadBytes i' = TotalDownloadBytes i
      \<and> TotalUploadBytes i' = TotalUploadBytes i \<and> DownloadSpeed i' = DownloadSpeed i \<and> UploadSpeed i' = UploadSpeed i"
    using assms
  proof (induction Es arbitrary: i cs)
    case (Cons E Es)
    then show ?case
      by (auto simp: ProcessSocketEvent_def apply_event_frame Let_def split: prod.splits)
        (metis apply_event_frame fst_conv)+
  qed simp
  then show ?thesis using event_run_sync [OF assms] by blast
qed

definition test_item :: "unit WSocketItem" where
  "test_item = \<lparr>ItemId = 3, DownloadSpeed = 0, UploadSpeed = 0, TotalDownloadBytes = 0, TotalUploadBytes = 0,
     SocketTuple = WSocketTuple_init, UDPPerConnectionTraffic = [], Cookie = 7, SocketType = ST_Unknown,
     ConnectionState = ConnUnknown\<rparr>"

definition test_event :: WSocketEvent where
  "test_event = \<lparr>EventType = NE_TCPSocketListening, EventCookie = 7, PidTgId = 0, CgroupId = 0, EventData = ZeroEventData\<rparr>"

theorem socket_events_reach_clients_witness:
  "NewState (last (snd (event_run [test_event, test_event] test_item))) = Connected
   \<and> length (snd (event_run [test_event, test_event] test_item)) = 1"
proof -
  have run: "event_run [test_event, test_event] test_item =
      (test_item\<lparr>ConnectionState := Connected, SocketType := ST_Listen\<rparr>,
       [state_change_of (test_item\<lparr>ConnectionState := Connected, SocketType := ST_Listen\<rparr>)])"
    by (simp add: ProcessSocketEvent_def apply_event_def test_event_def test_item_def same_socket_def)
  show ?thesis using socket_events_reach_clients [OF run] run by (simp add: in_sync_def)
qed

end
