(* ===== verification/Socket_State.thy ===== *)
theory Socket_State
  imports Traffic_Items String_Format
begin

text \<open>
  \<^verbatim>\<open>Util/Data/SocketStateParser.cpp\<close>: what the daemon learns about existing sockets from
  \<^verbatim>\<open>/proc/net/{tcp,tcp6,udp,udp6}\<close> and the descriptor links of the processes. A file is its
  list of lines, \<open>None\<close> when it cannot be opened. An \<^verbatim>\<open>istringstream\<close> is the rest of its
  characters. \<^verbatim>\<open>std::stoul\<close> throws when there is no digit or the value does not fit; that is the
  outer \<open>None\<close> of the functions that use it. A failed read of a number leaves the stream failed. Signs and the prefix 0x, which the kernel never
  prints there, are not modelled.
\<close>

section \<open>Reading numbers and words\<close>

abbreviation is_space :: "char \<Rightarrow> bool" where
  "is_space c \<equiv> c \<in> {CHR '' '', CHR 0x09, CHR 0x0A, CHR 0x0B, CHR 0x0C, CHR 0x0D}"

definition digit :: "char \<Rightarrow> nat option" where
  "digit c =
     (let n = of_char c :: nat in
      if 48 \<le> n \<and> n \<le> 57 then Some (n - 48)
      else if 65 \<le> n \<and> n \<le> 70 then Some (n - 55)
      else if 97 \<le> n \<and> n \<le> 102 then Some (n - 87)
      else None)"

definition is_digit :: "nat \<Rightarrow> char \<Rightarrow> bool" where
  "is_digit base c \<longleftrightarrow> (case digit c of None \<Rightarrow> False | Some d \<Rightarrow> d < base)"

definition digits_value :: "nat \<Rightarrow> string \<Rightarrow> nat" where
  "digits_value base s = fold (\<lambda>c n. n * base + (case digit c of None \<Rightarrow> 0 | Some d \<Rightarrow> d)) s 0"

text \<open>\<^verbatim>\<open>Iss >> Word\<close> and \<^verbatim>\<open>Iss >> Number\<close>.\<close>

definition get_word :: "string \<Rightarrow> string \<times> string" where
  "get_word s = (let s1 = dropWhile is_space s in (takeWhile (\<lambda>c. \<not> is_space c) s1, dropWhile (\<lambda>c. \<not> is_space c) s1))"

definition get_num :: "nat \<Rightarrow> nat \<Rightarrow> string \<Rightarrow> nat option \<times> string" where
  "get_num base bits s =
     (let s1 = dropWhile is_space s; ds = takeWhile (is_digit base) s1
      in (if ds = [] \<or> digits_value base ds \<ge> 2 ^ bits then None else Some (digits_value base ds), drop (length ds) s1))"

definition stoul16 :: "string \<Rightarrow> nat option" where
  "stoul16 s = fst (get_num 16 64 s)"

section \<open>Addresses\<close>

definition bytes_le :: "u32 \<Rightarrow> u8 list" where
  "bytes_le w = [byte_at 0 w, byte_at 8 w, byte_at 16 w, byte_at 24 w]"

text \<open>The result and the out-parameters; the outer \<open>None\<close> is an exception.\<close>

definition ParseAddressPort :: "string \<Rightarrow> WIPAddress \<Rightarrow> u16 \<Rightarrow> bool \<Rightarrow> (bool \<times> WIPAddress \<times> u16) option" where
  "ParseAddressPort AddrPortStr OutAddr OutPort IsIPv6 =
     (case find_char (CHR '':'') AddrPortStr 0 of
        None \<Rightarrow> Some (False, OutAddr, OutPort)
      | Some ColonPos \<Rightarrow>
          let AddrStr = take ColonPos AddrPortStr; PortStr = drop (ColonPos + 1) AddrPortStr in
          (case stoul16 PortStr of
             None \<Rightarrow> None
           | Some p \<Rightarrow>
               let OutPort1 = (of_nat p :: u16) in
               if IsIPv6 then
                 (if length AddrStr \<noteq> 32 then Some (False, OutAddr, OutPort1)
                  else case (stoul16 (take 8 AddrStr), stoul16 (take 8 (drop 8 AddrStr)),
                             stoul16 (take 8 (drop 16 AddrStr)), stoul16 (take 8 (drop 24 AddrStr))) of
                      (Some a, Some b, Some c, Some d) \<Rightarrow>
                        Some (True, OutAddr\<lparr>Bytes := concat (map (\<lambda>q. bytes_le (of_nat q)) [a, b, c, d]), Family := IPv6\<rparr>, OutPort1)
                    | _ \<Rightarrow> None)
               else
                 (if length AddrStr \<noteq> 8 then Some (False, OutAddr, OutPort1)
                  else case stoul16 AddrStr of
                      None \<Rightarrow> None
                    | Some a \<Rightarrow>
                        Some (True, OutAddr\<lparr>Bytes := (Bytes OutAddr)[0 := byte_at 0 (of_nat a), 1 := byte_at 8 (of_nat a),
                            2 := byte_at 16 (of_nat a), 3 := byte_at 24 (of_nat a)], Family := IPv4\<rparr>, OutPort1))))"

definition MatchesLocalEndpoint :: "WEndpoint \<Rightarrow> WEndpoint \<Rightarrow> bool" where
  "MatchesLocalEndpoint ParsedEndpoint TargetEndpoint =
     (if Port ParsedEndpoint \<noteq> Port TargetEndpoint then False
      else if Address ParsedEndpoint = Address TargetEndpoint then True
      else IsZero (Address ParsedEndpoint) \<and> Family (Address ParsedEndpoint) = Family (Address TargetEndpoint))"

definition MatchesRemoteEndpoint :: "WEndpoint \<Rightarrow> WEndpoint \<Rightarrow> bool" where
  "MatchesRemoteEndpoint ParsedEndpoint TargetEndpoint \<longleftrightarrow> ParsedEndpoint = TargetEndpoint"

text \<open>The test for an IPv6 address, \<^verbatim>\<open>find(':') != rfind(':')\<close>: more than one colon.\<close>

definition bIsIPv6 :: "string \<Rightarrow> bool" where
  "bIsIPv6 s \<longleftrightarrow> length (filter (\<lambda>c. c = CHR '':'') s) > 1"

section \<open>State\<close>

record WListenSocketInfo =
  ListenLocalEndpoint :: WEndpoint
  ListenProtocol :: EProtocol
  ListenPID :: WProcessId

record WSocketStateParser =
  KnownUsedPorts :: "u16 list"
  KnownUsedEndpoints :: "(WEndpoint, WProcessId) umap"
  KnownListeningPorts :: "(u16, WProcessId) umap"
  KnownListeningSockets :: "WListenSocketInfo list"

record proc_net =
  FileTcp :: "string list option"
  FileTcp6 :: "string list option"
  FileUdp :: "string list option"
  FileUdp6 :: "string list option"
  FdLinks :: "(string \<times> string list option) list"

definition IsUsedPort :: "WSocketStateParser \<Rightarrow> u16 \<Rightarrow> bool" where
  "IsUsedPort S P = (if P = 0 then True else P \<in> set (KnownUsedPorts S))"

definition GetEndpointPID :: "WSocketStateParser \<Rightarrow> WEndpoint \<Rightarrow> WProcessId" where
  "GetEndpointPID S E =
     (case map_of (KnownUsedEndpoints S) E of
        Some pid \<Rightarrow> pid
      | None \<Rightarrow>
          if \<not> IsZero (Address E)
          then (case map_of (KnownUsedEndpoints S) (E\<lparr>Address := WIPAddress_init\<lparr>Family := Family (Address E)\<rparr>\<rparr>) of
              Some pid \<Rightarrow> pid | None \<Rightarrow> -1)
          else -1)"

section \<open>Parsing the tables\<close>

abbreviation TCP_ESTABLISHED :: nat where "TCP_ESTABLISHED \<equiv> 1"
abbreviation TCP_LISTEN :: nat where "TCP_LISTEN \<equiv> 10"

text \<open>The fields behind the state: five words and the inode; a failed read leaves 0.\<close>

definition get_inode :: "string \<Rightarrow> nat" where
  "get_inode s =
     (let s1 = snd (get_word s); s2 = snd (get_word s1); s3 = snd (get_word s2); s4 = snd (get_word s3); s5 = snd (get_word s4)
      in case fst (get_num 10 64 s5) of None \<Rightarrow> 0 | Some n \<Rightarrow> n)"

definition pid_of_inode :: "(nat, WProcessId) umap \<Rightarrow> nat \<Rightarrow> WProcessId" where
  "pid_of_inode InodePidMap Inode = (case map_of InodePidMap Inode of None \<Rightarrow> -1 | Some p \<Rightarrow> p)"

definition insert_port :: "u16 \<Rightarrow> u16 list \<Rightarrow> u16 list" where
  "insert_port p ps = (if p \<in> set ps then ps else p # ps)"

definition local_endpoint :: "string \<Rightarrow> u16 \<Rightarrow> WEndpoint option" where
  "local_endpoint LocalAddr P =
     (case ParseAddressPort LocalAddr WIPAddress_init 0 (bIsIPv6 LocalAddr) of
        None \<Rightarrow> None
      | Some (ok, Addr, _) \<Rightarrow> Some (if ok then \<lparr>Address = Addr, Port = P\<rparr> else WEndpoint_init\<lparr>Port := P\<rparr>))"

definition ParseTcpEntry :: "(nat, WProcessId) umap \<Rightarrow> string \<Rightarrow> WSocketStateParser \<Rightarrow> WSocketStateParser option" where
  "ParseTcpEntry InodePidMap Line S =
     (let (_, s1) = get_word Line; (LocalAddr, s2) = get_word s1; (RemAddr, s3) = get_word s2; (State, s4) = get_num 16 32 s3 in
      case find_char (CHR '':'') LocalAddr 0 of
        None \<Rightarrow> Some S
      | Some ColonPos \<Rightarrow>
          (case stoul16 (drop (ColonPos + 1) LocalAddr) of
             None \<Rightarrow> None
           | Some p \<Rightarrow>
               let P = (of_nat p :: u16); Pid = pid_of_inode InodePidMap (if State = None then 0 else get_inode s4);
                   S1 = S\<lparr>KnownUsedPorts := insert_port P (KnownUsedPorts S)\<rparr> in
               (case local_endpoint LocalAddr P of
                  None \<Rightarrow> None
                | Some E \<Rightarrow>
                    let S2 = S1\<lparr>KnownUsedEndpoints := AList.update E Pid (KnownUsedEndpoints S1)\<rparr> in
                    Some (if State = Some TCP_LISTEN
                      then S2\<lparr>KnownListeningPorts := AList.update P Pid (KnownListeningPorts S2),
                              KnownListeningSockets := KnownListeningSockets S2 @
                                [\<lparr>ListenLocalEndpoint = E, ListenProtocol = Proto_TCP, ListenPID = Pid\<rparr>]\<rparr>
                      else S2))))"

definition ParseUdpEntry :: "(nat, WProcessId) umap \<Rightarrow> string \<Rightarrow> WSocketStateParser \<Rightarrow> WSocketStateParser option" where
  "ParseUdpEntry InodePidMap Line S =
     (let (_, s1) = get_word Line; (LocalAddr, s2) = get_word s1; (RemAddr, s3) = get_word s2 in
      case find_char (CHR '':'') LocalAddr 0 of
        None \<Rightarrow> Some S
      | Some ColonPos \<Rightarrow>
          (case stoul16 (drop (ColonPos + 1) LocalAddr) of
             None \<Rightarrow> None
           | Some p \<Rightarrow>
               let P = (of_nat p :: u16); Pid = pid_of_inode InodePidMap (get_inode (snd (get_word s3))) in
               if P = 0 then Some S
               else let S1 = S\<lparr>KnownUsedPorts := insert_port P (KnownUsedPorts S)\<rparr> in
                 (case local_endpoint LocalAddr P of
                    None \<Rightarrow> None
                  | Some E \<Rightarrow>
                      let S2 = S1\<lparr>KnownUsedEndpoints := AList.update E Pid (KnownUsedEndpoints S1)\<rparr> in
                      Some (if StartsWith RemAddr ''00000000:0000'' \<or> StartsWith RemAddr ''00000000000000000000000000000000:0000''
                        then S2\<lparr>KnownListeningPorts := AList.update P Pid (KnownListeningPorts S2),
                                KnownListeningSockets := KnownListeningSockets S2 @
                                  [\<lparr>ListenLocalEndpoint = E, ListenProtocol = Proto_UDP, ListenPID = Pid\<rparr>]\<rparr>
                        else S2))))"

fun parse_lines :: "(string \<Rightarrow> WSocketStateParser \<Rightarrow> WSocketStateParser option) \<Rightarrow> string list \<Rightarrow> WSocketStateParser \<Rightarrow> WSocketStateParser option" where
  "parse_lines f [] S = Some S"
| "parse_lines f (l # ls) S = (case f l S of None \<Rightarrow> None | Some S1 \<Rightarrow> parse_lines f ls S1)"

definition ParseTcpFile :: "string list option \<Rightarrow> (nat, WProcessId) umap \<Rightarrow> WSocketStateParser \<Rightarrow> WSocketStateParser option" where
  "ParseTcpFile File InodePidMap S =
     (case File of None \<Rightarrow> Some S | Some ls \<Rightarrow> parse_lines (ParseTcpEntry InodePidMap) (drop 1 ls) S)"

definition ParseUdpFile :: "string list option \<Rightarrow> (nat, WProcessId) umap \<Rightarrow> WSocketStateParser \<Rightarrow> WSocketStateParser option" where
  "ParseUdpFile File InodePidMap S =
     (case File of None \<Rightarrow> Some S | Some ls \<Rightarrow> parse_lines (ParseUdpEntry InodePidMap) (drop 1 ls) S)"

text \<open>The scan of the descriptor links: a numeric directory name, links \<^verbatim>\<open>socket:[inode]\<close>; the first
  process that has an inode keeps it.\<close>

definition pid_of_name :: "string \<Rightarrow> nat option" where
  "pid_of_name n = (if n \<noteq> [] \<and> list_all (is_digit 10) n \<and> digits_value 10 n > 0 then Some (digits_value 10 n) else None)"

fun scan_links :: "WProcessId \<Rightarrow> string list \<Rightarrow> (nat, WProcessId) umap \<Rightarrow> (nat, WProcessId) umap option" where
  "scan_links Pid [] m = Some m"
| "scan_links Pid (T # Ts) m =
     (if T \<noteq> [] \<and> StartsWith T ''socket:['' \<and> last T = CHR '']''
      then (case fst (get_num 10 64 (take (length T - 9) (drop 8 T))) of
              None \<Rightarrow> None
            | Some Inode \<Rightarrow> scan_links Pid Ts (if um_contains m Inode then m else m @ [(Inode, Pid)]))
      else scan_links Pid Ts m)"

fun scan_procs :: "(string \<times> string list option) list \<Rightarrow> (nat, WProcessId) umap \<Rightarrow> (nat, WProcessId) umap option" where
  "scan_procs [] m = Some m"
| "scan_procs ((Name, Fds) # ps) m =
     (case (pid_of_name Name, Fds) of
        (Some Pid, Some Ts) \<Rightarrow> (case scan_links (int Pid) Ts m of None \<Rightarrow> None | Some m1 \<Rightarrow> scan_procs ps m1)
      | _ \<Rightarrow> scan_procs ps m)"

definition WSocketStateParser_empty :: WSocketStateParser where
  "WSocketStateParser_empty = \<lparr>KnownUsedPorts = [], KnownUsedEndpoints = [], KnownListeningPorts = [], KnownListeningSockets = []\<rparr>"

definition ParseData :: "proc_net \<Rightarrow> WSocketStateParser option" where
  "ParseData N =
     (case scan_procs (FdLinks N) [] of
        None \<Rightarrow> None
      | Some m \<Rightarrow>
          Option.bind (ParseTcpFile (FileTcp N) m WSocketStateParser_empty) (\<lambda>S1.
          Option.bind (ParseTcpFile (FileTcp6 N) m S1) (\<lambda>S2.
          Option.bind (ParseUdpFile (FileUdp N) m S2) (ParseUdpFile (FileUdp6 N) m))))"

section \<open>The type of a socket\<close>

definition accept_heuristic :: "WSocketStateParser \<Rightarrow> u16 \<Rightarrow> u8" where
  "accept_heuristic S LocalPort = (if um_contains (KnownListeningPorts S) LocalPort \<or> LocalPort < 1024 then ST_Accept else ST_Connect)"

definition ParseTcpLine :: "WSocketStateParser \<Rightarrow> string \<Rightarrow> WEndpoint \<Rightarrow> WEndpoint option \<Rightarrow> u8 option option" where
  "ParseTcpLine S Line TargetEndpoint Remote =
     (let (_, s1) = get_word Line; (LocalAddrStr, s2) = get_word s1; (RemAddrStr, s3) = get_word s2; (State, _) = get_num 16 32 s3 in
      case ParseAddressPort LocalAddrStr WIPAddress_init 0 (bIsIPv6 LocalAddrStr) of
        None \<Rightarrow> None
      | Some (ok, LocalAddr, LocalPort) \<Rightarrow>
          if \<not> ok \<or> \<not> MatchesLocalEndpoint \<lparr>Address = LocalAddr, Port = LocalPort\<rparr> TargetEndpoint then Some None
          else
            (let answer = (if State = Some TCP_LISTEN then Some ST_Listen
                           else if State = Some TCP_ESTABLISHED then Some (accept_heuristic S LocalPort)
                           else None)
             in case Remote of
                  None \<Rightarrow> Some answer
                | Some R \<Rightarrow>
                    (case ParseAddressPort RemAddrStr WIPAddress_init 0 (bIsIPv6 LocalAddrStr) of
                       None \<Rightarrow> None
                     | Some (ok1, RemoteAddr, RemotePort) \<Rightarrow>
                         if \<not> ok1 then Some None
                         else if (\<not> IsZero (Address R) \<or> Port R \<noteq> 0)
                           \<and> \<not> MatchesRemoteEndpoint \<lparr>Address = RemoteAddr, Port = RemotePort\<rparr> R then Some None
                         else Some answer)))"

definition ParseUdpLine :: "WSocketStateParser \<Rightarrow> string \<Rightarrow> WEndpoint \<Rightarrow> WEndpoint option \<Rightarrow> u8 option option" where
  "ParseUdpLine S Line TargetEndpoint Remote =
     (let (_, s1) = get_word Line; (LocalAddrStr, s2) = get_word s1; (RemAddrStr, s3) = get_word s2 in
      case ParseAddressPort LocalAddrStr WIPAddress_init 0 (bIsIPv6 LocalAddrStr) of
        None \<Rightarrow> None
      | Some (ok, LocalAddr, LocalPort) \<Rightarrow>
          if \<not> ok \<or> \<not> MatchesLocalEndpoint \<lparr>Address = LocalAddr, Port = LocalPort\<rparr> TargetEndpoint then Some None
          else
            (case ParseAddressPort RemAddrStr WIPAddress_init 0 (bIsIPv6 LocalAddrStr) of
               None \<Rightarrow> None
             | Some (ok1, RemAddr, RemPort) \<Rightarrow>
                 if \<not> ok1 then Some None
                 else if (case Remote of None \<Rightarrow> False
                     | Some R \<Rightarrow> (\<not> IsZero (Address R) \<or> Port R \<noteq> 0)
                         \<and> \<not> MatchesRemoteEndpoint \<lparr>Address = RemAddr, Port = RemPort\<rparr> R) then Some None
                 else if IsZero RemAddr \<and> RemPort = 0 then Some (Some ST_Listen)
                 else Some (Some (accept_heuristic S LocalPort))))"

fun first_match :: "(string \<Rightarrow> u8 option option) \<Rightarrow> string list \<Rightarrow> u8 option option" where
  "first_match f [] = Some None"
| "first_match f (l # ls) =
     (case f l of None \<Rightarrow> None | Some (Some t) \<Rightarrow> Some (Some t) | Some None \<Rightarrow> first_match f ls)"

definition file_match :: "(string \<Rightarrow> u8 option option) \<Rightarrow> string list option \<Rightarrow> u8 option option" where
  "file_match f File = (case File of None \<Rightarrow> Some None | Some ls \<Rightarrow> first_match f (drop 1 ls))"

definition DetermineSocketType :: "proc_net \<Rightarrow> WSocketStateParser \<Rightarrow> WEndpoint \<Rightarrow> EProtocol \<Rightarrow> WEndpoint option \<Rightarrow> u8 option" where
  "DetermineSocketType N S LocalEp Proto Remote =
     (let two = (\<lambda>f a b. case file_match f a of
            None \<Rightarrow> None
          | Some (Some t) \<Rightarrow> Some t
          | Some None \<Rightarrow> (case file_match f b of None \<Rightarrow> None | Some (Some t) \<Rightarrow> Some t | Some None \<Rightarrow> Some ST_Unknown)) in
      if Proto = Proto_TCP then two (\<lambda>l. ParseTcpLine S l LocalEp Remote) (FileTcp N) (FileTcp6 N)
      else if Proto = Proto_UDP then two (\<lambda>l. ParseUdpLine S l LocalEp Remote) (FileUdp N) (FileUdp6 N)
      else Some ST_Unknown)"

section \<open>The kernel's address format\<close>

definition hex_digit :: "nat \<Rightarrow> char" where
  "hex_digit n = char_of (if n < 10 then 48 + n else 55 + n)"

text \<open>\<^verbatim>\<open>%0kX\<close>, most significant digit first.\<close>

fun hexn :: "nat \<Rightarrow> nat \<Rightarrow> string" where
  "hexn 0 n = []"
| "hexn (Suc k) n = hexn k (n div 16) @ [hex_digit (n mod 16)]"

lemma digit_hex [simp]: "n < 16 \<Longrightarrow> digit (hex_digit n) = Some n"
  by (auto simp: digit_def hex_digit_def Let_def of_char_of)

lemma hex_is_digit: "n < 16 \<Longrightarrow> is_digit 16 (hex_digit n)"
  by (simp add: is_digit_def)

lemma set_hexn: "c \<in> set (hexn k n) \<Longrightarrow> is_digit 16 c"
  by (induction k arbitrary: n) (auto simp: hex_is_digit)

lemma length_hexn [simp]: "length (hexn k n) = k"
  by (induction k arbitrary: n) auto

lemma digits_value_hexn: "digits_value 16 (hexn k n) = n mod 16 ^ k"
proof (induction k arbitrary: n)
  case 0
  then show ?case by (simp add: digits_value_def)
next
  case (Suc k)
  have "digits_value 16 (hexn (Suc k) n) = (n div 16 mod 16 ^ k) * 16 + n mod 16"
    using Suc [of "n div 16"] by (simp add: digits_value_def)
  also have "\<dots> = n mod 16 ^ Suc k"
    by (simp add: mod_mult2_eq mult.commute)
  finally show ?case .
qed

lemma not_space_digit: "is_digit 16 c \<Longrightarrow> \<not> is_space c"
  by (auto simp: is_digit_def digit_def)

lemma not_colon_digit: "is_digit 16 c \<Longrightarrow> c \<noteq> CHR '':''"
  by (auto simp: is_digit_def digit_def)

lemma stoul16_hexn:
  assumes "0 < k" and "k \<le> 15"
  shows "stoul16 (hexn k n) = Some (n mod 16 ^ k)"
proof -
  have "hexn k n \<noteq> []" using assms by (metis length_hexn list.size(3) less_irrefl)
  moreover have dw: "dropWhile is_space (hexn k n) = hexn k n"
    using set_hexn not_space_digit by (cases "hexn k n") (metis dropWhile.simps(1), metis dropWhile.simps(2) list.set_intros(1))
  moreover have tw: "takeWhile (is_digit 16) (hexn k n) = hexn k n"
    using set_hexn by (metis takeWhile_eq_all_conv)
  moreover have "n mod 16 ^ k < 2 ^ 64"
  proof -
    have "n mod 16 ^ k < 16 ^ k" by simp
    also have "(16 :: nat) ^ k \<le> 16 ^ 15" using assms(2) by (rule power_increasing) simp
    also have "(16 :: nat) ^ 15 < 2 ^ 64" by simp
    finally show ?thesis .
  qed
  ultimately show ?thesis unfolding stoul16_def get_num_def Let_def dw tw digits_value_hexn by simp
qed

text \<open>An address field as the kernel prints it: address digits, a colon, four port digits.\<close>

definition field :: "string \<Rightarrow> u16 \<Rightarrow> string" where
  "field addr p = addr @ CHR '':'' # hexn 4 (unat p)"

lemma field_colon:
  assumes "\<forall>c \<in> set addr. is_digit 16 c"
  shows "find_char (CHR '':'') (field addr p) 0 = Some (length addr)" "\<not> bIsIPv6 (field addr p)"
proof -
  have "takeWhile (\<lambda>x. x \<noteq> CHR '':'') (addr @ CHR '':'' # hexn 4 (unat p)) = addr"
    using assms not_colon_digit by (subst takeWhile_append2) auto
  then show "find_char (CHR '':'') (field addr p) 0 = Some (length addr)"
    by (simp add: find_char_def field_def Let_def)
  have "filter (\<lambda>c. c = CHR '':'') addr = []" "filter (\<lambda>c. c = CHR '':'') (hexn 4 (unat p)) = []"
    using assms not_colon_digit set_hexn by (fastforce simp: filter_empty_conv)+
  then show "\<not> bIsIPv6 (field addr p)" by (simp add: bIsIPv6_def field_def)
qed

lemma stoul16_port: "stoul16 (hexn 4 (unat (p :: u16))) = Some (unat p)"
proof -
  have "unat p < 16 ^ 4" using unsigned_less [of p] by simp
  then show ?thesis by (simp add: stoul16_hexn)
qed

text \<open>
  An IPv4 endpoint in a socket table of the kernel is read back: for the address bytes and the
  port that the kernel printed (the address as the hexadecimal value of the word in memory), the
  parser returns that address and that port.
\<close>

theorem ParseAddressPort_reads_ipv4:
  "ParseAddressPort (field (hexn 8 (unat (load32 a b c d))) p) WIPAddress_init 0
     (bIsIPv6 (field (hexn 8 (unat (load32 a b c d))) p))
   = Some (True, \<lparr>Bytes = [a, b, c, d] @ replicate 12 0, Family = IPv4\<rparr>, p)"
proof -
  let ?h = "hexn 8 (unat (load32 a b c d))"
  have hex: "\<forall>x \<in> set ?h. is_digit 16 x" using set_hexn by blast
  note F = field_colon [OF hex, of p]
  have parts: "take (length ?h) (field ?h p) = ?h" "drop (length ?h + 1) (field ?h p) = hexn 4 (unat p)"
    by (simp_all add: field_def del: hexn.simps)
  have "unat (load32 a b c d) < 16 ^ 8" using unsigned_less [of "load32 a b c d"] by simp
  then have addr: "stoul16 ?h = Some (unat (load32 a b c d))" by (simp add: stoul16_hexn)
  have bytes: "(replicate 16 (0 :: u8))[0 := a, 1 := b, 2 := c, 3 := d] = [a, b, c, d] @ replicate 12 0"
    by (simp add: numeral_eq_Suc)
  show ?thesis using F
    by (simp add: ParseAddressPort_def parts [simplified] addr stoul16_port WIPAddress_init_def bytes [simplified]
        del: hexn.simps)
qed

text \<open>
  IPv6 sockets are never recognised: the test for an IPv6 address looks for a second colon, but
  the kernel prints 32 digits, one colon and the port. So every line of the IPv6 tables is taken
  for IPv4, its address is rejected, and the line matches no endpoint at all.
\<close>

theorem ipv6_table_lines_never_match:
  assumes "fst (get_word (snd (get_word Line))) = field addr p"
    and "length addr = 32" and "\<forall>c \<in> set addr. is_digit 16 c"
  shows "\<not> bIsIPv6 (field addr p) \<and> ParseTcpLine S Line E R = Some None \<and> ParseUdpLine S Line E R = Some None"
proof -
  note F = field_colon [OF assms(3), of p]
  have "ParseAddressPort (field addr p) WIPAddress_init 0 False = Some (False, WIPAddress_init, of_nat (unat p))"
    using F(1) assms(2) stoul16_port [of p] by (simp add: ParseAddressPort_def field_def Let_def)
  then show ?thesis using F(2) assms(1)
    by (simp add: ParseTcpLine_def ParseUdpLine_def Let_def split_beta)
qed

theorem ipv6_table_lines_never_match_witness:
  "ParseTcpLine WSocketStateParser_empty
     ''   0: 00000000000000000000000001000000:0277 00000000000000000000000000000000:0000 0A''
     (WEndpoint_init\<lparr>Port := 631\<rparr>) None = Some None"
proof -
  have "fst (get_word (snd (get_word ''   0: 00000000000000000000000001000000:0277 00000000000000000000000000000000:0000 0A'')))
      = field ''00000000000000000000000001000000'' 631"
    by code_simp
  moreover have "\<forall>c \<in> set ''00000000000000000000000001000000''. is_digit 16 c"
    by (simp add: is_digit_def digit_def)
  ultimately show ?thesis
    using ipv6_table_lines_never_match [of _ "''00000000000000000000000001000000''" 631] by simp
qed

end
