(* ===== verification/IP_Link_Proc.thy ===== *)
theory IP_Link_Proc
  imports IP_Link Socket_State
begin

text \<open>
  \<^verbatim>\<open>Daemon/Net/IPLinkProc/IPLinkProc.cpp\<close>: the helper that keeps root privileges and turns the
  daemon's messages into \<^verbatim>\<open>tc\<close> commands. \<^verbatim>\<open>system\<close> is the parameter \<open>sys\<close>, its result for a command
  line; \<open>Executed\<close> is the list of command lines it was given. The conversion of a rate to
  \<^verbatim>\<open>uint64_t\<close> is undefined in C++ outside the range of that type; there it is the parameter \<open>ub\<close>.
\<close>

section \<open>Commands\<close>

definition isalnum :: "char \<Rightarrow> bool" where
  "isalnum c \<longleftrightarrow> (let n = of_char c :: nat in (48 \<le> n \<and> n \<le> 57) \<or> (65 \<le> n \<and> n \<le> 90) \<or> (97 \<le> n \<and> n \<le> 122))"

definition safe_char :: "char \<Rightarrow> bool" where
  "safe_char c \<longleftrightarrow> isalnum c \<or> c = CHR '' '' \<or> c = CHR ''_'' \<or> c = CHR ''-'' \<or> c = CHR '':'' \<or> c = CHR ''=''"

definition SafeSystem :: "(string \<Rightarrow> int) \<Rightarrow> string \<Rightarrow> string list \<Rightarrow> int \<times> string list" where
  "SafeSystem sys Command Executed =
     (if \<exists>c \<in> set Command. \<not> safe_char c then (-1, Executed) else (sys Command, Executed @ [Command]))"

definition SanitizeInterfaceName :: "string \<Rightarrow> string" where
  "SanitizeInterfaceName IfName = filter (\<lambda>c. isalnum c \<or> c = CHR ''_'' \<or> c = CHR ''-'') IfName"

text \<open>\<^verbatim>\<open>{}\<close> and \<^verbatim>\<open>{:x}\<close> of an unsigned number.\<close>

function fmt_base :: "nat \<Rightarrow> nat \<Rightarrow> string" where
  "fmt_base base n =
     (let d = n mod base; c = char_of (if d < 10 then 48 + d else 87 + d) in
      if base < 2 \<or> n < base then [c] else fmt_base base (n div base) @ [c])"
  by pat_completeness auto
termination
  by (relation "measure snd") auto

declare fmt_base.simps [simp del]

abbreviation dec :: "nat \<Rightarrow> string" where "dec \<equiv> fmt_base 10"
abbreviation hex :: "nat \<Rightarrow> string" where "hex \<equiv> fmt_base 16"

definition to_u64 :: "(real \<Rightarrow> nat) \<Rightarrow> real \<Rightarrow> nat" where
  "to_u64 ub r = (if -1 < r \<and> r < 2 ^ 64 then nat \<lfloor>r\<rfloor> else ub r)"

text \<open>The macros: \<open>SYSFMT\<close> returns from the function on failure, \<open>SYSFMT2\<close> goes on.\<close>

fun sysfmt_all :: "(string \<Rightarrow> int) \<Rightarrow> string list \<Rightarrow> string list \<Rightarrow> bool \<times> string list" where
  "sysfmt_all sys [] Done = (True, Done)"
| "sysfmt_all sys (c # cs) Done =
     (let (RC, Done1) = SafeSystem sys c Done in if RC \<noteq> 0 then (False, Done1) else sysfmt_all sys cs Done1)"

definition setup_commands :: "(real \<Rightarrow> nat) \<Rightarrow> WSetupHtbClassMsg \<Rightarrow> string list" where
  "setup_commands ub M =
     (let IfName = SanitizeInterfaceName (suInterfaceName M); rate = dec (to_u64 ub (suRateLimit M * 8));
          minor = dec (unat (suMinorId M)); mk = hex (unat (suMark M)) in
      if suIsRoot M then
        [''tc class replace dev '' @ IfName @ '' parent 1:1 classid 1:10 htb rate '' @ rate @ ''bit ceil '' @ rate @ ''bit'',
         ''tc qdisc replace dev '' @ IfName @ '' parent 1:10 fq_codel'']
      else
        [''tc class replace dev '' @ IfName @ '' parent 1:1 classid 1:'' @ minor @ '' htb rate '' @ rate @ ''bit ceil '' @ rate @ ''bit'',
         ''tc qdisc replace dev '' @ IfName @ '' parent 1:'' @ minor @ '' fq_codel'',
         ''tc filter replace dev '' @ IfName @ '' parent 1: protocol ip pref 1 handle 0x'' @ mk @ '' fw classid 1:'' @ minor])"

definition SetupHtbClass :: "(string \<Rightarrow> int) \<Rightarrow> (real \<Rightarrow> nat) \<Rightarrow> WSetupHtbClassMsg \<Rightarrow> string list \<Rightarrow> bool \<times> string list" where
  "SetupHtbClass sys ub M Done = sysfmt_all sys (setup_commands ub M) Done"

definition RemoveHtbClass :: "(string \<Rightarrow> int) \<Rightarrow> WRemoveHtbClassMsg \<Rightarrow> string list \<Rightarrow> bool \<times> string list" where
  "RemoveHtbClass sys M Done =
     (let IfName = SanitizeInterfaceName (rmInterfaceName M); minor = dec (unat (rmMinorId M)); mk = hex (unat (rmMark M)) in
      if rmIsRoot M then
        sysfmt_all sys [''tc class replace dev '' @ IfName @ '' parent 1:1 classid 1:10 htb rate 1Gbit ceil 1Gbit''] Done
      else
        let (RC, Done1) = SafeSystem sys (''tc filter delete dev '' @ IfName @ '' parent 1: protocol ip pref 1 handle 0x'' @ mk @ '' fw classid 1:'' @ minor) Done
        in sysfmt_all sys [''tc class delete dev '' @ IfName @ '' classid 1:'' @ minor] Done1)"

text \<open>\<^verbatim>\<open>Init\<close>: the first two and one later command may fail.\<close>

definition ProcInit :: "(string \<Rightarrow> int) \<Rightarrow> string \<Rightarrow> string \<Rightarrow> string \<Rightarrow> string list \<Rightarrow> bool \<times> string list" where
  "ProcInit sys Ifb Ingress Main0 Done =
     (let Done1 = snd (SafeSystem sys (''ip link delete '' @ Ifb) Done);
          Done2 = snd (SafeSystem sys (''ip link add '' @ Ifb @ '' type ifb'') Done1);
          (ok, Done3) = sysfmt_all sys
            [''ip link set '' @ Ifb @ '' txqueuelen 1000'',
             ''ip link set '' @ Ifb @ '' up'',
             ''tc qdisc replace dev '' @ Ifb @ '' root handle 1: htb default 0x10'',
             ''tc class replace dev '' @ Ifb @ '' parent 1: classid 1:1 htb rate 1Gbit ceil 1Gbit'',
             ''tc class replace dev '' @ Ifb @ '' parent 1:1 classid 1:10 htb rate 1Gbit ceil 1Gbit'',
             ''tc qdisc replace dev '' @ Ifb @ '' parent 1:10 fq_codel'',
             ''tc filter replace dev '' @ Ifb @ '' parent 1: prio 100 protocol all u32 match u32 0 0 flowid 1:10'',
             ''tc qdisc replace dev '' @ Ingress @ '' handle ffff: ingress'',
             ''tc filter replace dev '' @ Ingress @ '' parent ffff: protocol all prio 100 matchall action mirred egress redirect dev '' @ Ifb] Done2
      in if \<not> ok then (False, Done3)
         else let Done4 = snd (SafeSystem sys (''tc qdisc delete dev '' @ Main0 @ '' root'') Done3) in
           sysfmt_all sys
            [''tc qdisc add dev '' @ Main0 @ '' root handle 1: htb default 0x10'',
             ''tc class replace dev '' @ Main0 @ '' parent 1: classid 1:1 htb rate 1Gbit ceil 1Gbit'',
             ''tc class replace dev '' @ Main0 @ '' parent 1:1 classid 1:10 htb rate 1Gbit ceil 1Gbit'',
             ''tc qdisc replace dev '' @ Main0 @ '' parent 1:10 fq_codel''] Done4)"

definition ProcCleanup :: "(string \<Rightarrow> int) \<Rightarrow> string \<Rightarrow> string \<Rightarrow> string list \<Rightarrow> string list" where
  "ProcCleanup sys Ifb Ingress Done =
     (let Done1 = snd (SafeSystem sys (''tc filter delete dev '' @ Ingress @ '' parent ffff:'') Done);
          Done2 = snd (SafeSystem sys (''tc qdisc delete dev '' @ Ifb @ '' root'') Done1)
      in snd (SafeSystem sys (''ip link delete '' @ Ifb) Done2))"

section \<open>The queue and the worker\<close>

definition ProcLookupEndpoints :: "WSocketStateParser \<Rightarrow> WEndpoint list \<Rightarrow> (WEndpoint \<times> WProcessId) list" where
  "ProcLookupEndpoints S Endpoints =
     map (\<lambda>E. (E, case map_of (KnownUsedEndpoints S) E of Some p \<Rightarrow> p | None \<Rightarrow> 0)) Endpoints"

record WMsgQueue =
  Queue :: "WIPLinkMsg list"
  QueueStop :: bool

record proc_state =
  MsgQueue :: WMsgQueue
  HandlerStop :: bool
  Executed :: "string list"
  Responses :: "(WEndpoint \<times> WProcessId) list list"

definition Push :: "WIPLinkMsg \<Rightarrow> WMsgQueue \<Rightarrow> WMsgQueue" where
  "Push M q = q\<lparr>Queue := Queue q @ [M]\<rparr>"

text \<open>\<open>None\<close> is the wait for a message.\<close>

definition Pop :: "WMsgQueue \<Rightarrow> (WIPLinkMsg option \<times> WMsgQueue) option" where
  "Pop q = (case Queue q of
       [] \<Rightarrow> if QueueStop q then Some (None, q) else None
     | M # rest \<Rightarrow> Some (Some M, q\<lparr>Queue := rest\<rparr>))"

definition ProcOnDataReceived :: "WIPLinkMsg option \<Rightarrow> proc_state \<Rightarrow> proc_state" where
  "ProcOnDataReceived Message s =
     (case Message of
        None \<Rightarrow> s
      | Some M \<Rightarrow>
          if MsgType M = Exit then s\<lparr>HandlerStop := True, MsgQueue := (MsgQueue s)\<lparr>QueueStop := True\<rparr>\<rparr>
          else s\<lparr>MsgQueue := Push M (MsgQueue s)\<rparr>)"

text \<open>\<open>S\<close> is what a fresh parser of the socket tables finds at the time of the lookup.\<close>

definition ProcessMessage :: "(string \<Rightarrow> int) \<Rightarrow> (real \<Rightarrow> nat) \<Rightarrow> WSocketStateParser \<Rightarrow> WIPLinkMsg \<Rightarrow> proc_state \<Rightarrow> proc_state" where
  "ProcessMessage sys ub S M s =
     (if MsgType M = Exit then s\<lparr>HandlerStop := True\<rparr>
      else if MsgType M = SetupHtbClassType \<and> SetupHtbClassMsg M \<noteq> None
        then s\<lparr>Executed := snd (SetupHtbClass sys ub (the (SetupHtbClassMsg M)) (Executed s))\<rparr>
      else if MsgType M = RemoveHtbClassType \<and> RemoveHtbClassMsg M \<noteq> None
        then s\<lparr>Executed := snd (RemoveHtbClass sys (the (RemoveHtbClassMsg M)) (Executed s))\<rparr>
      else if MsgType M = LookupEndpointsType \<and> LookupEndpointsMsg M \<noteq> None
        then s\<lparr>Responses := Responses s @ [ProcLookupEndpoints S (the (LookupEndpointsMsg M))]\<rparr>
      else s)"

text \<open>The worker until it waits or stops.\<close>

function WorkerThreadMain :: "(string \<Rightarrow> int) \<Rightarrow> (real \<Rightarrow> nat) \<Rightarrow> WSocketStateParser \<Rightarrow> proc_state \<Rightarrow> proc_state" where
  "WorkerThreadMain sys ub S s =
     (if HandlerStop s then s
      else case Pop (MsgQueue s) of
          None \<Rightarrow> s
        | Some (None, q) \<Rightarrow> s
        | Some (Some M, q) \<Rightarrow> WorkerThreadMain sys ub S (ProcessMessage sys ub S M (s\<lparr>MsgQueue := q\<rparr>)))"
  by pat_completeness auto

lemma ProcessMessage_queue [simp]: "MsgQueue (ProcessMessage sys ub S M s) = MsgQueue s"
  by (simp add: ProcessMessage_def)

termination WorkerThreadMain
  by (relation "measure (\<lambda>(sys, ub, S, s). length (Queue (MsgQueue s)))") (auto simp: Pop_def split: list.splits if_splits)

declare WorkerThreadMain.simps [simp del]

section \<open>Only safe commands run, and all of ours do\<close>

definition safe_cmd :: "string \<Rightarrow> bool" where
  "safe_cmd c \<longleftrightarrow> list_all safe_char c"

lemma safe_cmd_append [simp]: "safe_cmd (a @ b) \<longleftrightarrow> safe_cmd a \<and> safe_cmd b"
  by (simp add: safe_cmd_def)

lemma safe_cmd_Cons [simp]: "safe_cmd (c # s) \<longleftrightarrow> safe_char c \<and> safe_cmd s"
  by (simp add: safe_cmd_def)

lemma safe_cmd_Nil [simp]: "safe_cmd []"
  by (simp add: safe_cmd_def)

lemma safe_digit: "d < 16 \<Longrightarrow> safe_char (char_of (if d < 10 then 48 + d else 87 + (d :: nat)))"
  by (auto simp: safe_char_def isalnum_def Let_def of_char_of)

lemma safe_fmt: "2 \<le> base \<Longrightarrow> base \<le> 16 \<Longrightarrow> safe_cmd (fmt_base base n)"
proof (induction base n rule: fmt_base.induct)
  case (1 base n)
  have "n mod base < 16" using 1(2,3) by (metis less_le_trans mod_less_divisor not_numeral_le_zero zero_less_iff_neq_zero)
  then have "safe_char (char_of (if n mod base < 10 then 48 + n mod base else 87 + n mod base))" by (rule safe_digit)
  moreover have "safe_cmd (fmt_base base (n div base))" if "\<not> n < base"
    using 1 that by simp
  ultimately show ?case using 1(2)
    by (subst fmt_base.simps) (cases "n < base"; cases "n mod base < 10"; simp add: Let_def)
qed

lemma safe_interface: "safe_cmd (SanitizeInterfaceName f)"
  by (auto simp: safe_cmd_def SanitizeInterfaceName_def safe_char_def list_all_iff)

lemma SafeSystem_executed:
  "list_all safe_cmd Done \<Longrightarrow> list_all safe_cmd (snd (SafeSystem sys c Done))"
  by (auto simp: SafeSystem_def safe_cmd_def list_all_iff)

lemma SafeSystem_safe: "safe_cmd c \<Longrightarrow> SafeSystem sys c Done = (sys c, Done @ [c])"
  by (auto simp: SafeSystem_def safe_cmd_def list_all_iff)

lemma sysfmt_all_executed: "list_all safe_cmd Done \<Longrightarrow> list_all safe_cmd (snd (sysfmt_all sys cs Done))"
  by (induction cs arbitrary: Done) (auto simp: Let_def split_beta SafeSystem_executed)

lemma sysfmt_all_ok:
  "list_all safe_cmd cs \<Longrightarrow> \<forall>c. sys c = 0 \<Longrightarrow> sysfmt_all sys cs Done = (True, Done @ cs)"
  by (induction cs arbitrary: Done) (auto simp: SafeSystem_safe)

lemma setup_commands_safe: "list_all safe_cmd (setup_commands ub M)"
  by (simp add: setup_commands_def Let_def safe_fmt safe_interface safe_char_def isalnum_def)

text \<open>The commands a message stands for.\<close>

definition remove_commands :: "WRemoveHtbClassMsg \<Rightarrow> string list" where
  "remove_commands M =
     (let IfName = SanitizeInterfaceName (rmInterfaceName M); minor = dec (unat (rmMinorId M)); mk = hex (unat (rmMark M)) in
      if rmIsRoot M then [''tc class replace dev '' @ IfName @ '' parent 1:1 classid 1:10 htb rate 1Gbit ceil 1Gbit'']
      else [''tc filter delete dev '' @ IfName @ '' parent 1: protocol ip pref 1 handle 0x'' @ mk @ '' fw classid 1:'' @ minor,
            ''tc class delete dev '' @ IfName @ '' classid 1:'' @ minor])"

lemma remove_commands_safe: "list_all safe_cmd (remove_commands M)"
  by (simp add: remove_commands_def Let_def safe_fmt safe_interface safe_char_def isalnum_def)

lemma SetupHtbClass_ok: "\<forall>c. sys c = 0 \<Longrightarrow> SetupHtbClass sys ub M Done = (True, Done @ setup_commands ub M)"
  by (simp add: SetupHtbClass_def sysfmt_all_ok setup_commands_safe)

lemma RemoveHtbClass_ok: "\<forall>c. sys c = 0 \<Longrightarrow> RemoveHtbClass sys M Done = (True, Done @ remove_commands M)"
  using remove_commands_safe [of M]
  by (auto simp: RemoveHtbClass_def remove_commands_def Let_def SafeSystem_safe split: if_splits)

definition message_commands :: "(real \<Rightarrow> nat) \<Rightarrow> WIPLinkMsg \<Rightarrow> string list" where
  "message_commands ub M =
     (if MsgType M = SetupHtbClassType then (case SetupHtbClassMsg M of Some m \<Rightarrow> setup_commands ub m | None \<Rightarrow> [])
      else if MsgType M = RemoveHtbClassType then (case RemoveHtbClassMsg M of Some m \<Rightarrow> remove_commands m | None \<Rightarrow> [])
      else [])"

definition message_answers :: "WSocketStateParser \<Rightarrow> WIPLinkMsg \<Rightarrow> (WEndpoint \<times> WProcessId) list list" where
  "message_answers S M =
     (if MsgType M = LookupEndpointsType then (case LookupEndpointsMsg M of Some es \<Rightarrow> [ProcLookupEndpoints S es] | None \<Rightarrow> [])
      else [])"

lemma ProcessMessage_ok:
  assumes "\<forall>c. sys c = 0" "MsgType M \<noteq> Exit"
  shows "ProcessMessage sys ub S M s =
    s\<lparr>Executed := Executed s @ message_commands ub M, Responses := Responses s @ message_answers S M\<rparr>"
  using assms by (auto simp: ProcessMessage_def message_commands_def message_answers_def SetupHtbClass_ok RemoveHtbClass_ok)

lemma WorkerThreadMain_run:
  assumes "\<forall>c. sys c = 0" "\<not> HandlerStop s" "\<forall>M \<in> set (Queue (MsgQueue s)). MsgType M \<noteq> Exit"
  shows "WorkerThreadMain sys ub S s =
    s\<lparr>MsgQueue := (MsgQueue s)\<lparr>Queue := []\<rparr>,
      Executed := Executed s @ concat (map (message_commands ub) (Queue (MsgQueue s))),
      Responses := Responses s @ concat (map (message_answers S) (Queue (MsgQueue s)))\<rparr>"
  using assms
proof (induction "Queue (MsgQueue s)" arbitrary: s)
  case Nil
  then have "Queue (MsgQueue s) = []" by simp
  then show ?case using Nil.prems by (subst WorkerThreadMain.simps) (cases s, cases "MsgQueue s", simp add: Pop_def)
next
  case (Cons M rest)
  let ?s = "ProcessMessage sys ub S M (s\<lparr>MsgQueue := (MsgQueue s)\<lparr>Queue := rest\<rparr>\<rparr>)"
  have M: "MsgType M \<noteq> Exit" using Cons.hyps(2) Cons.prems(3) by (metis list.set_intros(1))
  have step: "WorkerThreadMain sys ub S s = WorkerThreadMain sys ub S ?s"
    using Cons.prems(2) Cons.hyps(2) [symmetric] by (subst WorkerThreadMain.simps) (simp add: Pop_def)
  have q: "Queue (MsgQueue ?s) = rest" by simp
  have "WorkerThreadMain sys ub S ?s =
    ?s\<lparr>MsgQueue := (MsgQueue ?s)\<lparr>Queue := []\<rparr>,
      Executed := Executed ?s @ concat (map (message_commands ub) rest),
      Responses := Responses ?s @ concat (map (message_answers S) rest)\<rparr>"
    using Cons.hyps(1) [of ?s] Cons.prems Cons.hyps(2) [symmetric] M q
    by (simp add: ProcessMessage_ok del: ProcessMessage_queue)
  then show ?case unfolding step Cons.hyps(2) [symmetric] using Cons.prems(1) M by (simp add: ProcessMessage_ok)
qed

lemma receive_all:
  "\<forall>M \<in> set Ms. MsgType M \<noteq> Exit \<Longrightarrow> fold (\<lambda>M. ProcOnDataReceived (Some M)) Ms s =
     s\<lparr>MsgQueue := (MsgQueue s)\<lparr>Queue := Queue (MsgQueue s) @ Ms\<rparr>\<rparr>"
  by (induction Ms arbitrary: s) (simp_all add: ProcOnDataReceived_def Push_def)

text \<open>C38. When every command succeeds and no exit message is queued, the worker empties the queue and runs
  exactly the \<^verbatim>\<open>tc\<close> commands of the queued messages, in the order the messages were received, none of them
  refused by \<^verbatim>\<open>SafeSystem\<close>, and answers every lookup request once, in order.\<close>

theorem worker_serves_queue_in_order:
  assumes "\<forall>c. sys c = 0" "\<not> HandlerStop s" "\<forall>M \<in> set Ms. MsgType M \<noteq> Exit" "Queue (MsgQueue s) = []"
  shows "let t = WorkerThreadMain sys ub S (fold (\<lambda>M. ProcOnDataReceived (Some M)) Ms s)
    in Queue (MsgQueue t) = [] \<and> Executed t = Executed s @ concat (map (message_commands ub) Ms)
      \<and> Responses t = Responses s @ concat (map (message_answers S) Ms)"
  using assms by (simp add: receive_all WorkerThreadMain_run)

text \<open>A helper that is started, with a setup message that names its interface with shell characters.\<close>

definition test_setup :: WIPLinkMsg where
  "test_setup = (WIPLinkMsg_init SetupHtbClassType)\<lparr>SetupHtbClassMsg :=
     Some \<lparr>suInterfaceName = ''ifb0;x'', suMark = 18, suMinorId = 18, suIsRoot = False, suRateLimit = 1000\<rparr>\<rparr>"

definition test_helper :: proc_state where
  "test_helper = \<lparr>MsgQueue = \<lparr>Queue = [], QueueStop = False\<rparr>, HandlerStop = False, Executed = [], Responses = []\<rparr>"

lemma fmt_small: "n < 10 \<Longrightarrow> fmt_base 10 n = [char_of (48 + n)]" "n < 10 \<Longrightarrow> fmt_base 16 n = [char_of (48 + n)]"
  by (simp_all add: fmt_base.simps [of _ n])

lemma fmt_large: "10 \<le> n \<Longrightarrow> fmt_base 10 n = fmt_base 10 (n div 10) @ [char_of (48 + n mod 10)]"
  by (simp add: fmt_base.simps [of _ n] Let_def)

lemma fmt_examples: "fmt_base 10 18 = ''18''" "fmt_base 10 8000 = ''8000''" "fmt_base 16 18 = ''12''"
  by (simp_all add: fmt_small fmt_large fmt_base.simps [of 16 18] Let_def char_of_def bit_iff_odd)

lemma test_setup_commands:
  "setup_commands ub \<lparr>suInterfaceName = ''ifb0;x'', suMark = 18, suMinorId = 18, suIsRoot = False, suRateLimit = 1000\<rparr> =
    [''tc class replace dev ifb0x parent 1:1 classid 1:18 htb rate 8000bit ceil 8000bit'',
     ''tc qdisc replace dev ifb0x parent 1:18 fq_codel'',
     ''tc filter replace dev ifb0x parent 1: protocol ip pref 1 handle 0x12 fw classid 1:18'']"
  by (simp add: setup_commands_def to_u64_def SanitizeInterfaceName_def isalnum_def fmt_examples)

lemma helper_test_run:
  "Executed (WorkerThreadMain (\<lambda>_. 0) (\<lambda>_. 0) WSocketStateParser_empty (ProcOnDataReceived (Some test_setup) test_helper)) =
    [''tc class replace dev ifb0x parent 1:1 classid 1:18 htb rate 8000bit ceil 8000bit'',
     ''tc qdisc replace dev ifb0x parent 1:18 fq_codel'',
     ''tc filter replace dev ifb0x parent 1: protocol ip pref 1 handle 0x12 fw classid 1:18'']"
  using WorkerThreadMain_run [of "\<lambda>_. 0" "ProcOnDataReceived (Some test_setup) test_helper" "\<lambda>_. 0" WSocketStateParser_empty]
  by (simp add: test_helper_def test_setup_def WIPLinkMsg_init_def ProcOnDataReceived_def Push_def message_commands_def test_setup_commands)

theorem worker_serves_queue_in_order_witness:
  "Executed (WorkerThreadMain (\<lambda>_. 0) (\<lambda>_. 0) WSocketStateParser_empty (ProcOnDataReceived (Some test_setup) test_helper)) =
    [''tc class replace dev ifb0x parent 1:1 classid 1:18 htb rate 8000bit ceil 8000bit'',
     ''tc qdisc replace dev ifb0x parent 1:18 fq_codel'',
     ''tc filter replace dev ifb0x parent 1: protocol ip pref 1 handle 0x12 fw classid 1:18'']"
  using worker_serves_queue_in_order [of "\<lambda>_. 0" test_helper "[test_setup]" "\<lambda>_. 0" WSocketStateParser_empty]
  by (simp add: test_helper_def test_setup_def WIPLinkMsg_init_def message_commands_def test_setup_commands Let_def)

section \<open>The helper as a state machine\<close>

text \<open>What the two threads do, in any order: a received message (or one that does not deserialise), the worker
  until it waits, set-up and tear-down. The tables the worker reads may differ each time.\<close>

inductive proc_step :: "(string \<Rightarrow> int) \<Rightarrow> (real \<Rightarrow> nat) \<Rightarrow> proc_state \<Rightarrow> proc_state \<Rightarrow> bool" for sys ub where
  receive: "proc_step sys ub s (ProcOnDataReceived m s)"
| work: "proc_step sys ub s (WorkerThreadMain sys ub S s)"
| init: "proc_step sys ub s (s\<lparr>Executed := snd (ProcInit sys Ifb Ingress Main0 (Executed s))\<rparr>)"
| cleanup: "proc_step sys ub s (s\<lparr>Executed := ProcCleanup sys Ifb Ingress (Executed s)\<rparr>)"

definition executed_safe :: "proc_state \<Rightarrow> bool" where
  "executed_safe s \<longleftrightarrow> list_all safe_cmd (Executed s)"

lemma ProcInit_executed: "list_all safe_cmd Done \<Longrightarrow> list_all safe_cmd (snd (ProcInit sys i g m Done))"
  by (simp add: ProcInit_def Let_def split_beta SafeSystem_executed sysfmt_all_executed del: sysfmt_all.simps)

lemma ProcessMessage_executed: "executed_safe s \<Longrightarrow> executed_safe (ProcessMessage sys ub S M s)"
  by (simp add: executed_safe_def ProcessMessage_def SetupHtbClass_def RemoveHtbClass_def Let_def split_beta
      SafeSystem_executed sysfmt_all_executed del: sysfmt_all.simps)

lemma WorkerThreadMain_executed: "executed_safe s \<Longrightarrow> executed_safe (WorkerThreadMain sys ub S s)"
proof (induction sys ub S s rule: WorkerThreadMain.induct)
  case (1 sys ub S s)
  show ?case
  proof (cases "HandlerStop s \<or> Queue (MsgQueue s) = []")
    case True
    then show ?thesis using 1(2) by (subst WorkerThreadMain.simps) (auto simp: Pop_def)
  next
    case False
    then obtain M rest where q: "Queue (MsgQueue s) = M # rest" by (cases "Queue (MsgQueue s)") auto
    let ?q = "(MsgQueue s)\<lparr>Queue := rest\<rparr>"
    have "executed_safe (ProcessMessage sys ub S M (s\<lparr>MsgQueue := ?q\<rparr>))"
      by (rule ProcessMessage_executed) (use 1(2) in \<open>simp add: executed_safe_def\<close>)
    with 1(1) [of "(Some M, ?q)" "Some M" ?q M] False q
    show ?thesis by (subst WorkerThreadMain.simps) (simp add: Pop_def)
  qed
qed

interpretation helper_sm: state_machine "\<lambda>s. Executed s = []" "proc_step sys ub" executed_safe for sys ub
proof
  fix s t
  assume "executed_safe s" and "proc_step sys ub s t"
  then show "executed_safe t"
    by (auto elim!: proc_step.cases simp: WorkerThreadMain_executed [unfolded executed_safe_def] executed_safe_def ProcOnDataReceived_def Push_def ProcInit_executed ProcCleanup_def
        Let_def SafeSystem_executed split: option.splits)
qed (simp add: executed_safe_def)

text \<open>C37. Whatever messages the helper receives, whichever commands fail and however its two threads interleave,
  every command line it ever hands to \<^verbatim>\<open>system\<close> consists of letters, digits, blanks, underscores, hyphens, colons
  and equal signs: no message can make the privileged process run a shell construct.\<close>

theorem helper_executes_only_safe_commands:
  assumes "reachable (\<lambda>s. Executed s = []) (proc_step sys ub) s"
  shows "\<forall>c \<in> set (Executed s). \<forall>x \<in> set c. safe_char x"
  using helper_sm.reachable_invar [OF assms] by (auto simp: executed_safe_def list_all_iff safe_cmd_def)

theorem helper_executes_only_safe_commands_witness:
  "let t = WorkerThreadMain (\<lambda>_. 0) (\<lambda>_. 0) WSocketStateParser_empty (ProcOnDataReceived (Some test_setup) test_helper)
   in length (Executed t) = 3 \<and> (\<forall>c \<in> set (Executed t). \<forall>x \<in> set c. safe_char x)"
proof -
  let ?s = "ProcOnDataReceived (Some test_setup) test_helper"
  let ?t = "WorkerThreadMain (\<lambda>_. 0) (\<lambda>_. 0) WSocketStateParser_empty ?s"
  have "reachable (\<lambda>s. Executed s = []) (proc_step (\<lambda>_. 0) (\<lambda>_. 0)) ?t"
    by (rule reach_step, rule reach_step, rule reach_start [of _ test_helper])
      (simp add: test_helper_def, rule receive, rule work)
  then have "\<forall>c \<in> set (Executed ?t). \<forall>x \<in> set c. safe_char x" by (rule helper_executes_only_safe_commands)
  moreover have "length (Executed ?t) = 3" by (simp only: helper_test_run) simp
  ultimately show ?thesis by (simp only: Let_def simp_thms)
qed

end
