(* ===== verification/System_Map.thy ===== *)
theory System_Map
  imports Process_Names Socket_Events Socket_State Packet_Parser
begin

text \<open>
  \<^verbatim>\<open>Daemon/Data/SystemMap.cpp\<close>: the daemon's tree of applications, processes, sockets and UDP tuples.
  A \<^verbatim>\<open>shared_ptr\<close> to a counter is its address in a heap (a list that only grows, since a shared
  object lives as long as something points to it); a counter and its item are created together and
  never separated, so the address also stands for the item. What the code asks of the operating
  system and of the daemon is the record \<open>sys_env\<close>: the clock, the proc file system, the socket
  tables and whether a client is connected. The calls on \<^verbatim>\<open>WNetworkEvents\<close> and the lookup requests
  for the helper are lists in the state. An operation that can throw, or that uses an iterator it
  has erased, also returns the error; the state is then the one at the point of the error.
\<close>

section \<open>State\<close>

type_synonym addr = nat

type_synonym WAppCounter = "(addr, unit) WApplicationItem_ext TTrafficCounter"

record WProcessCounter =
  ProcCounter :: "(addr, unit) WProcessItem_ext TTrafficCounter"
  ParentApp :: addr

record WSocketCounter =
  SockCounter :: "(addr, unit) WSocketItem_ext TTrafficCounter"
  ParentProcess :: addr
  UDPPerConnectionCounters :: "(WEndpoint, addr) umap"

record WTupleCounter =
  TupleCounter :: "unit WTupleItem_ext TTrafficCounter"
  ParentSocket :: addr

record WFilterCounter =
  FilterCounter :: "unit WFilterItem_ext TTrafficCounter"
  FilterFunction :: "WTrafficItemId \<Rightarrow> WEndpoint option \<Rightarrow> WEndpoint option \<Rightarrow> bool"

text \<open>A \<^verbatim>\<open>shared_ptr<ITrafficItem>\<close> in \<^verbatim>\<open>TrafficItems\<close>.\<close>

datatype item_ref = SystemRef | AppRef addr | ProcRef addr | SockRef addr | TupleRef addr

datatype net_event = EvSocketConnected addr | EvUDPTupleCreated addr | EvUDPTupleRemoved addr
  | EvSocketRemoved addr | EvProcessRemoved addr | EvProcessCreated addr | EvAppFirstTimeConnected addr

datatype map_error = ParseException | UseAfterErase | OutOfBounds

text \<open>What is handed to the statistics (\<^verbatim>\<open>WStatsManager\<close>).\<close>

datatype stat_update = FilterStats string WBytes WBytes | AppStats WTrafficItemId string WIPAddress WBytes WBytes

record WMapUpdate =
  MarkedForRemovalItems :: "WTrafficItemId list"
  RemovedItems :: "WTrafficItemId list"
  SocketStateChanges :: "WTrafficTreeSocketStateChange list"
  AddedSockets :: "addr list"
  AddedTuples :: "(WEndpoint \<times> addr) list"

record sys_env =
  Now :: WMsec
  Proc :: proc_env
  Net :: proc_net
  Track :: bool

record WSystemMap =
  Parser :: WSocketStateParser
  MapUpdate :: WMapUpdate
  NextItemId :: WTrafficItemId
  SystemCounter :: "(addr, addr, unit) WSystemItem_ext TTrafficCounter"
  FilterCounters :: "WFilterCounter list"
  AppMap :: "(string, addr) umap"
  ProcessMap :: "(WProcessId, addr) umap"
  SocketMap :: "(WSocketCookie, addr) umap"
  TrafficItems :: "(WTrafficItemId, item_ref) umap"
  OrphanedSockets :: "(WEndpoint, addr) umap"
  AppHeap :: "WAppCounter list"
  ProcHeap :: "WProcessCounter list"
  SockHeap :: "WSocketCounter list"
  TupleHeap :: "WTupleCounter list"
  NetEvents :: "net_event list"
  LookupRequests :: "WEndpoint list list"
  StatUpdates :: "stat_update list"

abbreviation kSyntheticCookieBase :: WSocketCookie where "kSyntheticCookieBase \<equiv> 0x8000000000000000"

section \<open>Heap access\<close>

definition upd_app :: "addr \<Rightarrow> (WAppCounter \<Rightarrow> WAppCounter) \<Rightarrow> WSystemMap \<Rightarrow> WSystemMap" where
  "upd_app a f s = s\<lparr>AppHeap := (AppHeap s)[a := f (AppHeap s ! a)]\<rparr>"

definition upd_proc :: "addr \<Rightarrow> (WProcessCounter \<Rightarrow> WProcessCounter) \<Rightarrow> WSystemMap \<Rightarrow> WSystemMap" where
  "upd_proc a f s = s\<lparr>ProcHeap := (ProcHeap s)[a := f (ProcHeap s ! a)]\<rparr>"

definition upd_sock :: "addr \<Rightarrow> (WSocketCounter \<Rightarrow> WSocketCounter) \<Rightarrow> WSystemMap \<Rightarrow> WSystemMap" where
  "upd_sock a f s = s\<lparr>SockHeap := (SockHeap s)[a := f (SockHeap s ! a)]\<rparr>"

definition upd_tuple :: "addr \<Rightarrow> (WTupleCounter \<Rightarrow> WTupleCounter) \<Rightarrow> WSystemMap \<Rightarrow> WSystemMap" where
  "upd_tuple a f s = s\<lparr>TupleHeap := (TupleHeap s)[a := f (TupleHeap s ! a)]\<rparr>"

abbreviation app_item :: "WSystemMap \<Rightarrow> addr \<Rightarrow> addr WApplicationItem" where
  "app_item s a \<equiv> TrafficItem (AppHeap s ! a)"
abbreviation proc_item :: "WSystemMap \<Rightarrow> addr \<Rightarrow> addr WProcessItem" where
  "proc_item s a \<equiv> TrafficItem (ProcCounter (ProcHeap s ! a))"
abbreviation sock_item :: "WSystemMap \<Rightarrow> addr \<Rightarrow> addr WSocketItem" where
  "sock_item s a \<equiv> TrafficItem (SockCounter (SockHeap s ! a))"
abbreviation tuple_item :: "WSystemMap \<Rightarrow> addr \<Rightarrow> WTupleItem" where
  "tuple_item s a \<equiv> TrafficItem (TupleCounter (TupleHeap s ! a))"
abbreviation system_item :: "WSystemMap \<Rightarrow> (addr, addr) WSystemItem" where
  "system_item s \<equiv> TrafficItem (SystemCounter s)"

definition on_item :: "('a ITrafficItem_scheme \<Rightarrow> 'a ITrafficItem_scheme) \<Rightarrow> 'a TTrafficCounter \<Rightarrow> 'a TTrafficCounter" where
  "on_item f c = c\<lparr>TrafficItem := f (TrafficItem c)\<rparr>"

abbreviation upd_app_item where "upd_app_item a f \<equiv> upd_app a (on_item f)"
abbreviation upd_proc_item where "upd_proc_item a f \<equiv> upd_proc a (\<lambda>c. c\<lparr>ProcCounter := on_item f (ProcCounter c)\<rparr>)"
abbreviation upd_sock_item where "upd_sock_item a f \<equiv> upd_sock a (\<lambda>c. c\<lparr>SockCounter := on_item f (SockCounter c)\<rparr>)"

definition upd_system_item :: "((addr, addr) WSystemItem \<Rightarrow> (addr, addr) WSystemItem) \<Rightarrow> WSystemMap \<Rightarrow> WSystemMap" where
  "upd_system_item f s = s\<lparr>SystemCounter := on_item f (SystemCounter s)\<rparr>"

definition fire :: "net_event \<Rightarrow> WSystemMap \<Rightarrow> WSystemMap" where
  "fire e s = s\<lparr>NetEvents := NetEvents s @ [e]\<rparr>"

definition register :: "WTrafficItemId \<Rightarrow> item_ref \<Rightarrow> WSystemMap \<Rightarrow> WSystemMap" where
  "register i r s = s\<lparr>TrafficItems := AList.update i r (TrafficItems s)\<rparr>"

definition unregister :: "WTrafficItemId \<Rightarrow> WSystemMap \<Rightarrow> WSystemMap" where
  "unregister i s = s\<lparr>TrafficItems := AList.delete i (TrafficItems s)\<rparr>"

definition GetTrafficItemById :: "WTrafficItemId \<Rightarrow> WSystemMap \<Rightarrow> item_ref option" where
  "GetTrafficItemById i s = map_of (TrafficItems s) i"

definition SendLookupRequest :: "WEndpoint list \<Rightarrow> WSystemMap \<Rightarrow> WSystemMap" where
  "SendLookupRequest es s = s\<lparr>LookupRequests := LookupRequests s @ [es]\<rparr>"

section \<open>Updates for the clients\<close>

text \<open>\<^verbatim>\<open>Daemon/Data/MapUpdate.hpp\<close>: nothing is recorded while no client is connected.\<close>

definition on_update :: "sys_env \<Rightarrow> (WMapUpdate \<Rightarrow> WMapUpdate) \<Rightarrow> WSystemMap \<Rightarrow> WSystemMap" where
  "on_update E f s = (if Track E then s\<lparr>MapUpdate := f (MapUpdate s)\<rparr> else s)"

definition MarkItemForRemoval :: "sys_env \<Rightarrow> WTrafficItemId \<Rightarrow> WSystemMap \<Rightarrow> WSystemMap" where
  "MarkItemForRemoval E Ident = on_update E (\<lambda>u. u\<lparr>MarkedForRemovalItems := MarkedForRemovalItems u @ [Ident]\<rparr>)"

definition AddStateChange :: "sys_env \<Rightarrow> WTrafficTreeSocketStateChange \<Rightarrow> WSystemMap \<Rightarrow> WSystemMap" where
  "AddStateChange E c = on_update E (\<lambda>u. u\<lparr>SocketStateChanges := SocketStateChanges u @ [c]\<rparr>)"

definition AddTupleAddition :: "sys_env \<Rightarrow> WEndpoint \<Rightarrow> addr \<Rightarrow> WSystemMap \<Rightarrow> WSystemMap" where
  "AddTupleAddition E e a = on_update E (\<lambda>u. u\<lparr>AddedTuples := AddedTuples u @ [(e, a)]\<rparr>)"

definition AddSocketAddition :: "sys_env \<Rightarrow> addr \<Rightarrow> WSystemMap \<Rightarrow> WSystemMap" where
  "AddSocketAddition E a = on_update E (\<lambda>u. u\<lparr>AddedSockets := AddedSockets u @ [a]\<rparr>)"

definition AddItemRemoval :: "sys_env \<Rightarrow> WTrafficItemId \<Rightarrow> WSystemMap \<Rightarrow> WSystemMap" where
  "AddItemRemoval E Ident = on_update E (\<lambda>u. u\<lparr>RemovedItems := RemovedItems u @ [Ident]\<rparr>)"

section \<open>Creation\<close>

definition ITrafficItem_init :: "WTrafficItemId \<Rightarrow> ITrafficItem" where
  "ITrafficItem_init i = \<lparr>ItemId = i, DownloadSpeed = 0, UploadSpeed = 0, TotalDownloadBytes = 0, TotalUploadBytes = 0\<rparr>"

definition new_app_item :: "WTrafficItemId \<Rightarrow> string \<Rightarrow> string \<Rightarrow> string \<Rightarrow> addr WApplicationItem" where
  "new_app_item i Name Path Cmd = ITrafficItem.extend (ITrafficItem_init i)
     (WApplicationItem.fields Name Path Cmd [])"

definition new_proc_item :: "WTrafficItemId \<Rightarrow> WProcessId \<Rightarrow> addr WProcessItem" where
  "new_proc_item i PID = ITrafficItem.extend (ITrafficItem_init i) (WProcessItem.fields PID [])"

definition WSocketTuple_init :: WSocketTuple where
  "WSocketTuple_init = \<lparr>LocalEndpoint = WEndpoint_init, RemoteEndpoint = WEndpoint_init, Protocol = Proto_Unknown\<rparr>"

definition new_sock_item :: "WTrafficItemId \<Rightarrow> WSocketCookie \<Rightarrow> addr WSocketItem" where
  "new_sock_item i c = ITrafficItem.extend (ITrafficItem_init i)
     (WSocketItem.fields WSocketTuple_init [] c ST_Unknown ConnUnknown)"

definition new_tuple_item :: "WTrafficItemId \<Rightarrow> WEndpoint \<Rightarrow> WTupleItem" where
  "new_tuple_item i e = ITrafficItem.extend (ITrafficItem_init i) (WTupleItem.fields e)"

definition take_id :: "WSystemMap \<Rightarrow> WTrafficItemId \<times> WSystemMap" where
  "take_id s = (NextItemId s, s\<lparr>NextItemId := NextItemId s + 1\<rparr>)"

definition FindOrMapSocket :: "sys_env \<Rightarrow> WSocketCookie \<Rightarrow> addr \<Rightarrow> WSystemMap \<Rightarrow> addr \<times> WSystemMap" where
  "FindOrMapSocket E SocketCookie Parent s =
     (case map_of (SocketMap s) SocketCookie of
        Some a \<Rightarrow> (a, s)
      | None \<Rightarrow>
          let a = length (SockHeap s);
              (i, s1) = take_id s;
              c = \<lparr>SockCounter = TTrafficCounter_init (Now E) (new_sock_item i SocketCookie), ParentProcess = Parent,
                   UDPPerConnectionCounters = []\<rparr>;
              s2 = s1\<lparr>SockHeap := SockHeap s1 @ [c], SocketMap := AList.update SocketCookie a (SocketMap s1)\<rparr>;
              s3 = register i (SockRef a) s2;
              s4 = upd_proc_item Parent (\<lambda>p. p\<lparr>Sockets := AList.update SocketCookie a (Sockets p)\<rparr>) s3
          in (a, AddSocketAddition E a s4))"

definition FindOrMapProcess :: "sys_env \<Rightarrow> WProcessId \<Rightarrow> addr \<Rightarrow> WSystemMap \<Rightarrow> addr \<times> WSystemMap" where
  "FindOrMapProcess E PID Parent s =
     (case map_of (ProcessMap s) PID of
        Some a \<Rightarrow> (a, s)
      | None \<Rightarrow>
          let a = length (ProcHeap s);
              (i, s1) = take_id s;
              c = \<lparr>ProcCounter = TTrafficCounter_init (Now E) (new_proc_item i PID), ParentApp = Parent\<rparr>;
              s2 = s1\<lparr>ProcHeap := ProcHeap s1 @ [c]\<rparr>;
              s3 = upd_app_item Parent (\<lambda>p. p\<lparr>Processes := AList.update PID a (Processes p)\<rparr>) s2;
              s4 = s3\<lparr>ProcessMap := AList.update PID a (ProcessMap s3)\<rparr>;
              s5 = register i (ProcRef a) s4
          in (a, fire (EvProcessCreated a) s5))"

text \<open>\<^verbatim>\<open>FindOrMapApplication\<close>: the loop over the known applications looks for one that is the same program
  under another key. The order of the map is the order of the association list.\<close>

datatype alias_result = NoAlias | ReuseApp addr | UpgradeApp string addr

fun alias_loop :: "WAppCounter list \<Rightarrow> string \<Rightarrow> string \<Rightarrow> (string, addr) umap \<Rightarrow> alias_result" where
  "alias_loop Heap Key AppName [] = NoAlias"
| "alias_loop Heap Key AppName ((ExistingKey, a) # apps) =
     (let KeyBasename = GetBasename Key; AppAlias = SanitizeProcessBinaryCandidate AppName;
          ExistingPath = ApplicationPath (TrafficItem (Heap ! a)) in
      if ExistingKey = Key then ReuseApp a
      else if ExistingPath \<noteq> [] \<and> hd ExistingPath = CHR ''/'' then
        (let ExistingBasename = GetBasename ExistingPath in
         if ExistingBasename \<noteq> [] \<and> (ExistingBasename = KeyBasename \<or> ExistingBasename = AppAlias) then ReuseApp a
         else alias_loop Heap Key AppName apps)
      else
        (let Alias0 = SanitizeProcessBinaryCandidate ExistingPath;
             ExistingAlias = (if Alias0 = [] then SanitizeProcessBinaryCandidate ExistingKey else Alias0);
             bMatchesAlias = (ExistingAlias \<noteq> [] \<and> (ExistingAlias = KeyBasename \<or> ExistingAlias = AppAlias));
             bMatchesName = (AppName \<noteq> [] \<and> ApplicationName (TrafficItem (Heap ! a)) = AppName) in
         if \<not> bMatchesAlias \<and> \<not> bMatchesName then alias_loop Heap Key AppName apps
         else UpgradeApp ExistingKey a))"

definition UpgradeApplication :: "string \<Rightarrow> string \<Rightarrow> string \<Rightarrow> string \<Rightarrow> addr \<Rightarrow> WSystemMap \<Rightarrow> WSystemMap" where
  "UpgradeApplication Key CommandLine AppName ExistingKey a s =
     (let s1 = upd_system_item (\<lambda>i. i\<lparr>Applications := AList.delete ExistingKey (Applications i)\<rparr>) s;
          s2 = s1\<lparr>AppMap := AList.delete ExistingKey (AppMap s1)\<rparr>;
          s3 = upd_app_item a (\<lambda>i. i\<lparr>ApplicationPath := Key\<rparr>) s2;
          s4 = (if CommandLine \<noteq> [] then upd_app_item a (\<lambda>i. i\<lparr>ApplicationCommandLine := CommandLine\<rparr>) s3 else s3);
          s5 = (if AppName \<noteq> [] then upd_app_item a (\<lambda>i. i\<lparr>ApplicationName := AppName\<rparr>) s4 else s4);
          s6 = upd_system_item (\<lambda>i. i\<lparr>Applications := AList.update Key a (Applications i)\<rparr>) s5;
          s7 = s6\<lparr>AppMap := AList.update Key a (AppMap s6)\<rparr>
      in fire (EvAppFirstTimeConnected a) s7)"

definition NewApplication :: "sys_env \<Rightarrow> string \<Rightarrow> string \<Rightarrow> string \<Rightarrow> WSystemMap \<Rightarrow> addr \<times> WSystemMap" where
  "NewApplication E Key CommandLine AppName s =
     (let a = length (AppHeap s);
          (i, s1) = take_id s;
          s2 = s1\<lparr>AppHeap := AppHeap s1 @ [TTrafficCounter_init (Now E) (new_app_item i (DisplayName Key AppName) Key CommandLine)]\<rparr>;
          s3 = upd_system_item (\<lambda>i. i\<lparr>Applications := AList.update Key a (Applications i)\<rparr>) s2;
          s4 = s3\<lparr>AppMap := AList.update Key a (AppMap s3)\<rparr>;
          s5 = register i (AppRef a) s4
      in (a, fire (EvAppFirstTimeConnected a) s5))"

definition FindOrMapApplication :: "sys_env \<Rightarrow> string \<Rightarrow> string \<Rightarrow> string \<Rightarrow> WSystemMap \<Rightarrow> addr \<times> WSystemMap" where
  "FindOrMapApplication E ExePath CommandLine AppName s =
     (let Key = AppKey ExePath CommandLine AppName in
      case map_of (AppMap s) Key of
        Some a \<Rightarrow> (a, s)
      | None \<Rightarrow>
          (case (if Key \<noteq> [] \<and> hd Key = CHR ''/'' then alias_loop (AppHeap s) Key AppName (AppMap s) else NoAlias) of
             ReuseApp a \<Rightarrow> (a, s)
           | UpgradeApp ExistingKey a \<Rightarrow> (a, UpgradeApplication Key CommandLine AppName ExistingKey a s)
           | NoAlias \<Rightarrow> NewApplication E Key CommandLine AppName s))"

definition MapSocket :: "sys_env \<Rightarrow> WSocketEvent \<Rightarrow> WProcessId \<Rightarrow> bool \<Rightarrow> WSystemMap \<Rightarrow> addr option \<times> WSystemMap" where
  "MapSocket E Event PID bSilentFail s =
     (let c = EventCookie Event in
      if c = 0 then (None, s)
      else if PID = 0 then
        (if bSilentFail \<and> (EventType Event = NE_TCPSocketEstablished_4 \<or> EventType Event = NE_TCPSocketEstablished_6)
         then (map_of (SocketMap s) c, s)
         else (None, s))
      else (case map_of (SocketMap s) c of
          Some a \<Rightarrow> (Some a, s)
        | None \<Rightarrow>
            let (ExePath, CmdLine, Comm) = ProcessInfo (Proc E) PID;
                (App, s1) = FindOrMapApplication E ExePath CmdLine Comm s;
                (Process, s2) = FindOrMapProcess E PID App s1;
                (Socket, s3) = FindOrMapSocket E c Process s2
            in (Some Socket, s3)))"

section \<open>Start-up\<close>

text \<open>A filter looks at the remote address; without one it would look at the local address.\<close>

definition address_filter :: "(WIPAddress \<Rightarrow> bool) \<Rightarrow> WTrafficItemId \<Rightarrow> WEndpoint option \<Rightarrow> WEndpoint option \<Rightarrow> bool" where
  "address_filter f Ident LocalEp RemoteEp =
     (case RemoteEp of Some r \<Rightarrow> f (Address r) | None \<Rightarrow> (case LocalEp of Some l \<Rightarrow> f (Address l) | None \<Rightarrow> False))"

definition AddFilter :: "sys_env \<Rightarrow> string \<Rightarrow> (WTrafficItemId \<Rightarrow> WEndpoint option \<Rightarrow> WEndpoint option \<Rightarrow> bool) \<Rightarrow> WSystemMap \<Rightarrow> WSystemMap" where
  "AddFilter E Name Fn s =
     (let (i, s1) = take_id s;
          item = ITrafficItem.extend (ITrafficItem_init i) (WFilterItem.fields Name);
          s2 = upd_system_item (\<lambda>it. it\<lparr>Filters := Filters it @ [length (FilterCounters s)]\<rparr>) s1
      in s2\<lparr>FilterCounters := FilterCounters s2 @ [\<lparr>FilterCounter = TTrafficCounter_init (Now E) item, FilterFunction = Fn\<rparr>]\<rparr>)"

definition RegisterDefaultFilters :: "sys_env \<Rightarrow> WSystemMap \<Rightarrow> WSystemMap" where
  "RegisterDefaultFilters E s =
     AddFilter E ''Localhost'' (address_filter IsLocalhost)
       (AddFilter E ''LAN'' (address_filter IsLANAddress)
         (AddFilter E ''Internet'' (address_filter IsInternetAddress) s))"

definition empty_update :: WMapUpdate where
  "empty_update = \<lparr>MarkedForRemovalItems = [], RemovedItems = [], SocketStateChanges = [], AddedSockets = [], AddedTuples = []\<rparr>"

text \<open>The constructor; the parser has read the tables when it was constructed (\<open>P\<close>), \<open>Host\<close> is the content of
  \<^verbatim>\<open>/proc/sys/kernel/hostname\<close>.\<close>

definition WSystemMap_init :: "sys_env \<Rightarrow> WSocketStateParser \<Rightarrow> string \<Rightarrow> WSystemMap" where
  "WSystemMap_init E P Host =
     (let h = ReadProc Host;
          item = ITrafficItem.extend (ITrafficItem_init 0) (WSystemItem.fields (if h \<noteq> [] then h else ''System'') [] []);
          s = \<lparr>Parser = P, MapUpdate = empty_update, NextItemId = 1, SystemCounter = TTrafficCounter_init (Now E) item,
               FilterCounters = [], AppMap = [], ProcessMap = [], SocketMap = [], TrafficItems = [(0, SystemRef)],
               OrphanedSockets = [], AppHeap = [], ProcHeap = [], SockHeap = [], TupleHeap = [], NetEvents = [],
               LookupRequests = [], StatUpdates = []\<rparr>
      in RegisterDefaultFilters E s)"

text \<open>\<^verbatim>\<open>AddExistingSockets\<close>.\<close>

definition set_listen :: "WListenSocketInfo \<Rightarrow> addr WSocketItem \<Rightarrow> addr WSocketItem" where
  "set_listen L i = i\<lparr>SocketTuple := (SocketTuple i)\<lparr>LocalEndpoint := ListenLocalEndpoint L, Protocol := ListenProtocol L\<rparr>,
     SocketType := ST_Listen, ConnectionState := Connected\<rparr>"

definition synthetic_event :: "WSocketCookie \<Rightarrow> WSocketEvent" where
  "synthetic_event c = \<lparr>EventType = NE_Synthetic, EventCookie = c, PidTgId = 0, CgroupId = 0, EventData = ZeroEventData\<rparr>"

fun add_listening :: "sys_env \<Rightarrow> WSocketCookie \<Rightarrow> WListenSocketInfo list \<Rightarrow> WSystemMap \<Rightarrow> WSystemMap" where
  "add_listening E c [] s = s"
| "add_listening E c (L # Ls) s =
     (if ListenPID L \<le> 0 \<or> \<not> ProcessRunning (Proc E) (ListenPID L) then add_listening E c Ls s
      else (case MapSocket E (synthetic_event c) (ListenPID L) False s of
          (None, s1) \<Rightarrow> add_listening E (c + 1) Ls s1
        | (Some a, s1) \<Rightarrow> add_listening E (c + 1) Ls (upd_sock_item a (set_listen L) s1)))"

definition AddExistingSockets :: "sys_env \<Rightarrow> WSystemMap \<Rightarrow> map_error option \<times> WSystemMap" where
  "AddExistingSockets E s =
     (case ParseData (Net E) of
        None \<Rightarrow> (Some ParseException, s)
      | Some P \<Rightarrow> (None, add_listening E kSyntheticCookieBase (KnownListeningSockets P) (s\<lparr>Parser := P\<rparr>)))"

definition ProcessInitialApps :: "WSystemMap \<Rightarrow> WSystemMap" where
  "ProcessInitialApps s = fold (\<lambda>(_, a). fire (EvAppFirstTimeConnected a)) (AppMap s) s"

section \<open>Traffic\<close>

fun traffic_data :: "WSocketEventData \<Rightarrow> WSocketTrafficEventData" where
  "traffic_data (TrafficEventData d) = d"
| "traffic_data _ = \<lparr>RawData = replicate 128 0, TrafficBytes = 0, Timestamp = 0, Direction = PD_Outgoing\<rparr>"

definition push_dir :: "EPacketDirection \<Rightarrow> WBytes \<Rightarrow> 'a TTrafficCounter \<Rightarrow> 'a TTrafficCounter" where
  "push_dir d n = (if d = PD_Incoming then PushIncomingTraffic n else PushOutgoingTraffic n)"

abbreviation push_sock where "push_sock d n a \<equiv> upd_sock a (\<lambda>c. c\<lparr>SockCounter := push_dir d n (SockCounter c)\<rparr>)"
abbreviation push_proc where "push_proc d n a \<equiv> upd_proc a (\<lambda>c. c\<lparr>ProcCounter := push_dir d n (ProcCounter c)\<rparr>)"
abbreviation push_app where "push_app d n a \<equiv> upd_app a (push_dir d n)"
abbreviation push_tuple where "push_tuple d n a \<equiv> upd_tuple a (\<lambda>c. c\<lparr>TupleCounter := push_dir d n (TupleCounter c)\<rparr>)"

definition push_system :: "EPacketDirection \<Rightarrow> WBytes \<Rightarrow> WSystemMap \<Rightarrow> WSystemMap" where
  "push_system d n s = s\<lparr>SystemCounter := push_dir d n (SystemCounter s)\<rparr>"

definition push_filters :: "EPacketDirection \<Rightarrow> WBytes \<Rightarrow> WTrafficItemId \<Rightarrow> WEndpoint \<Rightarrow> WEndpoint \<Rightarrow> WSystemMap \<Rightarrow> WSystemMap" where
  "push_filters d n i LocalEp RemoteEp s = s\<lparr>FilterCounters :=
     map (\<lambda>f. if FilterFunction f i (Some LocalEp) (Some RemoteEp) then f\<lparr>FilterCounter := push_dir d n (FilterCounter f)\<rparr> else f)
       (FilterCounters s)\<rparr>"

definition PushTrafficForSocket :: "WSocketEvent \<Rightarrow> addr \<Rightarrow> WSystemMap \<Rightarrow> WSystemMap" where
  "PushTrafficForSocket Event a s =
     (let d = Direction (traffic_data (EventData Event)); n = TrafficBytes (traffic_data (EventData Event));
          p = ParentProcess (SockHeap s ! a); T = SocketTuple (sock_item s a);
          s1 = push_sock d n a s;
          s2 = push_proc d n p s1;
          s3 = push_app d n (ParentApp (ProcHeap s2 ! p)) s2;
          s4 = push_filters d n (ItemId (sock_item s3 a)) (LocalEndpoint T) (RemoteEndpoint T) s3
      in upd_sock_item a (\<lambda>i. i\<lparr>ConnectionState := Connected\<rparr>) s4)"

text \<open>UDP tuples of a socket.\<close>

definition HaveTuple :: "WSystemMap \<Rightarrow> addr \<Rightarrow> WEndpoint \<Rightarrow> bool" where
  "HaveTuple s a e \<longleftrightarrow> list_ex (\<lambda>t. TupleEndpoint (tuple_item s t) = e) (UDPPerConnectionTraffic (sock_item s a))"

definition GetOrCreateUDPTupleCounter :: "sys_env \<Rightarrow> addr \<Rightarrow> WEndpoint \<Rightarrow> WSystemMap \<Rightarrow> addr \<times> WSystemMap" where
  "GetOrCreateUDPTupleCounter E a Endpoint s =
     (case map_of (UDPPerConnectionCounters (SockHeap s ! a)) Endpoint of
        Some t \<Rightarrow> (t, s)
      | None \<Rightarrow>
          let t = length (TupleHeap s);
              (i, s1) = take_id s;
              s2 = upd_sock_item a (\<lambda>it. it\<lparr>UDPPerConnectionTraffic := UDPPerConnectionTraffic it @ [t]\<rparr>) s1;
              s3 = register i (TupleRef t) s2;
              s4 = s3\<lparr>TupleHeap := TupleHeap s3 @ [\<lparr>TupleCounter = TTrafficCounter_init (Now E) (new_tuple_item i Endpoint), ParentSocket = a\<rparr>]\<rparr>;
              s5 = upd_sock a (\<lambda>c. c\<lparr>UDPPerConnectionCounters := AList.update Endpoint t (UDPPerConnectionCounters c)\<rparr>) s4
          in (t, fire (EvUDPTupleCreated t) s5))"

text \<open>\<^verbatim>\<open>DoPacketParsing\<close>: the endpoints, the type, and the tuple of a UDP packet.\<close>

definition infer_endpoints :: "bool \<Rightarrow> bool \<Rightarrow> EProtocol \<Rightarrow> WEndpoint \<Rightarrow> WEndpoint \<Rightarrow> 't WSocketItem \<Rightarrow> 't WSocketItem \<times> bool" where
  "infer_endpoints bHaveLocal bHaveRemote Proto LocalEp RemoteEp Item =
     (let i1 = set_protocol Proto Item;
          m1 = (\<not> bHaveLocal \<and> LocalEndpoint (SocketTuple i1) \<noteq> LocalEp);
          i2 = (if \<not> bHaveLocal then set_local (\<lambda>_. LocalEp) i1 else i1);
          r = (\<not> bHaveRemote \<and> Protocol (SocketTuple i2) \<noteq> Proto_UDP);
          m2 = (r \<and> RemoteEndpoint (SocketTuple i2) \<noteq> RemoteEp);
          i3 = (if r then set_remote (\<lambda>_. RemoteEp) i2 else i2)
      in (i3, m1 \<or> m2))"

definition infer_type :: "sys_env \<Rightarrow> WSocketStateParser \<Rightarrow> WEndpoint \<Rightarrow> 't WSocketItem \<Rightarrow> ('t WSocketItem \<times> bool) option" where
  "infer_type E P RemoteEp Item =
     (if SocketType Item = ST_Unknown then
        (if Protocol (SocketTuple Item) = Proto_ICMP \<or> Protocol (SocketTuple Item) = Proto_ICMPv6
         then Some (Item\<lparr>SocketType := ST_Connect\<rparr>, SocketType Item \<noteq> ST_Connect)
         else (case DetermineSocketType (Net E) P (LocalEndpoint (SocketTuple Item)) (Protocol (SocketTuple Item)) (Some RemoteEp) of
             None \<Rightarrow> None
           | Some t \<Rightarrow> Some (Item\<lparr>SocketType := t\<rparr>, SocketType Item \<noteq> t)))
      else Some (Item, False))"

definition udp_packet :: "sys_env \<Rightarrow> WSocketTrafficEventData \<Rightarrow> addr \<Rightarrow> WEndpoint \<Rightarrow> WEndpoint \<Rightarrow> WSystemMap \<Rightarrow> WSystemMap" where
  "udp_packet E d a LocalEp RemoteEp s =
     (if Protocol (SocketTuple (sock_item s a)) = Proto_UDP \<and> \<not> IsZero (Address RemoteEp) then
        let bTupleExists = HaveTuple s a RemoteEp;
            (t, s1) = GetOrCreateUDPTupleCounter E a RemoteEp s;
            s2 = push_tuple (Direction d) (TrafficBytes d) t s1;
            s3 = push_filters (Direction d) (TrafficBytes d) (ItemId (tuple_item s2 t)) LocalEp RemoteEp s2
        in if \<not> bTupleExists then AddTupleAddition E RemoteEp t s3 else s3
      else s)"

definition apply_packet :: "sys_env \<Rightarrow> WSocketTrafficEventData \<Rightarrow> WPacketHeaderParser \<Rightarrow> addr \<Rightarrow> WSystemMap \<Rightarrow> map_error option \<times> WSystemMap" where
  "apply_packet E d H a s =
     (let T = SocketTuple (sock_item s a);
          bHaveLocal = (\<not> IsZero (Address (LocalEndpoint T))); bHaveRemote = (\<not> IsZero (Address (RemoteEndpoint T)));
          LocalEp = (if Direction d = PD_Outgoing then Src H else Dst H);
          RemoteEp = (if Direction d = PD_Outgoing then Dst H else Src H);
          (i1, m1) = infer_endpoints bHaveLocal bHaveRemote (L4Proto H) LocalEp RemoteEp (sock_item s a) in
      case infer_type E (Parser s) RemoteEp i1 of
        None \<Rightarrow> (Some ParseException, upd_sock_item a (\<lambda>_. i1) s)
      | Some (i2, m2) \<Rightarrow>
          let s2 = upd_sock_item a (\<lambda>_. i2) s;
              s3 = udp_packet E d a LocalEp RemoteEp s2
          in (None, if m1 \<or> m2 then AddStateChange E (state_change_of (sock_item s3 a)) s3 else s3))"

definition DoPacketParsing :: "sys_env \<Rightarrow> WSocketEvent \<Rightarrow> addr \<Rightarrow> WSystemMap \<Rightarrow> map_error option \<times> WSystemMap" where
  "DoPacketParsing E Event a s =
     (let d = traffic_data (EventData Event); T = SocketTuple (sock_item s a) in
      if \<not> IsZero (Address (LocalEndpoint T)) \<and> \<not> IsZero (Address (RemoteEndpoint T)) \<and> Protocol T = Proto_TCP then (None, s)
      else (case ParsePacket (RawData d) 128 of
          None \<Rightarrow> (Some OutOfBounds, s)
        | Some (ok, H) \<Rightarrow> if \<not> ok then (None, s) else apply_packet E d H a s))"

definition MapSocketFromTrafficEvent :: "sys_env \<Rightarrow> WSocketEvent \<Rightarrow> WSystemMap \<Rightarrow> map_error option \<times> addr option \<times> WSystemMap" where
  "MapSocketFromTrafficEvent E Event s =
     (let d = traffic_data (EventData Event) in
      case ParsePacket (RawData d) 128 of
        None \<Rightarrow> (Some OutOfBounds, None, s)
      | Some (ok, H) \<Rightarrow>
          if \<not> ok then (None, None, s)
          else
            (let LocalEp = (if Direction d = PD_Outgoing then Src H else Dst H);
                 PID = GetEndpointPID (Parser s) LocalEp in
             if PID \<le> 0 then (None, None, s)
             else (case MapSocket E Event PID False s of
                 (None, s1) \<Rightarrow> (None, None, s1)
               | (Some a, s1) \<Rightarrow>
                   let T = SocketTuple (sock_item s1 a);
                       s2 = (if IsZero (Address (LocalEndpoint T)) \<or> Port (LocalEndpoint T) = 0
                             then upd_sock_item a (set_local (\<lambda>_. LocalEp)) s1 else s1);
                       s3 = (if Protocol T = Proto_Unknown then upd_sock_item a (set_protocol (L4Proto H)) s2 else s2)
                   in (None, Some a, s3))))"

definition MapPushIncomingTraffic :: "sys_env \<Rightarrow> WSocketEvent \<Rightarrow> WSystemMap \<Rightarrow> map_error option \<times> WSystemMap" where
  "MapPushIncomingTraffic E Event s =
     (let s1 = push_system PD_Incoming (TrafficBytes (traffic_data (EventData Event))) s in
      case map_of (SocketMap s1) (EventCookie Event) of
        None \<Rightarrow> (None, s1)
      | Some a \<Rightarrow> DoPacketParsing E Event a (PushTrafficForSocket Event a s1))"

definition MapPushOutgoingTraffic :: "sys_env \<Rightarrow> WSocketEvent \<Rightarrow> WSystemMap \<Rightarrow> map_error option \<times> WSystemMap" where
  "MapPushOutgoingTraffic E Event s =
     (let s1 = push_system PD_Outgoing (TrafficBytes (traffic_data (EventData Event))) s in
      case map_of (SocketMap s1) (EventCookie Event) of
        Some a \<Rightarrow> DoPacketParsing E Event a (PushTrafficForSocket Event a s1)
      | None \<Rightarrow>
          (case MapSocketFromTrafficEvent E Event s1 of
             (None, Some a, s2) \<Rightarrow> DoPacketParsing E Event a (PushTrafficForSocket Event a s2)
           | (err, _, s2) \<Rightarrow> (err, s2)))"

section \<open>Events\<close>

text \<open>\<^verbatim>\<open>WSocketCounter::ProcessSocketEvent\<close> on the socket at \<open>a\<close>.\<close>

definition ProcessEventAt :: "sys_env \<Rightarrow> WSocketEvent \<Rightarrow> addr \<Rightarrow> WSystemMap \<Rightarrow> WSystemMap" where
  "ProcessEventAt E Event a s =
     (let (i1, connected, change) = ProcessSocketEvent Event (sock_item s a);
          s1 = upd_sock_item a (\<lambda>_. i1) s;
          s2 = (if connected then fire (EvSocketConnected a) s1 else s1)
      in case change of None \<Rightarrow> s2 | Some c \<Rightarrow> AddStateChange E c s2)"

text \<open>\<^verbatim>\<open>MergeSyntheticSocket\<close>: the references \<^verbatim>\<open>ExistingCookie\<close> and \<^verbatim>\<open>ExistingSocket\<close> point into the node that
  \<^verbatim>\<open>Sockets.erase\<close> destroys before \<^verbatim>\<open>MarkItemForRemoval\<close> reads the item id through one of them.\<close>

fun find_synthetic :: "WSystemMap \<Rightarrow> addr \<Rightarrow> u16 \<Rightarrow> (WSocketCookie, addr) umap \<Rightarrow> (WSocketCookie \<times> addr) option" where
  "find_synthetic s Parent P [] = None"
| "find_synthetic s Parent P ((ExistingCookie, b) # m) =
     (if ExistingCookie AND kSyntheticCookieBase = 0 then find_synthetic s Parent P m
      else if ParentProcess (SockHeap s ! b) \<noteq> Parent then find_synthetic s Parent P m
      else if Port (LocalEndpoint (SocketTuple (sock_item s b))) \<noteq> P then find_synthetic s Parent P m
      else Some (ExistingCookie, b))"

definition merge_into :: "addr \<Rightarrow> WSocketCookie \<Rightarrow> addr \<Rightarrow> WSystemMap \<Rightarrow> WSystemMap" where
  "merge_into a ExistingCookie b s =
     (let T = SocketTuple (sock_item s b);
          s1 = upd_sock_item a (set_local (\<lambda>e. e\<lparr>Address := Address (LocalEndpoint T)\<rparr>)) s;
          s2 = (if Protocol (SocketTuple (sock_item s1 a)) = Proto_Unknown then upd_sock_item a (set_protocol (Protocol T)) s1 else s1);
          s3 = fire (EvSocketRemoved b) s2;
          s4 = upd_proc_item (ParentProcess (SockHeap s3 ! a)) (\<lambda>p. p\<lparr>Sockets := AList.delete ExistingCookie (Sockets p)\<rparr>) s3;
          s5 = unregister (ItemId (sock_item s4 b)) s4
      in s5\<lparr>SocketMap := AList.delete ExistingCookie (SocketMap s5)\<rparr>)"

definition MergeSyntheticSocket :: "addr \<Rightarrow> WSystemMap \<Rightarrow> map_error option \<times> WSystemMap" where
  "MergeSyntheticSocket a s =
     (let Item = sock_item s a; P = Port (LocalEndpoint (SocketTuple Item)) in
      if Cookie Item AND kSyntheticCookieBase \<noteq> 0 then (None, s)
      else if P = 0 then (None, s)
      else (case find_synthetic s (ParentProcess (SockHeap s ! a)) P (SocketMap s) of
          None \<Rightarrow> (None, s)
        | Some (ExistingCookie, b) \<Rightarrow> (Some UseAfterErase, merge_into a ExistingCookie b s)))"

definition ReparentAcceptedSocket :: "addr \<Rightarrow> WSystemMap \<Rightarrow> WSystemMap" where
  "ReparentAcceptedSocket a s =
     (let Ep = LocalEndpoint (SocketTuple (sock_item s a)) in
      if Port Ep = 0 then s
      else SendLookupRequest [Ep] (s\<lparr>OrphanedSockets := AList.update Ep a (OrphanedSockets s)\<rparr>))"

text \<open>\<^verbatim>\<open>ReparentOrphanedSocket\<close>: \<open>reparent_to\<close> is everything up to \<^verbatim>\<open>OrphanedSockets.erase(It)\<close>; the addition for the
  clients reads the socket through the erased iterator.\<close>

definition reregister_app :: "addr \<Rightarrow> WSystemMap \<Rightarrow> WSystemMap" where
  "reregister_app App s =
     (let Key = ApplicationPath (app_item s App) in
      if um_contains (AppMap s) Key then s
      else
        let s1 = s\<lparr>AppMap := AList.update Key App (AppMap s)\<rparr>;
            s2 = upd_system_item (\<lambda>i. i\<lparr>Applications := AList.update Key App (Applications i)\<rparr>) s1;
            s3 = register (ItemId (app_item s2 App)) (AppRef App) s2
        in fire (EvAppFirstTimeConnected App) s3)"

definition reparent_to :: "sys_env \<Rightarrow> WEndpoint \<Rightarrow> addr \<Rightarrow> WProcessId \<Rightarrow> WSystemMap \<Rightarrow> WSystemMap" where
  "reparent_to E Endpoint a NewParentProcess s =
     (let App = ParentApp (ProcHeap s ! ParentProcess (SockHeap s ! a));
          s1 = reregister_app App s;
          (NewProcess, s2) = FindOrMapProcess E NewParentProcess App s1;
          s3 = upd_sock a (\<lambda>c. c\<lparr>ParentProcess := NewProcess\<rparr>) s2;
          s4 = upd_proc_item NewProcess (\<lambda>p. p\<lparr>Sockets := AList.update (ItemId (sock_item s3 a)) a (Sockets p)\<rparr>) s3;
          s5 = s4\<lparr>SocketMap := AList.update (Cookie (sock_item s4 a)) a (SocketMap s4)\<rparr>
      in s5\<lparr>OrphanedSockets := AList.delete Endpoint (OrphanedSockets s5)\<rparr>)"

definition ReparentOrphanedSocket :: "sys_env \<Rightarrow> WEndpoint \<Rightarrow> WProcessId \<Rightarrow> WSystemMap \<Rightarrow> map_error option \<times> WSystemMap" where
  "ReparentOrphanedSocket E Endpoint NewParentProcess s =
     (case map_of (OrphanedSockets s) Endpoint of
        None \<Rightarrow> (None, s)
      | Some a \<Rightarrow>
          if NewParentProcess = 0 then (None, s\<lparr>OrphanedSockets := AList.delete Endpoint (OrphanedSockets s)\<rparr>)
          else (Some UseAfterErase, reparent_to E Endpoint a NewParentProcess s))"

fun close_port :: "WSocketEventData \<Rightarrow> u32" where
  "close_port (SocketCloseEventData p) = p"
| "close_port _ = 0"

definition mark_closed :: "sys_env \<Rightarrow> addr \<Rightarrow> WSystemMap \<Rightarrow> WSystemMap" where
  "mark_closed E a s =
     (let s1 = upd_sock a (\<lambda>c. c\<lparr>SockCounter := MarkForRemoval (Now E) (SockCounter c)\<rparr>) s;
          s2 = upd_sock_item a (\<lambda>i. i\<lparr>ConnectionState := Closed\<rparr>) s1;
          s3 = MarkItemForRemoval E (ItemId (sock_item s2 a)) s2;
          p = ParentProcess (SockHeap s3 ! a);
          s4 = push_proc PD_Incoming 0 p s3;
          s5 = push_app PD_Outgoing 0 (ParentApp (ProcHeap s4 ! p)) s4
      in push_system PD_Incoming 0 s5)"

definition MarkSocketForRemoval :: "sys_env \<Rightarrow> WSocketEvent \<Rightarrow> WSystemMap \<Rightarrow> WSystemMap" where
  "MarkSocketForRemoval E Event s =
     (case map_of (SocketMap s) (EventCookie Event) of
        None \<Rightarrow> s
      | Some a \<Rightarrow>
          let P = close_port (EventData Event);
              s1 = (if P > 0 then
                      (case find (\<lambda>(_, b). ucast (Port (LocalEndpoint (SocketTuple (sock_item s b)))) = P) (SocketMap s) of
                         None \<Rightarrow> s | Some (_, b) \<Rightarrow> mark_closed E b s)
                    else s)
          in mark_closed E a s1)"

text \<open>\<^verbatim>\<open>WWaechterEbpf::UpdateData\<close>: the process id is the upper half of \<^verbatim>\<open>PidTgId\<close> as a signed 32-bit number.\<close>

definition event_pid :: "WSocketEvent \<Rightarrow> WProcessId" where
  "event_pid Event = sint (ucast (drop_bit 32 (PidTgId Event)) :: u32)"

definition HandleSocketEvent :: "sys_env \<Rightarrow> WSocketEvent \<Rightarrow> WSystemMap \<Rightarrow> map_error option \<times> WSystemMap" where
  "HandleSocketEvent E Event s =
     (let t = EventType Event;
          bSilentFail = (t = NE_Traffic \<or> t = NE_SocketClosed \<or> t = NE_TCPSocketEstablished_4 \<or> t = NE_TCPSocketEstablished_6);
          (SocketInfo, s1) = MapSocket E Event (event_pid Event) bSilentFail s in
      if t = NE_Traffic then
        (if Direction (traffic_data (EventData Event)) = PD_Incoming then MapPushIncomingTraffic E Event s1
         else MapPushOutgoingTraffic E Event s1)
      else if t = NE_SocketClosed then (None, MarkSocketForRemoval E Event s1)
      else if t = NE_Synthetic then (None, s1)
      else (case SocketInfo of
          None \<Rightarrow> (None, s1)
        | Some a \<Rightarrow>
            let s2 = ProcessEventAt E Event a s1 in
            (case MergeSyntheticSocket a s2 of
               (Some e, s3) \<Rightarrow> (Some e, s3)
             | (None, s3) \<Rightarrow>
                 (None, if t = NE_SocketAccept_4 \<or> t = NE_SocketAccept_6 then ReparentAcceptedSocket a s3 else s3))))"

text \<open>The loop over the queue; an exception or undefined behaviour ends it.\<close>

fun UpdateData :: "sys_env \<Rightarrow> WSocketEvent list \<Rightarrow> WSystemMap \<Rightarrow> map_error option \<times> WSystemMap" where
  "UpdateData E [] s = (None, s)"
| "UpdateData E (Event # Q) s =
     (case HandleSocketEvent E Event s of (Some e, s1) \<Rightarrow> (Some e, s1) | (None, s1) \<Rightarrow> UpdateData E Q s1)"

section \<open>Refresh and removal\<close>

definition refresh_filters :: "sys_env \<Rightarrow> WSystemMap \<Rightarrow> WSystemMap" where
  "refresh_filters E s = s
     \<lparr>StatUpdates := StatUpdates s @ map (\<lambda>f. FilterStats (FilterName (TrafficItem (FilterCounter f)))
         (RecentDownload (FilterCounter f)) (RecentUpload (FilterCounter f))) (FilterCounters s),
      FilterCounters := map (\<lambda>f. f\<lparr>FilterCounter := Refresh (Now E) (FilterCounter f)\<rparr>) (FilterCounters s)\<rparr>"

definition refresh_socket :: "sys_env \<Rightarrow> addr \<Rightarrow> WSystemMap \<Rightarrow> WSystemMap" where
  "refresh_socket E a s =
     (let App = ParentApp (ProcHeap s ! ParentProcess (SockHeap s ! a)); c = SockCounter (SockHeap s ! a);
          s1 = s\<lparr>StatUpdates := StatUpdates s @ [AppStats (ItemId (app_item s App)) (ApplicationPath (app_item s App))
                 (Address (RemoteEndpoint (SocketTuple (TrafficItem c)))) (RecentDownload c) (RecentUpload c)]\<rparr>;
          s2 = upd_sock a (\<lambda>c. c\<lparr>SockCounter := Refresh (Now E) (SockCounter c)\<rparr>) s1
      in fold (\<lambda>(_, t). upd_tuple t (\<lambda>c. c\<lparr>TupleCounter := RefreshTuple (Now E) (TupleCounter c)\<rparr>))
           (UDPPerConnectionCounters (SockHeap s2 ! a)) s2)"

definition refresh_all :: "sys_env \<Rightarrow> WSystemMap \<Rightarrow> WSystemMap" where
  "refresh_all E s =
     (let s1 = s\<lparr>SystemCounter := Refresh (Now E) (SystemCounter s)\<rparr>;
          s2 = refresh_filters E s1;
          s3 = fold (\<lambda>(_, a). upd_app a (Refresh (Now E))) (AppMap s2) s2;
          s4 = fold (\<lambda>(_, a). upd_proc a (\<lambda>c. c\<lparr>ProcCounter := Refresh (Now E) (ProcCounter c)\<rparr>)) (ProcessMap s3) s3
      in fold (\<lambda>(_, a). refresh_socket E a) (SocketMap s4) s4)"

text \<open>\<^verbatim>\<open>Cleanup\<close>, a process that is due: its sockets leave the map; one that was not closed is an orphan whose
  owner the helper is asked for.\<close>

definition remove_tuple :: "sys_env \<Rightarrow> addr \<Rightarrow> WSystemMap \<Rightarrow> WSystemMap" where
  "remove_tuple E t s =
     (let i = ItemId (tuple_item s t) in fire (EvUDPTupleRemoved t) (AddItemRemoval E i (unregister i s)))"

definition remove_process_socket :: "sys_env \<Rightarrow> WSocketCookie \<Rightarrow> addr \<Rightarrow> WEndpoint list \<times> WSystemMap \<Rightarrow> WEndpoint list \<times> WSystemMap" where
  "remove_process_socket E c k acc =
     (let (Msg, s) = acc; Item = sock_item s k;
          s1 = AddItemRemoval E (ItemId Item) (unregister (ItemId Item) s);
          (Msg1, s2) = (case map_of (SocketMap s1) c of
              None \<Rightarrow> (Msg, s1)
            | Some sc \<Rightarrow>
                let open0 = (ConnectionState Item \<noteq> Closed); Ep = LocalEndpoint (SocketTuple Item);
                    t1 = (if open0 then s1\<lparr>OrphanedSockets := AList.update Ep sc (OrphanedSockets s1)\<rparr> else s1);
                    t2 = fold (\<lambda>(_, t). remove_tuple E t) (UDPPerConnectionCounters (SockHeap t1 ! sc)) t1;
                    t3 = upd_sock sc (\<lambda>x. x\<lparr>UDPPerConnectionCounters := []\<rparr>) t2
                in (if open0 then Msg @ [Ep] else Msg, fire (EvSocketRemoved sc) t3));
          s3 = upd_sock_item k (\<lambda>i. i\<lparr>UDPPerConnectionTraffic := []\<rparr>) s2
      in (Msg1, s3\<lparr>SocketMap := AList.delete c (SocketMap s3)\<rparr>))"

definition remove_process :: "sys_env \<Rightarrow> WProcessId \<Rightarrow> addr \<Rightarrow> WSystemMap \<Rightarrow> WSystemMap" where
  "remove_process E PID a s =
     (let App = ParentApp (ProcHeap s ! a); i = ItemId (proc_item s a);
          s1 = push_app PD_Incoming 0 App (push_system PD_Incoming 0 s);
          (Msg, s2) = fold (\<lambda>(c, k). remove_process_socket E c k) (Sockets (proc_item s1 a)) ([], s1);
          s3 = fire (EvProcessRemoved a) (SendLookupRequest Msg s2);
          s4 = upd_app_item App (\<lambda>it. it\<lparr>Processes := AList.delete PID (Processes it)\<rparr>) s3;
          s5 = unregister i (AddItemRemoval E i s4)
      in s5\<lparr>ProcessMap := AList.delete PID (ProcessMap s5)\<rparr>)"

definition cleanup_process :: "sys_env \<Rightarrow> WProcessId \<Rightarrow> addr \<Rightarrow> WSystemMap \<Rightarrow> WSystemMap" where
  "cleanup_process E PID a s =
     (let s1 = (if \<not> ProcessRunning (Proc E) PID \<and> \<not> IsMarkedForRemoval (ProcCounter (ProcHeap s ! a))
            then MarkItemForRemoval E (ItemId (proc_item s a))
                   (upd_proc a (\<lambda>c. c\<lparr>ProcCounter := MarkForRemoval (Now E) (ProcCounter c)\<rparr>) s)
            else s)
      in if DueForRemoval (Now E) (ProcCounter (ProcHeap s1 ! a)) then remove_process E PID a s1 else s1)"

definition IsStaleSocket :: "WSocketStateParser \<Rightarrow> WSocketCounter \<Rightarrow> bool" where
  "IsStaleSocket P c =
     (let k = SockCounter c; T = SocketTuple (TrafficItem k) in
      if IsMarkedForRemoval k \<or> InactiveCounter k < 30 then False
      else if SocketType (TrafficItem k) = ST_Unknown \<or> ConnectionState (TrafficItem k) = ConnUnknown \<or> Protocol T = Proto_Unknown
        then True
      else \<not> IsUsedPort P (Port (LocalEndpoint T)) \<and> Protocol T \<noteq> Proto_ICMP \<and> Protocol T \<noteq> Proto_ICMPv6)"

definition remove_socket :: "sys_env \<Rightarrow> WSocketCookie \<Rightarrow> addr \<Rightarrow> WSystemMap \<Rightarrow> WSystemMap" where
  "remove_socket E c a s =
     (let ts = UDPPerConnectionCounters (SockHeap s ! a); i = ItemId (sock_item s a);
          s1 = fold (\<lambda>(_, t). fire (EvUDPTupleRemoved t)) ts (fire (EvSocketRemoved a) s);
          s2 = upd_proc_item (ParentProcess (SockHeap s1 ! a)) (\<lambda>p. p\<lparr>Sockets := AList.delete c (Sockets p)\<rparr>) s1;
          s3 = AddItemRemoval E i (unregister i s2);
          s4 = fold (\<lambda>(_, t) x. AddItemRemoval E (ItemId (tuple_item x t)) (unregister (ItemId (tuple_item x t)) x)) ts s3;
          s5 = upd_sock a (\<lambda>x. x\<lparr>UDPPerConnectionCounters := []\<rparr>) s4;
          s6 = upd_sock_item a (\<lambda>it. it\<lparr>UDPPerConnectionTraffic := []\<rparr>) s5
      in s6\<lparr>SocketMap := AList.delete c (SocketMap s6)\<rparr>)"

definition cleanup_tuple :: "sys_env \<Rightarrow> addr \<Rightarrow> WEndpoint \<Rightarrow> addr \<Rightarrow> WSystemMap \<Rightarrow> WSystemMap" where
  "cleanup_tuple E a e t s =
     (if DueForRemoval (Now E) (TupleCounter (TupleHeap s ! t)) then
        let i = ItemId (tuple_item s t);
            s1 = AddItemRemoval E i (unregister i (fire (EvUDPTupleRemoved t) s));
            s2 = upd_sock_item a (\<lambda>it. it\<lparr>UDPPerConnectionTraffic :=
                   filter (\<lambda>x. TupleEndpoint (tuple_item s1 x) \<noteq> e) (UDPPerConnectionTraffic it)\<rparr>) s1
        in upd_sock a (\<lambda>c. c\<lparr>UDPPerConnectionCounters := AList.delete e (UDPPerConnectionCounters c)\<rparr>) s2
      else s)"

text \<open>A stale socket is marked and, since the iterator does not advance, looked at once more: it is marked now and
  not due before five seconds, so its tuples are checked.\<close>

definition cleanup_socket :: "sys_env \<Rightarrow> WSocketCookie \<Rightarrow> addr \<Rightarrow> WSystemMap \<Rightarrow> WSystemMap" where
  "cleanup_socket E c a s =
     (if DueForRemoval (Now E) (SockCounter (SockHeap s ! a)) then remove_socket E c a s
      else
        let s1 = (if IsStaleSocket (Parser s) (SockHeap s ! a)
                  then upd_sock a (\<lambda>x. x\<lparr>SockCounter := MarkForRemoval (Now E) (SockCounter x)\<rparr>) s else s)
        in fold (\<lambda>(e, t). cleanup_tuple E a e t) (UDPPerConnectionCounters (SockHeap s1 ! a)) s1)"

definition cleanup_app :: "sys_env \<Rightarrow> string \<Rightarrow> addr \<Rightarrow> WSystemMap \<Rightarrow> WSystemMap" where
  "cleanup_app E Key a s =
     (if Processes (app_item s a) = [] then
        let i = ItemId (app_item s a);
            s1 = unregister i (AddItemRemoval E i s);
            s2 = upd_system_item (\<lambda>it. it\<lparr>Applications := AList.delete Key (Applications it)\<rparr>) s1
        in s2\<lparr>AppMap := AList.delete Key (AppMap s2)\<rparr>
      else s)"

definition Cleanup :: "sys_env \<Rightarrow> WSystemMap \<Rightarrow> map_error option \<times> WSystemMap" where
  "Cleanup E s =
     (let s1 = fold (\<lambda>(PID, a). cleanup_process E PID a) (ProcessMap s) s in
      case ParseData (Net E) of
        None \<Rightarrow> (Some ParseException, s1)
      | Some P \<Rightarrow>
          let s2 = s1\<lparr>Parser := P\<rparr>;
              s3 = fold (\<lambda>(c, a). cleanup_socket E c a) (SocketMap s2) s2
          in (None, fold (\<lambda>(Key, a). cleanup_app E Key a) (AppMap s3) s3))"

definition RefreshAllTrafficCounters :: "sys_env \<Rightarrow> WSystemMap \<Rightarrow> map_error option \<times> WSystemMap" where
  "RefreshAllTrafficCounters E s = Cleanup E (refresh_all E s)"

definition GetActiveApplicationPaths :: "WSystemMap \<Rightarrow> string list" where
  "GetActiveApplicationPaths s =
     map (\<lambda>(_, a). ApplicationName (app_item s a))
       (filter (\<lambda>(_, a). Processes (app_item s a) \<noteq> [] \<and> ApplicationName (app_item s a) \<noteq> []) (AppMap s))"

section \<open>What the clients get\<close>

record WTrafficTreeTrafficUpdate =
  UpdItemId :: WTrafficItemId
  NewDownloadSpeed :: WBytesPerSecond
  NewUploadSpeed :: WBytesPerSecond
  UpdTotalDownloadBytes :: WBytes
  UpdTotalUploadBytes :: WBytes

definition traffic_update :: "'a ITrafficItem_scheme \<Rightarrow> WTrafficTreeTrafficUpdate" where
  "traffic_update i = \<lparr>UpdItemId = ItemId i, NewDownloadSpeed = DownloadSpeed i, NewUploadSpeed = UploadSpeed i,
     UpdTotalDownloadBytes = TotalDownloadBytes i, UpdTotalUploadBytes = TotalUploadBytes i\<rparr>"

record WTrafficTreeSocketAddition =
  AddItemId :: WTrafficItemId
  AddProcessItemId :: WTrafficItemId
  AddApplicationItemId :: WTrafficItemId
  AddSocketCookie :: WSocketCookie
  AddProcessId :: WProcessId
  AddApplicationPath :: string
  AddApplicationName :: string
  AddApplicationCommandLine :: string
  AddSocketTuple :: WSocketTuple
  AddConnectionState :: ESocketConnectionState
  AddSocketType :: u8

record WTrafficTreeTupleAddition =
  TupItemId :: WTrafficItemId
  TupSocketItemId :: WTrafficItemId
  TupEndpoint :: WEndpoint

record WTrafficTreeUpdates =
  OutMarkedForRemoval :: "WTrafficItemId list"
  OutRemovedItems :: "WTrafficItemId list"
  OutUpdatedItems :: "WTrafficTreeTrafficUpdate list"
  OutAddedSockets :: "WTrafficTreeSocketAddition list"
  OutAddedTuples :: "WTrafficTreeTupleAddition list"
  OutStateChanges :: "WTrafficTreeSocketStateChange list"

definition active_updates :: "'a TTrafficCounter list \<Rightarrow> WTrafficTreeTrafficUpdate list" where
  "active_updates cs = map (\<lambda>c. traffic_update (TrafficItem c)) (filter IsActive cs)"

definition socket_updates :: "WSystemMap \<Rightarrow> addr \<Rightarrow> WTrafficTreeTrafficUpdate list" where
  "socket_updates s a =
     (let c = SockCounter (SockHeap s ! a) in
      if \<not> IsActive c then []
      else traffic_update (TrafficItem c) #
        (if Protocol (SocketTuple (TrafficItem c)) = Proto_UDP
         then active_updates (map (\<lambda>(_, t). TupleCounter (TupleHeap s ! t)) (UDPPerConnectionCounters (SockHeap s ! a)))
         else []))"

definition socket_addition :: "WSystemMap \<Rightarrow> addr \<Rightarrow> WTrafficTreeSocketAddition" where
  "socket_addition s a =
     (let p = ParentProcess (SockHeap s ! a); q = ParentApp (ProcHeap s ! p); I = sock_item s a in
      \<lparr>AddItemId = ItemId I, AddProcessItemId = ItemId (proc_item s p), AddApplicationItemId = ItemId (app_item s q),
       AddSocketCookie = Cookie I, AddProcessId = ProcessId (proc_item s p), AddApplicationPath = ApplicationPath (app_item s q),
       AddApplicationName = ApplicationName (app_item s q), AddApplicationCommandLine = ApplicationCommandLine (app_item s q),
       AddSocketTuple = SocketTuple I, AddConnectionState = ConnectionState I, AddSocketType = SocketType I\<rparr>)"

text \<open>\<^verbatim>\<open>WMapUpdate::GetUpdates\<close>; the loop over the new tuples fills an \<^verbatim>\<open>Addition\<close> that it never stores.\<close>

definition GetUpdates :: "WSystemMap \<Rightarrow> WTrafficTreeUpdates \<times> WSystemMap" where
  "GetUpdates s =
     (let u = MapUpdate s in
      (\<lparr>OutMarkedForRemoval = MarkedForRemovalItems u, OutRemovedItems = RemovedItems u,
        OutUpdatedItems = active_updates [SystemCounter s]
          @ active_updates (map (\<lambda>(_, a). AppHeap s ! a) (AppMap s))
          @ active_updates (map (\<lambda>(_, a). ProcCounter (ProcHeap s ! a)) (ProcessMap s))
          @ active_updates (map FilterCounter (FilterCounters s))
          @ concat (map (\<lambda>(_, a). socket_updates s a) (SocketMap s)),
        OutAddedSockets = map (socket_addition s)
          (filter (\<lambda>a. CounterState (SockCounter (SockHeap s ! a)) \<noteq> CS_PendingRemoval) (AddedSockets u)),
        OutAddedTuples = [], OutStateChanges = SocketStateChanges u\<rparr>,
       s\<lparr>MapUpdate := empty_update\<rparr>))"

definition HasUpdates :: "WMapUpdate \<Rightarrow> bool" where
  "HasUpdates u \<longleftrightarrow> RemovedItems u \<noteq> [] \<or> MarkedForRemovalItems u \<noteq> [] \<or> SocketStateChanges u \<noteq> []
     \<or> AddedSockets u \<noteq> [] \<or> AddedTuples u \<noteq> []"

definition HasNewData :: "WSystemMap \<Rightarrow> bool" where
  "HasNewData s \<longleftrightarrow> CounterState (SystemCounter s) = CS_Active \<or> HasUpdates (MapUpdate s)"

end
