(* ===== verification/System_Tree.thy ===== *)
theory System_Tree
  imports System_Map
begin

text \<open>
  The tree that clients see and the index the daemon works with are kept in different places: the
  child maps of the items and the maps of \<^verbatim>\<open>WSystemMap\<close>. This theory abstracts the state to its
  structure (\<open>forest\<close>), states what it means that the two agree (\<open>forest_ok\<close>), and shows that every
  operation of the system map implements an operation on forests that keeps them in agreement.
\<close>

section \<open>Structure of a state\<close>

record forest =
  fApps :: "(string \<times> (WProcessId \<rightharpoonup> addr)) list"
  fProcs :: "(WProcessId \<times> addr \<times> (WSocketCookie \<rightharpoonup> addr)) list"
  fSocks :: "(WSocketCookie \<times> addr) list"
  fSystem :: "string \<rightharpoonup> addr"
  fAppMap :: "string \<rightharpoonup> addr"
  fProcMap :: "WProcessId \<rightharpoonup> addr"
  fSockMap :: "WSocketCookie \<rightharpoonup> addr"

definition app_node :: "WAppCounter \<Rightarrow> string \<times> (WProcessId \<rightharpoonup> addr)" where
  "app_node c = (ApplicationPath (TrafficItem c), map_of (Processes (TrafficItem c)))"

definition proc_node :: "WProcessCounter \<Rightarrow> WProcessId \<times> addr \<times> (WSocketCookie \<rightharpoonup> addr)" where
  "proc_node c = (ProcessId (TrafficItem (ProcCounter c)), ParentApp c, map_of (Sockets (TrafficItem (ProcCounter c))))"

definition sock_node :: "WSocketCounter \<Rightarrow> WSocketCookie \<times> addr" where
  "sock_node c = (Cookie (TrafficItem (SockCounter c)), ParentProcess c)"

definition forest_of :: "WSystemMap \<Rightarrow> forest" where
  "forest_of s = \<lparr>fApps = map app_node (AppHeap s), fProcs = map proc_node (ProcHeap s), fSocks = map sock_node (SockHeap s),
     fSystem = map_of (Applications (system_item s)), fAppMap = map_of (AppMap s), fProcMap = map_of (ProcessMap s),
     fSockMap = map_of (SocketMap s)\<rparr>"

text \<open>The index and the tree agree, level by level; a live process belongs to a live application and a live socket
  to a live process.\<close>

definition forest_ok :: "forest \<Rightarrow> bool" where
  "forest_ok F \<longleftrightarrow>
     fSystem F = fAppMap F
   \<and> (\<forall>p < length (fProcs F). fst (snd (fProcs F ! p)) < length (fApps F))
   \<and> (\<forall>a < length (fSocks F). snd (fSocks F ! a) < length (fProcs F))
   \<and> (\<forall>k q. fAppMap F k = Some q \<longrightarrow> q < length (fApps F) \<and> fst (fApps F ! q) = k
        \<and> (\<forall>pid p. snd (fApps F ! q) pid = Some p \<longleftrightarrow> fProcMap F pid = Some p \<and> fst (snd (fProcs F ! p)) = q))
   \<and> (\<forall>pid p. fProcMap F pid = Some p \<longrightarrow> p < length (fProcs F) \<and> fst (fProcs F ! p) = pid
        \<and> (\<exists>k. fAppMap F k = Some (fst (snd (fProcs F ! p))))
        \<and> (\<forall>c a. snd (snd (fProcs F ! p)) c = Some a \<longleftrightarrow> fSockMap F c = Some a \<and> snd (fSocks F ! a) = p))
   \<and> (\<forall>c a. fSockMap F c = Some a \<longrightarrow> a < length (fSocks F) \<and> fst (fSocks F ! a) = c
        \<and> (\<exists>pid. fProcMap F pid = Some (snd (fSocks F ! a))))"

section \<open>Operations on forests\<close>

definition new_app :: "string \<Rightarrow> forest \<Rightarrow> forest" where
  "new_app k F = F\<lparr>fApps := fApps F @ [(k, Map.empty)], fSystem := (fSystem F)(k \<mapsto> length (fApps F)),
     fAppMap := (fAppMap F)(k \<mapsto> length (fApps F))\<rparr>"

definition rekey_app :: "string \<Rightarrow> string \<Rightarrow> addr \<Rightarrow> forest \<Rightarrow> forest" where
  "rekey_app old k q F = F\<lparr>fApps := (fApps F)[q := (k, snd (fApps F ! q))],
     fSystem := (fSystem F)(old := None, k \<mapsto> q), fAppMap := (fAppMap F)(old := None, k \<mapsto> q)\<rparr>"

definition new_proc :: "WProcessId \<Rightarrow> addr \<Rightarrow> forest \<Rightarrow> forest" where
  "new_proc pid q F = F\<lparr>fProcs := fProcs F @ [(pid, q, Map.empty)],
     fApps := (fApps F)[q := (fst (fApps F ! q), (snd (fApps F ! q))(pid \<mapsto> length (fProcs F)))],
     fProcMap := (fProcMap F)(pid \<mapsto> length (fProcs F))\<rparr>"

definition new_sock :: "WSocketCookie \<Rightarrow> addr \<Rightarrow> forest \<Rightarrow> forest" where
  "new_sock c p F = F\<lparr>fSocks := fSocks F @ [(c, p)],
     fProcs := (fProcs F)[p := (fst (fProcs F ! p), fst (snd (fProcs F ! p)), (snd (snd (fProcs F ! p)))(c \<mapsto> length (fSocks F)))],
     fSockMap := (fSockMap F)(c \<mapsto> length (fSocks F))\<rparr>"

definition del_sock :: "WSocketCookie \<Rightarrow> addr \<Rightarrow> forest \<Rightarrow> forest" where
  "del_sock c a F = (let p = snd (fSocks F ! a) in
     F\<lparr>fProcs := (fProcs F)[p := (fst (fProcs F ! p), fst (snd (fProcs F ! p)), (snd (snd (fProcs F ! p)))(c := None))],
       fSockMap := (fSockMap F)(c := None)\<rparr>)"

text \<open>Removing a process removes its sockets from the index; its item keeps listing them, but nothing refers to it.\<close>

definition del_proc :: "WProcessId \<Rightarrow> addr \<Rightarrow> forest \<Rightarrow> forest" where
  "del_proc pid p F = (let q = fst (snd (fProcs F ! p)) in
     F\<lparr>fApps := (fApps F)[q := (fst (fApps F ! q), (snd (fApps F ! q))(pid := None))],
       fProcMap := (fProcMap F)(pid := None), fSockMap := fSockMap F |` (- dom (snd (snd (fProcs F ! p))))\<rparr>)"

definition del_app :: "string \<Rightarrow> forest \<Rightarrow> forest" where
  "del_app k F = F\<lparr>fSystem := (fSystem F)(k := None), fAppMap := (fAppMap F)(k := None)\<rparr>"

section \<open>They keep tree and index in agreement\<close>

lemma forest_okI:
  assumes "fSystem F = fAppMap F"
    and "\<And>p. p < length (fProcs F) \<Longrightarrow> fst (snd (fProcs F ! p)) < length (fApps F)"
    and "\<And>a. a < length (fSocks F) \<Longrightarrow> snd (fSocks F ! a) < length (fProcs F)"
    and "\<And>k q. fAppMap F k = Some q \<Longrightarrow> q < length (fApps F) \<and> fst (fApps F ! q) = k"
    and "\<And>k q pid p. fAppMap F k = Some q \<Longrightarrow>
      snd (fApps F ! q) pid = Some p \<longleftrightarrow> fProcMap F pid = Some p \<and> fst (snd (fProcs F ! p)) = q"
    and "\<And>pid p. fProcMap F pid = Some p \<Longrightarrow> p < length (fProcs F) \<and> fst (fProcs F ! p) = pid"
    and "\<And>pid p. fProcMap F pid = Some p \<Longrightarrow> \<exists>k. fAppMap F k = Some (fst (snd (fProcs F ! p)))"
    and "\<And>pid p c a. fProcMap F pid = Some p \<Longrightarrow>
      snd (snd (fProcs F ! p)) c = Some a \<longleftrightarrow> fSockMap F c = Some a \<and> snd (fSocks F ! a) = p"
    and "\<And>c a. fSockMap F c = Some a \<Longrightarrow> a < length (fSocks F) \<and> fst (fSocks F ! a) = c"
    and "\<And>c a. fSockMap F c = Some a \<Longrightarrow> \<exists>pid. fProcMap F pid = Some (snd (fSocks F ! a))"
  shows "forest_ok F"
  unfolding forest_ok_def by (intro conjI allI impI; (rule assms | erule assms | use assms in blast))

lemma forest_okD:
  assumes "forest_ok F"
  shows ok_system: "fSystem F = fAppMap F"
    and ok_proc_parent: "p < length (fProcs F) \<Longrightarrow> fst (snd (fProcs F ! p)) < length (fApps F)"
    and ok_sock_parent: "a < length (fSocks F) \<Longrightarrow> snd (fSocks F ! a) < length (fProcs F)"
    and ok_app: "fAppMap F k = Some q \<Longrightarrow> q < length (fApps F)" "fAppMap F k = Some q \<Longrightarrow> fst (fApps F ! q) = k"
    and ok_app_children: "fAppMap F k = Some q \<Longrightarrow>
      snd (fApps F ! q) pid = Some p \<longleftrightarrow> fProcMap F pid = Some p \<and> fst (snd (fProcs F ! p)) = q"
    and ok_proc: "fProcMap F pid = Some p \<Longrightarrow> p < length (fProcs F)" "fProcMap F pid = Some p \<Longrightarrow> fst (fProcs F ! p) = pid"
    and ok_proc_app: "fProcMap F pid = Some p \<Longrightarrow> \<exists>k. fAppMap F k = Some (fst (snd (fProcs F ! p)))"
    and ok_proc_children: "fProcMap F pid = Some p \<Longrightarrow>
      snd (snd (fProcs F ! p)) c = Some a \<longleftrightarrow> fSockMap F c = Some a \<and> snd (fSocks F ! a) = p"
    and ok_sock: "fSockMap F c = Some a \<Longrightarrow> a < length (fSocks F)" "fSockMap F c = Some a \<Longrightarrow> fst (fSocks F ! a) = c"
    and ok_sock_proc: "fSockMap F c = Some a \<Longrightarrow> \<exists>pid. fProcMap F pid = Some (snd (fSocks F ! a))"
  using assms unfolding forest_ok_def by blast+

lemma app_inj: "forest_ok F \<Longrightarrow> fAppMap F k = Some q \<Longrightarrow> fAppMap F k' = Some q \<Longrightarrow> k' = k"
  using ok_app(2) by metis

lemma proc_inj: "forest_ok F \<Longrightarrow> fProcMap F pid = Some p \<Longrightarrow> fProcMap F pid' = Some p \<Longrightarrow> pid' = pid"
  using ok_proc(2) by metis

lemma sock_inj: "forest_ok F \<Longrightarrow> fSockMap F c = Some a \<Longrightarrow> fSockMap F c' = Some a \<Longrightarrow> c' = c"
  using ok_sock(2) by metis

lemmas ok_bounds = ok_proc_parent ok_sock_parent ok_app ok_proc ok_sock
lemmas ok_children = ok_app_children ok_proc_children

lemma forest_ok_new_app:
  assumes ok: "forest_ok F" and new: "fAppMap F k = None"
  shows "forest_ok (new_app k F)"
proof (rule forest_okI, goal_cases)
  case (5 k' q pid p)
  have "fst (snd (fProcs F ! p)) \<noteq> length (fApps F)" if "fProcMap F pid = Some p"
    using ok_proc(1) [OF ok that] ok_proc_parent [OF ok] by fastforce
  then show ?case using 5 ok_app(1) [OF ok] ok_app_children [OF ok]
    by (auto simp: new_app_def nth_append split: if_splits)
next
  case (7 pid p)
  then obtain k' where "fAppMap F k' = Some (fst (snd (fProcs F ! p)))"
    using ok_proc_app [OF ok] by (auto simp: new_app_def)
  with new have "k' \<noteq> k" by auto
  with \<open>fAppMap F k' = _\<close> show ?case by (auto simp: new_app_def)
qed (use ok_bounds [OF ok] ok_system [OF ok] ok_proc_children [OF ok] ok_sock_proc [OF ok] in
    \<open>fastforce simp: new_app_def nth_append less_Suc_eq split: if_splits\<close>)+

lemma forest_ok_rekey_app:
  assumes ok: "forest_ok F" and old: "fAppMap F old = Some q" and new: "fAppMap F k = None"
  shows "forest_ok (rekey_app old k q F)"
proof -
  have q: "q < length (fApps F)" using ok_app(1) [OF ok old] .
  have other: "fAppMap F k' = Some q' \<Longrightarrow> k' \<noteq> old \<Longrightarrow> q' \<noteq> q" for k' q' using app_inj [OF ok old] by auto
  show ?thesis
  proof (rule forest_okI, goal_cases)
    case (4 k' q')
    then show ?case using ok_app [OF ok, of k' q'] other q
      by (auto simp: rekey_app_def nth_list_update [OF q] split: if_splits)
  next
    case (5 k' q' pid p)
    then show ?case using ok_app_children [OF ok, of k' q'] ok_app_children [OF ok old] other
      by (auto simp: rekey_app_def nth_list_update [OF q] split: if_splits)
  next
    case (7 pid p)
    then obtain k' where k': "fAppMap F k' = Some (fst (snd (fProcs F ! p)))"
      using ok_proc_app [OF ok] by (auto simp: rekey_app_def)
    show ?case
    proof (cases "k' = old")
      case True
      then show ?thesis using k' old by (auto simp: rekey_app_def)
    next
      case False
      then show ?thesis using k' new by (intro exI [of _ k']) (auto simp: rekey_app_def)
    qed
  qed (simp_all add: rekey_app_def ok_bounds [OF ok] ok_system [OF ok] ok_proc_children [OF ok] ok_sock_proc [OF ok])
qed

lemma forest_ok_new_proc:
  assumes ok: "forest_ok F" and app: "fAppMap F k = Some q" and new: "fProcMap F pid = None"
  shows "forest_ok (new_proc pid q F)"
proof -
  have q: "q < length (fApps F)" using ok_app(1) [OF ok app] .
  show ?thesis
  proof (rule forest_okI, goal_cases)
    case (5 k' q' pid' p)
    then show ?case using ok_app_children [OF ok, of k' q'] new ok_proc(1) [OF ok]
      by (auto simp: new_proc_def nth_list_update [OF q] nth_append split: if_splits)
  next
    case (8 pid' p c a)
    have "snd (fSocks F ! a) \<noteq> length (fProcs F)" if "fSockMap F c = Some a"
      using ok_sock_parent [OF ok ok_sock(1) [OF ok that]] by simp
    then show ?case using 8 ok_proc_children [OF ok] ok_proc(1) [OF ok]
      by (auto simp: new_proc_def nth_append split: if_splits)
  next
    case (10 c a)
    then obtain pid' where "fProcMap F pid' = Some (snd (fSocks F ! a))" using ok_sock_proc [OF ok] by (auto simp: new_proc_def)
    with new show ?case by (intro exI [of _ pid']) (auto simp: new_proc_def)
  next
    case (7 pid' p)
    then show ?case using ok_proc_app [OF ok] app ok_proc(1) [OF ok] by (auto simp: new_proc_def nth_append split: if_splits)
  qed (use ok_bounds [OF ok] ok_system [OF ok] q in
      \<open>fastforce simp: new_proc_def nth_list_update [OF q] nth_append less_Suc_eq split: if_splits\<close>)+
qed

lemma forest_ok_new_sock:
  assumes ok: "forest_ok F" and proc: "fProcMap F pid = Some p" and new: "fSockMap F c = None"
  shows "forest_ok (new_sock c p F)"
proof -
  have p: "p < length (fProcs F)" using ok_proc(1) [OF ok proc] .
  have nth: "fst (snd (fProcs (new_sock c p F) ! x)) = fst (snd (fProcs F ! x))" "fst (fProcs (new_sock c p F) ! x) = fst (fProcs F ! x)" for x
    by (simp_all add: new_sock_def nth_list_update [OF p])
  show ?thesis
  proof (rule forest_okI, goal_cases)
    case (8 pid' p' c' a)
    then show ?case using ok_proc_children [OF ok, of pid' p'] ok_sock(1) [OF ok] new
      by (auto simp: new_sock_def nth_append nth_list_update [OF p] split: if_splits)
  next
    case (10 c' a)
    then show ?case using ok_sock_proc [OF ok] proc ok_sock(1) [OF ok] by (auto simp: new_sock_def nth_append split: if_splits)
  next
    case (3 a)
    then show ?case using ok_sock_parent [OF ok] p by (auto simp: new_sock_def nth_append less_Suc_eq)
  next
    case (9 c' a)
    then show ?case using ok_sock [OF ok] by (fastforce simp: new_sock_def nth_append split: if_splits)
  qed (simp_all add: nth, simp_all add: new_sock_def ok_bounds [OF ok] ok_system [OF ok] ok_proc_app [OF ok] ok_app_children [OF ok])
qed

lemma forest_ok_del_sock:
  assumes ok: "forest_ok F" and sock: "fSockMap F c = Some a"
  shows "forest_ok (del_sock c a F)"
proof -
  have p: "snd (fSocks F ! a) < length (fProcs F)" using ok_sock_parent [OF ok ok_sock(1) [OF ok sock]] .
  have nth: "fst (snd (fProcs (del_sock c a F) ! x)) = fst (snd (fProcs F ! x))" "fst (fProcs (del_sock c a F) ! x) = fst (fProcs F ! x)" for x
    by (simp_all add: del_sock_def Let_def nth_list_update [OF p])
  show ?thesis
  proof (rule forest_okI, goal_cases)
    case (8 pid p' c' a')
    then show ?case using ok_proc_children [OF ok, of pid p'] sock
      by (auto simp: del_sock_def Let_def nth_list_update [OF p] split: if_splits)
  next
    case (10 c' a')
    then show ?case using ok_sock_proc [OF ok] by (auto simp: del_sock_def Let_def split: if_splits)
  next
    case (9 c' a')
    then show ?case using ok_sock [OF ok] by (auto simp: del_sock_def Let_def split: if_splits)
  qed (simp_all add: nth, simp_all add: del_sock_def Let_def ok_bounds [OF ok] ok_system [OF ok] ok_proc_app [OF ok] ok_app_children [OF ok])
qed

lemma forest_ok_del_proc:
  assumes ok: "forest_ok F" and proc: "fProcMap F pid = Some p"
  shows "forest_ok (del_proc pid p F)"
proof -
  have q: "fst (snd (fProcs F ! p)) < length (fApps F)" using ok_proc_parent [OF ok ok_proc(1) [OF ok proc]] .
  have nth: "fst (fApps (del_proc pid p F) ! x) = fst (fApps F ! x)" for x
    by (simp add: del_proc_def Let_def nth_list_update [OF q])
  show ?thesis
  proof (rule forest_okI, goal_cases)
    case (5 k q' pid' p')
    then show ?case using ok_app_children [OF ok, of k q'] proc
      by (auto simp: del_proc_def Let_def nth_list_update [OF q] split: if_splits)
  next
    case (8 pid' p' c a)
    then have p': "fProcMap F pid' = Some p'" "p' \<noteq> p"
      using proc_inj [OF ok proc] by (auto simp: del_proc_def Let_def split: if_splits)
    then show ?case using ok_proc_children [OF ok p'(1)] ok_proc_children [OF ok proc]
      by (auto simp: del_proc_def Let_def restrict_map_def)
  next
    case (10 c a)
    then have s: "fSockMap F c = Some a" and n: "snd (snd (fProcs F ! p)) c = None"
      by (auto simp: del_proc_def Let_def restrict_map_def split: if_splits)
    then obtain pid' where pid': "fProcMap F pid' = Some (snd (fSocks F ! a))" using ok_sock_proc [OF ok] by blast
    then have "pid' \<noteq> pid" using ok_proc_children [OF ok proc, of c a] s n proc by auto
    with pid' show ?case by (auto simp: del_proc_def Let_def)
  next
    case (6 pid' p')
    then show ?case using ok_proc [OF ok] by (auto simp: del_proc_def Let_def split: if_splits)
  next
    case (7 pid' p')
    then show ?case using ok_proc_app [OF ok] by (auto simp: del_proc_def Let_def split: if_splits)
  next
    case (9 c a)
    then show ?case using ok_sock [OF ok] by (auto simp: del_proc_def Let_def restrict_map_def split: if_splits)
  qed (simp_all add: nth, simp_all add: del_proc_def Let_def ok_bounds [OF ok] ok_system [OF ok])
qed

lemma forest_ok_del_app:
  assumes ok: "forest_ok F" and app: "fAppMap F k = Some q" and empty: "snd (fApps F ! q) = Map.empty"
  shows "forest_ok (del_app k F)"
proof (rule forest_okI, goal_cases)
  case (7 pid p)
  then have p: "fProcMap F pid = Some p" by (simp add: del_app_def)
  then obtain k' where k': "fAppMap F k' = Some (fst (snd (fProcs F ! p)))" using ok_proc_app [OF ok] by blast
  then have "k' \<noteq> k" using ok_app_children [OF ok k', of pid p] p app empty by auto
  with k' show ?case by (auto simp: del_app_def)
qed (use ok_bounds [OF ok] ok_system [OF ok] ok_children [OF ok] ok_sock_proc [OF ok] in
    \<open>auto simp: del_app_def split: if_splits\<close>)

section \<open>Operations that leave the structure alone\<close>

text \<open>What \<open>forest_of\<close> depends on, with the maps as lists.\<close>

definition shape :: "WSystemMap \<Rightarrow> _" where
  "shape s = (map app_node (AppHeap s), map proc_node (ProcHeap s), map sock_node (SockHeap s),
     Applications (system_item s), AppMap s, ProcessMap s, SocketMap s)"

definition tree_ok :: "WSystemMap \<Rightarrow> bool" where
  "tree_ok s \<longleftrightarrow> forest_ok (forest_of s) \<and> um_distinct (AppMap s) \<and> um_distinct (ProcessMap s) \<and> um_distinct (SocketMap s)"

lemma forest_of_shape: "shape s = shape t \<Longrightarrow> forest_of s = forest_of t"
  by (simp add: shape_def forest_of_def)

lemma tree_ok_shape: "shape s = shape t \<Longrightarrow> tree_ok s = tree_ok t"
  using forest_of_shape [of s t] by (simp add: shape_def tree_ok_def)

named_theorems shape_simps

lemma map_update_same: "(\<And>x. f (g x) = f x) \<Longrightarrow> map f (xs[a := g (xs ! a)]) = map f xs"
  by (cases "a < length xs") (simp_all add: map_update list_update_beyond list_update_same_conv)

lemma shape_upd_app: "(\<And>c. app_node (g c) = app_node c) \<Longrightarrow> shape (upd_app a g s) = shape s"
  by (simp add: shape_def upd_app_def map_update_same)

lemma shape_upd_proc: "(\<And>c. proc_node (g c) = proc_node c) \<Longrightarrow> shape (upd_proc a g s) = shape s"
  by (simp add: shape_def upd_proc_def map_update_same)

lemma shape_upd_sock: "(\<And>c. sock_node (g c) = sock_node c) \<Longrightarrow> shape (upd_sock a g s) = shape s"
  by (simp add: shape_def upd_sock_def map_update_same)

text \<open>Nodes only depend on the part of an item that is not about traffic.\<close>

lemma item_more:
  "ITrafficItem.more i = ITrafficItem.more j \<Longrightarrow> ApplicationPath i = ApplicationPath j"
  "ITrafficItem.more i = ITrafficItem.more j \<Longrightarrow> Processes i = Processes j"
  "ITrafficItem.more i' = ITrafficItem.more j' \<Longrightarrow> ProcessId i' = ProcessId j'"
  "ITrafficItem.more i' = ITrafficItem.more j' \<Longrightarrow> Sockets i' = Sockets j'"
  "ITrafficItem.more i'' = ITrafficItem.more j'' \<Longrightarrow> Cookie i'' = Cookie j''"
  "ITrafficItem.more k = ITrafficItem.more l \<Longrightarrow> Applications k = Applications l"
  subgoal by (cases i; cases j; simp)
  subgoal by (cases i; cases j; simp)
  subgoal by (cases i'; cases j'; simp)
  subgoal by (cases i'; cases j'; simp)
  subgoal by (cases i''; cases j''; simp)
  subgoal by (cases k; cases l; simp)
  done

lemma more_counter [simp]:
  "ITrafficItem.more (TrafficItem (PushIncomingTraffic n c)) = ITrafficItem.more (TrafficItem c)"
  "ITrafficItem.more (TrafficItem (PushOutgoingTraffic n c)) = ITrafficItem.more (TrafficItem c)"
  "ITrafficItem.more (TrafficItem (push_dir d n c)) = ITrafficItem.more (TrafficItem c)"
  "ITrafficItem.more (TrafficItem (Refresh N c)) = ITrafficItem.more (TrafficItem c)"
  "ITrafficItem.more (TrafficItem (MarkForRemoval N c)) = ITrafficItem.more (TrafficItem c)"
  by (simp_all add: PushIncomingTraffic_def PushOutgoingTraffic_def push_dir_def Refresh_def RefreshWindow_def MarkForRemoval_def Let_def)

lemma node_counter [simp]:
  "ITrafficItem.more (TrafficItem (g k)) = ITrafficItem.more (TrafficItem k) \<Longrightarrow> app_node (g k) = app_node k"
  "ITrafficItem.more (TrafficItem (h (ProcCounter p))) = ITrafficItem.more (TrafficItem (ProcCounter p)) \<Longrightarrow>
     proc_node (p\<lparr>ProcCounter := h (ProcCounter p)\<rparr>) = proc_node p"
  "ITrafficItem.more (TrafficItem (j (SockCounter c))) = ITrafficItem.more (TrafficItem (SockCounter c)) \<Longrightarrow>
     sock_node (c\<lparr>SockCounter := j (SockCounter c)\<rparr>) = sock_node c"
  by (auto simp: app_node_def proc_node_def sock_node_def dest: item_more)

lemma shape_push [shape_simps]:
  "shape (push_app d n a s) = shape s" "shape (push_proc d n p s) = shape s" "shape (push_sock d n k s) = shape s"
  "shape (push_system d n s) = shape s" "shape (push_filters d n i l r s) = shape s"
  subgoal by (rule shape_upd_app) simp
  subgoal by (rule shape_upd_proc) simp
  subgoal by (rule shape_upd_sock) simp
  by (simp_all add: shape_def push_system_def push_filters_def item_more(6) [OF more_counter(3)])

lemma shape_refresh [shape_simps]:
  "shape (upd_app a (Refresh N) s) = shape s"
  "shape (upd_proc p (\<lambda>c. c\<lparr>ProcCounter := Refresh N (ProcCounter c)\<rparr>) s) = shape s"
  "shape (upd_proc p (\<lambda>c. c\<lparr>ProcCounter := MarkForRemoval N (ProcCounter c)\<rparr>) s) = shape s"
  "shape (upd_sock k (\<lambda>c. c\<lparr>SockCounter := Refresh N (SockCounter c)\<rparr>) s) = shape s"
  "shape (upd_sock k (\<lambda>c. c\<lparr>SockCounter := MarkForRemoval N (SockCounter c)\<rparr>) s) = shape s"
  "shape (s\<lparr>SystemCounter := Refresh N (SystemCounter s)\<rparr>) = shape s"
  subgoal by (rule shape_upd_app) simp
  subgoal by (rule shape_upd_proc) simp
  subgoal by (rule shape_upd_proc) simp
  subgoal by (rule shape_upd_sock) simp
  subgoal by (rule shape_upd_sock) simp
  by (simp add: shape_def item_more(6) [OF more_counter(4)])

lemma shape_fields [shape_simps]:
  "shape (fire e s) = shape s" "shape (register i r s) = shape s" "shape (unregister i s) = shape s"
  "shape (SendLookupRequest es s) = shape s" "shape (on_update E u s) = shape s" "shape (upd_tuple t g s) = shape s"
  "shape (s\<lparr>OrphanedSockets := o'\<rparr>) = shape s" "shape (s\<lparr>Parser := P\<rparr>) = shape s" "shape (s\<lparr>StatUpdates := st\<rparr>) = shape s"
  "shape (s\<lparr>TupleHeap := th\<rparr>) = shape s" "shape (s\<lparr>MapUpdate := mu\<rparr>) = shape s" "shape (refresh_filters E s) = shape s"
  "shape (snd (take_id s)) = shape s"
  by (simp_all add: shape_def fire_def register_def unregister_def SendLookupRequest_def on_update_def upd_tuple_def
      refresh_filters_def take_id_def)

lemma shape_updates [shape_simps]:
  "shape (MarkItemForRemoval E i s) = shape s" "shape (AddStateChange E c s) = shape s" "shape (AddTupleAddition E e a s) = shape s"
  "shape (AddSocketAddition E a s) = shape s" "shape (AddItemRemoval E i s) = shape s"
  by (simp_all add: MarkItemForRemoval_def AddStateChange_def AddTupleAddition_def AddSocketAddition_def AddItemRemoval_def shape_simps)

text \<open>Changes to a socket item that keep its cookie.\<close>

lemma shape_sock_item: "(\<And>i. Cookie (f i) = Cookie i) \<Longrightarrow> shape (upd_sock_item a f s) = shape s"
  by (rule shape_upd_sock) (simp add: sock_node_def on_item_def)

lemma shape_sock_const: "Cookie i = Cookie (sock_item s a) \<Longrightarrow> shape (upd_sock_item a (\<lambda>_. i) s) = shape s"
  by (cases "a < length (SockHeap s)")
    (simp_all add: shape_def upd_sock_def map_update sock_node_def on_item_def list_update_beyond list_update_same_conv)

lemma shape_udp_counters [shape_simps]:
  "shape (upd_sock a (\<lambda>c. c\<lparr>UDPPerConnectionCounters := u c\<rparr>) s) = shape s"
  by (rule shape_upd_sock) (simp add: sock_node_def)

lemma shape_fold: "(\<And>x s. shape (f x s) = shape s) \<Longrightarrow> shape (fold f xs s) = shape s"
  by (induction xs arbitrary: s) simp_all

lemma Cookie_set [simp]:
  "Cookie (set_protocol p i) = Cookie i" "Cookie (set_local f i) = Cookie i" "Cookie (set_remote f i) = Cookie i"
  "Cookie (set_listen L j) = Cookie j"
  by (simp_all add: set_protocol_def set_local_def set_remote_def set_listen_def)

lemma shape_PushTrafficForSocket [shape_simps]: "shape (PushTrafficForSocket Event a s) = shape s"
  by (simp add: PushTrafficForSocket_def Let_def shape_sock_item shape_simps)

lemma shape_GetOrCreate [shape_simps]: "shape (snd (GetOrCreateUDPTupleCounter E a e s)) = shape s"
  by (simp add: GetOrCreateUDPTupleCounter_def Let_def split_beta shape_sock_item shape_simps split: option.split)

lemma shape_udp_packet [shape_simps]: "shape (udp_packet E d a l r s) = shape s"
  by (simp add: udp_packet_def Let_def split_beta shape_simps)

lemma Cookie_infer: "Cookie (fst (infer_endpoints h g p l r i)) = Cookie i"
  "infer_type E P r i = Some (i2, m) \<Longrightarrow> Cookie i2 = Cookie i"
  by (auto simp: infer_endpoints_def infer_type_def Let_def split: if_splits option.splits)

lemma sock_item_const: "a < length (SockHeap s) \<Longrightarrow> sock_item (upd_sock_item a (\<lambda>_. i) s) a = i"
  by (simp add: upd_sock_def on_item_def)

lemma upd_sock_beyond: "\<not> a < length (SockHeap s) \<Longrightarrow> upd_sock a g s = s"
  by (simp add: upd_sock_def list_update_beyond)

lemma shape_apply_packet: "shape (snd (apply_packet E d H a s)) = shape s"
proof -
  let ?i = "\<lambda>h g p l r. fst (infer_endpoints h g p l r (sock_item s a))"
  have 1: "shape (upd_sock_item a (\<lambda>_. ?i h g p l r) s) = shape s" for h g p l r
    by (rule shape_sock_const) (rule Cookie_infer(1))
  have 2: "shape (upd_sock_item a (\<lambda>_. fst x) s) = shape s" if "infer_type E P r' (?i h g p l r) = Some x" for P r' h g p l r x
    by (rule shape_sock_const) (use Cookie_infer(2) [of E P r' _ "fst x" "snd x"] that in \<open>simp add: Cookie_infer(1)\<close>)
  show ?thesis unfolding apply_packet_def Let_def split_beta
    by (split option.split, intro conjI allI impI, simp add: 1)
      (drule 2, simp only: shape_simps snd_conv if_cancel if_distrib [of shape])
qed

lemma shape_DoPacketParsing [shape_simps]: "shape (snd (DoPacketParsing E Event a s)) = shape s"
  by (simp add: DoPacketParsing_def Let_def split_beta shape_apply_packet split: option.split)

lemma Cookie_apply_event: "Cookie (fst (apply_event Event i)) = Cookie i"
  using apply_event_frame by metis

lemma shape_ProcessEventAt [shape_simps]: "shape (ProcessEventAt E Event a s) = shape s"
  by (simp add: ProcessEventAt_def ProcessSocketEvent_def Let_def split_beta shape_simps shape_sock_const Cookie_apply_event
      split: option.split)

lemma shape_mark_closed [shape_simps]: "shape (mark_closed E a s) = shape s"
  by (simp add: mark_closed_def Let_def shape_sock_item shape_simps)

lemma shape_MarkSocketForRemoval [shape_simps]: "shape (MarkSocketForRemoval E Event s) = shape s"
  by (simp add: MarkSocketForRemoval_def Let_def shape_simps split: option.split)

lemma shape_ReparentAcceptedSocket [shape_simps]: "shape (ReparentAcceptedSocket a s) = shape s"
  by (simp add: ReparentAcceptedSocket_def Let_def shape_simps)

lemma shape_refresh_socket [shape_simps]: "shape (refresh_socket E a s) = shape s"
  by (simp add: refresh_socket_def Let_def shape_fold shape_simps split_beta)

lemma shape_refresh_all [shape_simps]: "shape (refresh_all E s) = shape s"
  by (simp add: refresh_all_def Let_def shape_fold shape_simps split_beta)

lemma shape_cleanup_tuple [shape_simps]: "shape (cleanup_tuple E a e t s) = shape s"
  by (simp add: cleanup_tuple_def Let_def shape_sock_item shape_simps)

lemma shape_ProcessInitialApps [shape_simps]: "shape (ProcessInitialApps s) = shape s"
  by (simp add: ProcessInitialApps_def shape_fold shape_simps split_beta)

lemma shape_GetUpdates [shape_simps]: "shape (snd (GetUpdates s)) = shape s"
  by (simp add: GetUpdates_def Let_def shape_simps)

section \<open>Creation refines the forest operations\<close>

lemma shape_maps:
  assumes "shape s = shape t"
  shows "AppMap s = AppMap t" "ProcessMap s = ProcessMap t" "SocketMap s = SocketMap t"
  using assms by (simp_all add: shape_def)

lemma forest_sel [simp]:
  "fApps (forest_of s) = map app_node (AppHeap s)" "fProcs (forest_of s) = map proc_node (ProcHeap s)"
  "fSocks (forest_of s) = map sock_node (SockHeap s)" "fSystem (forest_of s) = map_of (Applications (system_item s))"
  "fAppMap (forest_of s) = map_of (AppMap s)" "fProcMap (forest_of s) = map_of (ProcessMap s)"
  "fSockMap (forest_of s) = map_of (SocketMap s)"
  by (simp_all add: forest_of_def)

lemma new_items [simp]:
  "Cookie (new_sock_item i c) = c" "ProcessId (new_proc_item i pid) = pid" "Sockets (new_proc_item i pid) = []"
  "ApplicationPath (new_app_item i n k l) = k" "Processes (new_app_item i n k l) = []"
  by (simp_all add: new_sock_item_def new_proc_item_def new_app_item_def ITrafficItem_init_def
      ITrafficItem.defs WSocketItem.defs WProcessItem.defs WApplicationItem.defs)

lemma new_nodes [simp]:
  "sock_node \<lparr>SockCounter = TTrafficCounter_init N (new_sock_item i c), ParentProcess = p, UDPPerConnectionCounters = u\<rparr> = (c, p)"
  "proc_node \<lparr>ProcCounter = TTrafficCounter_init N (new_proc_item i pid), ParentApp = q\<rparr> = (pid, q, Map.empty)"
  "app_node (TTrafficCounter_init N (new_app_item i n k l)) = (k, Map.empty)"
  by (simp_all add: sock_node_def proc_node_def app_node_def TTrafficCounter_init_def)

lemma live_bounds:
  assumes "tree_ok s"
  shows "map_of (AppMap s) k = Some q \<Longrightarrow> q < length (AppHeap s)"
    and "map_of (ProcessMap s) pid = Some p \<Longrightarrow> p < length (ProcHeap s)"
    and "map_of (SocketMap s) c = Some a \<Longrightarrow> a < length (SockHeap s)"
  using assms ok_app(1) [of "forest_of s"] ok_proc(1) [of "forest_of s"] ok_sock(1) [of "forest_of s"]
  by (auto simp: tree_ok_def)

lemma live_parents:
  assumes "tree_ok s"
  shows "map_of (ProcessMap s) pid = Some p \<Longrightarrow> \<exists>k. map_of (AppMap s) k = Some (ParentApp (ProcHeap s ! p))"
    and "map_of (SocketMap s) c = Some a \<Longrightarrow> \<exists>pid. map_of (ProcessMap s) pid = Some (ParentProcess (SockHeap s ! a))"
  using assms ok_proc_app [of "forest_of s" pid p] ok_sock_proc [of "forest_of s" c a] live_bounds [OF assms]
  by (auto simp: tree_ok_def proc_node_def sock_node_def)

lemma FindOrMapSocket_tree:
  assumes ok: "tree_ok s" and p: "map_of (ProcessMap s) pid = Some p"
  shows "tree_ok (snd (FindOrMapSocket E c p s))"
    and "map_of (SocketMap (snd (FindOrMapSocket E c p s))) c = Some (fst (FindOrMapSocket E c p s))"
proof (goal_cases)
  case 1
  show ?case
  proof (cases "map_of (SocketMap s) c")
    case None
    let ?s = "snd (FindOrMapSocket E c p s)"
    have p': "p < length (ProcHeap s)" using live_bounds(2) [OF ok p] .
    have "forest_of ?s = new_sock c p (forest_of s)"
      using None p' by (simp add: FindOrMapSocket_def Let_def take_id_def forest_of_def new_sock_def AddSocketAddition_def on_update_def
          register_def upd_proc_def map_update proc_node_def on_item_def)
    moreover have "AppMap ?s = AppMap s" "ProcessMap ?s = ProcessMap s"
      "SocketMap ?s = AList.update c (length (SockHeap s)) (SocketMap s)"
      using None by (simp_all add: FindOrMapSocket_def Let_def take_id_def AddSocketAddition_def on_update_def register_def upd_proc_def)
    ultimately show ?thesis using ok forest_ok_new_sock [of "forest_of s" pid p c] None p by (simp add: tree_ok_def um_distinct_update)
  qed (simp add: FindOrMapSocket_def ok)
next
  case 2
  show ?case by (cases "map_of (SocketMap s) c")
    (simp_all add: FindOrMapSocket_def Let_def take_id_def AddSocketAddition_def on_update_def register_def upd_proc_def)
qed

lemma FindOrMapProcess_tree:
  assumes ok: "tree_ok s" and q: "map_of (AppMap s) k = Some q"
  shows "tree_ok (snd (FindOrMapProcess E pid q s))"
    and "map_of (ProcessMap (snd (FindOrMapProcess E pid q s))) pid = Some (fst (FindOrMapProcess E pid q s))"
proof (goal_cases)
  case 1
  show ?case
  proof (cases "map_of (ProcessMap s) pid")
    case None
    let ?s = "snd (FindOrMapProcess E pid q s)"
    have q': "q < length (AppHeap s)" using live_bounds(1) [OF ok q] .
    have "forest_of ?s = new_proc pid q (forest_of s)"
      using None q' by (simp add: FindOrMapProcess_def Let_def take_id_def forest_of_def new_proc_def fire_def
          register_def upd_app_def map_update app_node_def on_item_def)
    moreover have "AppMap ?s = AppMap s" "SocketMap ?s = SocketMap s"
      "ProcessMap ?s = AList.update pid (length (ProcHeap s)) (ProcessMap s)"
      using None by (simp_all add: FindOrMapProcess_def Let_def take_id_def fire_def register_def upd_app_def)
    ultimately show ?thesis using ok forest_ok_new_proc [of "forest_of s" k q pid] None q by (simp add: tree_ok_def um_distinct_update)
  qed (simp add: FindOrMapProcess_def ok)
next
  case 2
  show ?case by (cases "map_of (ProcessMap s) pid")
    (simp_all add: FindOrMapProcess_def Let_def take_id_def fire_def register_def upd_app_def)
qed

lemma NewApplication_tree:
  assumes ok: "tree_ok s" and new: "map_of (AppMap s) k = None"
  shows "tree_ok (snd (NewApplication E k cmd n s))"
    and "map_of (AppMap (snd (NewApplication E k cmd n s))) k = Some (fst (NewApplication E k cmd n s))"
proof (goal_cases)
  case 1
  let ?s = "snd (NewApplication E k cmd n s)"
  have "forest_of ?s = new_app k (forest_of s)"
    by (simp add: NewApplication_def Let_def take_id_def forest_of_def new_app_def fire_def register_def upd_system_item_def on_item_def)
  moreover have "AppMap ?s = AList.update k (length (AppHeap s)) (AppMap s)" "SocketMap ?s = SocketMap s" "ProcessMap ?s = ProcessMap s"
    by (simp_all add: NewApplication_def Let_def take_id_def fire_def register_def upd_system_item_def)
  ultimately show ?case using ok forest_ok_new_app [of "forest_of s" k] new by (simp add: tree_ok_def um_distinct_update)
qed (simp add: NewApplication_def Let_def take_id_def fire_def register_def upd_system_item_def)

lemma UpgradeApplication_tree:
  assumes ok: "tree_ok s" and old: "map_of (AppMap s) old = Some q" and new: "map_of (AppMap s) k = None"
  shows "tree_ok (UpgradeApplication k cmd n old q s)"
    and "map_of (AppMap (UpgradeApplication k cmd n old q s)) k = Some q"
proof (goal_cases)
  case 1
  let ?s = "UpgradeApplication k cmd n old q s"
  have q: "q < length (AppHeap s)" using live_bounds(1) [OF ok old] .
  have "forest_of ?s = rekey_app old k q (forest_of s)"
    using q by (simp add: UpgradeApplication_def Let_def forest_of_def rekey_app_def fire_def upd_system_item_def upd_app_def
        map_update app_node_def on_item_def)
  moreover have "AppMap ?s = AList.update k q (AList.delete old (AppMap s))" "SocketMap ?s = SocketMap s" "ProcessMap ?s = ProcessMap s"
    by (simp_all add: UpgradeApplication_def Let_def fire_def upd_system_item_def upd_app_def)
  ultimately show ?case using ok forest_ok_rekey_app [of "forest_of s" old q k] old new
    by (simp add: tree_ok_def um_distinct_update um_distinct_delete)
qed (simp add: UpgradeApplication_def Let_def fire_def upd_system_item_def upd_app_def)

lemma alias_loop_live:
  "alias_loop h k n m = ReuseApp a \<Longrightarrow> a \<in> snd ` set m"
  "alias_loop h k n m = UpgradeApp old a \<Longrightarrow> (old, a) \<in> set m"
  by (induction h k n m rule: alias_loop.induct) (auto simp: Let_def split: if_splits)

lemma live_app: "tree_ok s \<Longrightarrow> (k, q) \<in> set (AppMap s) \<longleftrightarrow> map_of (AppMap s) k = Some q"
  by (simp add: tree_ok_def)

lemma FindOrMapApplication_tree:
  assumes ok: "tree_ok s"
  shows "tree_ok (snd (FindOrMapApplication E x cmd n s))
    \<and> (\<exists>k. map_of (AppMap (snd (FindOrMapApplication E x cmd n s))) k = Some (fst (FindOrMapApplication E x cmd n s)))"
proof -
  let ?k = "AppKey x cmd n"
  let ?r = "if ?k \<noteq> [] \<and> hd ?k = CHR ''/'' then alias_loop (AppHeap s) ?k n (AppMap s) else NoAlias"
  show ?thesis
  proof (cases "map_of (AppMap s) ?k")
    case (Some q)
    then show ?thesis using ok by (auto simp: FindOrMapApplication_def Let_def)
  next
    case None
    note new = this
    show ?thesis
    proof (cases ?r)
      case NoAlias
      then have "FindOrMapApplication E x cmd n s = NewApplication E ?k cmd n s" using new by (simp add: FindOrMapApplication_def Let_def)
      then show ?thesis using NewApplication_tree [OF ok new, of E cmd n] by auto
    next
      case (ReuseApp q)
      then have "q \<in> snd ` set (AppMap s)" using alias_loop_live(1) by (metis alias_result.distinct(1))
      then have "\<exists>k. map_of (AppMap s) k = Some q" using live_app [OF ok] by auto
      then show ?thesis using ok ReuseApp new by (simp add: FindOrMapApplication_def Let_def)
    next
      case (UpgradeApp old q)
      then have "(old, q) \<in> set (AppMap s)" using alias_loop_live(2) by (metis alias_result.distinct(3))
      then have "map_of (AppMap s) old = Some q" using live_app [OF ok] by simp
      note up = UpgradeApplication_tree [OF ok this new, of cmd n]
      have "FindOrMapApplication E x cmd n s = (q, UpgradeApplication ?k cmd n old q s)"
        using UpgradeApp new by (simp add: FindOrMapApplication_def Let_def)
      then show ?thesis using up by auto
    qed
  qed
qed

lemma MapSocket_tree:
  assumes ok: "tree_ok s" and m: "MapSocket E Event pid silent s = (r, s')"
  shows "tree_ok s'" and "r = Some a \<Longrightarrow> map_of (SocketMap s') (EventCookie Event) = Some a"
proof -
  obtain x cmd n where info: "ProcessInfo (Proc E) pid = (x, cmd, n)" by (cases "ProcessInfo (Proc E) pid")
  obtain q s1 where q: "FindOrMapApplication E x cmd n s = (q, s1)" by force
  obtain p s2 where p: "FindOrMapProcess E pid q s1 = (p, s2)" by force
  obtain k where 1: "tree_ok s1" "map_of (AppMap s1) k = Some q"
    using FindOrMapApplication_tree [OF ok, of E x cmd n] q by auto
  have 2: "tree_ok s2" "map_of (ProcessMap s2) pid = Some p"
    using FindOrMapProcess_tree [OF 1, of E pid] p by auto
  have 3: "tree_ok (snd (FindOrMapSocket E c p s2))"
    "map_of (SocketMap (snd (FindOrMapSocket E c p s2))) c = Some (fst (FindOrMapSocket E c p s2))" for c
    by (rule FindOrMapSocket_tree [OF 2])+
  have "tree_ok s' \<and> (r = Some a \<longrightarrow> map_of (SocketMap s') (EventCookie Event) = Some a)"
    using m ok 3 [of "EventCookie Event"]
    by (auto simp: MapSocket_def Let_def info q p split_beta split: if_splits option.splits)
  then show "tree_ok s'" "r = Some a \<Longrightarrow> map_of (SocketMap s') (EventCookie Event) = Some a" by auto
qed

lemma tree_ok_sock_item: "(\<And>i. Cookie (f i) = Cookie i) \<Longrightarrow> tree_ok (upd_sock_item a f s) = tree_ok s"
  by (rule tree_ok_shape) (rule shape_sock_item)

lemma add_listening_tree: "tree_ok s \<Longrightarrow> tree_ok (add_listening E c Ls s)"
proof (induction E c Ls s rule: add_listening.induct)
  case (2 E c L Ls s)
  obtain r s1 where m: "MapSocket E (synthetic_event c) (ListenPID L) False s = (r, s1)" by force
  have "tree_ok s1" using MapSocket_tree(1) [OF 2(4) m] .
  with 2 m show ?case by (cases r) (simp_all add: tree_ok_sock_item)
qed simp

section \<open>Removal refines the forest operations\<close>

lemma map_eq_nth: "map f xs = map f ys \<Longrightarrow> a < length xs \<Longrightarrow> f (xs ! a) = f (ys ! a)"
  by (metis length_map nth_map)

lemma shape_parent:
  "shape s = shape t \<Longrightarrow> a < length (SockHeap s) \<Longrightarrow> ParentProcess (SockHeap s ! a) = ParentProcess (SockHeap t ! a)"
  "shape s = shape t \<Longrightarrow> p < length (ProcHeap s) \<Longrightarrow> ParentApp (ProcHeap s ! p) = ParentApp (ProcHeap t ! p)"
  "shape s = shape t \<Longrightarrow> p < length (ProcHeap s) \<Longrightarrow> map_of (Sockets (proc_item s p)) = map_of (Sockets (proc_item t p))"
  using map_eq_nth [of sock_node "SockHeap s" "SockHeap t" a] map_eq_nth [of proc_node "ProcHeap s" "ProcHeap t" p]
  by (auto simp: shape_def sock_node_def proc_node_def)

lemma shape_length:
  "shape s = shape t \<Longrightarrow> length (SockHeap s) = length (SockHeap t)"
  "shape s = shape t \<Longrightarrow> length (ProcHeap s) = length (ProcHeap t)"
  "shape s = shape t \<Longrightarrow> length (AppHeap s) = length (AppHeap t)"
  by (auto simp: shape_def dest: map_eq_imp_length_eq)

lemma forest_proc_sockets:
  "p < length (ProcHeap s) \<Longrightarrow> forest_of (upd_proc_item p (\<lambda>i. i\<lparr>Sockets := AList.delete c (Sockets i)\<rparr>) s) =
     (forest_of s)\<lparr>fProcs := (fProcs (forest_of s))[p := (fst (fProcs (forest_of s) ! p), fst (snd (fProcs (forest_of s) ! p)),
        (snd (snd (fProcs (forest_of s) ! p)))(c := None))]\<rparr>"
  by (simp add: forest_of_def upd_proc_def map_update proc_node_def on_item_def)

lemma forest_app_processes:
  "q < length (AppHeap s) \<Longrightarrow> forest_of (upd_app_item q (\<lambda>i. i\<lparr>Processes := AList.delete pid (Processes i)\<rparr>) s) =
     (forest_of s)\<lparr>fApps := (fApps (forest_of s))[q := (fst (fApps (forest_of s) ! q), (snd (fApps (forest_of s) ! q))(pid := None))]\<rparr>"
  by (simp add: forest_of_def upd_app_def map_update app_node_def on_item_def)

lemma forest_maps:
  "forest_of (s\<lparr>SocketMap := AList.delete c (SocketMap s)\<rparr>) = (forest_of s)\<lparr>fSockMap := (fSockMap (forest_of s))(c := None)\<rparr>"
  "forest_of (s\<lparr>ProcessMap := AList.delete pid (ProcessMap s)\<rparr>) = (forest_of s)\<lparr>fProcMap := (fProcMap (forest_of s))(pid := None)\<rparr>"
  "forest_of (s\<lparr>AppMap := AList.delete k (AppMap s)\<rparr>) = (forest_of s)\<lparr>fAppMap := (fAppMap (forest_of s))(k := None)\<rparr>"
  by (simp_all add: forest_of_def)

text \<open>What an update of the process or application heap does to the maps: nothing.\<close>

lemma maps_upd [simp]:
  "AppMap (upd_proc p g s) = AppMap s" "ProcessMap (upd_proc p g s) = ProcessMap s" "SocketMap (upd_proc p g s) = SocketMap s"
  "AppMap (upd_app q h s) = AppMap s" "ProcessMap (upd_app q h s) = ProcessMap s" "SocketMap (upd_app q h s) = SocketMap s"
  "AppMap (upd_system_item f s) = AppMap s" "ProcessMap (upd_system_item f s) = ProcessMap s" "SocketMap (upd_system_item f s) = SocketMap s"
  by (simp_all add: upd_proc_def upd_app_def upd_system_item_def)

lemma remove_socket_tree:
  assumes ok: "tree_ok s" and live: "map_of (SocketMap s) c = Some a"
  shows "tree_ok (remove_socket E c a s)" and "SocketMap (remove_socket E c a s) = AList.delete c (SocketMap s)"
proof -
  define s1 where "s1 = fold (\<lambda>(_, t). fire (EvUDPTupleRemoved t)) (UDPPerConnectionCounters (SockHeap s ! a)) (fire (EvSocketRemoved a) s)"
  define p where "p = ParentProcess (SockHeap s ! a)"
  define s2 where "s2 = upd_proc_item p (\<lambda>i. i\<lparr>Sockets := AList.delete c (Sockets i)\<rparr>) s1"
  have a: "a < length (SockHeap s)" using live_bounds(3) [OF ok live] .
  have sh1: "shape s1 = shape s" unfolding s1_def by (simp add: shape_fold split_beta shape_simps)
  have p1: "ParentProcess (SockHeap s1 ! a) = p" unfolding p_def using shape_parent(1) [OF sh1] a shape_length(1) [OF sh1] by simp
  have p: "p < length (ProcHeap s)" using live_parents(2) [OF ok live] live_bounds(2) [OF ok] p_def by blast
  have "\<exists>t. remove_socket E c a s = t\<lparr>SocketMap := AList.delete c (SocketMap t)\<rparr> \<and> shape t = shape s2"
    unfolding remove_socket_def Let_def s1_def [symmetric] p1 s2_def [symmetric]
    by (rule exI, rule conjI, rule refl) (simp add: shape_fold split_beta shape_sock_item shape_simps)
  then obtain t where t: "remove_socket E c a s = t\<lparr>SocketMap := AList.delete c (SocketMap t)\<rparr>" "shape t = shape s2" by blast
  have maps: "AppMap t = AppMap s" "ProcessMap t = ProcessMap s" "SocketMap t = SocketMap s"
    using shape_maps [OF t(2)] shape_maps [OF sh1] by (simp_all add: s2_def)
  have "forest_of (remove_socket E c a s) = del_sock c a (forest_of s)"
    using forest_of_shape [OF sh1] forest_of_shape [OF t(2)] p a shape_length(2) [OF sh1]
    by (simp add: t(1) forest_maps s2_def forest_proc_sockets del_sock_def Let_def sock_node_def p_def)
  then show "tree_ok (remove_socket E c a s)"
    using ok forest_ok_del_sock [of "forest_of s" c a] live maps by (simp add: tree_ok_def t(1) um_distinct_delete)
  show "SocketMap (remove_socket E c a s) = AList.delete c (SocketMap s)" using maps by (simp add: t(1))
qed

lemma remove_process_socket_shape:
  "shape (snd (remove_process_socket E c k acc)) = shape ((snd acc)\<lparr>SocketMap := AList.delete c (SocketMap (snd acc))\<rparr>)"
proof -
  obtain Msg s where acc: "acc = (Msg, s)" by force
  have "\<exists>t. snd (remove_process_socket E c k (Msg, s)) = t\<lparr>SocketMap := AList.delete c (SocketMap t)\<rparr> \<and> shape t = shape s"
    unfolding remove_process_socket_def Let_def split_beta snd_conv
    by (rule exI, rule conjI, rule refl) (simp add: shape_fold split_beta shape_sock_item remove_tuple_def Let_def shape_simps split: option.split)
  then show ?thesis by (auto simp: acc shape_def)
qed

lemma fold_remove_process_sockets:
  "forest_of (snd (fold (\<lambda>(c, k). remove_process_socket E c k) xs acc)) =
     (forest_of (snd acc))\<lparr>fSockMap := fSockMap (forest_of (snd acc)) |` (- fst ` set xs)\<rparr>
   \<and> AppMap (snd (fold (\<lambda>(c, k). remove_process_socket E c k) xs acc)) = AppMap (snd acc)
   \<and> ProcessMap (snd (fold (\<lambda>(c, k). remove_process_socket E c k) xs acc)) = ProcessMap (snd acc)
   \<and> (um_distinct (SocketMap (snd acc)) \<longrightarrow> um_distinct (SocketMap (snd (fold (\<lambda>(c, k). remove_process_socket E c k) xs acc))))"
proof (induction xs arbitrary: acc)
  case Nil
  show ?case by (cases "snd acc") (simp add: forest_of_def)
next
  case (Cons x xs)
  obtain c k where x: "x = (c, k)" by force
  let ?acc = "remove_process_socket E c k acc"
  have sh: "shape (snd ?acc) = shape ((snd acc)\<lparr>SocketMap := AList.delete c (SocketMap (snd acc))\<rparr>)"
    by (rule remove_process_socket_shape)
  have f: "forest_of (snd ?acc) = (forest_of (snd acc))\<lparr>fSockMap := (fSockMap (forest_of (snd acc)))(c := None)\<rparr>"
    using forest_of_shape [OF sh] by (simp add: forest_maps)
  have r: "(\<lambda>x. if x = c then None else m x) |` (- A) = m |` (- insert c A)" for m :: "WSocketCookie \<rightharpoonup> addr" and A
    by (auto simp: restrict_map_def fun_eq_iff)
  show ?case using Cons [of ?acc] shape_maps [OF sh] by (simp add: x f r um_distinct_delete)
qed

lemma remove_process_tree:
  assumes ok: "tree_ok s" and live: "map_of (ProcessMap s) pid = Some p"
  shows "tree_ok (remove_process E pid p s)" and "ProcessMap (remove_process E pid p s) = AList.delete pid (ProcessMap s)"
proof -
  define q where "q = ParentApp (ProcHeap s ! p)"
  define s1 where "s1 = push_app PD_Incoming 0 q (push_system PD_Incoming 0 s)"
  define r where "r = fold (\<lambda>(c, k). remove_process_socket E c k) (Sockets (proc_item s1 p)) ([], s1)"
  define s3 where "s3 = fire (EvProcessRemoved p) (SendLookupRequest (fst r) (snd r))"
  define s4 where "s4 = upd_app_item q (\<lambda>i. i\<lparr>Processes := AList.delete pid (Processes i)\<rparr>) s3"
  have p: "p < length (ProcHeap s)" using live_bounds(2) [OF ok live] .
  have q: "q < length (AppHeap s)" using live_parents(1) [OF ok live] live_bounds(1) [OF ok] q_def by blast
  have sh1: "shape s1 = shape s" unfolding s1_def by (simp add: shape_simps)
  have f3: "forest_of s3 = (forest_of s)\<lparr>fSockMap := map_of (SocketMap s) |` (- fst ` set (Sockets (proc_item s1 p)))\<rparr>"
    using fold_remove_process_sockets [of E "Sockets (proc_item s1 p)" "([], s1)"] forest_of_shape [OF sh1] shape_maps [OF sh1]
    by (simp add: s3_def r_def [symmetric] forest_of_shape [OF shape_fields(1)] forest_of_shape [OF shape_fields(4)])
  have m3: "AppMap s3 = AppMap s" "ProcessMap s3 = ProcessMap s" "um_distinct (SocketMap s3)"
    using fold_remove_process_sockets [of E "Sockets (proc_item s1 p)" "([], s1)"] shape_maps [OF sh1] ok
    by (simp_all add: s3_def r_def [symmetric] fire_def SendLookupRequest_def tree_ok_def)
  have l3: "length (AppHeap s3) = length (AppHeap s)" using arg_cong [OF f3, of "\<lambda>F. length (fApps F)"] by simp
  have "\<exists>t. remove_process E pid p s = t\<lparr>ProcessMap := AList.delete pid (ProcessMap t)\<rparr> \<and> shape t = shape s4"
    unfolding remove_process_def Let_def split_beta q_def [symmetric] s1_def [symmetric] r_def [symmetric] s3_def [symmetric] s4_def [symmetric]
    by (rule exI, rule conjI, rule refl) (simp add: shape_simps)
  then obtain t where t: "remove_process E pid p s = t\<lparr>ProcessMap := AList.delete pid (ProcessMap t)\<rparr>" "shape t = shape s4" by blast
  have dom: "fst ` set (Sockets (proc_item s1 p)) = dom (map_of (Sockets (proc_item s p)))"
    using shape_parent(3) [OF sh1] p shape_length(2) [OF sh1] by (metis dom_map_of_conv_image_fst)
  have "forest_of (remove_process E pid p s) = del_proc pid p (forest_of s)"
    using forest_of_shape [OF t(2)] p q
    by (simp add: t(1) forest_maps s4_def forest_app_processes l3 f3 del_proc_def Let_def proc_node_def q_def dom)
  moreover have "AppMap t = AppMap s" "ProcessMap t = ProcessMap s" "um_distinct (SocketMap t)"
    using shape_maps [OF t(2)] m3 by (simp_all add: s4_def)
  ultimately show "tree_ok (remove_process E pid p s)" "ProcessMap (remove_process E pid p s) = AList.delete pid (ProcessMap s)"
    using ok forest_ok_del_proc [of "forest_of s" pid p] live by (simp_all add: tree_ok_def t(1) um_distinct_delete)
qed

section \<open>The operations keep tree and index in agreement\<close>

text \<open>A loop over a map whose body may erase the current entry: every entry is still there when its turn comes.\<close>

lemma fold_live:
  assumes "um_distinct xs" and "I s" and "\<And>k a. (k, a) \<in> set xs \<Longrightarrow> L k a s"
    and I: "\<And>k a t. I t \<Longrightarrow> L k a t \<Longrightarrow> I (f k a t)"
    and L: "\<And>k a k' a' t. I t \<Longrightarrow> L k a t \<Longrightarrow> L k' a' t \<Longrightarrow> k' \<noteq> k \<Longrightarrow> L k' a' (f k a t)"
  shows "I (fold (\<lambda>(k, a). f k a) xs s)"
  using assms(1-3)
proof (induction xs arbitrary: s)
  case (Cons x xs)
  obtain k a where x: "x = (k, a)" by force
  have "I (f k a s)" using Cons.prems x I by simp
  moreover have "L k' a' (f k a s)" if "(k', a') \<in> set xs" for k' a'
  proof -
    have "k' \<noteq> k" using Cons.prems(1) x that by force
    then show ?thesis using L [of s k a k' a'] Cons.prems x that by simp
  qed
  ultimately show ?case using Cons x by simp
qed simp

lemma cleanup_process_tree:
  assumes ok: "tree_ok s" and live: "map_of (ProcessMap s) pid = Some p"
  shows "tree_ok (cleanup_process E pid p s)"
    and "ProcessMap (cleanup_process E pid p s) \<in> {ProcessMap s, AList.delete pid (ProcessMap s)}"
proof -
  define s1 where "s1 = (if \<not> ProcessRunning (Proc E) pid \<and> \<not> IsMarkedForRemoval (ProcCounter (ProcHeap s ! p))
    then MarkItemForRemoval E (ItemId (proc_item s p)) (upd_proc p (\<lambda>c. c\<lparr>ProcCounter := MarkForRemoval (Now E) (ProcCounter c)\<rparr>) s)
    else s)"
  have sh: "shape s1 = shape s" by (simp add: s1_def shape_simps)
  have "tree_ok s1" "map_of (ProcessMap s1) pid = Some p" "ProcessMap s1 = ProcessMap s"
    using tree_ok_shape [OF sh] shape_maps [OF sh] ok live by simp_all
  with remove_process_tree [of s1 pid p E] show "tree_ok (cleanup_process E pid p s)"
    "ProcessMap (cleanup_process E pid p s) \<in> {ProcessMap s, AList.delete pid (ProcessMap s)}"
    unfolding cleanup_process_def Let_def s1_def [symmetric] by simp_all
qed

lemma cleanup_socket_tree:
  assumes ok: "tree_ok s" and live: "map_of (SocketMap s) c = Some a"
  shows "tree_ok (cleanup_socket E c a s)"
    and "SocketMap (cleanup_socket E c a s) \<in> {SocketMap s, AList.delete c (SocketMap s)}"
proof -
  have "tree_ok (cleanup_socket E c a s) \<and> SocketMap (cleanup_socket E c a s) \<in> {SocketMap s, AList.delete c (SocketMap s)}"
  proof (cases "DueForRemoval (Now E) (SockCounter (SockHeap s ! a))")
    case True
    then show ?thesis using remove_socket_tree [OF ok live] by (simp add: cleanup_socket_def)
  next
    case False
    then have sh: "shape (cleanup_socket E c a s) = shape s"
      by (simp add: cleanup_socket_def Let_def shape_fold shape_simps split_beta)
    show ?thesis using tree_ok_shape [OF sh] shape_maps(3) [OF sh] ok by simp
  qed
  then show "tree_ok (cleanup_socket E c a s)"
    "SocketMap (cleanup_socket E c a s) \<in> {SocketMap s, AList.delete c (SocketMap s)}" by simp_all
qed

lemma cleanup_app_tree:
  assumes ok: "tree_ok s" and live: "map_of (AppMap s) k = Some q"
  shows "tree_ok (cleanup_app E k q s)" and "AppMap (cleanup_app E k q s) \<in> {AppMap s, AList.delete k (AppMap s)}"
proof -
  have "tree_ok (cleanup_app E k q s) \<and> AppMap (cleanup_app E k q s) \<in> {AppMap s, AList.delete k (AppMap s)}"
  proof (cases "Processes (app_item s q) = []")
    case True
    let ?s = "cleanup_app E k q s"
    have f: "forest_of ?s = del_app k (forest_of s)"
      and m: "AppMap ?s = AList.delete k (AppMap s)" "ProcessMap ?s = ProcessMap s" "SocketMap ?s = SocketMap s"
      using True by (simp_all add: cleanup_app_def Let_def del_app_def forest_of_def unregister_def AddItemRemoval_def on_update_def
          upd_system_item_def on_item_def)
    have "q < length (AppHeap s)" using live_bounds(1) [OF ok live] .
    then have "snd (fApps (forest_of s) ! q) = Map.empty" using True by (simp add: app_node_def)
    then show ?thesis using ok forest_ok_del_app [of "forest_of s" k q] live f m by (simp add: tree_ok_def um_distinct_delete)
  qed (simp add: cleanup_app_def ok)
  then show "tree_ok (cleanup_app E k q s)" "AppMap (cleanup_app E k q s) \<in> {AppMap s, AList.delete k (AppMap s)}" by simp_all
qed

lemma Cleanup_tree:
  assumes ok: "tree_ok s"
  shows "tree_ok (snd (Cleanup E s))"
proof -
  define s1 where "s1 = fold (\<lambda>(pid, p). cleanup_process E pid p) (ProcessMap s) s"
  have 1: "tree_ok s1" unfolding s1_def
    by (rule fold_live [where I = tree_ok and L = "\<lambda>pid p t. map_of (ProcessMap t) pid = Some p"])
      (use ok cleanup_process_tree in \<open>auto simp: tree_ok_def [of s]\<close>, metis cleanup_process_tree(2) insertE singletonD fun_upd_other um_map_of_delete)
  show ?thesis
  proof (cases "ParseData (Net E)")
    case (Some P)
    define s2 where "s2 = s1\<lparr>Parser := P\<rparr>"
    define s3 where "s3 = fold (\<lambda>(c, a). cleanup_socket E c a) (SocketMap s2) s2"
    have 2: "tree_ok s2" using 1 tree_ok_shape [OF shape_fields(8)] by (simp add: s2_def)
    have 3: "tree_ok s3" unfolding s3_def
      by (rule fold_live [where I = tree_ok and L = "\<lambda>c a t. map_of (SocketMap t) c = Some a"])
        (use 2 cleanup_socket_tree in \<open>auto simp: tree_ok_def [of s2]\<close>, metis cleanup_socket_tree(2) insertE singletonD fun_upd_other um_map_of_delete)
    have "tree_ok (fold (\<lambda>(k, q). cleanup_app E k q) (AppMap s3) s3)"
      by (rule fold_live [where I = tree_ok and L = "\<lambda>k q t. map_of (AppMap t) k = Some q"])
        (use 3 cleanup_app_tree in \<open>auto simp: tree_ok_def [of s3]\<close>, metis cleanup_app_tree(2) insertE singletonD fun_upd_other um_map_of_delete)
    then show ?thesis
      unfolding Cleanup_def Let_def s1_def [symmetric] Some option.case s2_def [symmetric] s3_def [symmetric] snd_conv .
  qed (simp add: Cleanup_def Let_def s1_def [symmetric] 1)
qed

lemma MapSocketFromTrafficEvent_tree:
  assumes ok: "tree_ok s" and m: "MapSocketFromTrafficEvent E Event s = (err, r, s')"
  shows "tree_ok s'"
proof -
  have "tree_ok t" if "MapSocket E Event pid False s = (x, t)" for pid x t
    using MapSocket_tree(1) [OF ok that] .
  then show ?thesis using m ok
    by (auto simp: MapSocketFromTrafficEvent_def Let_def tree_ok_sock_item split: option.splits prod.splits if_splits)
qed

lemma push_tree:
  assumes "tree_ok s"
  shows "tree_ok (push_system d n s)" "tree_ok (snd (DoPacketParsing E Event a (PushTrafficForSocket Event a s)))"
  using assms tree_ok_shape [OF shape_push(4)] tree_ok_shape [OF shape_DoPacketParsing] tree_ok_shape [OF shape_PushTrafficForSocket]
  by simp_all

lemma HandleSocketEvent_tree:
  assumes ok: "tree_ok s" and h: "HandleSocketEvent E Event s = (None, t)"
  shows "tree_ok t"
proof -
  obtain r s1 where m: "MapSocket E Event (event_pid Event) (EventType Event = NE_Traffic \<or> EventType Event = NE_SocketClosed
      \<or> EventType Event = NE_TCPSocketEstablished_4 \<or> EventType Event = NE_TCPSocketEstablished_6) s = (r, s1)" by force
  have ok1: "tree_ok s1" using MapSocket_tree(1) [OF ok m] .
  have inc: "tree_ok (snd (MapPushIncomingTraffic E Event s1))"
    using push_tree [OF push_tree(1) [OF ok1]] push_tree(1) [OF ok1] by (auto simp: MapPushIncomingTraffic_def Let_def split: option.split)
  have out: "tree_ok (snd (MapPushOutgoingTraffic E Event s1))"
    using push_tree [OF push_tree(1) [OF ok1]] push_tree(1) [OF ok1] push_tree(2)
      MapSocketFromTrafficEvent_tree [OF push_tree(1) [OF ok1]]
    by (auto simp: MapPushOutgoingTraffic_def Let_def split: option.split prod.split)
  have ev: "tree_ok (ProcessEventAt E Event a s1)" "tree_ok (ReparentAcceptedSocket a (ProcessEventAt E Event a s1))"
    "tree_ok (MarkSocketForRemoval E Event s1)" for a
    using ok1 tree_ok_shape [OF shape_ProcessEventAt] tree_ok_shape [OF shape_ReparentAcceptedSocket] tree_ok_shape [OF shape_MarkSocketForRemoval]
    by simp_all
  have merge: "MergeSyntheticSocket a x = (None, y) \<Longrightarrow> y = x" for a x y
    by (auto simp: MergeSyntheticSocket_def Let_def split: if_splits option.splits)
  show ?thesis using h ok1 inc out ev
    by (auto simp: HandleSocketEvent_def Let_def m split: if_splits option.splits prod.splits dest!: merge)
qed

section \<open>Reachable states\<close>

text \<open>What the daemon does with the map, each with its own environment: an event from the kernel, the periodic
  refresh, the start-up scan, the answer to a lookup, and sending updates. A step that ends in an exception or in
  undefined behaviour has no successor.\<close>

inductive map_step :: "WSystemMap \<Rightarrow> WSystemMap \<Rightarrow> bool" where
  event: "HandleSocketEvent E Event s = (None, t) \<Longrightarrow> map_step s t"
| refresh: "RefreshAllTrafficCounters E s = (None, t) \<Longrightarrow> map_step s t"
| existing: "AddExistingSockets E s = (None, t) \<Longrightarrow> map_step s t"
| lookup: "ReparentOrphanedSocket E Ep PID s = (None, t) \<Longrightarrow> map_step s t"
| initial_apps: "map_step s (ProcessInitialApps s)"
| updates: "map_step s (snd (GetUpdates s))"

definition map_initial :: "WSystemMap \<Rightarrow> bool" where
  "map_initial s \<longleftrightarrow> (\<exists>E P Host. s = WSystemMap_init E P Host)"

lemma init_maps:
  "AppMap (WSystemMap_init E P Host) = []" "ProcessMap (WSystemMap_init E P Host) = []" "SocketMap (WSystemMap_init E P Host) = []"
  "AppHeap (WSystemMap_init E P Host) = []" "ProcHeap (WSystemMap_init E P Host) = []" "SockHeap (WSystemMap_init E P Host) = []"
  "Applications (system_item (WSystemMap_init E P Host)) = []"
  by (simp_all add: WSystemMap_init_def Let_def RegisterDefaultFilters_def AddFilter_def take_id_def upd_system_item_def on_item_def
      TTrafficCounter_init_def ITrafficItem_init_def ITrafficItem.defs WSystemItem.defs)

lemma tree_ok_initial: "map_initial s \<Longrightarrow> tree_ok s"
  unfolding map_initial_def by (auto simp: tree_ok_def forest_ok_def init_maps)

lemma tree_ok_step: "map_step s t \<Longrightarrow> tree_ok s \<Longrightarrow> tree_ok t"
proof (induction rule: map_step.induct)
  case (refresh E s t)
  then show ?case using Cleanup_tree [of "refresh_all E s" E] tree_ok_shape [OF shape_refresh_all]
    by (simp add: RefreshAllTrafficCounters_def)
next
  case (existing E s t)
  then show ?case using add_listening_tree tree_ok_shape [OF shape_fields(8)]
    by (auto simp: AddExistingSockets_def split: option.splits)
next
  case (lookup E Ep PID s t)
  then show ?case using tree_ok_shape [OF shape_fields(7)]
    by (auto simp: ReparentOrphanedSocket_def split: option.splits if_splits)
qed (use HandleSocketEvent_tree tree_ok_shape [OF shape_ProcessInitialApps] tree_ok_shape [OF shape_GetUpdates] in auto)

interpretation map_sm: state_machine map_initial "map_step" tree_ok
  by unfold_locales (auto intro: tree_ok_initial tree_ok_step)


text \<open>A machine with one process that opens a socket.\<close>

definition test_proc_env :: proc_env where
  "test_proc_env = \<lparr>ExeLink = \<lambda>_. ''/usr/bin/curl'', CwdLink = \<lambda>_. ''/'', RootLink = \<lambda>_. ''/'', CmdlineFile = \<lambda>_. ''curl'',
     EnvironFile = \<lambda>_. '''', CommFile = \<lambda>_. ''curl'', PathExists = \<lambda>_. True, WeaklyCanonical = Some, LexicallyNormal = \<lambda>p. p,
     ProcessRunning = \<lambda>_. True\<rparr>"

definition test_proc_net :: proc_net where
  "test_proc_net = \<lparr>FileTcp = None, FileTcp6 = None, FileUdp = None, FileUdp6 = None, FdLinks = []\<rparr>"

definition test_sys_env :: sys_env where
  "test_sys_env = \<lparr>Now = 0, Proc = test_proc_env, Net = test_proc_net, Track = True\<rparr>"

definition test_create :: WSocketEvent where
  "test_create = \<lparr>EventType = NE_SocketCreate, EventCookie = 7, PidTgId = push_bit 32 42, CgroupId = 0,
     EventData = SocketCreateEventData \<lparr>CreateProtocol = 6, CreateFamily = 2, CreateType = 1\<rparr>\<rparr>"

definition test_map :: WSystemMap where
  "test_map = snd (HandleSocketEvent test_sys_env test_create (WSystemMap_init test_sys_env WSocketStateParser_empty ''host''))"

lemma test_map_facts:
  "HandleSocketEvent test_sys_env test_create (WSystemMap_init test_sys_env WSocketStateParser_empty ''host'') = (None, test_map)"
  "SocketMap test_map = [(7, 0)]" "ProcessMap test_map = [(42, 0)]" "AppMap test_map = [(''/usr/bin/curl'', 0)]"
  subgoal unfolding test_map_def by (rule prod_eqI) (simp, code_simp, simp)
  subgoal by code_simp
  subgoal by code_simp
  subgoal by code_simp
  done

lemma reachable_test_map: "reachable map_initial map_step test_map"
  by (rule reach_step, rule reach_start, unfold map_initial_def, intro exI, rule refl, rule event, rule test_map_facts(1))


section \<open>Mapping a socket\<close>

lemma FindOrMapApplication_frame:
  "ProcessMap (snd (FindOrMapApplication E x cmd n s)) = ProcessMap s" "SocketMap (snd (FindOrMapApplication E x cmd n s)) = SocketMap s"
  "SockHeap (snd (FindOrMapApplication E x cmd n s)) = SockHeap s" "ProcHeap (snd (FindOrMapApplication E x cmd n s)) = ProcHeap s"
  by (auto simp: FindOrMapApplication_def NewApplication_def UpgradeApplication_def Let_def take_id_def fire_def register_def
      upd_system_item_def upd_app_def split: option.split alias_result.split)

lemma FindOrMapProcess_frame:
  "SocketMap (snd (FindOrMapProcess E pid q s)) = SocketMap s" "SockHeap (snd (FindOrMapProcess E pid q s)) = SockHeap s"
  "map_of (ProcessMap (snd (FindOrMapProcess E pid q s))) = (map_of (ProcessMap s))(pid \<mapsto> fst (FindOrMapProcess E pid q s))"
  by (auto simp: FindOrMapProcess_def Let_def take_id_def fire_def register_def upd_app_def split: option.split)

lemma FindOrMapSocket_frame:
  "ProcessMap (snd (FindOrMapSocket E c p s)) = ProcessMap s"
  "map_of (SocketMap (snd (FindOrMapSocket E c p s))) = (map_of (SocketMap s))(c \<mapsto> fst (FindOrMapSocket E c p s))"
  "map_of (SocketMap s) c = None \<Longrightarrow> fst (FindOrMapSocket E c p s) = length (SockHeap s)"
  "map_of (SocketMap s) c = None \<Longrightarrow> ParentProcess (SockHeap (snd (FindOrMapSocket E c p s)) ! length (SockHeap s)) = p"
  by (auto simp: FindOrMapSocket_def Let_def take_id_def AddSocketAddition_def on_update_def register_def upd_proc_def split: option.split)



end
