(* ===== verification/System_Accounting.thy ===== *)
theory System_Accounting
  imports System_Tree
begin

text \<open>
  Traffic is counted at several levels of the tree: a packet is added to the counter of its socket,
  of the process and of the application. This theory shows that the levels stay consistent: an
  abstract set of books holds what each counter has ever been given, every operation of the system
  map either leaves the books alone, opens an empty account, or books a packet at all three levels.
\<close>

section \<open>Books\<close>

definition bytes :: "EPacketDirection \<Rightarrow> 'a TTrafficCounter \<Rightarrow> WBytes" where
  "bytes d c = (if d = PD_Incoming then TotalDownloadBytes (TrafficItem c) + RecentDownload c
     else TotalUploadBytes (TrafficItem c) + RecentUpload c)"

type_synonym accounts = "(addr \<times> WBytes) list"

definition account_sum :: "addr \<Rightarrow> accounts \<Rightarrow> WBytes" where
  "account_sum p xs = sum_list (map snd (filter (\<lambda>x. fst x = p) xs))"

text \<open>The accounts of the applications, of the processes with their application and of the sockets with their
  process.\<close>

definition books :: "EPacketDirection \<Rightarrow> WSystemMap \<Rightarrow> WBytes list \<times> accounts \<times> accounts" where
  "books d s = (map (bytes d) (AppHeap s), map (\<lambda>c. (ParentApp c, bytes d (ProcCounter c))) (ProcHeap s),
     map (\<lambda>c. (ParentProcess c, bytes d (SockCounter c))) (SockHeap s))"

definition balanced :: "WBytes list \<times> accounts \<times> accounts \<Rightarrow> bool" where
  "balanced B \<longleftrightarrow> (case B of (A, P, S) \<Rightarrow>
     (\<forall>x \<in> set P. fst x < length A) \<and> (\<forall>x \<in> set S. fst x < length P)
   \<and> (\<forall>q < length A. A ! q = account_sum q P) \<and> (\<forall>p < length P. snd (P ! p) = account_sum p S))"

lemma account_sum_append [simp]: "account_sum p (xs @ ys) = account_sum p xs + account_sum p ys"
  by (simp add: account_sum_def)

lemma account_sum_single [simp]: "account_sum p [(q, v)] = (if q = p then v else 0)"
  by (simp add: account_sum_def)

lemma account_sum_none: "\<forall>x \<in> set xs. fst x \<noteq> p \<Longrightarrow> account_sum p xs = 0"
  by (simp add: account_sum_def filter_empty_conv)

lemma account_sum_fresh: "\<forall>x \<in> set xs. fst x < n \<Longrightarrow> account_sum n xs = 0"
  by (rule account_sum_none) auto

lemma account_sum_add:
  "a < length xs \<Longrightarrow> account_sum p (xs[a := (fst (xs ! a), snd (xs ! a) + n)]) =
     account_sum p xs + (if fst (xs ! a) = p then n else 0)"
proof (induction xs arbitrary: a)
  case (Cons x xs)
  then show ?case by (cases a) (auto simp: account_sum_def add.assoc add.commute add.left_commute)
qed simp

text \<open>New accounts are empty; a packet is booked at all levels.\<close>

lemma balanced_new_app: "balanced (A, P, S) \<Longrightarrow> balanced (A @ [0], P, S)"
  by (auto simp: balanced_def nth_append less_Suc_eq account_sum_fresh)

lemma balanced_new_proc: "balanced (A, P, S) \<Longrightarrow> q < length A \<Longrightarrow> balanced (A, P @ [(q, 0)], S)"
  by (auto simp: balanced_def nth_append less_Suc_eq account_sum_fresh)

lemma balanced_new_sock: "balanced (A, P, S) \<Longrightarrow> p < length P \<Longrightarrow> balanced (A, P, S @ [(p, 0)])"
  by (auto simp: balanced_def)

definition book_packet :: "WBytes \<Rightarrow> addr \<Rightarrow> WBytes list \<times> accounts \<times> accounts \<Rightarrow> WBytes list \<times> accounts \<times> accounts" where
  "book_packet n a B = (case B of (A, P, S) \<Rightarrow>
     let p = fst (S ! a); q = fst (P ! p) in
     (A[q := A ! q + n], P[p := (fst (P ! p), snd (P ! p) + n)], S[a := (fst (S ! a), snd (S ! a) + n)]))"

lemma balanced_packet:
  assumes "balanced (A, P, S)" and "a < length S"
  shows "balanced (book_packet n a (A, P, S))"
proof -
  let ?p = "fst (S ! a)"
  have p: "?p < length P" using assms by (auto simp: balanced_def)
  have q: "fst (P ! ?p) < length A" using assms(1) p by (auto simp: balanced_def)
  have up: "x \<in> set (xs[i := (fst (xs ! i), v)]) \<Longrightarrow> i < length xs \<Longrightarrow> fst x \<in> fst ` set xs" for x :: "addr \<times> WBytes" and xs i v
    by (auto dest!: set_update_subset_insert [THEN subsetD])
  have "\<forall>x \<in> set (P[?p := (fst (P ! ?p), snd (P ! ?p) + n)]). fst x < length A"
    using up [OF _ p] assms(1) by (fastforce simp: balanced_def)
  moreover have "\<forall>x \<in> set (S[a := (?p, snd (S ! a) + n)]). fst x < length P"
    using up [OF _ assms(2)] assms(1) by (fastforce simp: balanced_def)
  moreover have eq: "snd (P ! ?p) = account_sum ?p S" using assms(1) p by (simp add: balanced_def)
  ultimately show ?thesis using assms p q account_sum_add [OF p, of _ n, unfolded eq]
    by (auto simp: balanced_def book_packet_def Let_def account_sum_add nth_list_update)
qed

section \<open>Operations that book nothing\<close>

named_theorems books_simps

lemma bytes_counter [simp]:
  "bytes d (Refresh N c) = bytes d c" "bytes d (MarkForRemoval N c) = bytes d c" "bytes d (push_dir d' 0 c) = bytes d c"
  "bytes d (push_dir d' n c) = bytes d c + (if d' = d then n else 0)"
  by (cases d; simp add: bytes_def Refresh_def RefreshWindow_def MarkForRemoval_def push_dir_def PushIncomingTraffic_def
      PushOutgoingTraffic_def Let_def; cases d'; simp add: PushIncomingTraffic_def PushOutgoingTraffic_def add.assoc)+

lemma books_upd_app: "(\<And>c. bytes d (g c) = bytes d c) \<Longrightarrow> books d (upd_app a g s) = books d s"
  by (simp add: books_def upd_app_def map_update_same)

lemma books_upd_proc:
  "(\<And>c. ParentApp (g c) = ParentApp c) \<Longrightarrow> (\<And>c. bytes d (ProcCounter (g c)) = bytes d (ProcCounter c)) \<Longrightarrow>
     books d (upd_proc p g s) = books d s"
  by (simp add: books_def upd_proc_def map_update_same)

lemma books_upd_sock:
  "(\<And>c. ParentProcess (g c) = ParentProcess c) \<Longrightarrow> (\<And>c. bytes d (SockCounter (g c)) = bytes d (SockCounter c)) \<Longrightarrow>
     books d (upd_sock a g s) = books d s"
  by (simp add: books_def upd_sock_def map_update_same)

text \<open>Changes to an item that leave its totals alone.\<close>

definition keeps_totals :: "('a ITrafficItem_scheme \<Rightarrow> 'a ITrafficItem_scheme) \<Rightarrow> bool" where
  "keeps_totals f \<longleftrightarrow> (\<forall>i. TotalDownloadBytes (f i) = TotalDownloadBytes i \<and> TotalUploadBytes (f i) = TotalUploadBytes i)"

lemma bytes_on_item: "keeps_totals f \<Longrightarrow> bytes d (on_item f c) = bytes d c"
  by (simp add: bytes_def on_item_def keeps_totals_def)

lemma books_item:
  "keeps_totals f \<Longrightarrow> books d (upd_app_item q f s) = books d s"
  "keeps_totals g \<Longrightarrow> books d (upd_proc_item p g s) = books d s"
  "keeps_totals h \<Longrightarrow> books d (upd_sock_item a h s) = books d s"
  subgoal by (rule books_upd_app) (simp add: bytes_on_item)
  subgoal by (rule books_upd_proc) (simp_all add: bytes_on_item)
  subgoal by (rule books_upd_sock) (simp_all add: bytes_on_item)
  done

lemma keeps_totals_intros [simp]:
  "keeps_totals (\<lambda>i. i\<lparr>Processes := f i\<rparr>)" "keeps_totals (\<lambda>i. i\<lparr>ApplicationPath := g i\<rparr>)"
  "keeps_totals (\<lambda>i. i\<lparr>ApplicationCommandLine := g i\<rparr>)" "keeps_totals (\<lambda>i. i\<lparr>ApplicationName := g i\<rparr>)"
  "keeps_totals (\<lambda>i. i\<lparr>Sockets := h i\<rparr>)" "keeps_totals (\<lambda>i. i\<lparr>ConnectionState := j i\<rparr>)"
  "keeps_totals (\<lambda>i. i\<lparr>UDPPerConnectionTraffic := k i\<rparr>)" "keeps_totals (set_local l)" "keeps_totals (set_protocol p)"
  "keeps_totals (set_listen L)"
  by (simp_all add: keeps_totals_def set_local_def set_protocol_def set_listen_def)

lemma books_sock_const:
  "TotalDownloadBytes i = TotalDownloadBytes (sock_item s a) \<Longrightarrow> TotalUploadBytes i = TotalUploadBytes (sock_item s a) \<Longrightarrow>
     books d (upd_sock_item a (\<lambda>_. i) s) = books d s"
  by (cases "a < length (SockHeap s)")
    (simp_all add: books_def upd_sock_def map_update bytes_def on_item_def list_update_beyond list_update_same_conv)

lemma books_fields [books_simps]:
  "books d (fire e s) = books d s" "books d (register i r s) = books d s" "books d (unregister i s) = books d s"
  "books d (SendLookupRequest es s) = books d s" "books d (on_update E u s) = books d s" "books d (upd_tuple t g s) = books d s"
  "books d (s\<lparr>OrphanedSockets := o'\<rparr>) = books d s" "books d (s\<lparr>Parser := P\<rparr>) = books d s" "books d (s\<lparr>StatUpdates := st\<rparr>) = books d s"
  "books d (s\<lparr>TupleHeap := th\<rparr>) = books d s" "books d (s\<lparr>MapUpdate := mu\<rparr>) = books d s" "books d (refresh_filters E s) = books d s"
  "books d (snd (take_id s)) = books d s" "books d (upd_system_item f s) = books d s" "books d (s\<lparr>AppMap := am\<rparr>) = books d s"
  "books d (s\<lparr>ProcessMap := pm\<rparr>) = books d s" "books d (s\<lparr>SocketMap := sm\<rparr>) = books d s" "books d (push_system d' n s) = books d s"
  "books d (push_filters d' n i' l r' s) = books d s" "books d (s\<lparr>SystemCounter := sc\<rparr>) = books d s"
  by (simp_all add: books_def fire_def register_def unregister_def SendLookupRequest_def on_update_def upd_tuple_def
      refresh_filters_def take_id_def upd_system_item_def push_system_def push_filters_def)

lemma books_updates [books_simps]:
  "books d (MarkItemForRemoval E i s) = books d s" "books d (AddStateChange E c s) = books d s" "books d (AddTupleAddition E e a s) = books d s"
  "books d (AddSocketAddition E a s) = books d s" "books d (AddItemRemoval E i s) = books d s"
  by (simp_all add: MarkItemForRemoval_def AddStateChange_def AddTupleAddition_def AddSocketAddition_def AddItemRemoval_def books_simps)

lemma books_counters [books_simps]:
  "books d (upd_app a (Refresh N) s) = books d s" "books d (upd_proc p (\<lambda>c. c\<lparr>ProcCounter := Refresh N (ProcCounter c)\<rparr>) s) = books d s"
  "books d (upd_proc p (\<lambda>c. c\<lparr>ProcCounter := MarkForRemoval N (ProcCounter c)\<rparr>) s) = books d s"
  "books d (upd_sock k (\<lambda>c. c\<lparr>SockCounter := Refresh N (SockCounter c)\<rparr>) s) = books d s"
  "books d (upd_sock k (\<lambda>c. c\<lparr>SockCounter := MarkForRemoval N (SockCounter c)\<rparr>) s) = books d s"
  "books d (upd_sock k (\<lambda>c. c\<lparr>UDPPerConnectionCounters := u c\<rparr>) s) = books d s"
  "books d (push_app d' 0 a s) = books d s" "books d (push_proc d' 0 p s) = books d s"
  by (rule books_upd_app books_upd_proc books_upd_sock; simp)+

lemma books_fold: "(\<And>x s. books d (f x s) = books d s) \<Longrightarrow> books d (fold f xs s) = books d s"
  by (induction xs arbitrary: s) simp_all

lemma books_GetOrCreate [books_simps]: "books d (snd (GetOrCreateUDPTupleCounter E a e s)) = books d s"
  by (simp add: GetOrCreateUDPTupleCounter_def Let_def split_beta books_item books_simps split: option.split)

lemma books_udp_packet [books_simps]: "books d (udp_packet E t a l r s) = books d s"
  by (simp add: udp_packet_def Let_def split_beta books_simps)

lemma totals_infer:
  "TotalDownloadBytes (fst (infer_endpoints h g p l r i)) = TotalDownloadBytes i" "TotalUploadBytes (fst (infer_endpoints h g p l r i)) = TotalUploadBytes i"
  "infer_type E P r i = Some x \<Longrightarrow> TotalDownloadBytes (fst x) = TotalDownloadBytes i \<and> TotalUploadBytes (fst x) = TotalUploadBytes i"
  by (auto simp: infer_endpoints_def infer_type_def Let_def set_protocol_def set_local_def set_remote_def split: if_splits option.splits)

lemma books_apply_packet: "books d (snd (apply_packet E t H a s)) = books d s"
proof -
  let ?i = "\<lambda>h g p l r. fst (infer_endpoints h g p l r (sock_item s a))"
  have 1: "books d (upd_sock_item a (\<lambda>_. ?i h g p l r) s) = books d s" for h g p l r
    by (rule books_sock_const) (simp_all add: totals_infer)
  have 2: "books d (upd_sock_item a (\<lambda>_. fst x) s) = books d s" if "infer_type E P r' (?i h g p l r) = Some x" for P r' h g p l r x
    by (rule books_sock_const) (use totals_infer(3) [OF that] in \<open>simp_all add: totals_infer\<close>)
  show ?thesis unfolding apply_packet_def Let_def split_beta
    by (split option.split, intro conjI allI impI, simp add: 1)
      (drule 2, simp only: books_simps snd_conv if_cancel if_distrib [of "books d"])
qed

lemma books_DoPacketParsing [books_simps]: "books d (snd (DoPacketParsing E Event a s)) = books d s"
  by (simp add: DoPacketParsing_def Let_def split_beta books_apply_packet split: option.split)

lemma books_ProcessEventAt [books_simps]: "books d (ProcessEventAt E Event a s) = books d s"
  by (simp add: ProcessEventAt_def ProcessSocketEvent_def Let_def split_beta books_simps books_sock_const apply_event_frame
      split: option.split)

lemma books_mark_closed [books_simps]: "books d (mark_closed E a s) = books d s"
  by (simp add: mark_closed_def Let_def books_item books_simps)

lemma books_MarkSocketForRemoval [books_simps]: "books d (MarkSocketForRemoval E Event s) = books d s"
  by (simp add: MarkSocketForRemoval_def Let_def books_simps split: option.split)

lemma books_ReparentAcceptedSocket [books_simps]: "books d (ReparentAcceptedSocket a s) = books d s"
  by (simp add: ReparentAcceptedSocket_def Let_def books_simps)

lemma books_refresh_all [books_simps]: "books d (refresh_all E s) = books d s"
  by (simp add: refresh_all_def refresh_socket_def Let_def books_fold books_simps split_beta)

lemma books_remove_process_socket: "books d (snd (remove_process_socket E c k acc)) = books d (snd acc)"
  by (simp add: remove_process_socket_def Let_def split_beta books_item books_fold remove_tuple_def books_simps split: option.split)

lemma books_remove_process [books_simps]: "books d (remove_process E pid p s) = books d s"
proof -
  have "books d (snd (fold (\<lambda>(c, k). remove_process_socket E c k) xs acc)) = books d (snd acc)" for xs acc
    by (induction xs arbitrary: acc) (auto simp: books_remove_process_socket)
  then show ?thesis by (simp add: remove_process_def Let_def split_beta books_item books_simps)
qed

lemma books_cleanup [books_simps]:
  "books d (cleanup_process E pid p s) = books d s" "books d (cleanup_socket E c a s) = books d s" "books d (cleanup_app E k q s) = books d s"
  by (simp_all add: cleanup_process_def cleanup_socket_def cleanup_app_def remove_socket_def cleanup_tuple_def Let_def split_beta
      books_item books_fold books_simps)

lemma books_Cleanup [books_simps]: "books d (snd (Cleanup E s)) = books d s"
  by (simp add: Cleanup_def Let_def books_fold books_simps split_beta split: option.split)

section \<open>Opening accounts and booking packets\<close>

definition accounts_ok :: "WSystemMap \<Rightarrow> bool" where
  "accounts_ok s \<longleftrightarrow> tree_ok s \<and> (\<forall>d. balanced (books d s))"

lemma bytes_new [simp]:
  "bytes d (TTrafficCounter_init N (new_app_item i n k l)) = 0" "bytes d (TTrafficCounter_init N (new_proc_item i pid)) = 0"
  "bytes d (TTrafficCounter_init N (new_sock_item i c)) = 0"
  by (simp_all add: bytes_def TTrafficCounter_init_def new_app_item_def new_proc_item_def new_sock_item_def ITrafficItem_init_def
      ITrafficItem.defs WSocketItem.defs WProcessItem.defs WApplicationItem.defs)

lemma balanced_app: "balanced (books d s) \<Longrightarrow> bytes d c = 0 \<Longrightarrow> balanced (books d (s\<lparr>NextItemId := j, AppHeap := AppHeap s @ [c]\<rparr>))"
  using balanced_new_app by (simp add: books_def)

lemma balanced_proc:
  "balanced (books d s) \<Longrightarrow> bytes d (ProcCounter c) = 0 \<Longrightarrow> ParentApp c < length (AppHeap s) \<Longrightarrow>
     balanced (books d (s\<lparr>NextItemId := j, ProcHeap := ProcHeap s @ [c]\<rparr>))"
  using balanced_new_proc by (simp add: books_def)

lemma balanced_sock:
  "balanced (books d s) \<Longrightarrow> bytes d (SockCounter c) = 0 \<Longrightarrow> ParentProcess c < length (ProcHeap s) \<Longrightarrow>
     balanced (books d (s\<lparr>NextItemId := j, SockHeap := SockHeap s @ [c]\<rparr>))"
  using balanced_new_sock by (simp add: books_def)

lemma FindOrMapSocket_balanced:
  "balanced (books d s) \<Longrightarrow> p < length (ProcHeap s) \<Longrightarrow> balanced (books d (snd (FindOrMapSocket E c p s)))"
  by (auto simp: FindOrMapSocket_def Let_def take_id_def books_item books_simps balanced_sock split: option.split)

lemma FindOrMapProcess_balanced:
  "balanced (books d s) \<Longrightarrow> q < length (AppHeap s) \<Longrightarrow> balanced (books d (snd (FindOrMapProcess E pid q s)))"
  by (auto simp: FindOrMapProcess_def Let_def take_id_def books_item books_simps balanced_proc split: option.split)

lemma FindOrMapApplication_balanced:
  assumes "balanced (books d s)"
  shows "balanced (books d (snd (FindOrMapApplication E x cmd n s)))"
proof -
  have "balanced (books d (snd (NewApplication E k cmd n s)))" for k
    using assms by (simp add: NewApplication_def Let_def take_id_def books_simps balanced_app)
  moreover have "books d (UpgradeApplication k cmd n old a s) = books d s" for k old a
    by (simp add: UpgradeApplication_def Let_def books_item books_simps)
  ultimately show ?thesis using assms
    by (simp add: FindOrMapApplication_def Let_def split: option.split alias_result.split)
qed

lemma books_PushTrafficForSocket:
  assumes "a < length (SockHeap s)" "ParentProcess (SockHeap s ! a) < length (ProcHeap s)"
    "ParentApp (ProcHeap s ! ParentProcess (SockHeap s ! a)) < length (AppHeap s)"
  shows "books d (PushTrafficForSocket Event a s) =
    (if Direction (traffic_data (EventData Event)) = d
     then book_packet (TrafficBytes (traffic_data (EventData Event))) a (books d s) else books d s)"
proof -
  let ?d = "Direction (traffic_data (EventData Event))" and ?n = "TrafficBytes (traffic_data (EventData Event))"
  let ?p = "ParentProcess (SockHeap s ! a)"
  let ?q = "ParentApp (ProcHeap s ! ?p)"
  have q: "ParentApp (ProcHeap (push_proc ?d ?n ?p (push_sock ?d ?n a s)) ! ?p) = ?q"
    using assms(2) by (simp add: upd_proc_def upd_sock_def)
  have "books d (PushTrafficForSocket Event a s) = books d (push_app ?d ?n ?q (push_proc ?d ?n ?p (push_sock ?d ?n a s)))"
    by (simp add: PushTrafficForSocket_def Let_def books_item books_simps q)
  also have "\<dots> = (if ?d = d then book_packet ?n a (books d s) else books d s)"
    using assms by (simp add: books_def book_packet_def Let_def upd_app_def upd_proc_def upd_sock_def map_update list_update_same_conv)
  finally show ?thesis .
qed

lemma PushTraffic_ok:
  assumes ok: "accounts_ok s" and live: "map_of (SocketMap s) c = Some a"
  shows "accounts_ok (PushTrafficForSocket Event a s)"
proof -
  have t: "tree_ok s" using ok by (simp add: accounts_ok_def)
  have a: "a < length (SockHeap s)" using live_bounds(3) [OF t live] .
  obtain pid where pid: "map_of (ProcessMap s) pid = Some (ParentProcess (SockHeap s ! a))" using live_parents(2) [OF t live] by blast
  obtain k where k: "map_of (AppMap s) k = Some (ParentApp (ProcHeap s ! ParentProcess (SockHeap s ! a)))"
    using live_parents(1) [OF t pid] by blast
  note b = books_PushTrafficForSocket [OF a live_bounds(2) [OF t pid] live_bounds(1) [OF t k]]
  have "balanced (book_packet n a (books d s))" for d n
    using ok balanced_packet [of "fst (books d s)" "fst (snd (books d s))" "snd (snd (books d s))" a n] a
    by (simp add: accounts_ok_def books_def)
  then show ?thesis using ok tree_ok_shape [OF shape_PushTrafficForSocket] by (simp add: accounts_ok_def b)
qed

lemma accounts_ok_frame: "shape t = shape s \<Longrightarrow> (\<And>d. books d t = books d s) \<Longrightarrow> accounts_ok t = accounts_ok s"
  using tree_ok_shape [of t s] by (simp add: accounts_ok_def)

lemma MapSocket_ok:
  assumes ok: "accounts_ok s" and m: "MapSocket E Event pid silent s = (r, s')"
  shows "accounts_ok s'"
proof -
  have t: "tree_ok s" and b: "\<And>d. balanced (books d s)" using ok by (simp_all add: accounts_ok_def)
  obtain x cmd n where info: "ProcessInfo (Proc E) pid = (x, cmd, n)" by (cases "ProcessInfo (Proc E) pid")
  obtain q s1 where q: "FindOrMapApplication E x cmd n s = (q, s1)" by force
  obtain p s2 where p: "FindOrMapProcess E pid q s1 = (p, s2)" by force
  obtain k where 1: "tree_ok s1" "map_of (AppMap s1) k = Some q"
    using FindOrMapApplication_tree [OF t, of E x cmd n] q by auto
  have 2: "tree_ok s2" "map_of (ProcessMap s2) pid = Some p"
    using FindOrMapProcess_tree [OF 1, of E pid] p by auto
  have "balanced (books d s1)" for d using FindOrMapApplication_balanced [OF b, of d E x cmd n] q by simp
  then have "balanced (books d s2)" for d using FindOrMapProcess_balanced [OF _ live_bounds(1) [OF 1], of d E pid] p by simp
  then have "balanced (books d (snd (FindOrMapSocket E c p s2)))" for d c
    by (rule FindOrMapSocket_balanced) (rule live_bounds(2) [OF 2])
  then have "balanced (books d s')" for d
    using m b by (auto simp: MapSocket_def Let_def info q p split_beta split: if_splits option.splits)
  then show ?thesis using MapSocket_tree(1) [OF t m] by (simp add: accounts_ok_def)
qed

lemma accounts_ok_sock_item:
  "(\<And>i. Cookie (f i) = Cookie i) \<Longrightarrow> keeps_totals f \<Longrightarrow> accounts_ok (upd_sock_item a f s) = accounts_ok s"
  by (rule accounts_ok_frame) (simp_all add: shape_sock_item books_item)

lemma add_listening_ok: "accounts_ok s \<Longrightarrow> accounts_ok (add_listening E c Ls s)"
proof (induction E c Ls s rule: add_listening.induct)
  case (2 E c L Ls s)
  obtain r s1 where m: "MapSocket E (synthetic_event c) (ListenPID L) False s = (r, s1)" by force
  have "accounts_ok s1" using MapSocket_ok [OF 2(4) m] .
  with 2 m show ?case by (cases r) (simp_all add: accounts_ok_sock_item)
qed simp

lemma MapSocketFromTrafficEvent_ok:
  assumes ok: "accounts_ok s" and m: "MapSocketFromTrafficEvent E Event s = (err, r, s')"
  shows "accounts_ok s'" and "r = Some a \<Longrightarrow> map_of (SocketMap s') (EventCookie Event) = Some a"
proof -
  have 1: "accounts_ok t" "x = Some b \<Longrightarrow> map_of (SocketMap t) (EventCookie Event) = Some b"
    if "MapSocket E Event pid False s = (x, t)" for pid x t b
    using MapSocket_ok [OF ok that] MapSocket_tree(2) [OF _ that] ok by (simp_all add: accounts_ok_def)
  have "SocketMap (upd_sock b g t) = SocketMap t" for b g t by (simp add: upd_sock_def)
  then show "accounts_ok s'" "r = Some a \<Longrightarrow> map_of (SocketMap s') (EventCookie Event) = Some a" using m ok 1
    by (auto simp: MapSocketFromTrafficEvent_def Let_def accounts_ok_sock_item split: option.splits prod.splits if_splits)
qed

lemma DoPacketParsing_ok: "accounts_ok (snd (DoPacketParsing E Event a s)) = accounts_ok s"
  by (rule accounts_ok_frame) (simp_all add: shape_simps books_simps)

lemma push_system_ok: "accounts_ok (push_system d n s) = accounts_ok s"
  by (rule accounts_ok_frame) (simp_all add: shape_simps books_simps)

lemma traffic_event_ok:
  assumes ok: "accounts_ok s"
  shows "accounts_ok (snd (MapPushIncomingTraffic E Event s))" "accounts_ok (snd (MapPushOutgoingTraffic E Event s))"
proof -
  define n where "n = TrafficBytes (traffic_data (EventData Event))"
  have ok1: "accounts_ok (push_system d m s)" for d m using ok by (simp add: push_system_ok)
  show "accounts_ok (snd (MapPushIncomingTraffic E Event s))"
    using ok1 PushTraffic_ok [OF ok1] by (cases "map_of (SocketMap s) (EventCookie Event)")
      (auto simp: MapPushIncomingTraffic_def Let_def DoPacketParsing_ok push_system_def)
  show "accounts_ok (snd (MapPushOutgoingTraffic E Event s))"
  proof (cases "map_of (SocketMap (push_system PD_Outgoing n s)) (EventCookie Event)")
    case (Some a)
    then show ?thesis using PushTraffic_ok [OF ok1] by (auto simp: MapPushOutgoingTraffic_def Let_def DoPacketParsing_ok push_system_def)
  next
    case None
    obtain err r s2 where m: "MapSocketFromTrafficEvent E Event (push_system PD_Outgoing n s) = (err, r, s2)" by (cases "MapSocketFromTrafficEvent E Event (push_system PD_Outgoing n s)")
    note ok2 = MapSocketFromTrafficEvent_ok [OF ok1 m]
    have "accounts_ok (PushTrafficForSocket Event a s2)" if "r = Some a" for a using PushTraffic_ok [OF ok2(1) ok2(2) [OF that]] .
    then show ?thesis using None m ok2(1) by (cases err; cases r) (simp_all add: MapPushOutgoingTraffic_def Let_def DoPacketParsing_ok n_def)
  qed
qed

lemma HandleSocketEvent_ok:
  assumes ok: "accounts_ok s" and h: "HandleSocketEvent E Event s = (None, t)"
  shows "accounts_ok t"
proof -
  obtain r s1 where m: "MapSocket E Event (event_pid Event) (EventType Event = NE_Traffic \<or> EventType Event = NE_SocketClosed
      \<or> EventType Event = NE_TCPSocketEstablished_4 \<or> EventType Event = NE_TCPSocketEstablished_6) s = (r, s1)" by force
  have ok1: "accounts_ok s1" using MapSocket_ok [OF ok m] .
  have frame: "accounts_ok (ProcessEventAt E Event a s1)" "accounts_ok (ReparentAcceptedSocket a (ProcessEventAt E Event a s1))"
    "accounts_ok (MarkSocketForRemoval E Event s1)" for a
    using ok1 accounts_ok_frame [OF shape_ProcessEventAt books_ProcessEventAt] accounts_ok_frame [OF shape_ReparentAcceptedSocket books_ReparentAcceptedSocket]
      accounts_ok_frame [OF shape_MarkSocketForRemoval books_MarkSocketForRemoval]
    by simp_all
  have merge: "MergeSyntheticSocket a x = (None, y) \<Longrightarrow> y = x" for a x y
    by (auto simp: MergeSyntheticSocket_def Let_def split: if_splits option.splits)
  show ?thesis using h ok1 traffic_event_ok [OF ok1, of E Event] frame
    by (auto simp: HandleSocketEvent_def Let_def m split: if_splits option.splits prod.splits dest!: merge)
qed

lemma accounts_ok_initial: "map_initial s \<Longrightarrow> accounts_ok s"
  using tree_ok_initial by (auto simp: accounts_ok_def map_initial_def books_def balanced_def init_maps)

lemma accounts_ok_step: "map_step s t \<Longrightarrow> accounts_ok s \<Longrightarrow> accounts_ok t"
proof (induction rule: map_step.induct)
  case (refresh E s t)
  then show ?case using Cleanup_tree [of "refresh_all E s" E] tree_ok_shape [OF shape_refresh_all] books_Cleanup [of _ E "refresh_all E s"]
    by (simp add: RefreshAllTrafficCounters_def accounts_ok_def books_simps)
next
  case (existing E s t)
  then show ?case using add_listening_ok accounts_ok_frame [OF shape_fields(8) books_fields(8)]
    by (auto simp: AddExistingSockets_def split: option.splits)
next
  case (lookup E Ep PID s t)
  then show ?case using accounts_ok_frame [OF shape_fields(7) books_fields(7)]
    by (auto simp: ReparentOrphanedSocket_def split: option.splits if_splits)
next
  case (initial_apps s)
  have "books d (ProcessInitialApps s) = books d s" for d by (simp add: ProcessInitialApps_def books_fold books_simps split_beta)
  with initial_apps show ?case using accounts_ok_frame [OF shape_ProcessInitialApps] by blast
next
  case (updates s)
  have "books d (snd (GetUpdates s)) = books d s" for d by (simp add: GetUpdates_def Let_def books_simps)
  with updates show ?case using accounts_ok_frame [OF shape_GetUpdates] by blast
qed (rule HandleSocketEvent_ok)

interpretation accounts_sm: state_machine map_initial map_step accounts_ok
  by unfold_locales (auto intro: accounts_ok_initial accounts_ok_step)


text \<open>The socket of the example sends 100 bytes.\<close>

definition test_traffic :: WSocketEvent where
  "test_traffic = \<lparr>EventType = NE_Traffic, EventCookie = 7, PidTgId = 0, CgroupId = 0,
     EventData = TrafficEventData \<lparr>RawData = replicate 128 0, TrafficBytes = 100, Timestamp = 0, Direction = PD_Outgoing\<rparr>\<rparr>"

definition test_sent :: WSystemMap where
  "test_sent = snd (HandleSocketEvent test_sys_env test_traffic test_map)"

lemma reachable_test_sent: "reachable map_initial map_step test_sent"
proof -
  have "fst (HandleSocketEvent test_sys_env test_traffic test_map) = None" by code_simp
  then have "HandleSocketEvent test_sys_env test_traffic test_map = (None, test_sent)" by (simp add: test_sent_def prod_eq_iff)
  then show ?thesis by (rule reach_step [OF reachable_test_map event])
qed


section \<open>Filters\<close>

definition filter_bytes :: "EPacketDirection \<Rightarrow> nat \<Rightarrow> WSystemMap \<Rightarrow> WBytes" where
  "filter_bytes d j s = bytes d (FilterCounter (FilterCounters s ! j))"

lemma filters_frame [simp]:
  "FilterCounters (upd_app a f s) = FilterCounters s" "FilterCounters (upd_proc p g s) = FilterCounters s"
  "FilterCounters (upd_sock k h s) = FilterCounters s" "FilterCounters (upd_tuple t l s) = FilterCounters s"
  "FilterCounters (fire e s) = FilterCounters s" "FilterCounters (register i r s) = FilterCounters s"
  "FilterCounters (on_update E u s) = FilterCounters s" "FilterCounters (push_system d n s) = FilterCounters s"
  "FilterCounters (AddTupleAddition E ep t s) = FilterCounters s" "FilterCounters (AddStateChange E c s) = FilterCounters s"
  by (simp_all add: upd_app_def upd_proc_def upd_sock_def upd_tuple_def fire_def register_def on_update_def push_system_def
      AddTupleAddition_def AddStateChange_def)

lemma filters_GetOrCreate [simp]: "FilterCounters (snd (GetOrCreateUDPTupleCounter E a ep s)) = FilterCounters s"
  by (simp add: GetOrCreateUDPTupleCounter_def Let_def take_id_def split: option.split)

lemma push_filters_bytes:
  assumes "j < length (FilterCounters s)" and "FilterFunction (FilterCounters s ! j) = address_filter g"
  shows "filter_bytes d j (push_filters d n i l r s) = filter_bytes d j s + (if g (Address r) then n else 0)"
    and "FilterFunction (FilterCounters (push_filters d n i l r s) ! j) = address_filter g"
    and "length (FilterCounters (push_filters d n i l r s)) = length (FilterCounters s)"
  using assms by (simp_all add: filter_bytes_def push_filters_def address_filter_def)

lemma PushTrafficForSocket_filter:
  assumes "j < length (FilterCounters s)" and "FilterFunction (FilterCounters s ! j) = address_filter g"
    and "d = Direction (traffic_data (EventData Event))" and "n = TrafficBytes (traffic_data (EventData Event))"
  shows "filter_bytes d j (PushTrafficForSocket Event a s) =
      filter_bytes d j s + (if g (Address (RemoteEndpoint (SocketTuple (sock_item s a)))) then n else 0)"
    and "FilterFunction (FilterCounters (PushTrafficForSocket Event a s) ! j) = address_filter g"
    and "j < length (FilterCounters (PushTrafficForSocket Event a s))"
proof -
  obtain i t where e: "PushTrafficForSocket Event a s = upd_sock_item a (\<lambda>i. i\<lparr>ConnectionState := Connected\<rparr>)
      (push_filters d n i (LocalEndpoint (SocketTuple (sock_item s a))) (RemoteEndpoint (SocketTuple (sock_item s a))) t)"
    and f: "FilterCounters t = FilterCounters s"
    by (simp add: PushTrafficForSocket_def Let_def assms(3,4))
  have b: "filter_bytes d j (upd_sock k h x) = filter_bytes d j x" "filter_bytes d j t = filter_bytes d j s" for k h x
    by (simp_all add: filter_bytes_def f)
  show "filter_bytes d j (PushTrafficForSocket Event a s) =
      filter_bytes d j s + (if g (Address (RemoteEndpoint (SocketTuple (sock_item s a)))) then n else 0)"
    "FilterFunction (FilterCounters (PushTrafficForSocket Event a s) ! j) = address_filter g"
    "j < length (FilterCounters (PushTrafficForSocket Event a s))"
    using push_filters_bytes [of j t g] assms(1,2) by (simp_all add: e b f)
qed

lemma PushTrafficForSocket_item:
  assumes "a < length (SockHeap s)"
  shows "SocketTuple (sock_item (PushTrafficForSocket Event a s) a) = SocketTuple (sock_item s a)"
    and "SocketType (sock_item (PushTrafficForSocket Event a s) a) = SocketType (sock_item s a)"
    and "length (SockHeap (PushTrafficForSocket Event a s)) = length (SockHeap s)"
proof -
  let ?c = "SockHeap s ! a" and ?t = "traffic_data (EventData Event)"
  have e: "SockHeap (PushTrafficForSocket Event a s) =
    (SockHeap s)[a := ?c\<lparr>SockCounter := on_item (\<lambda>i. i\<lparr>ConnectionState := Connected\<rparr>) (push_dir (Direction ?t) (TrafficBytes ?t) (SockCounter ?c))\<rparr>]"
    using assms by (simp add: PushTrafficForSocket_def Let_def push_filters_def upd_app_def upd_proc_def upd_sock_def)
  have "TrafficItem (push_dir d n c) = TrafficItem c" for d n and c :: "(addr, unit) WSocketItem_ext TTrafficCounter"
    by (simp add: push_dir_def PushIncomingTraffic_def PushOutgoingTraffic_def)
  then show "SocketTuple (sock_item (PushTrafficForSocket Event a s) a) = SocketTuple (sock_item s a)"
    "SocketType (sock_item (PushTrafficForSocket Event a s) a) = SocketType (sock_item s a)"
    "length (SockHeap (PushTrafficForSocket Event a s)) = length (SockHeap s)"
    using assms by (simp_all add: e on_item_def)
qed

lemma udp_packet_filter:
  assumes "j < length (FilterCounters s)" and "FilterFunction (FilterCounters s ! j) = address_filter g"
    and "Protocol (SocketTuple (sock_item s a)) = Proto_UDP" and "\<not> IsZero (Address r)"
  shows "filter_bytes (Direction t) j (udp_packet E t a l r s) =
    filter_bytes (Direction t) j s + (if g (Address r) then TrafficBytes t else 0)"
proof -
  have b: "filter_bytes d j (AddTupleAddition E ep k x) = filter_bytes d j x" "filter_bytes d j (upd_tuple k h x) = filter_bytes d j x"
    "filter_bytes d j (snd (GetOrCreateUDPTupleCounter E a ep x)) = filter_bytes d j x" for d ep k h x
    by (simp_all add: filter_bytes_def)
  show ?thesis using assms by (simp add: udp_packet_def Let_def split_beta b push_filters_bytes)
qed

lemma DoPacketParsing_filter:
  assumes "j < length (FilterCounters s)" and "FilterFunction (FilterCounters s ! j) = address_filter g"
    and a: "a < length (SockHeap s)" and "SocketType (sock_item s a) \<noteq> ST_Unknown" and "Protocol (SocketTuple (sock_item s a)) = Proto_UDP"
    and t: "t = traffic_data (EventData Event)" and "ParsePacket (RawData t) 128 = Some (True, H)" and "L4Proto H = Proto_UDP"
    and "r = (if Direction t = PD_Outgoing then Dst H else Src H)" and "\<not> IsZero (Address r)"
  shows "filter_bytes (Direction t) j (snd (DoPacketParsing E Event a s)) =
    filter_bytes (Direction t) j s + (if g (Address r) then TrafficBytes t else 0)"
proof -
  have b: "filter_bytes d j (AddStateChange E c x) = filter_bytes d j x" "filter_bytes d j (upd_sock k h x) = filter_bytes d j x" for d c k h x
    by (simp_all add: filter_bytes_def)
  have ty: "SocketType (fst (infer_endpoints h m p l q i)) = SocketType i" "Protocol (SocketTuple (fst (infer_endpoints h m p l q i))) = p" for h m p l q and i :: "addr WSocketItem"
    by (simp_all add: infer_endpoints_def Let_def set_defs)
  have inf: "infer_type E P q (fst (infer_endpoints h m p l q i)) = Some (fst (infer_endpoints h m p l q i), False)" if "SocketType i \<noteq> ST_Unknown"
    for P h m p l q and i :: "addr WSocketItem" using that by (simp add: infer_type_def ty)
  have item: "sock_item (upd_sock_item a (\<lambda>_. i) s) a = i" for i using sock_item_const [OF a] .
  show ?thesis using assms
    by (simp add: DoPacketParsing_def apply_packet_def Let_def split_beta inf b udp_packet_filter item ty)
qed

text \<open>
  The filters count the traffic of a connected UDP socket twice: when a UDP socket has a remote endpoint (it
  called \<^verbatim>\<open>connect\<close>), every packet it exchanges with that endpoint is added to the matching filter once for the socket
  and once for the tuple of the endpoint, so the filter grows by twice the packet. Without a remote endpoint only the
  tuple is counted and the filter grows by the packet.
\<close>

theorem udp_filter_traffic:
  assumes "j < length (FilterCounters s)" and "FilterFunction (FilterCounters s ! j) = address_filter g"
    and "a < length (SockHeap s)" and "SocketType (sock_item s a) \<noteq> ST_Unknown" and "Protocol (SocketTuple (sock_item s a)) = Proto_UDP"
    and "t = traffic_data (EventData Event)" and "ParsePacket (RawData t) 128 = Some (True, H)" and "L4Proto H = Proto_UDP"
    and "r = (if Direction t = PD_Outgoing then Dst H else Src H)" and "\<not> IsZero (Address r)" and "g (Address r)"
  shows "filter_bytes (Direction t) j (snd (DoPacketParsing E Event a (PushTrafficForSocket Event a s))) =
    filter_bytes (Direction t) j s +
      (if g (Address (RemoteEndpoint (SocketTuple (sock_item s a)))) then 2 * TrafficBytes t else TrafficBytes t)"
proof -
  let ?s = "PushTrafficForSocket Event a s"
  note p = PushTrafficForSocket_filter [OF assms(1,2), of "Direction t" Event "TrafficBytes t" a]
  note i = PushTrafficForSocket_item [OF assms(3), of Event]
  have "filter_bytes (Direction t) j (snd (DoPacketParsing E Event a ?s)) = filter_bytes (Direction t) j ?s + TrafficBytes t"
    using DoPacketParsing_filter [of j ?s g a t Event H r E] p i assms by simp
  then show ?thesis using p(1) assms(6) by simp
qed

text \<open>A UDP socket connected to 8.8.8.8:53 sends 60 bytes there.\<close>

definition test_remote :: WEndpoint where
  "test_remote = \<lparr>Address = \<lparr>Bytes = [8, 8, 8, 8] @ replicate 12 0, Family = IPv4\<rparr>, Port = 53\<rparr>"

definition test_udp_item :: "addr WSocketItem" where
  "test_udp_item = (new_sock_item 9 7)\<lparr>SocketTuple := WSocketTuple_init\<lparr>RemoteEndpoint := test_remote, Protocol := Proto_UDP\<rparr>,
     SocketType := ST_Connect, ConnectionState := Connecting\<rparr>"

definition test_udp :: WSystemMap where
  "test_udp = (WSystemMap_init test_sys_env WSocketStateParser_empty ''host'')\<lparr>SockHeap :=
     [\<lparr>SockCounter = TTrafficCounter_init 0 test_udp_item, ParentProcess = 0, UDPPerConnectionCounters = []\<rparr>]\<rparr>"

definition test_datagram :: WSocketTrafficEventData where
  "test_datagram = \<lparr>RawData = [0x45, 0, 0, 60, 0, 0, 0, 0, 64, 17, 0, 0, 10, 0, 0, 1, 8, 8, 8, 8, 0x30, 0x39, 0, 53, 0, 40, 0, 0] @ replicate 100 0,
     TrafficBytes = 60, Timestamp = 0, Direction = PD_Outgoing\<rparr>"

definition test_send :: WSocketEvent where
  "test_send = \<lparr>EventType = NE_Traffic, EventCookie = 7, PidTgId = 0, CgroupId = 0, EventData = TrafficEventData test_datagram\<rparr>"

lemma test_udp_filters:
  "length (FilterCounters test_udp) = 3" "FilterFunction (FilterCounters test_udp ! 0) = address_filter IsInternetAddress"
  by (simp_all add: test_udp_def WSystemMap_init_def Let_def RegisterDefaultFilters_def AddFilter_def take_id_def upd_system_item_def)

theorem udp_filter_traffic_witness:
  "filter_bytes PD_Outgoing 0 (snd (DoPacketParsing test_sys_env test_send 0 (PushTrafficForSocket test_send 0 test_udp))) = 120"
proof -
  obtain H where H: "ParsePacket (RawData test_datagram) 128 = Some (True, H)" and p: "L4Proto H = Proto_UDP" and r: "Dst H = test_remote"
  proof -
    have "map_option (\<lambda>(ok, H). (ok, L4Proto H, Dst H)) (ParsePacket (RawData test_datagram) 128) = Some (True, Proto_UDP, test_remote)"
      by code_simp
    then show ?thesis using that by auto
  qed
  have "SocketType (sock_item test_udp 0) \<noteq> ST_Unknown" "Protocol (SocketTuple (sock_item test_udp 0)) = Proto_UDP"
    "\<not> IsZero (Address test_remote)" "IsInternetAddress (Address test_remote)" "length (SockHeap test_udp) = 1"
    "IsInternetAddress (Address (RemoteEndpoint (SocketTuple (sock_item test_udp 0))))"
    "filter_bytes PD_Outgoing 0 test_udp = 0"
    by code_simp+
  with udp_filter_traffic [of 0 test_udp IsInternetAddress 0 test_datagram test_send H test_remote test_sys_env] H p r test_udp_filters
  show ?thesis by (simp add: test_send_def test_datagram_def)
qed

end
