(* ===== verification/Ebpf_Lifecycle.thy ===== *)
theory Ebpf_Lifecycle
  imports Ebpf_Traffic Socket_Events
begin

text \<open>
  The kernel programs that follow the life of a socket: creation and destruction
  (\<^verbatim>\<open>EBPF/EBPFLifetime.h\<close>), bind (\<^verbatim>\<open>EBPF/EBPFBind.h\<close>), connect and the TCP states
  (\<^verbatim>\<open>EBPF/EBPFConnect.h\<close>), accept (\<^verbatim>\<open>EBPF/EBPFAccept.h\<close>) and the implicit bind of UDP
  (\<^verbatim>\<open>EBPF/EBPFUdp.h\<close>). They report events in the ring buffer and keep the map \<^verbatim>\<open>port_to_pid\<close>
  from which accepted connections, whose hooks run in interrupt context, get their process. What
  the kernel provides to a program run (the current task, room in the ring) is the record
  \<open>task_ctx\<close>; kernel objects are records of the fields the programs read. The theorems say whom
  an accepted connection is attributed to, that client ports are never released, and that a send
  on a native IPv6 UDP socket is not reported.
\<close>

section \<open>Kernel objects and program state\<close>

record task_ctx =
  ring_room :: bool
  cur_pid_tgid :: u64
  cur_cgroup_id :: u64

text \<open>\<^verbatim>\<open>struct sock\<close>, with the cookie \<^verbatim>\<open>bpf_get_socket_cookie\<close> gives for it. \<open>pinet6_saddr\<close> is
  \<^verbatim>\<open>pinet6->saddr\<close>, \<open>None\<close> when the pointer is null.\<close>

record sock =
  sk_ptr :: u64
  sk_cookie :: WSocketCookie
  skc_family :: u16
  skc_state :: u8
  skc_num :: u16
  skc_dport :: u16
  skc_rcv_saddr :: u32
  skc_daddr :: u32
  skc_v6_rcv_saddr :: "u32 list"
  skc_v6_daddr :: "u32 list"
  inet_sport :: u16
  inet_saddr :: u32
  pinet6_saddr :: "u32 list option"

record bpf_sock_addr =
  user_cookie :: WSocketCookie
  user_family :: u32
  user_protocol :: u32
  user_port :: u16
  user_ip4 :: u32
  user_ip6 :: "u32 list"

record bpf_sock =
  bs_ptr :: u64
  bs_cookie :: WSocketCookie
  bs_type :: u32
  bs_family :: u32
  bs_protocol :: u32

text \<open>The \<^verbatim>\<open>struct sockaddr\<close> given to bind.\<close>

record sockaddr =
  sa_family :: u16
  sa_port :: u16
  sa_addr4 :: u32
  sa_addr6 :: "u32 list"

record set_state_ctx =
  ctx_protocol :: u16
  ctx_newstate :: u8
  ctx_skaddr :: u64
  ctx_sport :: u16

record WSharedSocketData =
  SharedPid :: u32
  SharedFamily :: u32
  SharedCookie :: u64

text \<open>The maps, with the ones only these programs use, and the events submitted so far.\<close>

record life_state =
  Maps :: kernel_maps
  shared_socket_data_map :: "u64 \<rightharpoonup> WSharedSocketData"
  UdpSocketCookieByPid :: "u64 \<rightharpoonup> u64"
  UdpSkByPid :: "u64 \<rightharpoonup> u64"
  socket_event_ring :: "WSocketEvent list"

record life_accepts =
  accepts_maps :: kernel_accepts
  accepts_shared :: "(u64 \<rightharpoonup> WSharedSocketData) \<Rightarrow> u64 \<Rightarrow> bool"
  accepts_cookie :: "(u64 \<rightharpoonup> u64) \<Rightarrow> u64 \<Rightarrow> bool"
  accepts_sk :: "(u64 \<rightharpoonup> u64) \<Rightarrow> u64 \<Rightarrow> bool"

abbreviation TCP_ESTABLISHED :: u8 where "TCP_ESTABLISHED \<equiv> 1"
abbreviation TCP_CLOSE :: u8 where "TCP_CLOSE \<equiv> 7"
abbreviation TCP_LISTEN :: u8 where "TCP_LISTEN \<equiv> 10"
abbreviation IPPROTO_TCP :: u16 where "IPPROTO_TCP \<equiv> 6"
abbreviation SOCK_RAW :: u32 where "SOCK_RAW \<equiv> 3"
abbreviation KAF_INET :: u16 where "KAF_INET \<equiv> 2"
abbreviation KAF_INET6 :: u16 where "KAF_INET6 \<equiv> 10"

definition tgid :: "u64 \<Rightarrow> u32" where
  "tgid PidTgid = ucast (drop_bit 32 PidTgid)"

definition MakeSocketEvent :: "task_ctx \<Rightarrow> WSocketCookie \<Rightarrow> ENetEventType \<Rightarrow> WSocketEvent option" where
  "MakeSocketEvent T Ck Type = MakeSocketEvent2 (ring_room T) (cur_cgroup_id T) (cur_pid_tgid T) Ck Type True"

text \<open>\<^verbatim>\<open>bpf_ringbuf_submit\<close> of an event that could be reserved.\<close>

definition submit :: "WSocketEvent option \<Rightarrow> life_state \<Rightarrow> life_state" where
  "submit E s = (case E of None \<Rightarrow> s | Some e \<Rightarrow> s\<lparr>socket_event_ring := socket_event_ring s @ [e]\<rparr>)"

text \<open>Updates of \<^verbatim>\<open>port_to_pid\<close> with \<^verbatim>\<open>BPF_ANY\<close> and \<^verbatim>\<open>BPF_NOEXIST\<close>, and the deletion.\<close>

definition set_port_pid :: "life_accepts \<Rightarrow> u16 \<Rightarrow> u32 \<Rightarrow> life_state \<Rightarrow> life_state" where
  "set_port_pid A port pid s = s\<lparr>Maps := snd (UpdatePortToPid (accepts_maps A) port pid (Maps s))\<rparr>"

definition add_port_pid :: "life_accepts \<Rightarrow> u16 \<Rightarrow> u32 \<Rightarrow> life_state \<Rightarrow> life_state" where
  "add_port_pid A port pid s = (if Lookup (port_to_pid (Maps s)) port = None then set_port_pid A port pid s else s)"

definition del_port_pid :: "u16 \<Rightarrow> life_state \<Rightarrow> life_state" where
  "del_port_pid port s = s\<lparr>Maps := (Maps s)\<lparr>port_to_pid := snd (Delete port (port_to_pid (Maps s)))\<rparr>\<rparr>"

section \<open>Creation and destruction\<close>

definition on_inet_sock_destruct :: "task_ctx \<Rightarrow> sock \<Rightarrow> life_state \<Rightarrow> life_state" where
  "on_inet_sock_destruct T Sk s = submit (MakeSocketEvent T (sk_cookie Sk) NE_SocketClosed) s"

definition on_sock_create :: "life_accepts \<Rightarrow> task_ctx \<Rightarrow> bpf_sock \<Rightarrow> life_state \<Rightarrow> life_state" where
  "on_sock_create A T Socket s =
     (let Ck = bs_cookie Socket; Tgid = tgid (cur_pid_tgid T) in
      if bs_type Socket \<noteq> SOCK_STREAM \<and> bs_type Socket \<noteq> SOCK_DGRAM \<and> bs_type Socket \<noteq> SOCK_RAW then s
      else if bs_family Socket \<noteq> AF_INET \<and> bs_family Socket \<noteq> AF_INET6 then s
      else if Tgid = 0 then s
      else let Key = bs_ptr Socket;
        Data = \<lparr>SharedPid = Tgid, SharedFamily = bs_family Socket, SharedCookie = Ck\<rparr>;
        s1 = s\<lparr>shared_socket_data_map := snd (Update (accepts_shared A) Key Data (shared_socket_data_map s))\<rparr>;
        E = MakeSocketEvent T Ck NE_SocketCreate
      in submit (map_option (\<lambda>e. e\<lparr>EventData := SocketCreateEventData
           \<lparr>CreateProtocol = bs_protocol Socket, CreateFamily = bs_family Socket, CreateType = bs_type Socket\<rparr>\<rparr>) E) s1)"

section \<open>Bind\<close>

text \<open>The hook is called with the address the system call copied in, so \<^verbatim>\<open>Addr\<close> is not null;
  \<open>read_ok\<close> says whether \<^verbatim>\<open>bpf_probe_read_kernel\<close> succeeds, \<^verbatim>\<open>Sock->sk\<close> may be null.\<close>

definition bind_payload :: "sockaddr \<Rightarrow> WSocketEvent \<Rightarrow> WSocketEvent" where
  "bind_payload Addr e =
     (let Port = ucast (bpf_htons (sa_port Addr)) in
      if sa_family Addr = KAF_INET then
        e\<lparr>EventData := SocketBindEventData \<lparr>BindUserPort = Port, bImplicitBind = False, BindAddr = [sa_addr4 Addr, 0, 0, 0]\<rparr>\<rparr>
      else
        e\<lparr>EventType := NE_SocketBind_6,
          EventData := SocketBindEventData \<lparr>BindUserPort = Port, bImplicitBind = False, BindAddr = sa_addr6 Addr\<rparr>\<rparr>)"

definition socket_bind :: "life_accepts \<Rightarrow> task_ctx \<Rightarrow> bool \<Rightarrow> sock option \<Rightarrow> u32 \<Rightarrow> sockaddr \<Rightarrow> life_state \<Rightarrow> life_state" where
  "socket_bind A T read_ok Sk Type Addr s =
     (case Sk of
        None \<Rightarrow> s
      | Some Socket \<Rightarrow>
          if Type \<noteq> SOCK_STREAM \<and> Type \<noteq> SOCK_DGRAM then s
          else if sa_family Addr \<noteq> KAF_INET \<and> sa_family Addr \<noteq> KAF_INET6 then s
          else if \<not> read_ok then s
          else (case MakeSocketEvent T (sk_cookie Socket) NE_SocketBind_4 of
              None \<Rightarrow> s
            | Some e \<Rightarrow>
                let Port = bpf_htons (sa_port Addr);
                    s1 = (if Port \<noteq> 0 then set_port_pid A Port (tgid (cur_pid_tgid T)) s else s)
                in submit (Some (bind_payload Addr e)) s1))"

section \<open>Connect and TCP states\<close>

definition tracepoint__inet_sock_set_state :: "life_accepts \<Rightarrow> task_ctx \<Rightarrow> set_state_ctx \<Rightarrow> life_state \<Rightarrow> life_state" where
  "tracepoint__inet_sock_set_state A T ctx s =
     (if ctx_protocol ctx \<noteq> IPPROTO_TCP then s
      else if ctx_newstate ctx \<noteq> TCP_LISTEN then s
      else case Lookup (shared_socket_data_map s) (ctx_skaddr ctx) of
          None \<Rightarrow> s
        | Some SharedData \<Rightarrow>
            let s1 = submit (MakeSocketEvent T (SharedCookie SharedData) NE_TCPSocketListening) s;
                Lport = ctx_sport ctx
            in if Lport \<noteq> 0 \<and> SharedPid SharedData \<noteq> 0 then set_port_pid A Lport (SharedPid SharedData) s1 else s1)"

text \<open>The process an event of an accepted connection is attributed to.\<close>

definition owner_pid_tgid :: "task_ctx \<Rightarrow> u32 option \<Rightarrow> u64" where
  "owner_pid_tgid T OwnerPid =
     (case OwnerPid of
        Some p \<Rightarrow> if p \<noteq> 0 then push_bit 32 (ucast p) else cur_pid_tgid T
      | None \<Rightarrow> cur_pid_tgid T)"

text \<open>The address words of an established connection: \<^verbatim>\<open>MakeSocketEvent2\<close> zeroed the payload, which
  stays zero for any other family.\<close>

definition established_payload :: "sock \<Rightarrow> u32 option \<Rightarrow> WSocketEvent \<Rightarrow> WSocketEvent" where
  "established_payload Sk OwnerPid e =
     (let v4 = skc_family Sk = KAF_INET; v6 = skc_family Sk = KAF_INET6 in
      e\<lparr>EventType := (if v6 then NE_TCPSocketEstablished_6 else NE_TCPSocketEstablished_4),
        EventData := TCPSocketEstablishedEventData
          \<lparr>EstUserPort = ucast (skc_num Sk), EstRemotePort = ucast (bpf_htons (skc_dport Sk)),
           bIsAccept = (OwnerPid \<noteq> None),
           EstAddr = (if v4 then [skc_rcv_saddr Sk, 0, 0, 0] else if v6 then skc_v6_rcv_saddr Sk else zero_addr),
           EstRemoteAddr = (if v4 then [skc_daddr Sk, 0, 0, 0] else if v6 then skc_v6_daddr Sk else zero_addr)\<rparr>\<rparr>)"

definition tcp_closing :: "task_ctx \<Rightarrow> sock \<Rightarrow> life_state \<Rightarrow> life_state" where
  "tcp_closing T Sk s =
     (let Lport = skc_num Sk;
          s1 = submit (map_option (\<lambda>e. e\<lparr>EventData := SocketCloseEventData (ucast Lport)\<rparr>)
                 (MakeSocketEvent T (sk_cookie Sk) NE_SocketClosed)) s
      in if skc_state Sk = TCP_LISTEN \<and> Lport \<noteq> 0 then del_port_pid Lport s1 else s1)"

definition tcp_listening :: "life_accepts \<Rightarrow> task_ctx \<Rightarrow> sock \<Rightarrow> life_state \<Rightarrow> life_state" where
  "tcp_listening A T Sk s =
     (let Lport = skc_num Sk; Pid = tgid (cur_pid_tgid T) in
      if Lport \<noteq> 0 \<and> Pid \<noteq> 0 then set_port_pid A Lport Pid s else s)"

definition tcp_established :: "life_accepts \<Rightarrow> task_ctx \<Rightarrow> sock \<Rightarrow> life_state \<Rightarrow> life_state" where
  "tcp_established A T Sk s =
     (let Lport = skc_num Sk;
          OwnerPid = (if Lport \<noteq> 0 then Lookup (port_to_pid (Maps s)) Lport else None);
          s1 = (if OwnerPid = None \<and> Lport \<noteq> 0 then add_port_pid A Lport (tgid (cur_pid_tgid T)) s else s)
      in submit (map_option (\<lambda>e. established_payload Sk OwnerPid
             (e\<lparr>PidTgId := owner_pid_tgid T OwnerPid, CgroupId := cur_cgroup_id T\<rparr>))
           (MakeSocketEvent2 (ring_room T) (cur_cgroup_id T) (cur_pid_tgid T) (sk_cookie Sk) NE_TCPSocketEstablished_4 False)) s1)"

definition on_tcp_set_state :: "life_accepts \<Rightarrow> task_ctx \<Rightarrow> sock \<Rightarrow> u8 \<Rightarrow> life_state \<Rightarrow> life_state" where
  "on_tcp_set_state A T Sk Newstate s =
     (if Newstate = TCP_CLOSE then tcp_closing T Sk s
      else if Newstate = TCP_LISTEN then tcp_listening A T Sk s
      else if Newstate = TCP_ESTABLISHED then tcp_established A T Sk s
      else s)"

definition on_connect_hook :: "ENetEventType \<Rightarrow> u32 list \<Rightarrow> task_ctx \<Rightarrow> bpf_sock_addr \<Rightarrow> life_state \<Rightarrow> life_state" where
  "on_connect_hook Type addr T Ctx s =
     (if tgid (cur_pid_tgid T) = 0 then s
      else submit (map_option (\<lambda>e. e\<lparr>EventData := ConnectEventData
               \<lparr>UserFamily = user_family Ctx, ConnectProtocol = user_protocol Ctx,
                ConnectUserPort = ucast (bpf_htons (user_port Ctx)), ConnectAddr = addr\<rparr>\<rparr>)
             (MakeSocketEvent T (user_cookie Ctx) Type)) s)"

definition on_connect4 :: "task_ctx \<Rightarrow> bpf_sock_addr \<Rightarrow> life_state \<Rightarrow> life_state" where
  "on_connect4 T Ctx = on_connect_hook NE_SocketConnect_4 [user_ip4 Ctx, 0, 0, 0] T Ctx"

definition on_connect6 :: "task_ctx \<Rightarrow> bpf_sock_addr \<Rightarrow> life_state \<Rightarrow> life_state" where
  "on_connect6 T Ctx = on_connect_hook NE_SocketConnect_6 (user_ip6 Ctx) T Ctx"

section \<open>Accept\<close>

definition accept_payload :: "sock \<Rightarrow> u32 option \<Rightarrow> WSocketEvent \<Rightarrow> WSocketEvent" where
  "accept_payload Sk Parent e =
     (let v4 = skc_family Sk = KAF_INET in
      e\<lparr>EventType := (if v4 then NE_SocketAccept_4 else NE_SocketAccept_6),
        EventData := SocketAcceptEventData
          \<lparr>SourcePort = ucast (skc_num Sk), DestinationPort = ucast (bpf_htons (skc_dport Sk)),
           AcceptFamily = ucast (skc_family Sk), AcceptType = (case Parent of None \<Rightarrow> 0 | Some t \<Rightarrow> t),
           SourceAddr = (if v4 then [skc_rcv_saddr Sk, 0, 0, 0] else skc_v6_rcv_saddr Sk),
           DestinationAddr = (if v4 then [skc_daddr Sk, 0, 0, 0] else skc_v6_daddr Sk)\<rparr>\<rparr>)"

text \<open>\<open>Parent\<close> is \<^verbatim>\<open>Parent->type\<close>, \<open>None\<close> for a null pointer.\<close>

definition sock_graft :: "task_ctx \<Rightarrow> sock option \<Rightarrow> u32 option \<Rightarrow> life_state \<Rightarrow> life_state" where
  "sock_graft T Sk Parent s =
     (case Sk of
        None \<Rightarrow> s
      | Some k \<Rightarrow>
          if skc_family k \<noteq> KAF_INET \<and> skc_family k \<noteq> KAF_INET6 then s
          else submit (map_option (\<lambda>e. accept_payload k Parent
                 (e\<lparr>PidTgId := owner_pid_tgid T (Lookup (port_to_pid (Maps s)) (skc_num k)), CgroupId := cur_cgroup_id T\<rparr>))
               (MakeSocketEvent2 (ring_room T) (cur_cgroup_id T) (cur_pid_tgid T) (sk_cookie k) NE_SocketAccept_4 False)) s)"

section \<open>Implicit bind of UDP sockets\<close>

definition EmitIfBound :: "life_accepts \<Rightarrow> task_ctx \<Rightarrow> sock \<Rightarrow> u64 \<Rightarrow> life_state \<Rightarrow> life_state" where
  "EmitIfBound A T Sk Ck s =
     (let SPort = bpf_htons (inet_sport Sk) in
      if SPort = 0 then s
      else let s1 = set_port_pid A SPort (tgid (cur_pid_tgid T)) s in
        if skc_family Sk = KAF_INET then
          submit (map_option (\<lambda>e. e\<lparr>EventData := SocketBindEventData
               \<lparr>BindUserPort = ucast SPort, bImplicitBind = True, BindAddr = [inet_saddr Sk, 0, 0, 0]\<rparr>\<rparr>)
             (MakeSocketEvent T Ck NE_SocketBind_4)) s1
        else if skc_family Sk = KAF_INET6 then
          submit (map_option (\<lambda>e. e\<lparr>EventData := SocketBindEventData
               \<lparr>BindUserPort = ucast SPort, bImplicitBind = True,
                BindAddr = (case pinet6_saddr Sk of None \<Rightarrow> zero_addr | Some a \<Rightarrow> a)\<rparr>\<rparr>)
             (MakeSocketEvent T Ck NE_SocketBind_6)) s1
        else s1)"

text \<open>The return probes have a pointer from the entry probe; what it points to is read now, from \<open>mem\<close>.\<close>

definition emit_at :: "life_accepts \<Rightarrow> task_ctx \<Rightarrow> (u64 \<Rightarrow> sock) \<Rightarrow> u64 \<Rightarrow> u64 \<Rightarrow> life_state \<Rightarrow> life_state" where
  "emit_at A T mem Psk Ck s = (if Psk = 0 then s else EmitIfBound A T (mem Psk) Ck s)"

definition remember_cookie :: "life_accepts \<Rightarrow> task_ctx \<Rightarrow> sock \<Rightarrow> life_state \<Rightarrow> life_state" where
  "remember_cookie A T Sk s =
     s\<lparr>UdpSocketCookieByPid := snd (Update (accepts_cookie A) (cur_pid_tgid T) (sk_cookie Sk) (UdpSocketCookieByPid s))\<rparr>"

definition forget_cookie :: "task_ctx \<Rightarrow> life_state \<Rightarrow> life_state" where
  "forget_cookie T s = s\<lparr>UdpSocketCookieByPid := snd (Delete (cur_pid_tgid T) (UdpSocketCookieByPid s))\<rparr>"

definition forget_sk :: "task_ctx \<Rightarrow> life_state \<Rightarrow> life_state" where
  "forget_sk T s = s\<lparr>UdpSkByPid := snd (Delete (cur_pid_tgid T) (UdpSkByPid s))\<rparr>"

definition fexit_udp_sendmsg :: "life_accepts \<Rightarrow> task_ctx \<Rightarrow> sock option \<Rightarrow> life_state \<Rightarrow> life_state" where
  "fexit_udp_sendmsg A T Sk s = (case Sk of None \<Rightarrow> s | Some k \<Rightarrow> remember_cookie A T k s)"

text \<open>The two entry probes have the same body.\<close>

definition enter_udp4_sendmsg :: "life_accepts \<Rightarrow> task_ctx \<Rightarrow> u64 \<Rightarrow> life_state \<Rightarrow> life_state" where
  "enter_udp4_sendmsg A T Psk s = s\<lparr>UdpSkByPid := snd (Update (accepts_sk A) (cur_pid_tgid T) Psk (UdpSkByPid s))\<rparr>"

definition enter_udp6_sendmsg :: "life_accepts \<Rightarrow> task_ctx \<Rightarrow> u64 \<Rightarrow> life_state \<Rightarrow> life_state" where
  "enter_udp6_sendmsg A T Psk s = s\<lparr>UdpSkByPid := snd (Update (accepts_sk A) (cur_pid_tgid T) Psk (UdpSkByPid s))\<rparr>"

definition ret_udp4_sendmsg :: "life_accepts \<Rightarrow> task_ctx \<Rightarrow> (u64 \<Rightarrow> sock) \<Rightarrow> life_state \<Rightarrow> life_state" where
  "ret_udp4_sendmsg A T mem s =
     (case Lookup (UdpSkByPid s) (cur_pid_tgid T) of
        None \<Rightarrow> s
      | Some Psk \<Rightarrow>
          (case Lookup (UdpSocketCookieByPid s) (cur_pid_tgid T) of
             None \<Rightarrow> forget_sk T s
           | Some Ck \<Rightarrow> forget_cookie T (forget_sk T (emit_at A T mem Psk Ck (forget_sk T s)))))"

definition ret_udp6_sendmsg :: "life_accepts \<Rightarrow> task_ctx \<Rightarrow> (u64 \<Rightarrow> sock) \<Rightarrow> life_state \<Rightarrow> life_state" where
  "ret_udp6_sendmsg A T mem s =
     (case (Lookup (UdpSkByPid s) (cur_pid_tgid T), Lookup (UdpSocketCookieByPid s) (cur_pid_tgid T)) of
        (None, None) \<Rightarrow> s
      | (None, Some Ck) \<Rightarrow> forget_cookie T s
      | (Some Psk, None) \<Rightarrow> forget_sk T s
      | (Some Psk, Some Ck) \<Rightarrow> forget_cookie T (forget_sk T (emit_at A T mem Psk Ck (forget_sk T s))))"

definition fexit_udp_recvmsg :: "life_accepts \<Rightarrow> task_ctx \<Rightarrow> sock option \<Rightarrow> life_state \<Rightarrow> life_state" where
  "fexit_udp_recvmsg A T Sk s =
     (case Sk of None \<Rightarrow> s | Some k \<Rightarrow> forget_cookie T (EmitIfBound A T k (sk_cookie k) (remember_cookie A T k s)))"

definition fexit_udp6_recvmsg :: "life_accepts \<Rightarrow> task_ctx \<Rightarrow> sock option \<Rightarrow> life_state \<Rightarrow> life_state" where
  "fexit_udp6_recvmsg A T Sk s =
     (case Sk of None \<Rightarrow> s | Some k \<Rightarrow> forget_cookie T (EmitIfBound A T k (sk_cookie k) (remember_cookie A T k s)))"

section \<open>Program runs\<close>

text \<open>The order in which the kernel runs the programs is an explicit list of runs.\<close>

datatype hook = SockDestruct sock | SockCreate bpf_sock | Bind bool "sock option" u32 sockaddr
  | TraceState set_state_ctx | TcpState sock u8 | Connect4 bpf_sock_addr | Connect6 bpf_sock_addr
  | Graft "sock option" "u32 option"
  | UdpSendExit "sock option" | Udp4Enter u64 | Udp4Return "u64 \<Rightarrow> sock" | Udp6Enter u64 | Udp6Return "u64 \<Rightarrow> sock"
  | UdpRecvExit "sock option" | Udp6RecvExit "sock option"

fun run_hook :: "life_accepts \<Rightarrow> task_ctx \<times> hook \<Rightarrow> life_state \<Rightarrow> life_state" where
  "run_hook A (T, SockDestruct Sk) = on_inet_sock_destruct T Sk"
| "run_hook A (T, SockCreate S) = on_sock_create A T S"
| "run_hook A (T, Bind ok Sk ty Addr) = socket_bind A T ok Sk ty Addr"
| "run_hook A (T, TraceState ctx) = tracepoint__inet_sock_set_state A T ctx"
| "run_hook A (T, TcpState Sk n) = on_tcp_set_state A T Sk n"
| "run_hook A (T, Connect4 Ctx) = on_connect4 T Ctx"
| "run_hook A (T, Connect6 Ctx) = on_connect6 T Ctx"
| "run_hook A (T, Graft Sk P) = sock_graft T Sk P"
| "run_hook A (T, UdpSendExit Sk) = fexit_udp_sendmsg A T Sk"
| "run_hook A (T, Udp4Enter Sk) = enter_udp4_sendmsg A T Sk"
| "run_hook A (T, Udp4Return mem) = ret_udp4_sendmsg A T mem"
| "run_hook A (T, Udp6Enter Sk) = enter_udp6_sendmsg A T Sk"
| "run_hook A (T, Udp6Return mem) = ret_udp6_sendmsg A T mem"
| "run_hook A (T, UdpRecvExit Sk) = fexit_udp_recvmsg A T Sk"
| "run_hook A (T, Udp6RecvExit Sk) = fexit_udp6_recvmsg A T Sk"

definition run_hooks :: "life_accepts \<Rightarrow> (task_ctx \<times> hook) list \<Rightarrow> life_state \<Rightarrow> life_state" where
  "run_hooks A = fold (run_hook A)"

section \<open>Who owns a port\<close>

text \<open>The runs that rewrite or delete the \<^verbatim>\<open>port_to_pid\<close> entry of a port that has one.\<close>

definition udp_port :: "sock \<Rightarrow> u16" where
  "udp_port Sk = bpf_htons (inet_sport Sk)"

fun claims_port :: "u16 \<Rightarrow> task_ctx \<times> hook \<Rightarrow> life_state \<Rightarrow> bool" where
  "claims_port p (T, Bind ok Sk ty Addr) s = (bpf_htons (sa_port Addr) = p)"
| "claims_port p (T, TraceState ctx) s = (ctx_newstate ctx = TCP_LISTEN \<and> ctx_sport ctx = p)"
| "claims_port p (T, TcpState Sk n) s =
     ((n = TCP_LISTEN \<or> n = TCP_CLOSE \<and> skc_state Sk = TCP_LISTEN) \<and> skc_num Sk = p)"
| "claims_port p (T, UdpRecvExit Sk) s = (case Sk of None \<Rightarrow> False | Some k \<Rightarrow> udp_port k = p)"
| "claims_port p (T, Udp6RecvExit Sk) s = (case Sk of None \<Rightarrow> False | Some k \<Rightarrow> udp_port k = p)"
| "claims_port p (T, Udp4Return mem) s =
     (case UdpSkByPid s (cur_pid_tgid T) of None \<Rightarrow> False | Some q \<Rightarrow> udp_port (mem q) = p)"
| "claims_port p (T, Udp6Return mem) s =
     (case UdpSkByPid s (cur_pid_tgid T) of None \<Rightarrow> False | Some q \<Rightarrow> udp_port (mem q) = p)"
| "claims_port p _ s = False"

fun unclaimed :: "life_accepts \<Rightarrow> u16 \<Rightarrow> (task_ctx \<times> hook) list \<Rightarrow> life_state \<Rightarrow> bool" where
  "unclaimed A p [] s = True"
| "unclaimed A p (h # hs) s = (\<not> claims_port p h s \<and> unclaimed A p hs (run_hook A h s))"

definition owner :: "life_state \<Rightarrow> u16 \<Rightarrow> u32 option" where
  "owner s p = port_to_pid (Maps s) p"

lemma ports_submit [simp]:
  "owner (submit E s) p = owner s p"
  "UdpSocketCookieByPid (submit E s) = UdpSocketCookieByPid s"
  "UdpSkByPid (submit E s) = UdpSkByPid s"
  by (simp_all add: submit_def owner_def split: option.split)

lemma owner_port_updates:
  "owner (set_port_pid A q i s) p = (if q = p \<and> accepts_ports (accepts_maps A) (port_to_pid (Maps s)) p then Some i else owner s p)"
  "owner (del_port_pid q s) p = (if q = p then None else owner s p)"
  by (auto simp: set_port_pid_def del_port_pid_def UpdatePortToPid_def Update_def Delete_def owner_def Let_def)

lemma owner_add_port: "owner s p = Some i \<Longrightarrow> owner (add_port_pid A q j s) p = Some i"
  by (auto simp: add_port_pid_def owner_port_updates owner_def [symmetric])

lemma udp_maps_frame [simp]:
  "owner (remember_cookie A T k s) p = owner s p"
  "owner (forget_cookie T s) p = owner s p"
  "owner (forget_sk T s) p = owner s p"
  "owner (s\<lparr>shared_socket_data_map := m\<rparr>) p = owner s p"
  "owner (s\<lparr>UdpSkByPid := u\<rparr>) p = owner s p"
  by (simp_all add: owner_def remember_cookie_def forget_cookie_def forget_sk_def)

lemma owner_EmitIfBound:
  "udp_port k \<noteq> p \<Longrightarrow> owner (EmitIfBound A T k c s) p = owner s p"
  by (simp add: EmitIfBound_def Let_def owner_port_updates udp_port_def [symmetric])

lemma owner_run_hook:
  assumes "owner s p = Some i" "\<not> claims_port p h s"
  shows "owner (run_hook A h s) p = Some i"
  using assms
  by (cases h; cases "snd h")
    (auto simp: on_inet_sock_destruct_def on_sock_create_def socket_bind_def tracepoint__inet_sock_set_state_def
      on_tcp_set_state_def tcp_closing_def tcp_listening_def tcp_established_def on_connect4_def on_connect6_def
      on_connect_hook_def sock_graft_def fexit_udp_sendmsg_def enter_udp4_sendmsg_def enter_udp6_sendmsg_def
      ret_udp4_sendmsg_def ret_udp6_sendmsg_def fexit_udp_recvmsg_def fexit_udp6_recvmsg_def emit_at_def
      owner_port_updates owner_add_port owner_EmitIfBound Let_def split: option.split)

lemma owner_run_hooks:
  "owner s p = Some i \<Longrightarrow> unclaimed A p hs s \<Longrightarrow> owner (run_hooks A hs s) p = Some i"
  by (induction hs arbitrary: s) (auto simp: run_hooks_def owner_run_hook)

text \<open>What an established or accepted connection reports once its port has an owner.\<close>

lemma tcp_established_owned:
  assumes "owner s p = Some i" "i \<noteq> 0" "skc_num k = p" "p \<noteq> 0" "sk_cookie k \<noteq> 0" "ring_room T"
  obtains e where "socket_event_ring (tcp_established A T k s) = socket_event_ring s @ [e]"
    "PidTgId e = push_bit 32 (ucast i)" "EventCookie e = sk_cookie k" "bIsAccept (established_data (EventData e))"
    "EstRemotePort (established_data (EventData e)) = ucast (bpf_htons (skc_dport k))"
  using assms by (auto simp: tcp_established_def owner_def MakeSocketEvent2_def submit_def established_payload_def
      owner_pid_tgid_def Let_def)

lemma sock_graft_owned:
  assumes "owner s p = Some i" "i \<noteq> 0" "skc_num k = p" "sk_cookie k \<noteq> 0" "ring_room T"
    "skc_family k = KAF_INET \<or> skc_family k = KAF_INET6"
  obtains e where "socket_event_ring (sock_graft T (Some k) P s) = socket_event_ring s @ [e]"
    "PidTgId e = push_bit 32 (ucast i)" "EventCookie e = sk_cookie k"
  using assms by (auto simp: sock_graft_def owner_def MakeSocketEvent2_def submit_def accept_payload_def
      owner_pid_tgid_def Let_def)

lemmas tcp_states = on_tcp_set_state_def tcp_listening_def tcp_closing_def

lemma owner_listening:
  assumes "skc_num L = p" "p \<noteq> 0" "tgid (cur_pid_tgid T) \<noteq> 0" "accepts_ports (accepts_maps A) (port_to_pid (Maps s)) p"
  shows "owner (on_tcp_set_state A T L TCP_LISTEN s) p = Some (tgid (cur_pid_tgid T))"
  using assms by (simp add: tcp_states owner_port_updates Let_def)

text \<open>
  C33. A connection accepted on a port is reported for the process that listens on it: after
  \<^verbatim>\<open>on_tcp_set_state\<close> saw a socket of process \<open>i\<close> enter LISTEN on port \<open>p\<close> (and the map took the
  entry), and after any further runs of the lifecycle programs, in any order and for any tasks, of
  which none claims the port (a bind, a listen, UDP traffic on the same number, or the close of a
  listener), both \<^verbatim>\<open>on_tcp_set_state\<close> for ESTABLISHED and \<^verbatim>\<open>sock_graft\<close> submit one more event,
  with the cookie of the connection and the process \<open>i\<close>, whatever task was interrupted; the first
  is flagged as accepted.
\<close>
theorem accepted_connection_owner:
  assumes "skc_num L = p" "p \<noteq> 0" "tgid (cur_pid_tgid TL) = i" "i \<noteq> 0"
    and "accepts_ports (accepts_maps A) (port_to_pid (Maps s)) p"
    and "unclaimed A p hs (on_tcp_set_state A TL L TCP_LISTEN s)"
    and "skc_num k = p" "sk_cookie k \<noteq> 0" "ring_room T" "skc_family k = KAF_INET \<or> skc_family k = KAF_INET6"
  defines "s' \<equiv> run_hooks A hs (on_tcp_set_state A TL L TCP_LISTEN s)"
  shows "(\<exists>e. socket_event_ring (on_tcp_set_state A T k TCP_ESTABLISHED s') = socket_event_ring s' @ [e]
            \<and> EventCookie e = sk_cookie k \<and> PidTgId e = push_bit 32 (ucast i)
            \<and> bIsAccept (established_data (EventData e)))
       \<and> (\<exists>e. socket_event_ring (sock_graft T (Some k) P s') = socket_event_ring s' @ [e]
            \<and> EventCookie e = sk_cookie k \<and> PidTgId e = push_bit 32 (ucast i))"
proof -
  have own: "owner s' p = Some i"
    unfolding s'_def using assms by (intro owner_run_hooks) (simp_all add: owner_listening)
  show ?thesis
    using tcp_established_owned [OF own, of k T A] sock_graft_owned [OF own, of k T P] assms
    by (simp add: on_tcp_set_state_def) metis
qed

text \<open>
  \<^verbatim>\<open>port_to_pid\<close> is keyed by the port number alone and entries of client ports are never
  removed, so a port's former user answers for the next one. When process \<open>a\<close> connected from a
  port without an entry and closed the connection, a later outgoing connection of any other process
  from the same port is reported as an accepted connection of \<open>a\<close>. And UDP traffic that process
  \<open>b\<close> receives on the number of a TCP listener makes the next accepted TCP connection one of \<open>b\<close>.
\<close>
theorem port_owner_confusion:
  fixes T2 TL :: task_ctx
  assumes "owner s p = None" "p \<noteq> 0" "\<And>m. accepts_ports (accepts_maps A) m p"
    and "skc_num k = p" "skc_state k \<noteq> TCP_LISTEN" "skc_num k' = p" "sk_cookie k' \<noteq> 0" "ring_room T'"
    and "tgid (cur_pid_tgid T) \<noteq> 0" "udp_port u = p"
  defines "after_close \<equiv> on_tcp_set_state A T2 k TCP_CLOSE (on_tcp_set_state A T k TCP_ESTABLISHED s)"
    and "hijacked \<equiv> fexit_udp_recvmsg A T (Some u) (on_tcp_set_state A TL k TCP_LISTEN s)"
  shows "(\<exists>e. socket_event_ring (on_tcp_set_state A T' k' TCP_ESTABLISHED after_close) = socket_event_ring after_close @ [e]
            \<and> PidTgId e = push_bit 32 (ucast (tgid (cur_pid_tgid T))) \<and> bIsAccept (established_data (EventData e)))
       \<and> (\<exists>e. socket_event_ring (on_tcp_set_state A T' k' TCP_ESTABLISHED hijacked) = socket_event_ring hijacked @ [e]
            \<and> PidTgId e = push_bit 32 (ucast (tgid (cur_pid_tgid T))))"
proof -
  let ?a = "tgid (cur_pid_tgid T)"
  have "owner after_close p = Some ?a"
    using assms by (simp add: tcp_states tcp_established_def add_port_pid_def owner_port_updates Let_def flip: owner_def)
  moreover have "owner hijacked p = Some ?a"
    using assms by (simp add: fexit_udp_recvmsg_def EmitIfBound_def Let_def owner_port_updates flip: udp_port_def)
  ultimately show ?thesis
    using tcp_established_owned [of after_close p ?a k' T' A] tcp_established_owned [of hijacked p ?a k' T' A] assms
    by (simp add: on_tcp_set_state_def) metis
qed

section \<open>Sends on IPv6 sockets\<close>

lemma remember_forget:
  "UdpSocketCookieByPid s = Map.empty \<Longrightarrow> UdpSocketCookieByPid (forget_cookie T (remember_cookie A T k s)) = Map.empty"
  by (auto simp: remember_cookie_def forget_cookie_def Update_def Delete_def)

lemma cookie_frame [simp]:
  "UdpSocketCookieByPid (set_port_pid A p i s) = UdpSocketCookieByPid s"
  "UdpSocketCookieByPid (add_port_pid A p i s) = UdpSocketCookieByPid s"
  "UdpSocketCookieByPid (del_port_pid p s) = UdpSocketCookieByPid s"
  "UdpSocketCookieByPid (forget_sk T s) = UdpSocketCookieByPid s"
  "UdpSocketCookieByPid (EmitIfBound A T k c s) = UdpSocketCookieByPid s"
  by (simp_all add: set_port_pid_def add_port_pid_def del_port_pid_def forget_sk_def EmitIfBound_def Let_def)

lemma no_cookie_run_hook:
  assumes "UdpSocketCookieByPid s = Map.empty" "\<forall>Sk. snd h \<noteq> UdpSendExit Sk"
  shows "UdpSocketCookieByPid (run_hook A h s) = Map.empty"
  using assms
  by (cases h; cases "snd h")
    (auto simp: on_inet_sock_destruct_def on_sock_create_def socket_bind_def tracepoint__inet_sock_set_state_def
      tcp_states tcp_established_def on_connect4_def on_connect6_def
      on_connect_hook_def sock_graft_def enter_udp4_sendmsg_def enter_udp6_sendmsg_def
      ret_udp4_sendmsg_def ret_udp6_sendmsg_def fexit_udp_recvmsg_def fexit_udp6_recvmsg_def
      remember_cookie_def forget_cookie_def Update_def Delete_def Let_def split: option.split)

lemma no_cookie_run_hooks:
  "UdpSocketCookieByPid s = Map.empty \<Longrightarrow> \<forall>h\<in>set hs. \<forall>Sk. snd h \<noteq> UdpSendExit Sk \<Longrightarrow>
     UdpSocketCookieByPid (run_hooks A hs s) = Map.empty"
  by (induction hs arbitrary: s) (simp_all add: run_hooks_def no_cookie_run_hook)

text \<open>
  A send on a native IPv6 UDP socket is never reported. The return probe of \<^verbatim>\<open>udpv6_sendmsg\<close>
  needs the cookie that a hook of the same thread stored, but only the exit hook of the IPv4
  function \<^verbatim>\<open>udp_sendmsg\<close> stores one that stays: whatever other programs ran before, in any order,
  the probe submits no event and records no owner for any port.
\<close>
theorem ipv6_udp_send_unreported:
  fixes A :: life_accepts
  assumes "UdpSocketCookieByPid s = Map.empty" "\<forall>h\<in>set hs. \<forall>Sk. snd h \<noteq> UdpSendExit Sk"
  defines "s' \<equiv> run_hooks A hs s"
  shows "socket_event_ring (ret_udp6_sendmsg A T mem s') = socket_event_ring s'
       \<and> owner (ret_udp6_sendmsg A T mem s') = owner s'"
proof -
  have "UdpSocketCookieByPid s' = Map.empty"
    unfolding s'_def using assms by (intro no_cookie_run_hooks)
  then show ?thesis
    by (auto simp: ret_udp6_sendmsg_def forget_sk_def owner_def fun_eq_iff split: option.split)
qed

section \<open>Witnesses\<close>

definition test_maps :: kernel_maps where
  "test_maps = \<lparr>socket_rules = Map.empty, ingress_port_marks = Map.empty, pid_download_marks = Map.empty, port_to_pid = Map.empty\<rparr>"

definition test_life :: life_state where
  "test_life = \<lparr>Maps = test_maps, shared_socket_data_map = Map.empty, UdpSocketCookieByPid = Map.empty,
     UdpSkByPid = Map.empty, socket_event_ring = []\<rparr>"

definition test_accepts :: life_accepts where
  "test_accepts = \<lparr>accepts_maps = \<lparr>accepts_rules = \<lambda>m k. True, accepts_marks = \<lambda>m k. True,
       accepts_pid_marks = \<lambda>m k. True, accepts_ports = \<lambda>m k. True\<rparr>,
     accepts_shared = \<lambda>m k. True, accepts_cookie = \<lambda>m k. True, accepts_sk = \<lambda>m k. True\<rparr>"

definition test_task :: "u32 \<Rightarrow> task_ctx" where
  "test_task pid = \<lparr>ring_room = True, cur_pid_tgid = push_bit 32 (ucast pid), cur_cgroup_id = 1\<rparr>"

definition test_sock :: "u64 \<Rightarrow> u8 \<Rightarrow> sock" where
  "test_sock c st = \<lparr>sk_ptr = 4096 + c, sk_cookie = c, skc_family = KAF_INET, skc_state = st, skc_num = 80, skc_dport = 0x3412,
     skc_rcv_saddr = 0x0100007F, skc_daddr = 0x0200007F, skc_v6_rcv_saddr = zero_addr, skc_v6_daddr = zero_addr,
     inet_sport = bpf_htons 80, inet_saddr = 0, pinet6_saddr = None\<rparr>"

lemmas test_life_defs = test_maps_def test_life_def test_accepts_def test_task_def test_sock_def

lemma test_socks [simp]:
  "skc_num (test_sock c st) = 80" "sk_cookie (test_sock c st) = c" "skc_family (test_sock c st) = KAF_INET"
  "skc_state (test_sock c st) = st" "udp_port (test_sock c st) = 80"
  by (simp_all add: test_sock_def udp_port_def bpf_htons_def)

lemma tgid_push: "tgid (push_bit 32 (ucast i)) = i"
  by (rule bit_word_eqI) (auto simp: tgid_def bit_simps)

lemma test_tasks [simp]: "ring_room (test_task i)" "tgid (cur_pid_tgid (test_task i)) = i"
  by (simp_all add: test_task_def tgid_push)

lemma test_accepts_all [simp]: "accepts_ports (accepts_maps test_accepts) m p"
  by (simp add: test_accepts_def)

theorem accepted_connection_owner_witness:
  "\<exists>e. socket_event_ring (on_tcp_set_state test_accepts (test_task 99) (test_sock 8 1) TCP_ESTABLISHED
        (run_hooks test_accepts [(test_task 99, SockDestruct (test_sock 5 7)), (test_task 98, TcpState (test_sock 7 1) TCP_CLOSE)]
          (on_tcp_set_state test_accepts (test_task 42) (test_sock 6 7) TCP_LISTEN test_life)))
      = socket_event_ring (run_hooks test_accepts [(test_task 99, SockDestruct (test_sock 5 7)), (test_task 98, TcpState (test_sock 7 1) TCP_CLOSE)]
          (on_tcp_set_state test_accepts (test_task 42) (test_sock 6 7) TCP_LISTEN test_life)) @ [e]
      \<and> EventCookie e = 8 \<and> PidTgId e = push_bit 32 42 \<and> bIsAccept (established_data (EventData e))"
  using accepted_connection_owner [of "test_sock 6 7" 80 "test_task 42" 42 test_accepts test_life
      "[(test_task 99, SockDestruct (test_sock 5 7)), (test_task 98, TcpState (test_sock 7 1) TCP_CLOSE)]"
      "test_sock 8 1" "test_task 99" "None"]
  by simp

theorem port_owner_confusion_witness:
  "\<exists>e. socket_event_ring (on_tcp_set_state test_accepts (test_task 99) (test_sock 8 2) TCP_ESTABLISHED
        (on_tcp_set_state test_accepts (test_task 42) (test_sock 6 1) TCP_CLOSE
          (on_tcp_set_state test_accepts (test_task 42) (test_sock 6 1) TCP_ESTABLISHED test_life)))
      = socket_event_ring (on_tcp_set_state test_accepts (test_task 42) (test_sock 6 1) TCP_CLOSE
          (on_tcp_set_state test_accepts (test_task 42) (test_sock 6 1) TCP_ESTABLISHED test_life)) @ [e]
      \<and> PidTgId e = push_bit 32 42 \<and> bIsAccept (established_data (EventData e))"
  using port_owner_confusion [of test_life 80 test_accepts "test_sock 6 1" "test_sock 8 2" "test_task 99" "test_task 42"
      "test_sock 7 7" "test_task 42" "test_task 42"]
  by (simp add: owner_def test_life_def test_maps_def)

theorem ipv6_udp_send_unreported_witness:
  "socket_event_ring (ret_udp6_sendmsg test_accepts (test_task 42) (\<lambda>q. test_sock q 7)
       (run_hooks test_accepts [(test_task 42, Udp6Enter 8)] test_life)) = []
   \<and> UdpSkByPid (run_hooks test_accepts [(test_task 42, Udp6Enter 8)] test_life) (push_bit 32 42) = Some 8"
  using ipv6_udp_send_unreported [of test_life "[(test_task 42, Udp6Enter 8)]" test_accepts "test_task 42" "\<lambda>q. test_sock q 7"]
  by (simp add: run_hooks_def enter_udp6_sendmsg_def Update_def test_life_def test_accepts_def test_task_def)

section \<open>From the kernel to the daemon\<close>

lemma bpf_htons_bit: "bit (bpf_htons w) n \<longleftrightarrow> (if n < 8 then bit w (n + 8) else n < 16 \<and> bit w (n - 8))"
proof -
  have m: "(0xFF :: u16) = mask 8"
    by (simp add: mask_eq_exp_minus_1)
  show ?thesis
    unfolding bpf_htons_def m
    by (simp only: bit_or_iff bit_and_iff bit_push_bit_iff bit_drop_bit_eq bit_mask_iff)
      (auto simp: add.commute dest: bit_imp_le_length)
qed

lemma bpf_htons_twice [simp]: "bpf_htons (bpf_htons w) = w"
  by (rule bit_word_eqI) (auto simp: bpf_htons_bit)

lemma ucast_port [simp]: "ucast (ucast (p :: u16) :: u32) = p"
  by (rule bit_word_eqI) (auto simp: bit_simps)

lemma GetBytes_load32:
  "wf_addr a \<Longrightarrow> GetBytes (FromIPv4Uint32 (load32 b0 b1 b2 b3) a) = [b0, b1, b2, b3]"
  by (simp add: wf_addr_def FromIPv4Uint32_def GetBytes_def Let_def take4_update4)

lemma Family_FromIPv4Uint32 [simp]: "Family (FromIPv4Uint32 w a) = IPv4"
  by (simp add: FromIPv4Uint32_def Let_def)

lemma on_established_endpoints:
  assumes "EstAddr d = load32 a0 a1 a2 a3 # as" "EstRemoteAddr d = load32 b0 b1 b2 b3 # bs"
    and "EstUserPort d = ucast (p :: u16)" "EstRemotePort d = ucast (q :: u16)"
    and "wf_addr (Address (LocalEndpoint (SocketTuple i)))" "wf_addr (Address (RemoteEndpoint (SocketTuple i)))"
  defines "j \<equiv> on_established assign_v4 d i"
  shows "ConnectionState j = Connected" "Protocol (SocketTuple j) = Proto_TCP"
    "Family (Address (LocalEndpoint (SocketTuple j))) = IPv4" "Family (Address (RemoteEndpoint (SocketTuple j))) = IPv4"
    "GetBytes (Address (LocalEndpoint (SocketTuple j))) = [a0, a1, a2, a3]"
    "GetBytes (Address (RemoteEndpoint (SocketTuple j))) = [b0, b1, b2, b3]"
    "Port (LocalEndpoint (SocketTuple j)) = p" "Port (RemoteEndpoint (SocketTuple j)) = q"
  using assms by (simp_all add: on_established_def set_defs assign_v4_def assign_port_def GetBytes_load32 Let_def)

text \<open>
  The endpoints of a TCP connection arrive in the daemon as the kernel has them: for an
  established IPv4 connection with local address and port \<open>a\<close>, \<open>p\<close> and remote address and port
  \<open>b\<close>, \<open>q\<close> (addresses and remote port in network order in \<^verbatim>\<open>struct sock\<close>, the local port in host
  order), \<^verbatim>\<open>on_tcp_set_state\<close> submits one event with the cookie, and \<^verbatim>\<open>ProcessSocketEvent\<close> turns
  any item of that socket into a connected TCP item with exactly these endpoints and raises
  \<^verbatim>\<open>OnSocketConnected\<close>.
\<close>
theorem kernel_endpoints_reach_daemon:
  assumes "skc_family k = KAF_INET" "sk_cookie k \<noteq> 0" "ring_room T"
    and "skc_rcv_saddr k = load32 a0 a1 a2 a3" "skc_num k = p"
    and "skc_daddr k = load32 b0 b1 b2 b3" "skc_dport k = bpf_htons q"
    and "wf_addr (Address (LocalEndpoint (SocketTuple i)))" "wf_addr (Address (RemoteEndpoint (SocketTuple i)))"
  shows "\<exists>e. socket_event_ring (on_tcp_set_state A T k TCP_ESTABLISHED s) = socket_event_ring s @ [e]
      \<and> EventCookie e = sk_cookie k
      \<and> (let (j, connected, _) = ProcessSocketEvent e i; t = SocketTuple j in
           connected \<and> ConnectionState j = Connected \<and> Protocol t = Proto_TCP
         \<and> Family (Address (LocalEndpoint t)) = IPv4 \<and> GetBytes (Address (LocalEndpoint t)) = [a0, a1, a2, a3]
         \<and> Port (LocalEndpoint t) = p
         \<and> Family (Address (RemoteEndpoint t)) = IPv4 \<and> GetBytes (Address (RemoteEndpoint t)) = [b0, b1, b2, b3]
         \<and> Port (RemoteEndpoint t) = q)"
proof -
  define own where "own = (if p \<noteq> 0 then port_to_pid (Maps s) p else None)"
  define e where "e = established_payload k own
    \<lparr>EventType = NE_TCPSocketEstablished_4, EventCookie = sk_cookie k, PidTgId = owner_pid_tgid T own,
     CgroupId = cur_cgroup_id T, EventData = ZeroEventData\<rparr>"
  have ring: "socket_event_ring (on_tcp_set_state A T k TCP_ESTABLISHED s) = socket_event_ring s @ [e]"
    using assms by (simp add: e_def own_def on_tcp_set_state_def tcp_established_def MakeSocketEvent2_def submit_def Let_def
        add_port_pid_def set_port_pid_def)
  have run: "apply_event e i = (on_established assign_v4 (established_data (EventData e)) i, True)"
    using assms by (simp add: e_def apply_event_def established_payload_def Let_def)
  have "EstAddr (established_data (EventData e)) = load32 a0 a1 a2 a3 # [0, 0, 0]"
    "EstRemoteAddr (established_data (EventData e)) = load32 b0 b1 b2 b3 # [0, 0, 0]"
    "EstUserPort (established_data (EventData e)) = ucast p" "EstRemotePort (established_data (EventData e)) = ucast q"
    and "EventCookie e = sk_cookie k"
    using assms by (simp_all add: e_def established_payload_def Let_def)
  with on_established_endpoints [OF this(1-4) assms(8,9)] ring run show ?thesis
    by (intro exI [of _ e]) (simp add: ProcessSocketEvent_def)
qed

lemma wf_test_item:
  "wf_addr (Address (LocalEndpoint (SocketTuple test_item)))" "wf_addr (Address (RemoteEndpoint (SocketTuple test_item)))"
  by (simp_all add: test_item_def wf_addr_def WSocketTuple_init_def WEndpoint_init_def WIPAddress_init_def)

lemma test_sock_endpoints:
  "skc_rcv_saddr (test_sock c st) = load32 127 0 0 1" "skc_daddr (test_sock c st) = load32 127 0 0 2"
  "skc_dport (test_sock c st) = bpf_htons 0x1234"
  by (simp_all add: test_sock_def load32_def bpf_htons_def)

theorem kernel_endpoints_reach_daemon_witness:
  "\<exists>e. socket_event_ring (on_tcp_set_state test_accepts (test_task 42) (test_sock 8 2) TCP_ESTABLISHED test_life) = [e]
     \<and> GetBytes (Address (RemoteEndpoint (SocketTuple (fst (ProcessSocketEvent e test_item))))) = [127, 0, 0, 2]
     \<and> Port (RemoteEndpoint (SocketTuple (fst (ProcessSocketEvent e test_item)))) = 0x1234"
proof -
  have "socket_event_ring test_life = []"
    by (simp add: test_life_def)
  then show ?thesis
    using kernel_endpoints_reach_daemon [of "test_sock 8 2" "test_task 42" 127 0 0 1 80 127 0 0 2 "0x1234" test_item
        test_accepts test_life]
    by (fastforce simp: wf_test_item test_sock_endpoints Let_def split: prod.splits)
qed

end
