(* ===== verification/IP2Asn_Db.thy ===== *)
theory IP2Asn_Db
  imports IP_Address String_Format
begin

text \<open>
  The database that maps an address to its autonomous system (\<^verbatim>\<open>Util/IP2Asn/IP2AsnDB.cpp\<close>) and the
  cache in front of it (\<^verbatim>\<open>Daemon/Data/IP2Asn.cpp\<close>). The table is a tab-separated text file; the
  first start writes an index file of address ranges and file offsets, sorted by the start of the
  range, and maps it into memory; a lookup is a binary search in the mapped bytes followed by
  reading one line of the text. Files are character and byte lists. A read of a byte that is not
  mapped is the outer \<open>None\<close> of a lookup. The theorems say that a lookup finds exactly the
  row whose range contains the address, and that the cache answers as the database does.
\<close>

section \<open>Library routines\<close>

text \<open>\<^verbatim>\<open>memcmp\<close> on arrays of the same size.\<close>

fun memcmp :: "u8 list \<Rightarrow> u8 list \<Rightarrow> int" where
  "memcmp (a # as) (b # bs) = (if a < b then - 1 else if b < a then 1 else memcmp as bs)"
| "memcmp _ _ = 0"

text \<open>\<^verbatim>\<open>std::ranges::sort\<close> with a comparator.\<close>

fun insert_by :: "('a \<Rightarrow> 'a \<Rightarrow> bool) \<Rightarrow> 'a \<Rightarrow> 'a list \<Rightarrow> 'a list" where
  "insert_by lt x [] = [x]"
| "insert_by lt x (y # ys) = (if lt y x then y # insert_by lt x ys else x # y # ys)"

definition sort_by :: "('a \<Rightarrow> 'a \<Rightarrow> bool) \<Rightarrow> 'a list \<Rightarrow> 'a list" where
  "sort_by lt xs = foldr (insert_by lt) xs []"

text \<open>\<^verbatim>\<open>std::upper_bound\<close>: the halving search of the range \<open>[first, first + len)\<close>. \<open>before i\<close> is the
  comparison of the value with element \<open>i\<close>, \<open>None\<close> when the element cannot be read.\<close>

fun upper_bound :: "(nat \<Rightarrow> bool option) \<Rightarrow> nat \<Rightarrow> nat \<Rightarrow> nat option" where
  "upper_bound before first len =
     (if len = 0 then Some first
      else let half = len div 2; middle = first + half in
        case before middle of
          None \<Rightarrow> None
        | Some True \<Rightarrow> upper_bound before first half
        | Some False \<Rightarrow> upper_bound before (middle + 1) (len - half - 1))"

declare upper_bound.simps [simp del]

text \<open>The little-endian image of an integer of \<open>n\<close> bytes.\<close>

fun le_bytes :: "nat \<Rightarrow> nat \<Rightarrow> u8 list" where
  "le_bytes 0 v = []"
| "le_bytes (Suc n) v = of_nat (v mod 256) # le_bytes n (v div 256)"

fun le_nat :: "u8 list \<Rightarrow> nat" where
  "le_nat [] = 0"
| "le_nat (b # bs) = unat b + 256 * le_nat bs"

definition le_at :: "nat \<Rightarrow> nat \<Rightarrow> u8 list \<Rightarrow> nat" where
  "le_at off n bs = le_nat (take n (drop off bs))"

text \<open>\<^verbatim>\<open>std::getline\<close> on a stream whose unread characters are given: it fails at the end of the stream.\<close>

definition getline :: "char \<Rightarrow> string \<Rightarrow> (string \<times> string) option" where
  "getline Delim Rest =
     (if Rest = [] then None
      else let Line = takeWhile (\<lambda>c. c \<noteq> Delim) Rest in Some (Line, drop (length Line + 1) Rest))"

abbreviation Tab :: char where "Tab \<equiv> CHR 0x09"
abbreviation Newline :: char where "Newline \<equiv> CHR 0x0A"

text \<open>\<^verbatim>\<open>std::from_chars\<close> into a \<^verbatim>\<open>uint32_t\<close>, with the result 0 that the caller takes on an error.\<close>

definition is_dec :: "char \<Rightarrow> bool" where
  "is_dec c \<longleftrightarrow> 48 \<le> (of_char c :: nat) \<and> of_char c \<le> (57 :: nat)"

definition dec_value :: "string \<Rightarrow> nat" where
  "dec_value ds = foldl (\<lambda>n c. n * 10 + (of_char c - 48)) 0 ds"

definition from_chars_u32 :: "string \<Rightarrow> u32" where
  "from_chars_u32 s =
     (let ds = takeWhile is_dec s in if ds = [] \<or> dec_value ds \<ge> 2 ^ 32 then 0 else of_nat (dec_value ds))"

section \<open>The index\<close>

record WIP2AsnLookupResult =
  ResultAddress :: WIPAddress
  ASN :: u32
  Country :: string
  Organization :: string

record WIP2AsnIndexHeader =
  Magic :: u32
  Version :: u16
  EntrySizeV4 :: u16
  EntrySizeV6 :: u16
  Reserved :: u16
  CountV4 :: u64
  CountV6 :: u64
  TSVSize :: u64

record WIP2AsnIndexEntryV4 =
  V4Start :: u32
  V4End :: u32
  V4Offset :: u64

record WIP2AsnIndexEntryV6 =
  V6Start :: "u8 list"
  V6End :: "u8 list"
  V6Offset :: u64

abbreviation kIndexMagic :: u32 where "kIndexMagic \<equiv> 0x41503249"
abbreviation kIndexVersion :: u16 where "kIndexVersion \<equiv> 1"
abbreviation sizeof_header :: nat where "sizeof_header \<equiv> 36"
abbreviation sizeof_v4 :: nat where "sizeof_v4 \<equiv> 16"
abbreviation sizeof_v6 :: nat where "sizeof_v6 \<equiv> 40"

text \<open>The packed memory images, as they are written and as the mapped file is read.\<close>

definition put_header :: "WIP2AsnIndexHeader \<Rightarrow> u8 list" where
  "put_header h = le_bytes 4 (unat (Magic h)) @ le_bytes 2 (unat (Version h)) @ le_bytes 2 (unat (EntrySizeV4 h))
     @ le_bytes 2 (unat (EntrySizeV6 h)) @ le_bytes 2 (unat (Reserved h)) @ le_bytes 8 (unat (CountV4 h))
     @ le_bytes 8 (unat (CountV6 h)) @ le_bytes 8 (unat (TSVSize h))"

definition put_v4 :: "WIP2AsnIndexEntryV4 \<Rightarrow> u8 list" where
  "put_v4 e = le_bytes 4 (unat (V4Start e)) @ le_bytes 4 (unat (V4End e)) @ le_bytes 8 (unat (V4Offset e))"

definition put_v6 :: "WIP2AsnIndexEntryV6 \<Rightarrow> u8 list" where
  "put_v6 e = V6Start e @ V6End e @ le_bytes 8 (unat (V6Offset e))"

definition get_header :: "u8 list \<Rightarrow> WIP2AsnIndexHeader" where
  "get_header m = \<lparr>Magic = of_nat (le_at 0 4 m), Version = of_nat (le_at 4 2 m), EntrySizeV4 = of_nat (le_at 6 2 m),
     EntrySizeV6 = of_nat (le_at 8 2 m), Reserved = of_nat (le_at 10 2 m), CountV4 = of_nat (le_at 12 8 m),
     CountV6 = of_nat (le_at 20 8 m), TSVSize = of_nat (le_at 28 8 m)\<rparr>"

definition get_v4 :: "u8 list \<Rightarrow> nat \<Rightarrow> WIP2AsnIndexEntryV4 option" where
  "get_v4 m p = (if p + sizeof_v4 \<le> length m
     then Some \<lparr>V4Start = of_nat (le_at p 4 m), V4End = of_nat (le_at (p + 4) 4 m), V4Offset = of_nat (le_at (p + 8) 8 m)\<rparr>
     else None)"

definition get_v6 :: "u8 list \<Rightarrow> nat \<Rightarrow> WIP2AsnIndexEntryV6 option" where
  "get_v6 m p = (if p + sizeof_v6 \<le> length m
     then Some \<lparr>V6Start = take 16 (drop p m), V6End = take 16 (drop (p + 16) m), V6Offset = of_nat (le_at (p + 32) 8 m)\<rparr>
     else None)"

section \<open>State and operations\<close>

text \<open>The pointers of the view are offsets in the mapping. The contents of the text file and of the index
  file, \<open>None\<close> when there is no such file, are part of the state.\<close>

record WIP2AsnIndexView =
  Header :: WIP2AsnIndexHeader
  V4Entries :: nat
  V6Entries :: nat

record WIP2AsnDB =
  DatabaseFile :: "string option"
  IndexFile :: "u8 list option"
  IndexMapping :: "u8 list option"
  IndexMappingSize :: nat
  IndexView :: "WIP2AsnIndexView option"

text \<open>What the operating system answers: whether the index can be created, how many bytes of it are
  written (\<open>None\<close>: all), and whether a file that is not empty can be mapped.\<close>

record index_io =
  create_ok :: bool
  short_write :: "nat option"
  mmap_ok :: bool

definition ReadEntryAtOffset :: "WIP2AsnDB \<Rightarrow> u64 \<Rightarrow> WIP2AsnLookupResult option" where
  "ReadEntryAtOffset db Offset =
     (case DatabaseFile db of
        None \<Rightarrow> None
      | Some File \<Rightarrow>
          (case getline Newline (drop (unat Offset) File) of
             None \<Rightarrow> None
           | Some (Line, _) \<Rightarrow>
          (case getline Tab Line of
             None \<Rightarrow> None
           | Some (StartStr, r1) \<Rightarrow>
          (case getline Tab r1 of
             None \<Rightarrow> None
           | Some (EndStr, r2) \<Rightarrow>
          (case getline Tab r2 of
             None \<Rightarrow> None
           | Some (AsnStr, r3) \<Rightarrow>
          (case getline Tab r3 of
             None \<Rightarrow> None
           | Some (ResultCountry, r4) \<Rightarrow>
          (case getline Newline r4 of
             None \<Rightarrow> None
           | Some (ResultOrganization, _) \<Rightarrow>
               Some \<lparr>ResultAddress = WIPAddress_init, ASN = from_chars_u32 AsnStr, Country = ResultCountry,
                 Organization = ResultOrganization\<rparr>)))))))"

definition UnmapIndex :: "WIP2AsnDB \<Rightarrow> WIP2AsnDB" where
  "UnmapIndex db = db\<lparr>IndexMapping := None, IndexMappingSize := 0, IndexView := None\<rparr>"

text \<open>The body of the loop over the lines, on the two vectors.\<close>

type_synonym index_vectors = "WIP2AsnIndexEntryV4 list \<times> WIP2AsnIndexEntryV6 list"

definition index_line :: "(string \<Rightarrow> u8 list option) \<Rightarrow> (string \<Rightarrow> u8 list option) \<Rightarrow> string \<Rightarrow> u64 \<Rightarrow>
    index_vectors \<Rightarrow> index_vectors" where
  "index_line pton4 pton6 Line Offset = (\<lambda>(V4s, V6s).
     if Line = [] then (V4s, V6s)
     else case find_char Tab Line 0 of
         None \<Rightarrow> (V4s, V6s)
       | Some FirstTab \<Rightarrow>
     (case find_char Tab Line (FirstTab + 1) of
         None \<Rightarrow> (V4s, V6s)
       | Some SecondTab \<Rightarrow>
     (case (FromString pton4 pton6 (take FirstTab Line),
            FromString pton4 pton6 (take (SecondTab - FirstTab - 1) (drop (FirstTab + 1) Line))) of
         (Some S, Some E) \<Rightarrow>
           if Family S = IPv4
           then (V4s @ [\<lparr>V4Start = ToInt S, V4End = ToInt E, V4Offset = Offset\<rparr>], V6s)
           else (V4s, V6s @ [\<lparr>V6Start = Bytes S, V6End = Bytes E, V6Offset = Offset\<rparr>])
       | _ \<Rightarrow> (V4s, V6s))))"

function index_loop :: "(string \<Rightarrow> u8 list option) \<Rightarrow> (string \<Rightarrow> u8 list option) \<Rightarrow> string \<Rightarrow> nat \<Rightarrow>
    index_vectors \<Rightarrow> index_vectors" where
  "index_loop pton4 pton6 Rest Offset Vs =
     (case getline Newline Rest of
        None \<Rightarrow> Vs
      | Some (Line, Rest') \<Rightarrow>
          index_loop pton4 pton6 Rest' (Offset + length Line + 1) (index_line pton4 pton6 Line (of_nat Offset) Vs))"
  by pat_completeness auto
termination
  by (relation "measure (\<lambda>(p4, p6, r, off, vs). length r)") (auto simp: getline_def Let_def split: if_splits)

declare index_loop.simps [simp del]

definition CmpIPv6 :: "u8 list \<Rightarrow> u8 list \<Rightarrow> int" where
  "CmpIPv6 A B = memcmp A B"

definition index_image :: "string \<Rightarrow> index_vectors \<Rightarrow> u8 list" where
  "index_image File Vs =
     (let V4s = sort_by (\<lambda>A B. V4Start A < V4Start B) (fst Vs);
          V6s = sort_by (\<lambda>A B. CmpIPv6 (V6Start A) (V6Start B) < 0) (snd Vs);
          H = \<lparr>Magic = kIndexMagic, Version = kIndexVersion, EntrySizeV4 = of_nat sizeof_v4, EntrySizeV6 = of_nat sizeof_v6,
             Reserved = 0, CountV4 = of_nat (length V4s), CountV6 = of_nat (length V6s), TSVSize = of_nat (length File)\<rparr>
      in put_header H @ concat (map put_v4 V4s) @ concat (map put_v6 V6s))"

definition BuildIndex :: "(string \<Rightarrow> u8 list option) \<Rightarrow> (string \<Rightarrow> u8 list option) \<Rightarrow> index_io \<Rightarrow> WIP2AsnDB \<Rightarrow> bool \<times> WIP2AsnDB" where
  "BuildIndex pton4 pton6 io db =
     (case DatabaseFile db of
        None \<Rightarrow> (False, db)
      | Some File \<Rightarrow>
          let Image = index_image File (index_loop pton4 pton6 File 0 ([], [])) in
          if \<not> create_ok io then (False, db)
          else (case short_write io of
              Some n \<Rightarrow> (False, db\<lparr>IndexFile := Some (take n Image)\<rparr>)
            | None \<Rightarrow> (True, db\<lparr>IndexFile := Some Image\<rparr>)))"

text \<open>A mapped file is followed by zero bytes up to the end of its last page; an empty file cannot be
  mapped.\<close>

definition page_pad :: "u8 list \<Rightarrow> u8 list" where
  "page_pad f = f @ replicate ((4096 - length f mod 4096) mod 4096) 0"

definition MapIndex :: "index_io \<Rightarrow> WIP2AsnDB \<Rightarrow> bool \<times> WIP2AsnDB" where
  "MapIndex io db0 =
     (let db = UnmapIndex db0 in
      case IndexFile db of
        None \<Rightarrow> (False, db)
      | Some File \<Rightarrow>
          if \<not> mmap_ok io \<or> File = [] then (False, db)
          else let M = page_pad File; db1 = db\<lparr>IndexMapping := Some M, IndexMappingSize := length File\<rparr>; H = get_header M in
            if Magic H \<noteq> kIndexMagic \<or> Version H \<noteq> kIndexVersion then (False, db1)
            else let ExpectedSize = of_nat sizeof_header + CountV4 H * ucast (EntrySizeV4 H) + CountV6 H * ucast (EntrySizeV6 H) :: u64 in
              if ExpectedSize \<noteq> of_nat (IndexMappingSize db1) then (False, db1)
              else (True, db1\<lparr>IndexView := Some \<lparr>Header = H, V4Entries = sizeof_header,
                     V6Entries = sizeof_header + unat (CountV4 H * ucast (EntrySizeV4 H))\<rparr>\<rparr>))"

definition Init :: "(string \<Rightarrow> u8 list option) \<Rightarrow> (string \<Rightarrow> u8 list option) \<Rightarrow> index_io \<Rightarrow> WIP2AsnDB \<Rightarrow> bool \<times> WIP2AsnDB" where
  "Init pton4 pton6 io db =
     (let rebuild = (\<lambda>d. let (built, d1) = BuildIndex pton4 pton6 io d in if built then MapIndex io d1 else (False, d1)) in
      case DatabaseFile db of
        None \<Rightarrow> (False, db)
      | Some File \<Rightarrow>
          if IndexFile db \<noteq> None then
            let (mapped, db1) = MapIndex io db in
            if mapped \<and> (case IndexView db1 of None \<Rightarrow> False | Some V \<Rightarrow> Magic (Header V) = kIndexMagic
                 \<and> Version (Header V) = kIndexVersion \<and> TSVSize (Header V) = of_nat (length File))
            then (True, db1)
            else rebuild ((UnmapIndex db1)\<lparr>IndexFile := None\<rparr>)
          else rebuild db)"

definition mapping_of :: "WIP2AsnDB \<Rightarrow> u8 list" where
  "mapping_of db = (case IndexMapping db of None \<Rightarrow> [] | Some m \<Rightarrow> m)"

definition LookupIPv4 :: "WIP2AsnDB \<Rightarrow> u32 \<Rightarrow> WIP2AsnLookupResult option option" where
  "LookupIPv4 db IP =
     (case IndexView db of
        None \<Rightarrow> Some None
      | Some V \<Rightarrow>
          let get = (\<lambda>i. get_v4 (mapping_of db) (V4Entries V + i * sizeof_v4)) in
          case upper_bound (\<lambda>i. map_option (\<lambda>e. IP < V4Start e) (get i)) 0 (unat (CountV4 (Header V))) of
            None \<Rightarrow> None
          | Some It \<Rightarrow>
              if It = 0 then Some None
              else (case get (It - 1) of
                  None \<Rightarrow> None
                | Some e \<Rightarrow> if IP \<ge> V4Start e \<and> IP \<le> V4End e then Some (ReadEntryAtOffset db (V4Offset e)) else Some None))"

definition LookupIPv6 :: "WIP2AsnDB \<Rightarrow> u8 list \<Rightarrow> WIP2AsnLookupResult option option" where
  "LookupIPv6 db IPBytes =
     (case IndexView db of
        None \<Rightarrow> Some None
      | Some V \<Rightarrow>
          let get = (\<lambda>i. get_v6 (mapping_of db) (V6Entries V + i * sizeof_v6)) in
          case upper_bound (\<lambda>i. map_option (\<lambda>e. CmpIPv6 IPBytes (V6Start e) < 0) (get i)) 0 (unat (CountV6 (Header V))) of
            None \<Rightarrow> None
          | Some It \<Rightarrow>
              if It = 0 then Some None
              else (case get (It - 1) of
                  None \<Rightarrow> None
                | Some e \<Rightarrow> if CmpIPv6 IPBytes (V6Start e) \<ge> 0 \<and> CmpIPv6 IPBytes (V6End e) \<le> 0
                    then Some (ReadEntryAtOffset db (V6Offset e)) else Some None))"

definition DbLookup :: "WIP2AsnDB \<Rightarrow> WIPAddress \<Rightarrow> WIP2AsnLookupResult option option" where
  "DbLookup db IP = (if Family IP = IPv4 then LookupIPv4 db (ToInt IP) else LookupIPv6 db (Bytes IP))"

definition GetSize :: "WIP2AsnDB \<Rightarrow> u64" where
  "GetSize db = (case IndexView db of None \<Rightarrow> 0 | Some V \<Rightarrow> CountV4 (Header V) + CountV6 (Header V))"

section \<open>Sorting and searching\<close>

lemma insert_by_elems [simp]:
  "set (insert_by lt x ys) = insert x (set ys)" "length (insert_by lt x ys) = Suc (length ys)"
  by (induction ys) auto

lemma sort_by_elems [simp]: "set (sort_by lt xs) = set xs" "length (sort_by lt xs) = length xs"
  by (induction xs) (simp_all add: sort_by_def)

lemma sorted_insert_by:
  "\<lbrakk>\<forall>a\<in>insert x (set ys). \<forall>b\<in>insert x (set ys). lt a b \<longleftrightarrow> k a < (k b :: 'b :: linorder); sorted (map k ys)\<rbrakk>
     \<Longrightarrow> sorted (map k (insert_by lt x ys))"
proof (induction ys)
  case (Cons y ys)
  then show ?case
    by (cases "lt y x") (auto simp: not_less)
qed simp

lemma sorted_sort_by:
  "\<forall>a\<in>set xs. \<forall>b\<in>set xs. lt a b \<longleftrightarrow> k a < (k b :: 'b :: linorder) \<Longrightarrow> sorted (map k (sort_by lt xs))"
proof (induction xs)
  case (Cons x xs)
  have "sort_by lt (x # xs) = insert_by lt x (sort_by lt xs)"
    by (simp add: sort_by_def)
  then show ?case
    using Cons by (simp add: sorted_insert_by)
qed (simp add: sort_by_def)

text \<open>The halving search finds the partition point of a monotone test.\<close>

lemma upper_bound_partition:
  assumes "\<And>i. i < n \<Longrightarrow> before i = Some (P i)" "\<And>i j. i \<le> j \<Longrightarrow> j < n \<Longrightarrow> P i \<Longrightarrow> P j"
    and "first + len \<le> n" "\<And>i. i < first \<Longrightarrow> \<not> P i" "\<And>i. first + len \<le> i \<Longrightarrow> i < n \<Longrightarrow> P i"
  shows "\<exists>k\<le>n. upper_bound before first len = Some k \<and> (\<forall>i<k. \<not> P i) \<and> (\<forall>i<n. k \<le> i \<longrightarrow> P i)"
  using assms
proof (induction before first len rule: upper_bound.induct)
  case (1 before first len)
  let ?h = "len div 2" and ?m = "first + len div 2"
  show ?case
  proof (cases "len = 0")
    case True
    then show ?thesis using "1.prems" by (intro exI [of _ first]) (simp add: upper_bound.simps)
  next
    case False
    then have m: "?m < n" using "1.prems"(3) by linarith
    note b = "1.prems"(1) [OF m]
    show ?thesis
    proof (cases "P ?m")
      case True
      have "\<And>i. first + ?h \<le> i \<Longrightarrow> i < n \<Longrightarrow> P i"
        using "1.prems"(2) True by blast
      then show ?thesis
        using "1.IH"(1) [OF False refl refl b, unfolded True] "1.prems" m b True False
        by (subst upper_bound.simps) simp
    next
      case notP: False
      have "\<And>i. i < ?m + 1 \<Longrightarrow> \<not> P i"
        using "1.prems"(2) [OF _ m] notP by (metis less_Suc_eq_le Suc_eq_plus1)
      moreover have "\<And>i. ?m + 1 + (len - ?h - 1) \<le> i \<Longrightarrow> i < n \<Longrightarrow> P i" "?m + 1 + (len - ?h - 1) \<le> n"
        using "1.prems"(3,5) False by auto
      ultimately show ?thesis
        using "1.IH"(2) [OF False refl refl b, unfolded notP] "1.prems"(1,2) b notP False
        by (subst upper_bound.simps) (simp add: Let_def)
    qed
  qed
qed

text \<open>So the lookups find the one entry whose range contains the value, if there is one.\<close>

lemma range_search:
  fixes lo hi :: "'e \<Rightarrow> 'b :: linorder"
  assumes sorted: "sorted (map lo es)" and get: "\<And>i. i < length es \<Longrightarrow> get i = Some (es ! i)"
    and bef: "\<And>e. e \<in> set es \<Longrightarrow> bef e \<longleftrightarrow> x < lo e"
    and inside: "\<And>e. e \<in> set es \<Longrightarrow> inside e \<longleftrightarrow> lo e \<le> x \<and> x \<le> hi e"
    and ranges: "\<And>e. e \<in> set es \<Longrightarrow> lo e \<le> hi e"
    and disjoint: "\<And>e e'. e \<in> set es \<Longrightarrow> e' \<in> set es \<Longrightarrow> e \<noteq> e' \<Longrightarrow> hi e < lo e' \<or> hi e' < lo e"
    and us: "set us = set es"
  shows "(case upper_bound (\<lambda>i. map_option bef (get i)) 0 (length es) of
      None \<Rightarrow> None
    | Some It \<Rightarrow> if It = 0 then Some None
        else (case get (It - 1) of None \<Rightarrow> None | Some e \<Rightarrow> if inside e then Some (f e) else Some None))
    = Some (case find inside us of None \<Rightarrow> None | Some e \<Rightarrow> f e)"
proof -
  let ?P = "\<lambda>i. x < lo (es ! i)"
  have mono: "lo (es ! i) \<le> lo (es ! j)" if "i \<le> j" "j < length es" for i j
    using sorted that by (simp add: sorted_iff_nth_mono)
  have test: "map_option bef (get i) = Some (?P i)" if "i < length es" for i
    using that by (simp add: get bef)
  obtain k where k: "k \<le> length es" "upper_bound (\<lambda>i. map_option bef (get i)) 0 (length es) = Some k"
      "\<forall>i<k. \<not> ?P i" "\<forall>i<length es. k \<le> i \<longrightarrow> ?P i"
  proof -
    have "?P j" if "i \<le> j" "j < length es" "?P i" for i j
      using that(3) mono [OF that(1,2)] by (rule less_le_trans)
    then show thesis
      using upper_bound_partition [of "length es" "\<lambda>i. map_option bef (get i)" ?P 0 "length es"] test that by auto
  qed
  have hit: "0 < k \<and> e = es ! (k - 1)" if e: "e \<in> set es" "inside e" for e
  proof -
    obtain i where i: "i < length es" "e = es ! i"
      using e(1) by (auto simp: in_set_conv_nth)
    have lo: "lo e \<le> x" and hi: "x \<le> hi e"
      using inside e by auto
    then have "i < k" using k(4) i by (metis leD leI)
    then have "\<not> x < lo (es ! (k - 1))" and up: "lo e \<le> lo (es ! (k - 1))" and "k - 1 < length es"
      using k(1,3) mono [of i "k - 1"] i(2) by auto
    then have "\<not> hi e < lo (es ! (k - 1))" "\<not> hi (es ! (k - 1)) < lo e"
      using hi ranges [of "es ! (k - 1)"] by (auto simp: not_less intro: order.trans)
    then show ?thesis
      using disjoint [of e "es ! (k - 1)"] e(1) \<open>k - 1 < length es\<close> \<open>i < k\<close> by auto
  qed
  have found: "find inside us = (if 0 < k \<and> inside (es ! (k - 1)) then Some (es ! (k - 1)) else None)"
  proof (cases "find inside us")
    case None
    then show ?thesis using k(1) us by (auto simp: find_None_iff)
  next
    case (Some e)
    then have "e \<in> set es" "inside e" using us by (auto simp: find_Some_iff)
    then show ?thesis using hit Some by metis
  qed
  show ?thesis
    using k(1) by (simp add: k(2) found get)
qed

section \<open>The index file\<close>

lemma length_le_bytes [simp]: "length (le_bytes n v) = n"
  by (induction n arbitrary: v) auto

lemma le_nat_le_bytes [simp]: "le_nat (le_bytes n v) = v mod 256 ^ n"
proof (induction n arbitrary: v)
  case (Suc n)
  have "unat (of_nat (v mod 256) :: u8) = v mod 256"
    by (simp add: unat_of_nat)
  then show ?case
    by (simp add: Suc mod_mult2_eq)
qed simp

lemma le_at_append:
  "length xs \<le> off \<Longrightarrow> le_at off n (xs @ ys) = le_at (off - length xs) n ys"
  "n = length xs \<Longrightarrow> le_at 0 n (xs @ ys) = le_nat xs"
  by (simp_all add: le_at_def)

lemma le_at_self: "n = length xs \<Longrightarrow> le_at 0 n xs = le_nat xs"
  by (simp add: le_at_def)

lemma unat_bytes [simp]:
  "unat (w :: u16) mod 65536 = unat w" "unat (v :: u32) mod 4294967296 = unat v"
  "unat (x :: u64) mod 18446744073709551616 = unat x"
  using unsigned_less [of w, where 'a = nat] unsigned_less [of v, where 'a = nat] unsigned_less [of x, where 'a = nat]
  by simp_all

lemma length_put [simp]:
  "length (put_header h) = sizeof_header" "length (put_v4 e) = sizeof_v4"
  "length (V6Start g) = 16 \<Longrightarrow> length (V6End g) = 16 \<Longrightarrow> length (put_v6 g) = sizeof_v6"
  by (simp_all add: put_header_def put_v4_def put_v6_def)

lemma get_put_header: "get_header (put_header h @ rest) = h"
  by (simp add: get_header_def put_header_def le_at_append le_at_self)

lemma get_put_v4: "length xs = p \<Longrightarrow> get_v4 (xs @ put_v4 e @ ys) p = Some e"
  by (simp add: get_v4_def put_v4_def le_at_append)

lemma get_put_v6:
  "length xs = p \<Longrightarrow> length (V6Start e) = 16 \<Longrightarrow> length (V6End e) = 16 \<Longrightarrow> get_v6 (xs @ put_v6 e @ ys) p = Some e"
  by (simp add: get_v6_def put_v6_def le_at_append)

lemma length_concat_const: "(\<And>x. x \<in> set xs \<Longrightarrow> length (f x) = n) \<Longrightarrow> length (concat (map f xs)) = length xs * n"
  by (induction xs) auto

lemma concat_split:
  assumes "i < length es"
  shows "concat (map f es) = concat (map f (take i es)) @ f (es ! i) @ concat (map f (drop (Suc i) es))"
  using arg_cong [OF id_take_nth_drop [OF assms], of "\<lambda>l. concat (map f l)"] by simp

lemma get_v4_index:
  assumes "i < length es"
  shows "get_v4 (put_header h @ concat (map put_v4 es) @ rest) (sizeof_header + i * sizeof_v4) = Some (es ! i)"
proof -
  have "length (concat (map put_v4 (take i es))) = i * sizeof_v4"
    using assms by (subst length_concat_const [of _ _ sizeof_v4]) auto
  then show ?thesis
    using get_put_v4 [of "put_header h @ concat (map put_v4 (take i es))" "sizeof_header + i * sizeof_v4" "es ! i"
        "concat (map put_v4 (drop (Suc i) es)) @ rest"]
    by (simp add: concat_split [OF assms])
qed

lemma get_v6_index:
  assumes "i < length es" "\<And>e. e \<in> set es \<Longrightarrow> length (V6Start e) = 16 \<and> length (V6End e) = 16" "length pre = p"
  shows "get_v6 (pre @ concat (map put_v6 es) @ rest) (p + i * sizeof_v6) = Some (es ! i)"
proof -
  have "length (put_v6 e) = sizeof_v6" if "e \<in> set (take i es)" for e
    using assms(2) in_set_takeD [OF that] by simp
  then have "length (concat (map put_v6 (take i es))) = i * sizeof_v6"
    using assms(1) by (subst length_concat_const [of "take i es" put_v6 sizeof_v6]) simp_all
  moreover have "length (V6Start (es ! i)) = 16" "length (V6End (es ! i)) = 16"
    using assms(2) [of "es ! i"] assms(1) by auto
  ultimately show ?thesis
    using get_put_v6 [of "pre @ concat (map put_v6 (take i es))" "p + i * sizeof_v6" "es ! i"
        "concat (map put_v6 (drop (Suc i) es)) @ rest"] assms(3)
    by (simp add: concat_split [OF assms(1)])
qed

text \<open>Mapping the index that was built gives a view of the sorted entries.\<close>

definition v4_before :: "WIP2AsnIndexEntryV4 \<Rightarrow> WIP2AsnIndexEntryV4 \<Rightarrow> bool" where
  "v4_before A B = (V4Start A < V4Start B)"

definition v6_before :: "WIP2AsnIndexEntryV6 \<Rightarrow> WIP2AsnIndexEntryV6 \<Rightarrow> bool" where
  "v6_before A B = (CmpIPv6 (V6Start A) (V6Start B) < 0)"

definition sorted_index :: "index_vectors \<Rightarrow> WIP2AsnDB \<Rightarrow> bool" where
  "sorted_index Vs db \<longleftrightarrow> (\<exists>V. IndexView db = Some V
     \<and> unat (CountV4 (Header V)) = length (fst Vs) \<and> unat (CountV6 (Header V)) = length (snd Vs)
     \<and> (\<forall>i<length (fst Vs). get_v4 (mapping_of db) (V4Entries V + i * sizeof_v4) = Some (sort_by v4_before (fst Vs) ! i))
     \<and> (\<forall>i<length (snd Vs). get_v6 (mapping_of db) (V6Entries V + i * sizeof_v6) = Some (sort_by v6_before (snd Vs) ! i)))"

definition wf_v6 :: "WIP2AsnIndexEntryV6 \<Rightarrow> bool" where
  "wf_v6 e \<longleftrightarrow> length (V6Start e) = 16 \<and> length (V6End e) = 16"

lemma unat_count: "n < 2 ^ 59 \<Longrightarrow> unat (of_nat n :: u64) = n" "n < 2 ^ 59 \<Longrightarrow> unat (of_nat n * 16 :: u64) = n * 16"
  using unat_of_nat [of n, where 'a = 64] unat_of_nat [of "n * 16", where 'a = 64] by simp_all

lemma MapIndex_image:
  assumes "IndexFile db = Some (index_image File Vs)" "mmap_ok io"
    and "length (fst Vs) < 2 ^ 59" "length (snd Vs) < 2 ^ 59" "\<forall>e\<in>set (snd Vs). wf_v6 e"
  obtains db' where "MapIndex io db = (True, db')" "sorted_index Vs db'"
    "DatabaseFile db' = DatabaseFile db" "IndexFile db' = IndexFile db"
    "\<exists>V. IndexView db' = Some V \<and> Magic (Header V) = kIndexMagic \<and> Version (Header V) = kIndexVersion
       \<and> TSVSize (Header V) = of_nat (length File)"
proof -
  let ?V4s = "sort_by v4_before (fst Vs)" and ?V6s = "sort_by v6_before (snd Vs)"
  let ?n = "length (fst Vs)" and ?m = "length (snd Vs)"
  let ?H = "\<lparr>Magic = kIndexMagic, Version = kIndexVersion, EntrySizeV4 = 16, EntrySizeV6 = 40,
     Reserved = 0, CountV4 = of_nat ?n, CountV6 = of_nat ?m, TSVSize = of_nat (length File)\<rparr>"
  define I where "I = put_header ?H @ concat (map put_v4 ?V4s) @ concat (map put_v6 ?V6s)"
  have image: "index_image File Vs = I"
    by (simp add: I_def index_image_def v4_before_def [abs_def] v6_before_def [abs_def] Let_def)
  have len: "length I = sizeof_header + ?n * sizeof_v4 + ?m * sizeof_v6"
    using assms(5) length_concat_const [of ?V4s put_v4 sizeof_v4] length_concat_const [of ?V6s put_v6 sizeof_v6]
    by (simp add: I_def wf_v6_def)
  then have "I \<noteq> []"
    by auto
  define pad where "pad = replicate ((4096 - length I mod 4096) mod 4096) (0 :: u8)"
  have M: "page_pad I = put_header ?H @ concat (map put_v4 ?V4s) @ concat (map put_v6 ?V6s) @ pad"
    unfolding page_pad_def pad_def [symmetric] by (simp add: I_def)
  have H: "get_header (page_pad I) = ?H"
    unfolding M by (rule get_put_header)
  let ?V = "\<lparr>Header = ?H, V4Entries = sizeof_header, V6Entries = sizeof_header + ?n * sizeof_v4\<rparr>"
  let ?db = "db\<lparr>IndexMapping := Some (page_pad I), IndexMappingSize := length I, IndexView := Some ?V\<rparr>"
  have "MapIndex io db = (True, ?db)"
    using assms(1-4) unat_count [of ?n] \<open>I \<noteq> []\<close>
    by (simp add: MapIndex_def UnmapIndex_def image H len Let_def)
  moreover have "sorted_index Vs ?db"
  proof -
    have "get_v4 (page_pad I) (sizeof_header + i * sizeof_v4) = Some (?V4s ! i)" if "i < ?n" for i
      unfolding M using that by (intro get_v4_index) simp
    moreover have "get_v6 (page_pad I) (sizeof_header + ?n * sizeof_v4 + i * sizeof_v6) = Some (?V6s ! i)" if "i < ?m" for i
    proof -
      have "length (put_header ?H @ concat (map put_v4 ?V4s)) = sizeof_header + ?n * sizeof_v4"
        by (simp add: length_concat_const [of _ _ sizeof_v4])
      then show ?thesis
        unfolding M using that assms(5)
        by (subst append_assoc [symmetric], intro get_v6_index) (simp_all add: wf_v6_def)
    qed
    ultimately show ?thesis
      using unat_count assms(3,4) by (simp add: sorted_index_def mapping_of_def)
  qed
  ultimately show thesis by (intro that [of ?db]) simp_all
qed

section \<open>Rows of the table\<close>

text \<open>A well-formed table is a list of rows with disjoint ranges; \<open>table_text\<close> is the file.\<close>

record asn_row =
  RowStart :: string
  RowEnd :: string
  RowAsn :: string
  RowCountry :: string
  RowOrg :: string

definition row_line :: "asn_row \<Rightarrow> string" where
  "row_line r = RowStart r @ Tab # RowEnd r @ Tab # RowAsn r @ Tab # RowCountry r @ Tab # RowOrg r"

definition table_text :: "asn_row list \<Rightarrow> string" where
  "table_text rows = concat (map (\<lambda>r. row_line r @ [Newline]) rows)"

definition be_num :: "u8 list \<Rightarrow> nat" where
  "be_num bs = foldl (\<lambda>n b. n * 256 + unat b) 0 bs"

definition addr_num :: "WIPAddress \<Rightarrow> nat" where
  "addr_num a = (if Family a = IPv4 then unat (ToInt a) else be_num (Bytes a))"

definition row_range :: "(string \<Rightarrow> u8 list option) \<Rightarrow> (string \<Rightarrow> u8 list option) \<Rightarrow> asn_row \<Rightarrow> (WIPAddress \<times> WIPAddress) option" where
  "row_range p4 p6 r = (case (FromString p4 p6 (RowStart r), FromString p4 p6 (RowEnd r)) of
     (Some a, Some b) \<Rightarrow> Some (a, b) | _ \<Rightarrow> None)"

definition wf_row :: "(string \<Rightarrow> u8 list option) \<Rightarrow> (string \<Rightarrow> u8 list option) \<Rightarrow> asn_row \<Rightarrow> bool" where
  "wf_row p4 p6 r \<longleftrightarrow> Tab \<notin> set (RowStart r) \<and> Tab \<notin> set (RowEnd r) \<and> Tab \<notin> set (RowAsn r) \<and> Tab \<notin> set (RowCountry r)
     \<and> Newline \<notin> set (row_line r) \<and> RowOrg r \<noteq> []
     \<and> (case row_range p4 p6 r of None \<Rightarrow> False
        | Some (a, b) \<Rightarrow> Family a = Family b \<and> addr_num a \<le> addr_num b)"

definition row_contains :: "(string \<Rightarrow> u8 list option) \<Rightarrow> (string \<Rightarrow> u8 list option) \<Rightarrow> WIPAddress \<Rightarrow> asn_row \<Rightarrow> bool" where
  "row_contains p4 p6 ip r \<longleftrightarrow> (case row_range p4 p6 r of None \<Rightarrow> False
     | Some (a, b) \<Rightarrow> Family a = Family ip \<and> addr_num a \<le> addr_num ip \<and> addr_num ip \<le> addr_num b)"

definition rows_overlap :: "(string \<Rightarrow> u8 list option) \<Rightarrow> (string \<Rightarrow> u8 list option) \<Rightarrow> asn_row \<Rightarrow> asn_row \<Rightarrow> bool" where
  "rows_overlap p4 p6 r q \<longleftrightarrow> (case (row_range p4 p6 r, row_range p4 p6 q) of
     (Some (a, b), Some (c, d)) \<Rightarrow> Family a = Family c \<and> addr_num a \<le> addr_num d \<and> addr_num c \<le> addr_num b
   | _ \<Rightarrow> False)"

definition row_result :: "asn_row \<Rightarrow> WIP2AsnLookupResult" where
  "row_result r = \<lparr>ResultAddress = WIPAddress_init, ASN = from_chars_u32 (RowAsn r), Country = RowCountry r,
     Organization = RowOrg r\<rparr>"

text \<open>The rows with the offsets of their lines, and the index entries the builder makes of them.\<close>

fun placed :: "nat \<Rightarrow> asn_row list \<Rightarrow> (nat \<times> asn_row) list" where
  "placed off [] = []"
| "placed off (r # rs) = (off, r) # placed (off + length (row_line r) + 1) rs"

definition is_v4 :: "(string \<Rightarrow> u8 list option) \<Rightarrow> (string \<Rightarrow> u8 list option) \<Rightarrow> nat \<times> asn_row \<Rightarrow> bool" where
  "is_v4 p4 p6 p = (Family (fst (the (row_range p4 p6 (snd p)))) = IPv4)"

definition entry4 :: "(string \<Rightarrow> u8 list option) \<Rightarrow> (string \<Rightarrow> u8 list option) \<Rightarrow> nat \<times> asn_row \<Rightarrow> WIP2AsnIndexEntryV4" where
  "entry4 p4 p6 p = (let (a, b) = the (row_range p4 p6 (snd p)) in
     \<lparr>V4Start = ToInt a, V4End = ToInt b, V4Offset = of_nat (fst p)\<rparr>)"

definition entry6 :: "(string \<Rightarrow> u8 list option) \<Rightarrow> (string \<Rightarrow> u8 list option) \<Rightarrow> nat \<times> asn_row \<Rightarrow> WIP2AsnIndexEntryV6" where
  "entry6 p4 p6 p = (let (a, b) = the (row_range p4 p6 (snd p)) in
     \<lparr>V6Start = Bytes a, V6End = Bytes b, V6Offset = of_nat (fst p)\<rparr>)"

lemma wf_rowE:
  assumes "wf_row p4 p6 r"
  obtains a b where "row_range p4 p6 r = Some (a, b)" "FromString p4 p6 (RowStart r) = Some a"
    "FromString p4 p6 (RowEnd r) = Some b" "Family a = Family b" "addr_num a \<le> addr_num b"
  using assms by (auto simp: wf_row_def row_range_def split: option.splits)

lemma takeWhile_stop: "c \<notin> set xs \<Longrightarrow> takeWhile (\<lambda>x. x \<noteq> c) (xs @ c # ys) = xs"
  by (induction xs) auto

lemma getline_stop: "c \<notin> set xs \<Longrightarrow> getline c (xs @ c # ys) = Some (xs, ys)"
  by (simp add: getline_def takeWhile_stop Let_def)

lemma getline_last: "c \<notin> set xs \<Longrightarrow> xs \<noteq> [] \<Longrightarrow> getline c xs = Some (xs, [])"
proof -
  assume "c \<notin> set xs" "xs \<noteq> []"
  then have "takeWhile (\<lambda>x. x \<noteq> c) xs = xs"
    by (auto simp: takeWhile_eq_all_conv)
  then show ?thesis
    using \<open>xs \<noteq> []\<close> by (simp only: getline_def) simp
qed

lemma find_char_stop: "c \<notin> set xs \<Longrightarrow> find_char c (pre @ xs @ c # ys) (length pre) = Some (length pre + length xs)"
  by (simp add: find_char_def takeWhile_stop Let_def)

lemma index_line_row:
  assumes "wf_row p4 p6 r"
  shows "index_line p4 p6 (row_line r) (of_nat off) (A, B) =
     (if is_v4 p4 p6 (off, r) then (A @ [entry4 p4 p6 (off, r)], B) else (A, B @ [entry6 p4 p6 (off, r)]))"
proof -
  obtain a b where r: "row_range p4 p6 r = Some (a, b)" "FromString p4 p6 (RowStart r) = Some a"
    "FromString p4 p6 (RowEnd r) = Some b"
    using assms by (rule wf_rowE)
  have "find_char Tab (row_line r) 0 = Some (length (RowStart r))"
    using assms find_char_stop [of Tab "RowStart r" "[]"] by (simp add: row_line_def wf_row_def)
  moreover have "find_char Tab (row_line r) (length (RowStart r) + 1) = Some (length (RowStart r) + 1 + length (RowEnd r))"
    using assms find_char_stop [of Tab "RowEnd r" "RowStart r @ [Tab]"] by (simp add: row_line_def wf_row_def)
  moreover have "row_line r \<noteq> []" "take (length (RowStart r)) (row_line r) = RowStart r"
    "take (length (RowEnd r)) (drop (length (RowStart r) + 1) (row_line r)) = RowEnd r"
    by (simp_all add: row_line_def)
  ultimately show ?thesis
    by (simp add: index_line_def r is_v4_def entry4_def entry6_def)
qed

lemma index_loop_rows:
  "\<forall>r\<in>set rows. wf_row p4 p6 r \<Longrightarrow> index_loop p4 p6 (table_text rows) off (A, B) =
     (A @ map (entry4 p4 p6) (filter (is_v4 p4 p6) (placed off rows)),
      B @ map (entry6 p4 p6) (filter (\<lambda>p. \<not> is_v4 p4 p6 p) (placed off rows)))"
proof (induction rows arbitrary: off A B)
  case Nil
  then show ?case by (simp add: table_text_def index_loop.simps getline_def)
next
  case (Cons r rows)
  have "getline Newline (table_text (r # rows)) = Some (row_line r, table_text rows)"
    using Cons.prems getline_stop [of Newline "row_line r"] by (simp add: table_text_def wf_row_def)
  then show ?case
    using Cons by (subst index_loop.simps) (simp add: index_line_row)
qed

lemma placed_line:
  "(off', r) \<in> set (placed off rows) \<Longrightarrow>
     off \<le> off' \<and> off' < off + length (table_text rows) \<and> r \<in> set rows \<and>
     (\<exists>rest. drop (off' - off) (table_text rows) = row_line r @ Newline # rest)"
proof (induction rows arbitrary: off)
  case (Cons q rows)
  show ?case
  proof (cases "(off', r) = (off, q)")
    case True
    then show ?thesis by (auto simp: table_text_def)
  next
    case False
    then have "(off', r) \<in> set (placed (off + length (row_line q) + 1) rows)"
      using Cons.prems by auto
    from Cons.IH [OF this] show ?thesis
      by (auto simp: table_text_def Suc_diff_le dest!: le_Suc_ex)
  qed
qed simp

lemma ReadEntry_row:
  assumes "DatabaseFile db = Some (table_text rows)" "length (table_text rows) < 2 ^ 59"
    and "(off, r) \<in> set (placed 0 rows)" "wf_row p4 p6 r"
  shows "ReadEntryAtOffset db (of_nat off) = Some (row_result r)"
proof -
  obtain rest where "off < length (table_text rows)" "drop off (table_text rows) = row_line r @ Newline # rest"
    using placed_line [OF assms(3)] by auto
  then have "unat (of_nat off :: u64) = off" "getline Newline (drop off (table_text rows)) = Some (row_line r, rest)"
    using assms(2,4) unat_count(1) [of off] by (simp_all add: getline_stop wf_row_def)
  moreover have "Newline \<notin> set (RowOrg r)"
    using assms(4) by (simp add: wf_row_def row_line_def)
  ultimately show ?thesis
    using assms(1,4)
    by (simp add: ReadEntryAtOffset_def row_line_def wf_row_def getline_stop getline_last row_result_def)
qed

section \<open>Lookup\<close>

lemma be_num_Cons: "be_num (a # as) = unat a * 256 ^ length as + be_num as"
proof -
  have "foldl (\<lambda>n b. n * 256 + unat b) k as = k * 256 ^ length as + foldl (\<lambda>n b. n * 256 + unat b) 0 as" for k :: nat
  proof (induction as arbitrary: k)
    case (Cons b as)
    show ?case
      by (simp only: foldl.simps Cons [of "k * 256 + unat b"] Cons [of "0 * 256 + unat b"])
        (simp add: algebra_simps)
  qed simp
  from this [of "unat a"] show ?thesis
    by (simp add: be_num_def)
qed

lemma digit_less: "a < b \<Longrightarrow> r < B \<Longrightarrow> a * B + r < b * (B :: nat)"
  using mult_le_mono1 [of "a + 1" b B] by simp

lemma be_num_bound: "be_num as < 256 ^ length as"
proof (induction as)
  case (Cons a as)
  show ?case
    using digit_less [OF unat_u8_less [of a] Cons] by (simp add: be_num_Cons)
qed (simp add: be_num_def)

lemma memcmp_num:
  "length as = length bs \<Longrightarrow> memcmp as bs = (if be_num as < be_num bs then - 1 else if be_num bs < be_num as then 1 else 0)"
proof (induction as bs rule: memcmp.induct)
  case (1 a as b bs)
  have step: "be_num (x # xs) < be_num (y # ys)" if "x < y" "length xs = length ys" for x y xs ys
    using digit_less [of "unat x" "unat y" "be_num xs" "256 ^ length xs"] be_num_bound [of xs] that
    by (simp add: be_num_Cons word_less_nat_alt)
  show ?case
    using step [of a b as bs] step [of b a bs as] "1.prems" "1.IH"
    by (cases a b rule: linorder_cases) (auto simp: be_num_Cons)
qed (auto simp: be_num_def)

lemma FromString_wf: "FromString p4 p6 s = Some a \<Longrightarrow> wf_addr a \<and> Family a \<noteq> FamilyUnknown"
  by (auto simp: FromString_def FromStringV4_def FromStringV6_def wf_addr_def WIPAddress_init_def
      split: option.splits if_splits)

lemma LookupIPv4_search:
  assumes "sorted_index Vs db" "\<And>e. e \<in> set (fst Vs) \<Longrightarrow> V4Start e \<le> V4End e"
    and "\<And>e e'. e \<in> set (fst Vs) \<Longrightarrow> e' \<in> set (fst Vs) \<Longrightarrow> e \<noteq> e' \<Longrightarrow> V4End e < V4Start e' \<or> V4End e' < V4Start e"
  shows "LookupIPv4 db ip = Some (case find (\<lambda>e. ip \<ge> V4Start e \<and> ip \<le> V4End e) (fst Vs) of
     None \<Rightarrow> None | Some e \<Rightarrow> ReadEntryAtOffset db (V4Offset e))"
proof -
  obtain V where V: "IndexView db = Some V" "unat (CountV4 (Header V)) = length (sort_by v4_before (fst Vs))"
    "\<And>i. i < length (fst Vs) \<Longrightarrow> get_v4 (mapping_of db) (V4Entries V + i * sizeof_v4) = Some (sort_by v4_before (fst Vs) ! i)"
    using assms(1) by (auto simp: sorted_index_def)
  have "sorted (map V4Start (sort_by v4_before (fst Vs)))"
    by (rule sorted_sort_by) (simp add: v4_before_def)
  then show ?thesis
    unfolding LookupIPv4_def V(1,2) option.case Let_def
    by (rule range_search [where hi = V4End and x = ip]) (use V(3) assms(2,3) in simp_all)
qed

lemma LookupIPv6_search:
  fixes num :: "u8 list \<Rightarrow> nat"
  defines "num \<equiv> be_num"
  assumes "sorted_index Vs db" "\<And>e. e \<in> set (snd Vs) \<Longrightarrow> wf_v6 e" "length ip = 16"
    and "\<And>e. e \<in> set (snd Vs) \<Longrightarrow> num (V6Start e) \<le> num (V6End e)"
    and "\<And>e e'. e \<in> set (snd Vs) \<Longrightarrow> e' \<in> set (snd Vs) \<Longrightarrow> e \<noteq> e' \<Longrightarrow>
       num (V6End e) < num (V6Start e') \<or> num (V6End e') < num (V6Start e)"
  shows "LookupIPv6 db ip = Some (case find (\<lambda>e. CmpIPv6 ip (V6Start e) \<ge> 0 \<and> CmpIPv6 ip (V6End e) \<le> 0) (snd Vs) of
     None \<Rightarrow> None | Some e \<Rightarrow> ReadEntryAtOffset db (V6Offset e))"
proof -
  obtain V where V: "IndexView db = Some V" "unat (CountV6 (Header V)) = length (sort_by v6_before (snd Vs))"
    "\<And>i. i < length (snd Vs) \<Longrightarrow> get_v6 (mapping_of db) (V6Entries V + i * sizeof_v6) = Some (sort_by v6_before (snd Vs) ! i)"
    using assms(2) by (auto simp: sorted_index_def)
  have cmp: "CmpIPv6 as bs = (if num as < num bs then - 1 else if num bs < num as then 1 else 0)"
    if "length as = 16" "length bs = 16" for as bs
    using that by (simp add: CmpIPv6_def memcmp_num num_def)
  have "sorted (map (\<lambda>e. num (V6Start e)) (sort_by v6_before (snd Vs)))"
    using assms(3) by (intro sorted_sort_by) (simp add: v6_before_def cmp wf_v6_def)
  then show ?thesis
    unfolding LookupIPv6_def V(1,2) option.case Let_def
    by (rule range_search [where hi = "\<lambda>e. num (V6End e)" and x = "num ip"])
      (use V(3) assms(3-) in \<open>simp_all add: cmp wf_v6_def\<close>)
qed

section \<open>The database as a table\<close>

lemma find_map_filter:
  "find P (map f (filter Q xs)) = map_option f (find (\<lambda>x. Q x \<and> P (f x)) xs)"
  by (induction xs) auto

lemma map_snd_placed [simp]: "map snd (placed off rows) = rows"
  by (induction rows arbitrary: off) auto

lemma find_placed: "map_option snd (find (\<lambda>p. P (snd p)) (placed off rows)) = find P rows"
  by (induction rows arbitrary: off) auto

lemma sorted_wrt_apart:
  "sorted_wrt R xs \<Longrightarrow> x \<in> set xs \<Longrightarrow> y \<in> set xs \<Longrightarrow> x \<noteq> y \<Longrightarrow> R x y \<or> R y x"
  by (induction xs) auto

definition table_ok :: "(string \<Rightarrow> u8 list option) \<Rightarrow> (string \<Rightarrow> u8 list option) \<Rightarrow> asn_row list \<Rightarrow> bool" where
  "table_ok p4 p6 rows \<longleftrightarrow> (\<forall>r\<in>set rows. wf_row p4 p6 r) \<and> sorted_wrt (\<lambda>r q. \<not> rows_overlap p4 p6 r q) rows
     \<and> length (table_text rows) < 2 ^ 59"

definition table_vectors :: "(string \<Rightarrow> u8 list option) \<Rightarrow> (string \<Rightarrow> u8 list option) \<Rightarrow> asn_row list \<Rightarrow> index_vectors" where
  "table_vectors p4 p6 rows = (map (entry4 p4 p6) (filter (is_v4 p4 p6) (placed 0 rows)),
     map (entry6 p4 p6) (filter (\<lambda>p. \<not> is_v4 p4 p6 p) (placed 0 rows)))"

lemma placed_facts:
  assumes "table_ok p4 p6 rows" "p \<in> set (placed 0 rows)"
  obtains a b where "row_range p4 p6 (snd p) = Some (a, b)" "Family a = Family b" "addr_num a \<le> addr_num b"
    "wf_addr a" "wf_addr b" "Family a \<noteq> FamilyUnknown" "wf_row p4 p6 (snd p)"
proof -
  have "snd p \<in> set rows"
    using placed_line [of "fst p" "snd p" 0 rows] assms(2) by simp
  then have wf: "wf_row p4 p6 (snd p)"
    using assms(1) by (simp add: table_ok_def)
  then obtain a b where "row_range p4 p6 (snd p) = Some (a, b)" "FromString p4 p6 (RowStart (snd p)) = Some a"
    "FromString p4 p6 (RowEnd (snd p)) = Some b" "Family a = Family b" "addr_num a \<le> addr_num b"
    by (rule wf_rowE)
  with wf show thesis
    using FromString_wf by (metis that)
qed

lemma placed_apart:
  assumes "table_ok p4 p6 rows" "p \<in> set (placed 0 rows)" "q \<in> set (placed 0 rows)" "p \<noteq> q"
  shows "\<not> rows_overlap p4 p6 (snd p) (snd q)"
proof -
  have "sorted_wrt (\<lambda>p q. \<not> rows_overlap p4 p6 (snd p) (snd q)) (placed 0 rows)"
    using assms(1) sorted_wrt_map [of "\<lambda>r q. \<not> rows_overlap p4 p6 r q" snd "placed 0 rows"] by (simp add: table_ok_def)
  from sorted_wrt_apart [OF this assms(2-4)] show ?thesis
    by (auto simp: rows_overlap_def split: option.splits)
qed

lemma length_table: "length rows \<le> length (table_text rows)"
  by (induction rows) (auto simp: table_text_def)

lemma length_placed [simp]: "length (placed off rows) = length rows"
  by (induction rows arbitrary: off) auto

lemma table_vectors_small:
  assumes "table_ok p4 p6 rows"
  shows "length (fst (table_vectors p4 p6 rows)) < 2 ^ 59" "length (snd (table_vectors p4 p6 rows)) < 2 ^ 59"
proof -
  have "length (filter Q (placed 0 rows)) < 2 ^ 59" for Q
    using assms length_table [of rows] length_filter_le [of Q "placed 0 rows"] by (simp add: table_ok_def)
  then show "length (fst (table_vectors p4 p6 rows)) < 2 ^ 59" "length (snd (table_vectors p4 p6 rows)) < 2 ^ 59"
    by (simp_all add: table_vectors_def)
qed

lemma entry6_wf:
  assumes "table_ok p4 p6 rows" "p \<in> set (placed 0 rows)"
  shows "wf_v6 (entry6 p4 p6 p)"
  by (rule placed_facts [OF assms]) (simp add: entry6_def wf_v6_def wf_addr_def)

lemma known_family: "Family a \<noteq> IPv4 \<Longrightarrow> Family a \<noteq> FamilyUnknown \<Longrightarrow> Family a = IPv6"
  by (cases "Family a") auto

lemma table_lookup:
  assumes "sorted_index (table_vectors p4 p6 rows) db" "DatabaseFile db = Some (table_text rows)"
    and ok: "table_ok p4 p6 rows" and ip: "wf_addr ip" "Family ip \<noteq> FamilyUnknown"
  shows "DbLookup db ip = Some (map_option row_result (find (row_contains p4 p6 ip) rows))"
proof -
  let ?ps = "placed 0 rows"
  have rd: "ReadEntryAtOffset db (of_nat (fst p)) = Some (row_result (snd p))" if "p \<in> set ?ps" for p
  proof -
    have "wf_row p4 p6 (snd p)"
      by (rule placed_facts [OF ok that])
    then show ?thesis
      using ReadEntry_row [OF assms(2) _ _, of "fst p" "snd p"] ok that by (simp add: table_ok_def)
  qed
  have result: "(case map_option f (find R ?ps) of None \<Rightarrow> None | Some e \<Rightarrow> ReadEntryAtOffset db (off e))
      = map_option row_result (find (row_contains p4 p6 ip) rows)"
    if "\<And>p. p \<in> set ?ps \<Longrightarrow> R p \<longleftrightarrow> row_contains p4 p6 ip (snd p)" "\<And>p. off (f p) = of_nat (fst p)" for R f off
  proof -
    have "find R ?ps = find (\<lambda>p. row_contains p4 p6 ip (snd p)) ?ps"
      using that(1) by (intro find_cong) auto
    moreover have "p \<in> set ?ps" if "find (\<lambda>p. row_contains p4 p6 ip (snd p)) ?ps = Some p" for p
      using that by (auto simp: find_Some_iff)
    ultimately show ?thesis
      using rd that(2)
      unfolding find_placed [of "row_contains p4 p6 ip" 0 rows, symmetric]
      by (cases "find (\<lambda>p. row_contains p4 p6 ip (snd p)) ?ps") auto
  qed
  have apart: "\<not> rows_overlap p4 p6 (snd p) (snd q)" if "p \<in> set ?ps" "q \<in> set ?ps" "p \<noteq> q" for p q
    using placed_apart [OF ok that] .
  show ?thesis
  proof (cases "Family ip = IPv4")
    case True
    let ?Vs = "fst (table_vectors p4 p6 rows)"
    have e4: "V4Start e \<le> V4End e" if e: "e \<in> set ?Vs" for e
    proof -
      obtain p where p: "p \<in> set ?ps" "is_v4 p4 p6 p" "e = entry4 p4 p6 p"
        using e by (auto simp: table_vectors_def)
      show ?thesis
        by (rule placed_facts [OF ok p(1)])
          (use p(2,3) in \<open>simp add: entry4_def is_v4_def addr_num_def word_le_nat_alt\<close>)
    qed
    have d4: "V4End e < V4Start e' \<or> V4End e' < V4Start e" if e: "e \<in> set ?Vs" "e' \<in> set ?Vs" "e \<noteq> e'" for e e'
    proof -
      obtain p q where p: "p \<in> set ?ps" "is_v4 p4 p6 p" "e = entry4 p4 p6 p"
        and q: "q \<in> set ?ps" "is_v4 p4 p6 q" "e' = entry4 p4 p6 q"
        using e(1,2) by (auto simp: table_vectors_def)
      obtain a b where ab: "row_range p4 p6 (snd p) = Some (a, b)" "Family a = Family b"
        by (rule placed_facts [OF ok p(1)])
      obtain c d where cd: "row_range p4 p6 (snd q) = Some (c, d)" "Family c = Family d"
        by (rule placed_facts [OF ok q(1)])
      have "p \<noteq> q"
        using e(3) p(3) q(3) by auto
      from apart [OF p(1) q(1) this] show ?thesis
        using ab cd p(2,3) q(2,3)
        by (auto simp: rows_overlap_def entry4_def is_v4_def addr_num_def word_less_nat_alt)
    qed
    have "(case map_option (entry4 p4 p6) (find (\<lambda>p. is_v4 p4 p6 p \<and> (ToInt ip \<ge> V4Start (entry4 p4 p6 p)
          \<and> ToInt ip \<le> V4End (entry4 p4 p6 p))) ?ps) of None \<Rightarrow> None | Some e \<Rightarrow> ReadEntryAtOffset db (V4Offset e))
      = map_option row_result (find (row_contains p4 p6 ip) rows)"
    proof (rule result)
      fix p assume p: "p \<in> set ?ps"
      show "is_v4 p4 p6 p \<and> (ToInt ip \<ge> V4Start (entry4 p4 p6 p) \<and> ToInt ip \<le> V4End (entry4 p4 p6 p))
          \<longleftrightarrow> row_contains p4 p6 ip (snd p)"
        by (rule placed_facts [OF ok p])
          (use True in \<open>auto simp: row_contains_def entry4_def is_v4_def addr_num_def word_le_nat_alt\<close>)
    qed (simp add: entry4_def split_beta)
    moreover have "LookupIPv4 db (ToInt ip) = Some (case find (\<lambda>e. ToInt ip \<ge> V4Start e \<and> ToInt ip \<le> V4End e) ?Vs of
        None \<Rightarrow> None | Some e \<Rightarrow> ReadEntryAtOffset db (V4Offset e))"
      by (rule LookupIPv4_search [OF assms(1)], erule e4, erule (2) d4)
    ultimately show ?thesis
      using True by (simp only: DbLookup_def table_vectors_def find_map_filter fst_conv refl if_True)
  next
    case False
    let ?Vs = "snd (table_vectors p4 p6 rows)"
    have e6: "be_num (V6Start e) \<le> be_num (V6End e)" if e: "e \<in> set ?Vs" for e
    proof -
      obtain p where p: "p \<in> set ?ps" "\<not> is_v4 p4 p6 p" "e = entry6 p4 p6 p"
        using e by (auto simp: table_vectors_def)
      show ?thesis
        by (rule placed_facts [OF ok p(1)])
          (use p(2,3) in \<open>simp add: entry6_def is_v4_def addr_num_def\<close>)
    qed
    have d6: "be_num (V6End e) < be_num (V6Start e') \<or> be_num (V6End e') < be_num (V6Start e)" if e: "e \<in> set ?Vs" "e' \<in> set ?Vs" "e \<noteq> e'" for e e'
    proof -
      obtain p q where p: "p \<in> set ?ps" "\<not> is_v4 p4 p6 p" "e = entry6 p4 p6 p"
        and q: "q \<in> set ?ps" "\<not> is_v4 p4 p6 q" "e' = entry6 p4 p6 q"
        using e(1,2) by (auto simp: table_vectors_def)
      obtain a b where ab: "row_range p4 p6 (snd p) = Some (a, b)" "Family a = Family b" "Family a \<noteq> FamilyUnknown"
        by (rule placed_facts [OF ok p(1)])
      obtain c d where cd: "row_range p4 p6 (snd q) = Some (c, d)" "Family c = Family d" "Family c \<noteq> FamilyUnknown"
        by (rule placed_facts [OF ok q(1)])
      have "p \<noteq> q"
        using e(3) p(3) q(3) by auto
      moreover have "Family b = Family d"
        using ab cd p(2) q(2) by (cases "Family a"; cases "Family c") (auto simp: is_v4_def)
      ultimately show ?thesis
        using apart [OF p(1) q(1)] ab cd p(2,3) q(2,3)
        by (auto simp: rows_overlap_def entry6_def is_v4_def addr_num_def)
    qed
    have wf6: "wf_v6 e" if e: "e \<in> set ?Vs" for e
      using e entry6_wf [OF ok] by (auto simp: table_vectors_def)
    have len: "length (Bytes ip) = 16"
      using ip(1) by (simp add: wf_addr_def)
    have "(case map_option (entry6 p4 p6) (find (\<lambda>p. \<not> is_v4 p4 p6 p \<and> (CmpIPv6 (Bytes ip) (V6Start (entry6 p4 p6 p)) \<ge> 0
          \<and> CmpIPv6 (Bytes ip) (V6End (entry6 p4 p6 p)) \<le> 0)) ?ps) of None \<Rightarrow> None | Some e \<Rightarrow> ReadEntryAtOffset db (V6Offset e))
      = map_option row_result (find (row_contains p4 p6 ip) rows)"
    proof (rule result)
      fix p assume p: "p \<in> set ?ps"
      show "\<not> is_v4 p4 p6 p \<and> (CmpIPv6 (Bytes ip) (V6Start (entry6 p4 p6 p)) \<ge> 0 \<and> CmpIPv6 (Bytes ip) (V6End (entry6 p4 p6 p)) \<le> 0)
          \<longleftrightarrow> row_contains p4 p6 ip (snd p)"
        by (rule placed_facts [OF ok p])
          (use False ip(2) len in \<open>cases "Family ip"; auto simp: row_contains_def entry6_def is_v4_def addr_num_def CmpIPv6_def
            memcmp_num wf_addr_def
            dest: known_family split: if_splits\<close>)
    qed (simp add: entry6_def split_beta)
    moreover have "LookupIPv6 db (Bytes ip) = Some (case find (\<lambda>e. CmpIPv6 (Bytes ip) (V6Start e) \<ge> 0
        \<and> CmpIPv6 (Bytes ip) (V6End e) \<le> 0) ?Vs of None \<Rightarrow> None | Some e \<Rightarrow> ReadEntryAtOffset db (V6Offset e))"
      by (rule LookupIPv6_search [OF assms(1)], erule wf6, rule len, erule e6, erule (2) d6)
    ultimately show ?thesis
      using False by (simp only: DbLookup_def table_vectors_def find_map_filter snd_conv refl if_False)
  qed
qed

text \<open>
  C13. The database answers as the table it was made from. For a table of well-formed rows with
  disjoint ranges (smaller than \<open>2^59\<close> bytes) and whatever \<^verbatim>\<open>inet_pton\<close> makes of its strings,
  starting without an index, or with the index of an earlier start, succeeds when the index can be
  written and mapped; then the binary search in the mapped file never reads outside of it, and for
  every IPv4 and IPv6 address the lookup returns the AS number, country and organisation of the
  first row whose range contains it, and nothing when there is no such row.
\<close>
theorem Lookup_finds_row:
  assumes ok: "table_ok p4 p6 rows" and tsv: "DatabaseFile db = Some (table_text rows)"
    and io: "create_ok io" "short_write io = None" "mmap_ok io"
    and idx: "IndexFile db = None \<or> IndexFile db = Some (index_image (table_text rows) (index_loop p4 p6 (table_text rows) 0 ([], [])))"
    and ip: "wf_addr ip" "Family ip \<noteq> FamilyUnknown"
  shows "\<exists>db'. Init p4 p6 io db = (True, db')
    \<and> DbLookup db' ip = Some (map_option row_result (find (row_contains p4 p6 ip) rows))"
proof -
  let ?T = "table_text rows"
  have vectors: "index_loop p4 p6 ?T 0 ([], []) = table_vectors p4 p6 rows"
    using ok by (simp add: index_loop_rows table_ok_def table_vectors_def)
  have six: "\<forall>e\<in>set (snd (table_vectors p4 p6 rows)). wf_v6 e"
    using entry6_wf [OF ok] by (auto simp: table_vectors_def)
  have map: "\<exists>d'. MapIndex io d = (True, d') \<and> DbLookup d' ip = Some (map_option row_result (find (row_contains p4 p6 ip) rows))
      \<and> (\<exists>V. IndexView d' = Some V \<and> Magic (Header V) = kIndexMagic \<and> Version (Header V) = kIndexVersion
          \<and> TSVSize (Header V) = of_nat (length ?T))"
    if "IndexFile d = Some (index_image ?T (table_vectors p4 p6 rows))" "DatabaseFile d = Some ?T" for d
    using MapIndex_image [OF that(1) io(3) table_vectors_small [OF ok] six] table_lookup [OF _ _ ok ip] that(2) by metis
  from idx show ?thesis
  proof
    assume "IndexFile db = None"
    then show ?thesis
      using map [of "db\<lparr>IndexFile := Some (index_image ?T (table_vectors p4 p6 rows))\<rparr>"] tsv io
      by (auto simp: Init_def BuildIndex_def vectors)
  next
    assume "IndexFile db = Some (index_image ?T (index_loop p4 p6 ?T 0 ([], [])))"
    then show ?thesis
      using map [of db] tsv by (auto simp: Init_def vectors)
  qed
qed

section \<open>A corrupt index\<close>

text \<open>\<^verbatim>\<open>MapIndex\<close> checks the size of the file against the entry sizes in the header, but never
  those against the structures: an index of a header alone, with entry size 0, is accepted, and
  the first probe of a lookup reads behind the mapping.\<close>

definition bad_index :: "u64 \<Rightarrow> nat \<Rightarrow> u8 list" where
  "bad_index n sz = put_header \<lparr>Magic = kIndexMagic, Version = kIndexVersion, EntrySizeV4 = 0, EntrySizeV6 = 0,
     Reserved = 0, CountV4 = n, CountV6 = 0, TSVSize = of_nat sz\<rparr>"

lemma MapIndex_trusts_entry_size:
  assumes "unat n \<ge> 1000" "mmap_ok io" "DatabaseFile db = Some File" "IndexFile db = Some (bad_index n (length File))"
  shows "fst (Init p4 p6 io db) \<and> LookupIPv4 (snd (Init p4 p6 io db)) ip = None"
proof -
  let ?H = "\<lparr>Magic = kIndexMagic, Version = kIndexVersion, EntrySizeV4 = 0, EntrySizeV6 = 0,
     Reserved = 0, CountV4 = n, CountV6 = 0, TSVSize = of_nat (length File)\<rparr>"
  let ?db = "db\<lparr>IndexMapping := Some (page_pad (put_header ?H)), IndexMappingSize := sizeof_header,
    IndexView := Some \<lparr>Header = ?H, V4Entries = sizeof_header, V6Entries = sizeof_header\<rparr>\<rparr>"
  have H: "get_header (page_pad (put_header ?H)) = ?H"
    unfolding page_pad_def by (rule get_put_header)
  have ne: "put_header ?H \<noteq> []"
    using length_put(1) [of ?H] by (metis list.size(3) zero_neq_numeral)
  have "MapIndex io db = (True, ?db)"
    using assms ne by (simp add: MapIndex_def UnmapIndex_def bad_index_def H Let_def)
  then have init: "Init p4 p6 io db = (True, ?db)"
    using assms by (simp add: Init_def)
  have "length (page_pad (put_header ?H)) = 4096"
    by (simp add: page_pad_def)
  moreover have "unat n div 2 \<ge> 500"
    using assms(1) by linarith
  ultimately have probe: "get_v4 (mapping_of ?db) (sizeof_header + unat n div 2 * sizeof_v4) = None"
    by (simp add: get_v4_def mapping_of_def)
  have "unat n \<noteq> 0"
    using assms(1) by auto
  then have "LookupIPv4 ?db ip = None"
    using probe by (simp add: LookupIPv4_def Let_def upper_bound.simps [of _ 0])
  with init show ?thesis by simp
qed

section \<open>The cache\<close>

text \<open>\<^verbatim>\<open>WIP2Asn\<close>: the two files of the data folder, the database object (which shares them) and the
  cache. An outer \<open>None\<close> is an access outside the mapping.\<close>

record WIP2Asn =
  Tsv :: "string option"
  Idx :: "u8 list option"
  Database :: "WIP2AsnDB option"
  bHaveDatabaseDownloaded :: bool
  bUpdateInProgress :: bool
  Cache :: "(WIPAddress, WIP2AsnLookupResult option) umap"

definition tolower :: "char \<Rightarrow> char" where
  "tolower c = (if 65 \<le> (of_char c :: nat) \<and> of_char c \<le> (90 :: nat) then char_of (of_char c + 32 :: nat) else c)"

definition use_files :: "WIP2Asn \<Rightarrow> WIP2AsnDB \<Rightarrow> WIP2AsnDB" where
  "use_files w db = db\<lparr>DatabaseFile := Tsv w, IndexFile := Idx w\<rparr>"

text \<open>The uncached tail that \<^verbatim>\<open>LookupAddress\<close> and \<^verbatim>\<open>LookupSync\<close> share.\<close>

definition present :: "WIPAddress \<Rightarrow> WIP2AsnLookupResult \<Rightarrow> WIP2AsnLookupResult" where
  "present IpAddress r = r\<lparr>ResultAddress := IpAddress, Country := map tolower (Country r)\<rparr>"

definition lookup_and_cache :: "WIP2AsnDB \<Rightarrow> WIPAddress \<Rightarrow> WIP2Asn \<Rightarrow> (WIP2AsnLookupResult option \<times> WIP2Asn) option" where
  "lookup_and_cache db IpAddress w =
     map_option (\<lambda>r. let Result = map_option (present IpAddress) r
        in (Result, w\<lparr>Cache := AList.update IpAddress Result (Cache w)\<rparr>)) (DbLookup (use_files w db) IpAddress)"

definition LookupAddress :: "WIPAddress \<Rightarrow> WIP2Asn \<Rightarrow> (WIP2AsnLookupResult option \<times> WIP2Asn) option" where
  "LookupAddress Req w =
     (case Database w of
        None \<Rightarrow> Some (None, w)
      | Some db \<Rightarrow>
          if bUpdateInProgress w then Some (None, w)
          else if IsZero Req \<or> IsLocalhost Req \<or> IsLANAddress Req then Some (None, w)
          else case map_of (Cache w) Req of
              Some r \<Rightarrow> Some (r, w)
            | None \<Rightarrow> lookup_and_cache db Req w)"

text \<open>What the lookup thread answers to one request of its queue.\<close>

definition lookup_request :: "WIPAddress \<Rightarrow> WIP2Asn \<Rightarrow> (WIP2AsnLookupResult option \<times> WIP2Asn) option" where
  "lookup_request Req w =
     (if IsZero Req then Some (None, w)
      else case map_of (Cache w) Req of
          Some r \<Rightarrow> Some (r, w)
        | None \<Rightarrow> LookupAddress Req w)"

definition LookupSync :: "WIPAddress \<Rightarrow> WIP2Asn \<Rightarrow> (WIP2AsnLookupResult option \<times> WIP2Asn) option" where
  "LookupSync IpAddress w =
     (if IsZero IpAddress \<or> IsLocalhost IpAddress \<or> IsLANAddress IpAddress then Some (None, w)
      else case Database w of
          None \<Rightarrow> Some (None, w)
        | Some db \<Rightarrow>
            if bUpdateInProgress w then Some (None, w)
            else (case map_of (Cache w) IpAddress of
                Some r \<Rightarrow> Some (r, w)
              | None \<Rightarrow> lookup_and_cache db IpAddress w))"

definition new_db :: "WIP2Asn \<Rightarrow> WIP2AsnDB" where
  "new_db w = \<lparr>DatabaseFile = Tsv w, IndexFile = Idx w, IndexMapping = None, IndexMappingSize = 0, IndexView = None\<rparr>"

definition AsnInit :: "(string \<Rightarrow> u8 list option) \<Rightarrow> (string \<Rightarrow> u8 list option) \<Rightarrow> index_io \<Rightarrow> WIP2Asn \<Rightarrow> WIP2Asn" where
  "AsnInit p4 p6 io w =
     (if Tsv w \<noteq> None then
        let (ok, db) = Init p4 p6 io (new_db w) in
          w\<lparr>Database := Some db, Idx := IndexFile db, bHaveDatabaseDownloaded := (ok \<or> bHaveDatabaseDownloaded w)\<rparr>
      else w\<lparr>Database := None\<rparr>)"

text \<open>The whole update: the files are removed, then the download thread fetches and unpacks the table
  (\<open>None\<close> when \<^verbatim>\<open>ExtractDatabase\<close> fails) and initialises again.\<close>

definition UpdateDatabase :: "(string \<Rightarrow> u8 list option) \<Rightarrow> (string \<Rightarrow> u8 list option) \<Rightarrow> index_io \<Rightarrow> string option \<Rightarrow>
    WIP2Asn \<Rightarrow> WIP2Asn" where
  "UpdateDatabase p4 p6 io Extracted w =
     (if bUpdateInProgress w then w
      else let w1 = w\<lparr>Tsv := None, Idx := None, bUpdateInProgress := True\<rparr>;
               w2 = (case Extracted of None \<Rightarrow> w1 | Some t \<Rightarrow> AsnInit p4 p6 io (w1\<lparr>Tsv := Some t\<rparr>))
           in w2\<lparr>bUpdateInProgress := False\<rparr>)"

text \<open>The cache holds what the database answers, for addresses that are looked up at all; so it never
  changes an answer while the database stays.\<close>

definition looked_up :: "WIPAddress \<Rightarrow> bool" where
  "looked_up ip \<longleftrightarrow> \<not> IsZero ip \<and> \<not> IsLocalhost ip \<and> \<not> IsLANAddress ip"

definition cache_valid :: "WIP2Asn \<Rightarrow> bool" where
  "cache_valid w \<longleftrightarrow> (\<forall>ip r. map_of (Cache w) ip = Some r \<longrightarrow> looked_up ip \<and> (\<exists>db q. Database w = Some db
     \<and> DbLookup (use_files w db) ip = Some q \<and> r = map_option (present ip) q))"

lemma lookup_and_cache_valid:
  assumes "cache_valid w" "Database w = Some db" "looked_up ip" "lookup_and_cache db ip w = Some (r, w')"
  shows "cache_valid w'"
  using assms by (auto simp: lookup_and_cache_def cache_valid_def use_files_def Let_def split: if_splits)

lemma cache_hit:
  assumes "cache_valid w" "map_of (Cache w) ip = Some r"
  shows "looked_up ip \<and> (\<exists>db w'. Database w = Some db \<and> lookup_and_cache db ip (w\<lparr>Cache := []\<rparr>) = Some (r, w'))"
proof -
  obtain db q where "looked_up ip" "Database w = Some db" "DbLookup (use_files w db) ip = Some q" "r = map_option (present ip) q"
    using assms unfolding cache_valid_def by blast
  then show ?thesis
    by (simp add: lookup_and_cache_def use_files_def Let_def)
qed

lemma lookup_and_cache_fst:
  "map_option fst (lookup_and_cache db ip (w\<lparr>Cache := c\<rparr>)) = map_option fst (lookup_and_cache db ip w)"
  by (simp add: lookup_and_cache_def use_files_def option.map_comp comp_def Let_def)

lemma cached_lookups:
  assumes "cache_valid w" "\<not> bUpdateInProgress w"
  shows "map_option fst (LookupSync ip w) = map_option fst (LookupSync ip (w\<lparr>Cache := []\<rparr>))"
    and "map_option fst (lookup_request ip w) = map_option fst (LookupSync ip w)"
    and "LookupSync ip w = Some (r, w') \<or> lookup_request ip w = Some (r, w') \<Longrightarrow> cache_valid w'"
proof -
  show sync: "map_option fst (LookupSync ip w) = map_option fst (LookupSync ip (w\<lparr>Cache := []\<rparr>))"
  proof (cases "map_of (Cache w) ip")
    case None
    then show ?thesis by (simp add: LookupSync_def lookup_and_cache_fst split: option.split)
  next
    case (Some r)
    then show ?thesis
      using assms cache_hit [OF assms(1) Some] by (auto simp: LookupSync_def looked_up_def)
  qed
  show "map_option fst (lookup_request ip w) = map_option fst (LookupSync ip w)"
  proof (cases "map_of (Cache w) ip")
    case None
    then show ?thesis by (simp add: LookupSync_def lookup_request_def LookupAddress_def split: option.split)
  next
    case (Some r)
    then show ?thesis
      using assms cache_hit [OF assms(1) Some] by (auto simp: LookupSync_def lookup_request_def looked_up_def)
  qed
  show "cache_valid w'" if "LookupSync ip w = Some (r, w') \<or> lookup_request ip w = Some (r, w')"
    using that assms lookup_and_cache_valid [OF assms(1)]
    by (auto simp: LookupSync_def lookup_request_def LookupAddress_def looked_up_def split: if_splits option.splits)
qed

text \<open>An update whose download fails leaves the old mapping without its text: every address that is not
  in the cache then has no answer, and that is what the cache keeps.\<close>

lemma failed_update_loses_database:
  assumes "Database w = Some db" "\<not> bUpdateInProgress w" "looked_up ip" "map_of (Cache w) ip = None"
    and "LookupSync ip (UpdateDatabase p4 p6 io None w) = Some (r, w')"
  shows "r = None \<and> map_of (Cache w') ip = Some None"
proof -
  have none: "q = None" if "DbLookup (d\<lparr>DatabaseFile := None, IndexFile := None\<rparr>) ip = Some q" for d q
    using that
    by (auto simp: DbLookup_def LookupIPv4_def LookupIPv6_def ReadEntryAtOffset_def Let_def split: option.splits if_splits)
  show ?thesis
    using assms none [of db]
    by (auto simp: UpdateDatabase_def LookupSync_def lookup_and_cache_def use_files_def looked_up_def Let_def)
qed

section \<open>Witness\<close>

definition test_pton4 :: "string \<Rightarrow> u8 list option" where
  "test_pton4 s = map_of [(''1.0.0.0'', [1, 0, 0, 0]), (''1.0.0.255'', [1, 0, 0, 255]), (''8.8.8.0'', [8, 8, 8, 0]),
     (''8.8.8.255'', [8, 8, 8, 255])] s"

definition test_pton6 :: "string \<Rightarrow> u8 list option" where
  "test_pton6 s = None"

definition test_rows :: "asn_row list" where
  "test_rows = [\<lparr>RowStart = ''8.8.8.0'', RowEnd = ''8.8.8.255'', RowAsn = ''15169'', RowCountry = ''US'', RowOrg = ''GOOGLE''\<rparr>,
     \<lparr>RowStart = ''1.0.0.0'', RowEnd = ''1.0.0.255'', RowAsn = ''13335'', RowCountry = ''US'', RowOrg = ''CLOUDFLARE''\<rparr>]"

definition test_db :: WIP2AsnDB where
  "test_db = \<lparr>DatabaseFile = Some (table_text test_rows), IndexFile = None, IndexMapping = None, IndexMappingSize = 0, IndexView = None\<rparr>"

definition test_ip :: WIPAddress where
  "test_ip = \<lparr>Bytes = [1, 0, 0, 7] @ replicate 12 0, Family = IPv4\<rparr>"

lemma test_ranges:
  "row_range test_pton4 test_pton6 (test_rows ! 0) = Some (\<lparr>Bytes = [8, 8, 8, 0] @ replicate 12 0, Family = IPv4\<rparr>,
     \<lparr>Bytes = [8, 8, 8, 255] @ replicate 12 0, Family = IPv4\<rparr>)"
  "row_range test_pton4 test_pton6 (test_rows ! 1) = Some (\<lparr>Bytes = [1, 0, 0, 0] @ replicate 12 0, Family = IPv4\<rparr>,
     \<lparr>Bytes = [1, 0, 0, 255] @ replicate 12 0, Family = IPv4\<rparr>)"
  by (simp_all add: row_range_def test_rows_def FromString_def FromStringV4_def test_pton4_def WIPAddress_init_def numeral_eq_Suc)

lemma test_rows_two: "test_rows = [test_rows ! 0, test_rows ! 1]"
  by (simp add: test_rows_def)

lemma test_table_ok: "table_ok test_pton4 test_pton6 test_rows"
proof -
  have "wf_row test_pton4 test_pton6 (test_rows ! 0)" "wf_row test_pton4 test_pton6 (test_rows ! 1)"
    unfolding wf_row_def test_ranges
    by (simp_all add: test_rows_def row_line_def addr_num_def ToInt_def be32_def)
  moreover have "\<not> rows_overlap test_pton4 test_pton6 (test_rows ! 0) (test_rows ! 1)"
    unfolding rows_overlap_def test_ranges by (simp add: addr_num_def ToInt_def be32_def)
  moreover have "length (table_text test_rows) < 2 ^ 59"
    by (simp add: test_rows_def table_text_def row_line_def)
  ultimately show ?thesis
    unfolding table_ok_def by (subst (1 2) test_rows_two) simp
qed

theorem Lookup_finds_row_witness:
  "\<exists>db. Init test_pton4 test_pton6 \<lparr>create_ok = True, short_write = None, mmap_ok = True\<rparr> test_db = (True, db)
     \<and> DbLookup db test_ip = Some (Some \<lparr>ResultAddress = WIPAddress_init, ASN = 13335, Country = ''US'', Organization = ''CLOUDFLARE''\<rparr>)"
proof -
  have "\<not> row_contains test_pton4 test_pton6 test_ip (test_rows ! 0)" "row_contains test_pton4 test_pton6 test_ip (test_rows ! 1)"
    unfolding row_contains_def test_ranges by (simp_all add: test_ip_def addr_num_def ToInt_def be32_def)
  then have "find (row_contains test_pton4 test_pton6 test_ip) test_rows = Some (test_rows ! 1)"
    by (subst test_rows_two) simp
  moreover have "row_result (test_rows ! 1) =
      \<lparr>ResultAddress = WIPAddress_init, ASN = 13335, Country = ''US'', Organization = ''CLOUDFLARE''\<rparr>"
    by (simp add: row_result_def test_rows_def from_chars_u32_def is_dec_def dec_value_def)
  ultimately show ?thesis
    using Lookup_finds_row [OF test_table_ok, of test_db "\<lparr>create_ok = True, short_write = None, mmap_ok = True\<rparr>" test_ip]
    by (simp add: test_db_def) (simp add: test_ip_def wf_addr_def)
qed

end
