(* ===== verification/Connection_History.thy ===== *)
theory Connection_History
  imports System_Map
begin

text \<open>
  The connection history (\<^verbatim>\<open>Daemon/Data/ConnectionHistory.cpp\<close>): it listens to the signals of the
  system map and groups the sockets and UDP tuples of one application and one remote endpoint into
  a connection set; the set belongs to an entry of a bounded list that clients see, and when its
  last member goes the entry is closed and written to the database. Sets and entries are objects
  in heaps. A set has one owner, its slot in \<^verbatim>\<open>ActiveConnections\<close> (and a local variable while a
  handler runs), so the weak pointer of its entry can be locked exactly as long as the slot exists.
  The handlers read the counters of the system map, which is an argument. A database write is a
  row in a list; the lookup of row identifiers is SQL and not modelled.
\<close>

section \<open>State\<close>

datatype EState = ES_Open | ES_Pending_Close | ES_Closed

record WConnectionSet =
  Connections :: "item_ref list"
  BaseDataIn :: WBytes
  BaseDataOut :: WBytes
  ParentEntry :: "addr option"

record WConnectionHistoryEntry =
  EntryApp :: addr
  EntrySet :: addr
  ConnectionId :: WTrafficItemId
  EntryEndpoint :: WEndpoint
  StartTime :: int
  EndTime :: int
  DataIn :: WBytes
  DataOut :: WBytes
  EntryState :: EState

type_synonym connection_key = "string \<times> WEndpoint"

record history_row =
  HistPath :: string
  HistEndpoint :: WEndpoint
  HistStart :: int
  HistEnd :: int
  HistIn :: WBytes
  HistOut :: WBytes

record WConnectionHistory =
  NewItemCounter :: u32
  History :: "addr list"
  ActiveConnections :: "(connection_key, addr) umap"
  SetHeap :: "WConnectionSet list"
  EntryHeap :: "WConnectionHistoryEntry list"
  HistoryRows :: "history_row list"

record history_env =
  NowSeconds :: int
  IgnoredConnectionHistoryApps :: "string list"
  IgnoredConnectionHistoryPorts :: "u16 list"

abbreviation kMaxHistorySize :: nat where "kMaxHistorySize \<equiv> 512"

definition IsIgnoredConnectionHistoryApp :: "history_env \<Rightarrow> string \<Rightarrow> bool" where
  "IsIgnoredConnectionHistoryApp env AppName \<longleftrightarrow> list_ex (\<lambda>IgnoredApp. AppName = IgnoredApp) (IgnoredConnectionHistoryApps env)"

definition IsIgnoredConnectionHistoryPort :: "history_env \<Rightarrow> u16 \<Rightarrow> bool" where
  "IsIgnoredConnectionHistoryPort env P \<longleftrightarrow> list_ex (\<lambda>IgnoredPort. P = IgnoredPort) (IgnoredConnectionHistoryPorts env)"

text \<open>Totals of a member of a set.\<close>

fun item_totals :: "WSystemMap \<Rightarrow> item_ref \<Rightarrow> WBytes \<times> WBytes" where
  "item_totals M SystemRef = (TotalDownloadBytes (system_item M), TotalUploadBytes (system_item M))"
| "item_totals M (AppRef a) = (TotalDownloadBytes (app_item M a), TotalUploadBytes (app_item M a))"
| "item_totals M (ProcRef a) = (TotalDownloadBytes (proc_item M a), TotalUploadBytes (proc_item M a))"
| "item_totals M (SockRef a) = (TotalDownloadBytes (sock_item M a), TotalUploadBytes (sock_item M a))"
| "item_totals M (TupleRef a) = (TotalDownloadBytes (tuple_item M a), TotalUploadBytes (tuple_item M a))"

definition upd_set :: "addr \<Rightarrow> (WConnectionSet \<Rightarrow> WConnectionSet) \<Rightarrow> WConnectionHistory \<Rightarrow> WConnectionHistory" where
  "upd_set i f H = H\<lparr>SetHeap := (SetHeap H)[i := f (SetHeap H ! i)]\<rparr>"

definition upd_entry :: "addr \<Rightarrow> (WConnectionHistoryEntry \<Rightarrow> WConnectionHistoryEntry) \<Rightarrow> WConnectionHistory \<Rightarrow> WConnectionHistory" where
  "upd_entry i f H = H\<lparr>EntryHeap := (EntryHeap H)[i := f (EntryHeap H ! i)]\<rparr>"

section \<open>Operations\<close>

text \<open>\<^verbatim>\<open>Push\<close>: the new entry takes an identifier from the system map.\<close>

definition Push :: "history_env \<Rightarrow> addr \<Rightarrow> addr \<Rightarrow> WEndpoint \<Rightarrow> WSystemMap \<Rightarrow> WConnectionHistory \<Rightarrow>
    addr option \<times> WSystemMap \<times> WConnectionHistory" where
  "Push env App SetPtr Remote M H =
     (if IsIgnoredConnectionHistoryApp env (ApplicationName (app_item M App))
         \<or> IsIgnoredConnectionHistoryPort env (Port Remote) then (None, M, H)
      else let (Ident, M1) = take_id M;
               e = length (EntryHeap H);
               H1 = H\<lparr>EntryHeap := EntryHeap H @ [\<lparr>EntryApp = App, EntrySet = SetPtr, ConnectionId = Ident, EntryEndpoint = Remote,
                      StartTime = NowSeconds env, EndTime = 0, DataIn = 0, DataOut = 0, EntryState = ES_Open\<rparr>],
                    History := History H @ [e], NewItemCounter := NewItemCounter H + 1\<rparr>;
               H2 = (if length (History H1) > kMaxHistorySize
                     then H1\<lparr>History := tl (History H1),
                       NewItemCounter := (if NewItemCounter H1 > 0 then NewItemCounter H1 - 1 else NewItemCounter H1)\<rparr>
                     else H1)
           in (Some e, M1, H2))"

text \<open>The common body of \<^verbatim>\<open>OnSocketConnected\<close> and \<^verbatim>\<open>OnUDPTupleCreated\<close>.\<close>

definition track :: "history_env \<Rightarrow> addr \<Rightarrow> connection_key \<Rightarrow> item_ref \<Rightarrow> WSystemMap \<Rightarrow> WConnectionHistory \<Rightarrow>
    WSystemMap \<times> WConnectionHistory" where
  "track env App Key Item M H =
     (case map_of (ActiveConnections H) Key of
        Some k \<Rightarrow>
          if Item \<in> set (Connections (SetHeap H ! k)) then (M, H)
          else (M, upd_set k (\<lambda>s. s\<lparr>Connections := Connections s @ [Item]\<rparr>) H)
      | None \<Rightarrow>
          let k = length (SetHeap H);
              H1 = H\<lparr>SetHeap := SetHeap H @ [\<lparr>Connections = [Item], BaseDataIn = 0, BaseDataOut = 0, ParentEntry = None\<rparr>],
                   ActiveConnections := AList.update Key k (ActiveConnections H)\<rparr>;
              (Entry, M1, H2) = Push env App k (snd Key) M H1
          in (M1, upd_set k (\<lambda>s. s\<lparr>ParentEntry := Entry\<rparr>) H2))"

definition socket_app :: "WSystemMap \<Rightarrow> addr \<Rightarrow> addr" where
  "socket_app M s = ParentApp (ProcHeap M ! ParentProcess (SockHeap M ! s))"

definition OnSocketConnected :: "history_env \<Rightarrow> addr \<Rightarrow> WSystemMap \<Rightarrow> WConnectionHistory \<Rightarrow> WSystemMap \<times> WConnectionHistory" where
  "OnSocketConnected env s M H =
     (if Protocol (SocketTuple (sock_item M s)) \<noteq> Proto_TCP then (M, H)
      else let App = socket_app M s in
        track env App (ApplicationPath (app_item M App), RemoteEndpoint (SocketTuple (sock_item M s))) (SockRef s) M H)"

definition OnUDPTupleCreated :: "history_env \<Rightarrow> addr \<Rightarrow> WSystemMap \<Rightarrow> WConnectionHistory \<Rightarrow> WSystemMap \<times> WConnectionHistory" where
  "OnUDPTupleCreated env t M H =
     (let App = socket_app M (ParentSocket (TupleHeap M ! t)) in
      track env App (ApplicationPath (app_item M App), TupleEndpoint (tuple_item M t)) (TupleRef t) M H)"

definition WriteToDatabase :: "addr \<Rightarrow> addr \<Rightarrow> WSystemMap \<Rightarrow> WConnectionHistory \<Rightarrow> WConnectionHistory" where
  "WriteToDatabase Entry SetPin M H =
     (let e = EntryHeap H ! Entry; s = SetHeap H ! SetPin in
      H\<lparr>HistoryRows := HistoryRows H @ [\<lparr>HistPath = ApplicationPath (app_item M (EntryApp e)), HistEndpoint = EntryEndpoint e,
         HistStart = StartTime e, HistEnd = EndTime e, HistIn = BaseDataIn s, HistOut = BaseDataOut s\<rparr>]\<rparr>)"

definition HandleEmptySet :: "history_env \<Rightarrow> addr \<Rightarrow> WSystemMap \<Rightarrow> WConnectionHistory \<Rightarrow> WConnectionHistory" where
  "HandleEmptySet env EmptySet M H =
     (case ParentEntry (SetHeap H ! EmptySet) of
        None \<Rightarrow> H
      | Some e \<Rightarrow>
          if EntryState (EntryHeap H ! e) \<noteq> ES_Open then H
          else let H1 = upd_entry e (\<lambda>x. x\<lparr>EntryState := ES_Pending_Close, EndTime := NowSeconds env\<rparr>) H;
                   H2 = WriteToDatabase e EmptySet M H1
               in upd_set EmptySet (\<lambda>s. s\<lparr>ParentEntry := None\<rparr>) H2)"

text \<open>The common body of the removals: the totals move to the base, the item leaves the set, an empty set is
  closed.\<close>

definition untrack :: "history_env \<Rightarrow> connection_key \<Rightarrow> item_ref \<Rightarrow> WSystemMap \<Rightarrow> WConnectionHistory \<Rightarrow> WConnectionHistory" where
  "untrack env Key Item M H =
     (case map_of (ActiveConnections H) Key of
        None \<Rightarrow> H
      | Some k \<Rightarrow>
          let (i, out) = item_totals M Item;
              H1 = upd_set k (\<lambda>s. s\<lparr>BaseDataIn := BaseDataIn s + i, BaseDataOut := BaseDataOut s + out,
                     Connections := filter (\<lambda>x. x \<noteq> Item) (Connections s)\<rparr>) H
          in if Connections (SetHeap H1 ! k) = []
             then HandleEmptySet env k M (H1\<lparr>ActiveConnections := AList.delete Key (ActiveConnections H1)\<rparr>)
             else H1)"

definition OnSocketRemoved :: "history_env \<Rightarrow> addr \<Rightarrow> WSystemMap \<Rightarrow> WConnectionHistory \<Rightarrow> WConnectionHistory" where
  "OnSocketRemoved env s M H =
     (let AppName = ApplicationPath (app_item M (socket_app M s));
          H1 = untrack env (AppName, RemoteEndpoint (SocketTuple (sock_item M s))) (SockRef s) M H
      in fold (\<lambda>(TupleEndpoint, t). untrack env (AppName, TupleEndpoint) (TupleRef t) M)
           (UDPPerConnectionCounters (SockHeap M ! s)) H1)"

definition OnUDPTupleRemoved :: "history_env \<Rightarrow> addr \<Rightarrow> WSystemMap \<Rightarrow> WConnectionHistory \<Rightarrow> WConnectionHistory" where
  "OnUDPTupleRemoved env t M H =
     untrack env (ApplicationPath (app_item M (socket_app M (ParentSocket (TupleHeap M ! t)))), TupleEndpoint (tuple_item M t))
       (TupleRef t) M H"

text \<open>The handlers that \<^verbatim>\<open>RegisterSignalHandlers\<close> connects.\<close>

fun on_network_event :: "history_env \<Rightarrow> net_event \<Rightarrow> WSystemMap \<times> WConnectionHistory \<Rightarrow> WSystemMap \<times> WConnectionHistory" where
  "on_network_event env (EvSocketConnected s) (M, H) = OnSocketConnected env s M H"
| "on_network_event env (EvUDPTupleCreated t) (M, H) = OnUDPTupleCreated env t M H"
| "on_network_event env (EvUDPTupleRemoved t) (M, H) = (M, OnUDPTupleRemoved env t M H)"
| "on_network_event env (EvSocketRemoved s) (M, H) = (M, OnSocketRemoved env s M H)"
| "on_network_event env _ MH = MH"

section \<open>Updates for clients\<close>

text \<open>\<^verbatim>\<open>Set.lock()\<close> of an entry.\<close>

definition lock_set :: "WConnectionHistory \<Rightarrow> addr \<Rightarrow> WConnectionSet option" where
  "lock_set H k = (if k \<in> snd ` set (ActiveConnections H) then Some (SetHeap H ! k) else None)"

definition close_pending :: "WConnectionHistoryEntry \<Rightarrow> bool \<times> WConnectionHistoryEntry" where
  "close_pending e = (if EntryState e = ES_Pending_Close then (True, e\<lparr>EntryState := ES_Closed\<rparr>) else (False, e))"

definition EntryUpdate :: "WSystemMap \<Rightarrow> WConnectionHistory \<Rightarrow> WConnectionHistoryEntry \<Rightarrow> bool \<times> WConnectionHistoryEntry" where
  "EntryUpdate M H e =
     (case lock_set H (EntrySet e) of
        None \<Rightarrow> close_pending e
      | Some SetPin \<Rightarrow>
          if Connections SetPin = [] then close_pending e
          else let i = BaseDataIn SetPin + sum_list (map (fst \<circ> item_totals M) (Connections SetPin));
                   out = BaseDataOut SetPin + sum_list (map (snd \<circ> item_totals M) (Connections SetPin))
               in (i \<noteq> DataIn e \<or> out \<noteq> DataOut e, e\<lparr>DataIn := i, DataOut := out\<rparr>))"

record WConnectionHistoryChange =
  NewDataIn :: WBytes
  NewDataOut :: WBytes
  NewEndTime :: int

record WNewConnectionHistoryEntry =
  NewAppId :: WTrafficItemId
  NewConnectionId :: WTrafficItemId
  NewRemoteEndpoint :: WEndpoint
  NewStart :: int
  NewEnd :: int
  NewIn :: WBytes
  NewOut :: WBytes

record WConnectionHistoryUpdate =
  Changes :: "(WTrafficItemId, WConnectionHistoryChange) umap"
  NewEntries :: "WNewConnectionHistoryEntry list"

definition change_of :: "WConnectionHistoryEntry \<Rightarrow> WConnectionHistoryChange" where
  "change_of e = \<lparr>NewDataIn = DataIn e, NewDataOut = DataOut e, NewEndTime = EndTime e\<rparr>"

definition new_entry :: "WSystemMap \<Rightarrow> WConnectionHistory \<Rightarrow> addr \<Rightarrow> WNewConnectionHistoryEntry" where
  "new_entry M H i = (let e = EntryHeap H ! i in
     \<lparr>NewAppId = ItemId (app_item M (EntryApp e)), NewConnectionId = ConnectionId e, NewRemoteEndpoint = EntryEndpoint e,
      NewStart = StartTime e, NewEnd = EndTime e, NewIn = DataIn e, NewOut = DataOut e\<rparr>)"

definition update_entry :: "WSystemMap \<Rightarrow> addr \<Rightarrow> (WTrafficItemId, WConnectionHistoryChange) umap \<times> WConnectionHistory \<Rightarrow>
    (WTrafficItemId, WConnectionHistoryChange) umap \<times> WConnectionHistory" where
  "update_entry M i = (\<lambda>(cs, H). let (changed, e) = EntryUpdate M H (EntryHeap H ! i); H1 = upd_entry i (\<lambda>_. e) H in
     (if changed then AList.update (ConnectionId e) (change_of e) cs else cs, H1))"

definition HistoryUpdate :: "WSystemMap \<Rightarrow> WConnectionHistory \<Rightarrow> WConnectionHistoryUpdate \<times> WConnectionHistory" where
  "HistoryUpdate M H =
     (let (cs, H1) = fold (update_entry M) (History H) ([], H) in
      if NewItemCounter H1 > 0 then
        let ItemsToProcess = min (NewItemCounter H1) (of_nat (length (History H1))) in
        (\<lparr>Changes = cs, NewEntries = map (new_entry M H1) (drop (length (History H1) - unat ItemsToProcess) (History H1))\<rparr>,
         H1\<lparr>NewItemCounter := 0\<rparr>)
      else (\<lparr>Changes = cs, NewEntries = []\<rparr>, H1))"

definition HistorySerialize :: "WSystemMap \<Rightarrow> WConnectionHistory \<Rightarrow> WConnectionHistoryUpdate" where
  "HistorySerialize M H = \<lparr>Changes = [], NewEntries = map (new_entry M H) (History H)\<rparr>"

section \<open>The history as a state machine\<close>

text \<open>The signals and the timer run in any order, with any state of the system map.\<close>

inductive history_step :: "WConnectionHistory \<Rightarrow> WConnectionHistory \<Rightarrow> bool" where
  step_event: "history_step H (snd (on_network_event env E (M, H)))"
| step_update: "history_step H (snd (HistoryUpdate M H))"

definition history_initial :: "WConnectionHistory \<Rightarrow> bool" where
  "history_initial H \<longleftrightarrow> H = \<lparr>NewItemCounter = 0, History = [], ActiveConnections = [], SetHeap = [], EntryHeap = [], HistoryRows = []\<rparr>"

definition list_ok :: "WConnectionHistory \<Rightarrow> bool" where
  "list_ok H \<longleftrightarrow> length (History H) \<le> kMaxHistorySize \<and> unat (NewItemCounter H) \<le> length (History H)
     \<and> (\<forall>i\<in>set (History H). i < length (EntryHeap H))"

text \<open>An active set has a member; if it has an entry, the entry is open, for the endpoint of the key, and
  points back to the set.\<close>

definition set_ok :: "WConnectionHistory \<Rightarrow> connection_key \<Rightarrow> addr \<Rightarrow> bool" where
  "set_ok H K k \<longleftrightarrow> k < length (SetHeap H) \<and> Connections (SetHeap H ! k) \<noteq> []
     \<and> (\<forall>e. ParentEntry (SetHeap H ! k) = Some e \<longrightarrow> e < length (EntryHeap H) \<and> EntrySet (EntryHeap H ! e) = k
          \<and> EntryState (EntryHeap H ! e) = ES_Open \<and> EntryEndpoint (EntryHeap H ! e) = snd K)"

definition history_ok :: "WConnectionHistory \<Rightarrow> bool" where
  "history_ok H \<longleftrightarrow> list_ok H \<and> um_distinct (ActiveConnections H)
     \<and> (\<forall>K k. map_of (ActiveConnections H) K = Some k \<longrightarrow> set_ok H K k)
     \<and> (\<forall>K K' k. map_of (ActiveConnections H) K = Some k \<longrightarrow> map_of (ActiveConnections H) K' = Some k \<longrightarrow> K = K')"

lemma history_okD:
  assumes "history_ok H"
  shows "list_ok H" "um_distinct (ActiveConnections H)"
    "map_of (ActiveConnections H) K = Some k \<Longrightarrow> set_ok H K k"
    "map_of (ActiveConnections H) K = Some k \<Longrightarrow> map_of (ActiveConnections H) K' = Some k \<Longrightarrow> K = K'"
  using assms unfolding history_ok_def by blast+

lemma history_okI:
  assumes "list_ok H" "um_distinct (ActiveConnections H)"
    "\<And>K k. map_of (ActiveConnections H) K = Some k \<Longrightarrow> set_ok H K k"
    "\<And>K K' k. map_of (ActiveConnections H) K = Some k \<Longrightarrow> map_of (ActiveConnections H) K' = Some k \<Longrightarrow> K = K'"
  shows "history_ok H"
  using assms unfolding history_ok_def by blast

lemma heap_frame [simp]:
  "History (upd_set k f H) = History H" "NewItemCounter (upd_set k f H) = NewItemCounter H"
  "EntryHeap (upd_set k f H) = EntryHeap H" "ActiveConnections (upd_set k f H) = ActiveConnections H"
  "HistoryRows (upd_set k f H) = HistoryRows H" "length (SetHeap (upd_set k f H)) = length (SetHeap H)"
  "History (upd_entry e g H) = History H" "NewItemCounter (upd_entry e g H) = NewItemCounter H"
  "SetHeap (upd_entry e g H) = SetHeap H" "ActiveConnections (upd_entry e g H) = ActiveConnections H"
  "HistoryRows (upd_entry e g H) = HistoryRows H" "length (EntryHeap (upd_entry e g H)) = length (EntryHeap H)"
  by (simp_all add: upd_set_def upd_entry_def)

lemma heap_nth [simp]:
  "k < length (SetHeap H) \<Longrightarrow> SetHeap (upd_set k f H) ! j = (if j = k then f (SetHeap H ! k) else SetHeap H ! j)"
  "e < length (EntryHeap H) \<Longrightarrow> EntryHeap (upd_entry e g H) ! i = (if i = e then g (EntryHeap H ! e) else EntryHeap H ! i)"
  by (auto simp: upd_set_def upd_entry_def nth_list_update)

lemma list_ok_Push:
  assumes "list_ok H" "Push env App k Remote M H = (Entry, M1, H1)"
  shows "list_ok H1"
proof (cases "Entry")
  case None
  then show ?thesis using assms by (auto simp: Push_def Let_def split: if_splits prod.splits)
next
  case (Some e)
  let ?n = "NewItemCounter H"
  have n: "unat ?n \<le> length (History H)" "length (History H) \<le> 512"
    using assms(1) by (auto simp: list_ok_def)
  have tl: "i \<in> set (tl (History H @ [x])) \<Longrightarrow> i \<in> set (History H) \<or> i = x" for i x
    by (cases "History H") auto
  have "unat (?n + 1) = unat ?n + 1"
    using n by (subst unat_plus_if_size) (simp_all add: word_size)
  moreover from this have "?n + 1 > 0"
    by (simp add: word_less_nat_alt)
  ultimately show ?thesis
    using assms n Some
    by (auto simp: Push_def list_ok_def Let_def less_Suc_eq dest!: tl split: if_splits prod.splits)
qed

lemma Push_frame:
  assumes "Push env App k Remote M H = (Entry, M1, H1)"
  shows "SetHeap H1 = SetHeap H" "ActiveConnections H1 = ActiveConnections H" "HistoryRows H1 = HistoryRows H"
    "\<forall>i<length (EntryHeap H). EntryHeap H1 ! i = EntryHeap H ! i" "length (EntryHeap H) \<le> length (EntryHeap H1)"
    "Entry = Some e \<Longrightarrow> e = length (EntryHeap H) \<and> e < length (EntryHeap H1) \<and> EntrySet (EntryHeap H1 ! e) = k
       \<and> EntryState (EntryHeap H1 ! e) = ES_Open \<and> EntryEndpoint (EntryHeap H1 ! e) = Remote"
  using assms by (auto simp: Push_def Let_def nth_append split: if_splits prod.splits)


lemma list_ok_frame:
  "list_ok H \<Longrightarrow> History H' = History H \<Longrightarrow> NewItemCounter H' = NewItemCounter H \<Longrightarrow>
     length (EntryHeap H') = length (EntryHeap H) \<Longrightarrow> list_ok H'"
  by (simp add: list_ok_def)

text \<open>A set keeps its properties when neither it nor its entry changes.\<close>

lemma set_ok_frame:
  assumes "set_ok H K k" "k < length (SetHeap H')" "SetHeap H' ! k = SetHeap H ! k"
    "length (EntryHeap H) \<le> length (EntryHeap H')"
    "\<And>e. ParentEntry (SetHeap H ! k) = Some e \<Longrightarrow> e < length (EntryHeap H) \<Longrightarrow> EntryHeap H' ! e = EntryHeap H ! e"
  shows "set_ok H' K k"
  using assms by (auto simp: set_ok_def)

lemma set_ok_upd:
  assumes "set_ok H K j" "set_ok H K' k" "ParentEntry (f (SetHeap H ! k)) = ParentEntry (SetHeap H ! k)"
    "Connections (f (SetHeap H ! k)) \<noteq> []"
  shows "set_ok (upd_set k f H) K j"
  using assms by (cases "j = k") (simp_all add: set_ok_def)

lemma history_ok_track:
  assumes ok: "history_ok H"
  shows "history_ok (snd (track env App Key Item M H))"
proof (cases "map_of (ActiveConnections H) Key")
  case (Some k)
  note d = history_okD [OF ok]
  let ?H = "upd_set k (\<lambda>s. s\<lparr>Connections := Connections s @ [Item]\<rparr>) H"
  have k: "set_ok H Key k" by (rule d(3) [OF Some])
  have "set_ok ?H K j" if "map_of (ActiveConnections H) K = Some j" for K j
    by (rule set_ok_upd [OF d(3) [OF that] k]) simp_all
  moreover have "list_ok ?H"
    using d(1) by (rule list_ok_frame) simp_all
  ultimately have "history_ok ?H"
    using ok by (simp add: history_ok_def)
  then show ?thesis
    using ok by (simp add: track_def Some)
next
  case None
  note d = history_okD [OF ok]
  let ?k = "length (SetHeap H)"
  let ?new = "\<lparr>Connections = [Item], BaseDataIn = 0, BaseDataOut = 0, ParentEntry = None\<rparr>"
  let ?H1 = "H\<lparr>SetHeap := SetHeap H @ [?new], ActiveConnections := AList.update Key ?k (ActiveConnections H)\<rparr>"
  obtain Entry M1 H2 where P: "Push env App ?k (snd Key) M ?H1 = (Entry, M1, H2)"
    by (metis prod_cases3)
  note f = Push_frame [OF P, simplified]
  let ?H = "upd_set ?k (\<lambda>s. s\<lparr>ParentEntry := Entry\<rparr>) H2"
  have sh: "SetHeap ?H ! j = (if j = ?k then ?new\<lparr>ParentEntry := Entry\<rparr> else SetHeap H ! j)" if "j \<le> ?k" for j
    using that f(1) by (auto simp: nth_append)
  have "list_ok ?H1"
    using d(1) by (rule list_ok_frame) simp_all
  from list_ok_Push [OF this P] have "list_ok ?H"
    by (rule list_ok_frame) simp_all
  moreover have "set_ok ?H K j" if K: "map_of (ActiveConnections ?H) K = Some j" for K j
  proof (cases "K = Key")
    case True
    then show ?thesis
      using K f sh [of ?k] by (auto simp: set_ok_def split: option.splits)
  next
    case False
    then have "map_of (ActiveConnections H) K = Some j"
      using K f(2) by simp
    from d(3) [OF this] have old: "set_ok H K j" .
    then have "j < ?k"
      by (simp add: set_ok_def)
    with old show ?thesis
      using f sh [of j] by (intro set_ok_frame [OF old]) auto
  qed
  moreover have "K = K'" if "map_of (ActiveConnections ?H) K = Some j" "map_of (ActiveConnections ?H) K' = Some j" for K K' j
  proof -
    have "map_of (ActiveConnections H) L \<noteq> Some ?k" for L
      using d(3) [of L ?k] by (auto simp: set_ok_def)
    moreover have "map_of (ActiveConnections ?H) L = (if L = Key then Some ?k else map_of (ActiveConnections H) L)" for L
      using f(2) by auto
    ultimately show ?thesis
      using that d(4) [of K j K'] by metis
  qed
  moreover have "um_distinct (ActiveConnections ?H)"
    using d(2) f(2) by (simp add: um_distinct_update)
  ultimately have "history_ok ?H"
    by (intro history_okI)
  then show ?thesis
    by (simp add: track_def None P)
qed


lemma HandleEmptySet_frame [simp]:
  "History (HandleEmptySet env k M H) = History H" "NewItemCounter (HandleEmptySet env k M H) = NewItemCounter H"
  "ActiveConnections (HandleEmptySet env k M H) = ActiveConnections H"
  "length (EntryHeap (HandleEmptySet env k M H)) = length (EntryHeap H)"
  "length (SetHeap (HandleEmptySet env k M H)) = length (SetHeap H)"
  by (simp_all add: HandleEmptySet_def WriteToDatabase_def Let_def split: option.split)

lemma HandleEmptySet_others:
  "k < length (SetHeap H) \<Longrightarrow> j \<noteq> k \<Longrightarrow> SetHeap (HandleEmptySet env k M H) ! j = SetHeap H ! j"
  "ParentEntry (SetHeap H ! k) \<noteq> Some e \<Longrightarrow> EntryHeap (HandleEmptySet env k M H) ! e = EntryHeap H ! e"
  by (auto simp: HandleEmptySet_def WriteToDatabase_def upd_set_def upd_entry_def Let_def split: option.split)

lemma history_ok_untrack:
  assumes ok: "history_ok H"
  shows "history_ok (untrack env Key Item M H)"
proof (cases "map_of (ActiveConnections H) Key")
  case None
  then show ?thesis using ok by (simp add: untrack_def)
next
  case (Some k)
  note d = history_okD [OF ok]
  obtain i out where t: "item_totals M Item = (i, out)"
    by force
  let ?f = "\<lambda>s. s\<lparr>BaseDataIn := BaseDataIn s + i, BaseDataOut := BaseDataOut s + out,
     Connections := filter (\<lambda>x. x \<noteq> Item) (Connections s)\<rparr>"
  let ?H1 = "upd_set k ?f H"
  have k: "set_ok H Key k" by (rule d(3) [OF Some])
  show ?thesis
  proof (cases "Connections (SetHeap ?H1 ! k) = []")
    case False
    then have "set_ok ?H1 K j" if "map_of (ActiveConnections H) K = Some j" for K j
      using k by (intro set_ok_upd [OF d(3) [OF that] k]) (simp_all add: set_ok_def)
    moreover have "list_ok ?H1"
      using d(1) by (rule list_ok_frame) simp_all
    ultimately have "history_ok ?H1"
      using ok by (simp add: history_ok_def)
    then show ?thesis
      using Some t False by (simp add: untrack_def Let_def)
  next
    case True
    let ?H2 = "?H1\<lparr>ActiveConnections := AList.delete Key (ActiveConnections ?H1)\<rparr>"
    let ?H3 = "HandleEmptySet env k M ?H2"
    have "list_ok ?H3"
      using d(1) by (rule list_ok_frame) simp_all
    moreover have "set_ok ?H3 K j" if K: "map_of (ActiveConnections ?H3) K = Some j" for K j
    proof -
      have old: "map_of (ActiveConnections H) K = Some j" and "K \<noteq> Key"
        using K by (auto split: if_splits)
      then have "j \<noteq> k"
        using d(4) [of K j Key] Some by auto
      have "ParentEntry (SetHeap H ! k) \<noteq> Some e" if "ParentEntry (SetHeap H ! j) = Some e" for e
        using that k d(3) [OF old] \<open>j \<noteq> k\<close> by (auto simp: set_ok_def)
      moreover have "SetHeap ?H3 ! j = SetHeap H ! j"
        using k \<open>j \<noteq> k\<close> by (simp add: HandleEmptySet_others set_ok_def)
      moreover have "k < length (SetHeap H)" "j < length (SetHeap H)"
        using k d(3) [OF old] by (simp_all add: set_ok_def)
      ultimately show ?thesis
        by (intro set_ok_frame [OF d(3) [OF old]]) (simp_all add: HandleEmptySet_others)
    qed
    moreover have "K = K'" if "map_of (ActiveConnections ?H3) K = Some j" "map_of (ActiveConnections ?H3) K' = Some j" for K K' j
      using that by (intro d(4) [of K j K']) (simp_all split: if_splits)
    moreover have "um_distinct (ActiveConnections ?H3)"
      using d(2) by (simp add: um_distinct_delete)
    ultimately have "history_ok ?H3"
      by (intro history_okI)
    then show ?thesis
      using Some t True by (simp add: untrack_def Let_def)
  qed
qed

lemma EntryUpdate_keeps:
  "EntrySet (snd (EntryUpdate M H e)) = EntrySet e" "EntryEndpoint (snd (EntryUpdate M H e)) = EntryEndpoint e"
  "ConnectionId (snd (EntryUpdate M H e)) = ConnectionId e"
  "EntryState e = ES_Open \<Longrightarrow> EntryState (snd (EntryUpdate M H e)) = ES_Open"
  by (simp_all add: EntryUpdate_def close_pending_def Let_def split: option.split)

lemma update_entry_snd:
  "snd (update_entry M i (cs, H)) = upd_entry i (\<lambda>_. snd (EntryUpdate M H (EntryHeap H ! i))) H"
  by (simp add: update_entry_def split_beta Let_def)

lemma history_ok_update_entry:
  assumes ok: "history_ok H" and i: "i < length (EntryHeap H)"
  shows "history_ok (snd (update_entry M i (cs, H)))"
proof -
  note d = history_okD [OF ok]
  let ?H = "upd_entry i (\<lambda>_. snd (EntryUpdate M H (EntryHeap H ! i))) H"
  have "list_ok ?H"
    using d(1) by (rule list_ok_frame) simp_all
  moreover have "set_ok ?H K k" if "map_of (ActiveConnections H) K = Some k" for K k
    using d(3) [OF that] i EntryUpdate_keeps [where M = M and H = H and e = "EntryHeap H ! i"] by (auto simp: set_ok_def)
  ultimately have "history_ok ?H"
    using d(2,4) unfolding history_ok_def by (simp only: heap_frame) blast
  then show ?thesis
    by (simp add: update_entry_snd)
qed

lemma fold_update_entry:
  assumes "history_ok H" "\<forall>i\<in>set is. i < length (EntryHeap H)"
  shows "history_ok (snd (fold (update_entry M) is (cs, H)))
    \<and> History (snd (fold (update_entry M) is (cs, H))) = History H
    \<and> NewItemCounter (snd (fold (update_entry M) is (cs, H))) = NewItemCounter H
    \<and> length (EntryHeap (snd (fold (update_entry M) is (cs, H)))) = length (EntryHeap H)"
  using assms
proof (induction "is" arbitrary: cs H)
  case (Cons i "is")
  obtain cs1 where u: "update_entry M i (cs, H) = (cs1, upd_entry i (\<lambda>_. snd (EntryUpdate M H (EntryHeap H ! i))) H)"
    using update_entry_snd [of M i cs H] by (metis prod.collapse)
  have "history_ok (upd_entry i (\<lambda>_. snd (EntryUpdate M H (EntryHeap H ! i))) H)"
    using history_ok_update_entry [of H i M cs] Cons.prems u by simp
  then show ?case
    using Cons.IH [of "upd_entry i (\<lambda>_. snd (EntryUpdate M H (EntryHeap H ! i))) H" cs1] Cons.prems by (simp add: u)
qed simp

lemma history_ok_counter: "history_ok H \<Longrightarrow> history_ok (H\<lparr>NewItemCounter := 0\<rparr>)"
  by (simp add: history_ok_def list_ok_def set_ok_def)

lemma history_ok_update:
  assumes "history_ok H"
  shows "history_ok (snd (HistoryUpdate M H))"
proof -
  have "history_ok (snd (fold (update_entry M) (History H) ([], H)))"
    using fold_update_entry [OF assms, of "History H"] assms by (simp add: history_ok_def list_ok_def)
  then show ?thesis
    by (auto simp: HistoryUpdate_def split_beta Let_def history_ok_counter)
qed

lemma history_ok_event:
  assumes "history_ok H"
  shows "history_ok (snd (on_network_event env E (M, H)))"
proof -
  have fold: "history_ok (fold (\<lambda>(TE, t). untrack env (A, TE) (TupleRef t) M) ts H')" if "history_ok H'" for A ts H'
    using that by (induction ts arbitrary: H') (auto simp: history_ok_untrack)
  show ?thesis
    using assms
    by (cases E) (auto simp: OnSocketConnected_def OnUDPTupleCreated_def OnUDPTupleRemoved_def OnSocketRemoved_def
        history_ok_track history_ok_untrack fold Let_def)
qed

interpretation history_sm: state_machine history_initial history_step history_ok
proof
  show "history_ok H" if "history_initial H" for H
    using that by (simp add: history_initial_def history_ok_def list_ok_def)
  show "history_ok H'" if "history_ok H" "history_step H H'" for H H'
    using that(2,1) by cases (auto simp: history_ok_event history_ok_update)
qed


text \<open>
  C35. When the last member of an active connection goes, the connection is closed and recorded:
  for a TCP socket that is the only member of the set under its application and remote endpoint,
  in any reachable history, \<^verbatim>\<open>OnSocketRemoved\<close> writes one row with the endpoint, the start time, the
  current time and the bytes of all members so far including the whole traffic of this socket,
  and the key is free again. The entry the clients see does not get these bytes: its next update
  reports it closed with the byte counts of the update before, so traffic since then is in the
  database only.
\<close>
theorem closed_connection_recorded:
  fixes env :: history_env
  assumes "reachable history_initial history_step H"
    and "map_of (ActiveConnections H) (ApplicationPath (app_item M (socket_app M s)), RemoteEndpoint (SocketTuple (sock_item M s))) = Some k"
    and "set (Connections (SetHeap H ! k)) \<subseteq> {SockRef s}" "ParentEntry (SetHeap H ! k) = Some e"
    and "UDPPerConnectionCounters (SockHeap M ! s) = []"
  defines "H' \<equiv> OnSocketRemoved env s M H"
  shows "HistoryRows H' = HistoryRows H @ [\<lparr>HistPath = ApplicationPath (app_item M (EntryApp (EntryHeap H ! e))),
        HistEndpoint = RemoteEndpoint (SocketTuple (sock_item M s)), HistStart = StartTime (EntryHeap H ! e), HistEnd = NowSeconds env,
        HistIn = BaseDataIn (SetHeap H ! k) + TotalDownloadBytes (sock_item M s),
        HistOut = BaseDataOut (SetHeap H ! k) + TotalUploadBytes (sock_item M s)\<rparr>]
    \<and> map_of (ActiveConnections H') (ApplicationPath (app_item M (socket_app M s)), RemoteEndpoint (SocketTuple (sock_item M s))) = None
    \<and> EntryUpdate M' H' (EntryHeap H' ! e) = (True, (EntryHeap H ! e)\<lparr>EntryState := ES_Closed, EndTime := NowSeconds env\<rparr>)"
proof -
  let ?K = "(ApplicationPath (app_item M (socket_app M s)), RemoteEndpoint (SocketTuple (sock_item M s)))"
  let ?A = "AList.delete ?K (ActiveConnections H)"
  have ok: "history_ok H"
    using assms(1) by (rule history_sm.reachable_invar)
  then have k: "k < length (SetHeap H)" "e < length (EntryHeap H)" "EntrySet (EntryHeap H ! e) = k"
      "EntryState (EntryHeap H ! e) = ES_Open" "EntryEndpoint (EntryHeap H ! e) = snd ?K"
    using history_okD(3) [OF ok assms(2)] assms(4) by (auto simp: set_ok_def)
  have gone: "filter (\<lambda>x. x \<noteq> SockRef s) (Connections (SetHeap H ! k)) = []"
    using assms(3) by (auto simp: filter_empty_conv)
  have H': "H' = untrack env ?K (SockRef s) M H"
    by (simp add: H'_def OnSocketRemoved_def assms(5) Let_def)
  have act: "ActiveConnections H' = ?A"
    using k gone by (simp add: H' untrack_def assms(2) Let_def)
  have "k \<notin> snd ` set ?A"
  proof
    assume "k \<in> snd ` set ?A"
    then obtain K where "(K, k) \<in> set ?A" by auto
    then have "map_of ?A K = Some k"
      by (intro map_of_is_SomeI um_distinct_delete history_okD(2) [OF ok])
    then show False
      using history_okD(4) [OF ok, of K k ?K] assms(2) by (auto split: if_splits)
  qed
  then have dead: "lock_set H' k = None"
    by (simp add: lock_set_def act)
  have "HistoryRows H' = HistoryRows H @ [\<lparr>HistPath = ApplicationPath (app_item M (EntryApp (EntryHeap H ! e))),
        HistEndpoint = snd ?K, HistStart = StartTime (EntryHeap H ! e), HistEnd = NowSeconds env,
        HistIn = BaseDataIn (SetHeap H ! k) + TotalDownloadBytes (sock_item M s),
        HistOut = BaseDataOut (SetHeap H ! k) + TotalUploadBytes (sock_item M s)\<rparr>]"
    and "EntryHeap H' ! e = (EntryHeap H ! e)\<lparr>EntryState := ES_Pending_Close, EndTime := NowSeconds env\<rparr>"
    using k gone assms(4)
    by (simp_all add: H' untrack_def assms(2) HandleEmptySet_def WriteToDatabase_def upd_set_def upd_entry_def Let_def)
  then show ?thesis
    using dead k(3) by (simp add: act EntryUpdate_def close_pending_def)
qed

text \<open>The members of a set are counted by address: the tuple and the socket of a connected UDP socket are
  both added to the base of the set when the socket goes, although every byte is in both.\<close>

lemma connected_udp_counted_twice:
  assumes "history_ok H"
    and "map_of (ActiveConnections H) (ApplicationPath (app_item M (socket_app M s)), RemoteEndpoint (SocketTuple (sock_item M s))) = Some k"
    and "Connections (SetHeap H ! k) = [TupleRef t]" "ParentEntry (SetHeap H ! k) = Some e"
    and "UDPPerConnectionCounters (SockHeap M ! s) = [(RemoteEndpoint (SocketTuple (sock_item M s)), t)]"
  shows "HistIn (last (HistoryRows (OnSocketRemoved env s M H))) =
     BaseDataIn (SetHeap H ! k) + TotalDownloadBytes (sock_item M s) + TotalDownloadBytes (tuple_item M t)"
proof -
  have "k < length (SetHeap H)" "e < length (EntryHeap H)" "EntryState (EntryHeap H ! e) = ES_Open"
    using history_okD(3) [OF assms(1,2)] assms(4) by (auto simp: set_ok_def)
  then show ?thesis
    using assms(2-5)
    by (simp add: OnSocketRemoved_def untrack_def HandleEmptySet_def WriteToDatabase_def upd_set_def upd_entry_def Let_def)
qed

section \<open>Witnesses\<close>

definition test_tcp_item :: "addr WSocketItem" where
  "test_tcp_item = (new_sock_item 3 7)\<lparr>SocketTuple := WSocketTuple_init\<lparr>Protocol := Proto_TCP, RemoteEndpoint := WEndpoint_init\<lparr>Port := 443\<rparr>\<rparr>,
     TotalDownloadBytes := 1000, TotalUploadBytes := 50\<rparr>"

definition test_history_map :: WSystemMap where
  "test_history_map = \<lparr>Parser = WSocketStateParser_empty, MapUpdate = empty_update, NextItemId = 4,
     SystemCounter = TTrafficCounter_init 0 (ITrafficItem.extend (ITrafficItem_init 0) (WSystemItem.fields ''System'' [] [])),
     FilterCounters = [], AppMap = [], ProcessMap = [], SocketMap = [], TrafficItems = [],
     OrphanedSockets = [], AppHeap = [TTrafficCounter_init 0 (new_app_item 1 ''curl'' ''/usr/bin/curl'' '''')],
     ProcHeap = [\<lparr>ProcCounter = TTrafficCounter_init 0 (new_proc_item 2 42), ParentApp = 0\<rparr>],
     SockHeap = [\<lparr>SockCounter = TTrafficCounter_init 0 test_tcp_item, ParentProcess = 0, UDPPerConnectionCounters = []\<rparr>],
     TupleHeap = [], NetEvents = [], LookupRequests = [], StatUpdates = []\<rparr>"

definition test_history_env :: "int \<Rightarrow> history_env" where
  "test_history_env t = \<lparr>NowSeconds = t, IgnoredConnectionHistoryApps = [], IgnoredConnectionHistoryPorts = []\<rparr>"

definition test_history :: WConnectionHistory where
  "test_history = snd (on_network_event (test_history_env 5) (EvSocketConnected 0) (test_history_map,
     \<lparr>NewItemCounter = 0, History = [], ActiveConnections = [], SetHeap = [], EntryHeap = [], HistoryRows = []\<rparr>))"

lemma reachable_test_history: "reachable history_initial history_step test_history"
  unfolding test_history_def
  by (rule reach_step, rule reach_start, simp add: history_initial_def, rule step_event)

lemma test_history_items:
  "sock_item test_history_map 0 = test_tcp_item" "UDPPerConnectionCounters (SockHeap test_history_map ! 0) = []"
  "socket_app test_history_map 0 = 0" "ApplicationPath (app_item test_history_map 0) = ''/usr/bin/curl''"
  "Protocol (SocketTuple test_tcp_item) = Proto_TCP" "RemoteEndpoint (SocketTuple test_tcp_item) = WEndpoint_init\<lparr>Port := 443\<rparr>"
  "TotalDownloadBytes test_tcp_item = 1000" "TotalUploadBytes test_tcp_item = 50"
  by (simp_all add: test_history_map_def TTrafficCounter_init_def socket_app_def new_app_item_def ITrafficItem_init_def
      ITrafficItem.defs WApplicationItem.defs test_tcp_item_def)

lemma test_history_state:
  "ActiveConnections test_history = [((''/usr/bin/curl'', WEndpoint_init\<lparr>Port := 443\<rparr>), 0)]"
  "SetHeap test_history = [\<lparr>Connections = [SockRef 0], BaseDataIn = 0, BaseDataOut = 0, ParentEntry = Some 0\<rparr>]"
  "HistoryRows test_history = []" "History test_history = [0]" "NewItemCounter test_history = 1"
  "StartTime (EntryHeap test_history ! 0) = 5" "EntryApp (EntryHeap test_history ! 0) = 0"
  by (simp_all add: test_history_def OnSocketConnected_def test_history_items track_def Push_def take_id_def upd_set_def
      IsIgnoredConnectionHistoryApp_def IsIgnoredConnectionHistoryPort_def test_history_env_def Let_def)


theorem closed_connection_recorded_witness:
  "HistoryRows (OnSocketRemoved (test_history_env 9) 0 test_history_map test_history) =
     [\<lparr>HistPath = ''/usr/bin/curl'', HistEndpoint = WEndpoint_init\<lparr>Port := 443\<rparr>, HistStart = 5, HistEnd = 9, HistIn = 1000, HistOut = 50\<rparr>]"
  using closed_connection_recorded [OF reachable_test_history, of test_history_map 0 0 0 "test_history_env 9"]
  by (simp add: test_history_state test_history_items) (simp add: test_history_env_def)

end
