(* ===== verification/Calendar.thy ===== *)
theory Calendar
  imports Waechter_Prelude
begin

text \<open>
  The calendar functions of the C library that the statistics use: \<^verbatim>\<open>gmtime_r\<close> and \<^verbatim>\<open>timegm\<close> on the
  Gregorian calendar of POSIX, with no leap seconds. Times are integers, so the overflow of \<^verbatim>\<open>tm_year\<close> (a year beyond
  the 32-bit range) is not in the model.
\<close>

type_synonym WSec = int

section \<open>The calendar\<close>

record tm =
  tm_sec :: int
  tm_min :: int
  tm_hour :: int
  tm_mday :: int
  tm_mon :: int
  tm_year :: int

definition leap :: "int \<Rightarrow> bool" where
  "leap y \<longleftrightarrow> y mod 4 = 0 \<and> (y mod 100 \<noteq> 0 \<or> y mod 400 = 0)"

text \<open>Days between 1970-01-01 and the first of January of a year.\<close>

definition year_days :: "int \<Rightarrow> int" where
  "year_days y = 365 * (y - 1970) + (y - 1) div 4 - (y - 1) div 100 + (y - 1) div 400 - 477"

definition month_days :: "int \<Rightarrow> int \<Rightarrow> int" where
  "month_days y m = [0, 31, 59, 90, 120, 151, 181, 212, 243, 273, 304, 334] ! nat m + (if 2 \<le> m \<and> leap y then 1 else 0)"

text \<open>The first day of month \<open>k\<close>, counted from January of the year 0.\<close>

definition month_start :: "int \<Rightarrow> int" where
  "month_start k = year_days (k div 12) + month_days (k div 12) (k mod 12)"

definition timegm :: "tm \<Rightarrow> WSec" where
  "timegm t = 86400 * (month_start (12 * (tm_year t + 1900) + tm_mon t) + tm_mday t - 1)
     + 3600 * tm_hour t + 60 * tm_min t + tm_sec t"

lemma div_step:
  fixes y n :: int
  assumes "0 < n"
  shows "y div n = (y - 1) div n + (if y mod n = 0 then 1 else 0)"
proof (cases "y mod n = 0")
  case True
  then have "y = n * (y div n)" using mult_div_mod_eq [of n y] by linarith
  then have "y - 1 = n * (y div n - 1) + (n - 1)" unfolding right_diff_distrib by linarith
  then have "(y - 1) div n = y div n - 1" using assms int_div_pos_eq [of "y - 1" n "y div n - 1" "n - 1"] by simp
  then show ?thesis using True by simp
next
  case False
  have "y - 1 = n * (y div n) + (y mod n - 1)" by simp
  moreover have "1 \<le> y mod n" "y mod n < n" using assms False pos_mod_sign [of n y] pos_mod_bound [of n y] by linarith+
  ultimately have "(y - 1) div n = y div n" using int_div_pos_eq [of "y - 1" n "y div n" "y mod n - 1"] by simp
  then show ?thesis using False by simp
qed

lemma year_days_step: "year_days (y + 1) = year_days y + (if leap y then 366 else 365)"
proof -
  have e: "year_days (y + 1) = 365 * (y - 1969) + y div 4 - y div 100 + y div 400 - 477"
    by (simp add: year_days_def)
  have sums: "365 * (y - 1969) + (a + i) - (b + j) + (c + k) - 477 = 365 * (y - 1970) + a - b + c - 477 + (365 + i - j + k)"
    for a b c i j k :: int by simp
  have key: "(365 :: int) + (if p then 1 else 0) - (if q then 1 else 0) + (if r then 1 else 0) = (if p \<and> (\<not> q \<or> r) then 366 else 365)"
    if "q \<longrightarrow> p" "r \<longrightarrow> q" for p q r using that by (cases p; cases q; cases r) simp_all
  have d: "y mod 100 = 0 \<longrightarrow> y mod 4 = 0" "y mod 400 = 0 \<longrightarrow> y mod 100 = 0"
    using dvd_trans [of 4 100 y] dvd_trans [of 100 400 y] by (simp_all add: mod_eq_0_iff_dvd)
  have n: "(0 :: int) < 4" "(0 :: int) < 100" "(0 :: int) < 400" by simp_all
  show ?thesis unfolding e div_step [OF n(1), of y] div_step [OF n(2), of y] div_step [OF n(3), of y] sums
    unfolding year_days_def leap_def key [OF d] by (rule refl)
qed

function find_year :: "int \<Rightarrow> int \<Rightarrow> int" where
  "find_year d y = (if year_days (y + 1) \<le> d then find_year d (y + 1) else y)"
  by auto
termination
  by (relation "measure (\<lambda>(d, y). nat (d + 1 - year_days y))") (auto simp: year_days_step split: if_splits)

declare find_year.simps [simp del]

definition year_of :: "int \<Rightarrow> int" where
  "year_of d = find_year d (1970 + (if 0 \<le> d then d div 366 else d div 365))"

definition month_of :: "int \<Rightarrow> int \<Rightarrow> int" where
  "month_of y yday = int (length (takeWhile (\<lambda>m. month_days y m \<le> yday) [1..11]))"

definition gmtime :: "WSec \<Rightarrow> tm" where
  "gmtime T =
     (let d = T div 86400; r = T mod 86400; y = year_of d; yday = d - year_days y; m = month_of y yday
      in \<lparr>tm_sec = r mod 60, tm_min = r div 60 mod 60, tm_hour = r div 3600, tm_mday = yday - month_days y m + 1, tm_mon = m,
          tm_year = y - 1900\<rparr>)"

lemma find_year_spec: "year_days y \<le> d \<Longrightarrow> year_days (find_year d y) \<le> d \<and> d < year_days (find_year d y + 1)"
  by (induction d y rule: find_year.induct) (subst (1 2) find_year.simps, auto)

lemma year_days_bounds: "0 \<le> n \<Longrightarrow> year_days (1970 + n) \<le> 366 * n" "n \<le> 0 \<Longrightarrow> year_days (1970 + n) \<le> 365 * n"
proof -
  have z: "year_days 1970 = 0" by (simp add: year_days_def)
  have up: "year_days (1970 + int k) \<le> 366 * int k" for k
  proof (induction k)
    case (Suc k)
    have "year_days (1970 + int (Suc k)) = year_days (1970 + int k + 1)" by (simp add: algebra_simps)
    then show ?case using Suc year_days_step [of "1970 + int k"] by (auto split: if_splits)
  qed (simp add: z)
  have down: "year_days (1970 - int k) \<le> - 365 * int k" for k
  proof (induction k)
    case (Suc k)
    have "year_days (1970 - int k) = year_days (1970 - int (Suc k) + 1)" by (simp add: algebra_simps)
    then show ?case using Suc year_days_step [of "1970 - int (Suc k)"] by (auto split: if_splits)
  qed (simp add: z)
  show "0 \<le> n \<Longrightarrow> year_days (1970 + n) \<le> 366 * n" using up [of "nat n"] by simp
  show "n \<le> 0 \<Longrightarrow> year_days (1970 + n) \<le> 365 * n" using down [of "nat (- n)"] by simp
qed

lemma year_of_spec: "year_days (year_of d) \<le> d" "d < year_days (year_of d + 1)"
proof -
  have "year_days (1970 + (if 0 \<le> d then d div 366 else d div 365)) \<le> d"
  proof (cases "0 \<le> d")
    case True
    then have "year_days (1970 + d div 366) \<le> 366 * (d div 366)" by (intro year_days_bounds) simp
    also have "\<dots> \<le> d" by presburger
    finally show ?thesis using True by simp
  next
    case False
    then have "year_days (1970 + d div 365) \<le> 365 * (d div 365)" by (intro year_days_bounds) linarith
    also have "\<dots> \<le> d" by presburger
    finally show ?thesis using False by simp
  qed
  then show "year_days (year_of d) \<le> d" "d < year_days (year_of d + 1)" using find_year_spec unfolding year_of_def by blast+
qed

lemma month_days_first [simp]: "month_days y 0 = 0"
  by (simp add: month_days_def)

lemma month_cases: "0 \<le> m \<Longrightarrow> m < 11 \<Longrightarrow> m \<in> {0, 1, 2, 3, 4, 5, 6, 7, 8, 9, 10 :: int}"
  by (simp, arith)

lemma month_days_step: "0 \<le> m \<Longrightarrow> m < 11 \<Longrightarrow> month_days y m < month_days y (m + 1)"
  by (drule (1) month_cases) (elim insertE emptyE; simp add: month_days_def)

lemma month_days_last: "month_days y 11 + 31 = (if leap y then 366 else 365)"
  by (simp add: month_days_def)

lemma month_start_index: "0 \<le> m \<Longrightarrow> m < 12 \<Longrightarrow> month_start (12 * y + m) = year_days y + month_days y m"
  by (simp add: month_start_def)

lemma month_start_step: "month_start k < month_start (k + 1)"
proof -
  obtain y m where k: "k = 12 * y + m" "0 \<le> m" "m < 12" by (rule that [of "k div 12" "k mod 12"]) auto
  show ?thesis
  proof (cases "m = 11")
    case True
    then have "month_start (k + 1) = year_days (y + 1)" using month_start_index [of 0 "y + 1"] k by (simp add: algebra_simps)
    then show ?thesis using month_start_index [of m y] k True month_days_last [of y] year_days_step [of y] by auto
  next
    case False
    then show ?thesis using month_start_index [of m y] month_start_index [of "m + 1" y] k month_days_step [of m y]
      by (simp add: add.assoc)
  qed
qed

lemma month_start_less: "j < k \<Longrightarrow> month_start j < month_start k"
proof (induction "nat (k - j)" arbitrary: k)
  case (Suc n)
  show ?case
  proof (cases "j = k - 1")
    case False
    then have "month_start j < month_start (k - 1)" using Suc.hyps(1) [of "k - 1"] Suc.hyps(2) Suc.prems by linarith
    then show ?thesis using month_start_step [of "k - 1"] by simp
  qed (use month_start_step [of "k - 1"] in simp)
qed simp

lemma month_of_spec:
  assumes "0 \<le> d" "d < (if leap y then 366 else 365)"
  shows "0 \<le> month_of y d" "month_of y d < 12" "month_days y (month_of y d) \<le> d"
    "d < month_days y (month_of y d + 1) \<or> month_of y d = 11"
proof -
  have l: "[1..11] = [1, 2, 3, 4, 5, 6, 7, 8, 9, 10, 11 :: int]" by (simp add: upto.simps)
  have "0 \<le> month_of y d \<and> month_of y d < 12 \<and> month_days y (month_of y d) \<le> d
      \<and> (d < month_days y (month_of y d + 1) \<or> month_of y d = 11)"
    using assms unfolding month_of_def l by (cases "leap y") (simp_all add: month_days_def)
  then show "0 \<le> month_of y d" "month_of y d < 12" "month_days y (month_of y d) \<le> d"
    "d < month_days y (month_of y d + 1) \<or> month_of y d = 11" by auto
qed

section \<open>Months\<close>

text \<open>The month of a time, as a number.\<close>

definition month_index :: "WSec \<Rightarrow> int" where
  "month_index T = 12 * (tm_year (gmtime T) + 1900) + tm_mon (gmtime T)"

lemma gmtime_day:
  "year_days (year_of (T div 86400)) + month_days (year_of (T div 86400)) (tm_mon (gmtime T)) + tm_mday (gmtime T) - 1 = T div 86400"
  "0 \<le> tm_mon (gmtime T)" "tm_mon (gmtime T) < 12" "1 \<le> tm_mday (gmtime T)"
  "T div 86400 < month_start (month_index T + 1)"
proof -
  define y d where yd: "y = year_of (T div 86400)" "d = T div 86400 - year_days y"
  have d: "0 \<le> d" "d < (if leap y then 366 else 365)"
    using year_of_spec [of "T div 86400"] year_days_step [of y] by (auto simp: yd)
  note m = month_of_spec [OF d]
  have tm: "tm_mon (gmtime T) = month_of y d" "tm_mday (gmtime T) = d - month_days y (month_of y d) + 1" "tm_year (gmtime T) = y - 1900"
    by (simp_all add: gmtime_def yd Let_def)
  show "year_days (year_of (T div 86400)) + month_days (year_of (T div 86400)) (tm_mon (gmtime T)) + tm_mday (gmtime T) - 1 = T div 86400"
    unfolding tm yd(1) [symmetric] using yd(2) by simp
  show "0 \<le> tm_mon (gmtime T)" "tm_mon (gmtime T) < 12" "1 \<le> tm_mday (gmtime T)" using m tm by auto
  have i: "month_index T = 12 * y + month_of y d" by (simp add: month_index_def tm)
  show "T div 86400 < month_start (month_index T + 1)"
  proof (cases "month_of y d = 11")
    case True
    then have "month_start (month_index T + 1) = year_days (y + 1)" using month_start_index [of 0 "y + 1"] i by (simp add: algebra_simps)
    then show ?thesis using d yd year_days_step [of y] by auto
  next
    case False
    then have "month_start (month_index T + 1) = year_days y + month_days y (month_of y d + 1)"
      using month_start_index [of "month_of y d + 1" y] i m by (simp add: add.assoc)
    then show ?thesis using False m yd by auto
  qed
qed

lemma month_start_day: "month_start (month_index T) + tm_mday (gmtime T) - 1 = T div 86400"
proof -
  have "tm_year (gmtime T) + 1900 = year_of (T div 86400)" by (simp add: gmtime_def Let_def)
  then show ?thesis using gmtime_day [of T] by (simp add: month_index_def month_start_index)
qed

lemma day_seconds: "3600 * tm_hour (gmtime T) + 60 * tm_min (gmtime T) + tm_sec (gmtime T) = T mod 86400"
proof -
  have "3600 * (r div 3600) + 60 * (r div 60 mod 60) + r mod 60 = r" for r :: int
  proof -
    have "r div 3600 = r div 60 div 60" by (simp add: zdiv_zmult2_eq [of 60 r 60, simplified])
    then show ?thesis using mult_div_mod_eq [of 60 "r div 60"] mult_div_mod_eq [of 60 r] by linarith
  qed
  then show ?thesis by (simp add: gmtime_def Let_def)
qed

lemma timegm_gmtime: "timegm (gmtime T) = T"
  unfolding timegm_def month_index_def [symmetric] month_start_day by (metis add.assoc day_seconds mult_div_mod_eq)

lemma month_bounds: "86400 * month_start (month_index T) \<le> T" "T < 86400 * month_start (month_index T + 1)"
proof -
  have "month_start (month_index T) \<le> T div 86400" using month_start_day [of T] gmtime_day(4) [of T] by linarith
  then show "86400 * month_start (month_index T) \<le> T" by linarith
  have "T div 86400 < month_start (month_index T + 1)" by (rule gmtime_day)
  then show "T < 86400 * month_start (month_index T + 1)" by linarith
qed

lemma month_index_unique:
  assumes "86400 * month_start k \<le> T" "T < 86400 * month_start (k + 1)"
  shows "month_index T = k"
proof (rule antisym; rule ccontr)
  assume "\<not> month_index T \<le> k"
  then have "month_start (k + 1) \<le> month_start (month_index T)"
    using month_start_less [of "k + 1" "month_index T"] by (cases "k + 1 = month_index T") auto
  then show False using month_bounds(1) [of T] assms(2) by linarith
next
  assume "\<not> k \<le> month_index T"
  then have "month_start (month_index T + 1) \<le> month_start k"
    using month_start_less [of "month_index T + 1" k] by (cases "month_index T + 1 = k") auto
  then show False using month_bounds(2) [of T] assms(1) by linarith
qed

end
