(* ===== verification/Statistics.thy ===== *)
theory Statistics
  imports System_Map IP2Asn_Db Calendar
begin

text \<open>
  \<^verbatim>\<open>Daemon/Db/StatsManager.cpp\<close>, the recording side: the traffic that \<^verbatim>\<open>RefreshAllTrafficCounters\<close> reports
  (\<^verbatim>\<open>System_Map.StatUpdates\<close>) is summed per application and remote host and per filter in a snapshot,
  and once an hour \<^verbatim>\<open>MakeSnapshot\<close> writes the snapshot to the database. The database is its tables,
  lists of rows in the order of insertion; an inserted row gets the id that SQLite gives an
  \<^verbatim>\<open>INTEGER PRIMARY KEY\<close>, one more than the largest. Rows are never deleted. The lookup of an address in the
  IP to AS number database is a parameter with its state, \<^verbatim>\<open>WIP2Asn::LookupSync\<close> in the daemon.
\<close>

section \<open>The snapshot in memory\<close>

record WTrafficStats =
  BytesIn :: WBytes
  BytesOut :: WBytes

record WItemStats =
  StatsPath :: string
  StatsTraffic :: "(WIPAddress, WTrafficStats) umap"

record WSnapshot =
  SnapApps :: "(WTrafficItemId, WItemStats) umap"
  SnapFilters :: "(string, WTrafficStats) umap"

definition WSnapshot_init :: WSnapshot where
  "WSnapshot_init = \<lparr>SnapApps = [], SnapFilters = []\<rparr>"

definition add_traffic :: "WBytes \<Rightarrow> WBytes \<Rightarrow> WTrafficStats option \<Rightarrow> WTrafficStats" where
  "add_traffic In Out T =
     (case T of None \<Rightarrow> \<lparr>BytesIn = In, BytesOut = Out\<rparr>
      | Some t \<Rightarrow> \<lparr>BytesIn = BytesIn t + In, BytesOut = BytesOut t + Out\<rparr>)"

definition UpdateFilterStats :: "string \<Rightarrow> WBytes \<Rightarrow> WBytes \<Rightarrow> WSnapshot \<Rightarrow> WSnapshot" where
  "UpdateFilterStats Name In Out S =
     (if In = 0 \<and> Out = 0 then S
      else S\<lparr>SnapFilters := AList.update Name (add_traffic In Out (map_of (SnapFilters S) Name)) (SnapFilters S)\<rparr>)"

definition UpdateAppStats :: "WTrafficItemId \<Rightarrow> string \<Rightarrow> WIPAddress \<Rightarrow> WBytes \<Rightarrow> WBytes \<Rightarrow> WSnapshot \<Rightarrow> WSnapshot" where
  "UpdateAppStats AppId Path RemoteHost In Out S =
     (if In = 0 \<and> Out = 0 then S
      else
        let A = (case map_of (SnapApps S) AppId of
              Some a \<Rightarrow> \<lparr>StatsPath = (if StatsPath a = [] then Path else StatsPath a),
                StatsTraffic = AList.update RemoteHost (add_traffic In Out (map_of (StatsTraffic a) RemoteHost)) (StatsTraffic a)\<rparr>
            | None \<Rightarrow> \<lparr>StatsPath = Path, StatsTraffic = [(RemoteHost, \<lparr>BytesIn = In, BytesOut = Out\<rparr>)]\<rparr>)
        in S\<lparr>SnapApps := AList.update AppId A (SnapApps S)\<rparr>)"

fun apply_stat :: "stat_update \<Rightarrow> WSnapshot \<Rightarrow> WSnapshot" where
  "apply_stat (FilterStats Name In Out) S = UpdateFilterStats Name In Out S"
| "apply_stat (AppStats AppId Path RemoteHost In Out) S = UpdateAppStats AppId Path RemoteHost In Out S"

definition collect :: "stat_update list \<Rightarrow> WSnapshot" where
  "collect us = fold apply_stat us WSnapshot_init"

section \<open>The tables\<close>

record item_row =
  ItemRowId :: int
  ItemRowName :: string

record asn_entry =
  AsnRowId :: int
  AsnNumber :: u32
  AsnCountry :: string
  AsnOrganization :: string

record host_row =
  HostRowId :: int
  HostFamily :: int
  HostAddress :: "u8 list"
  HostAsn :: "int option"

record snapshot_row =
  SnapshotRowId :: int
  SnapshotStart :: WSec

record event_row =
  EventRowId :: int
  EventSnapshot :: int
  EventItem :: int
  EventHost :: "int option"
  EventIn :: int
  EventOut :: int

record connection_row =
  HistRowId :: int
  HistItem :: int
  HistHost :: int
  HistPort :: u16
  HistStart :: WSec
  HistEnd :: WSec
  HistIn :: int
  HistOut :: int

record Db =
  ItemTable :: "item_row list"
  AsnTable :: "asn_entry list"
  HostTable :: "host_row list"
  SnapshotTable :: "snapshot_row list"
  EventTable :: "event_row list"
  HistoryTable :: "connection_row list"

definition Db_init :: Db where
  "Db_init = \<lparr>ItemTable = [], AsnTable = [], HostTable = [], SnapshotTable = [], EventTable = [], HistoryTable = []\<rparr>"

definition new_row_id :: "int list \<Rightarrow> int" where
  "new_row_id ids = foldr max ids 0 + 1"

section \<open>MakeSnapshot\<close>

text \<open>The select for an existing row and the insert when there is none.\<close>

definition item_id :: "string \<Rightarrow> Db \<Rightarrow> int \<times> Db" where
  "item_id Name db =
     (case find (\<lambda>r. ItemRowName r = Name) (ItemTable db) of
        Some r \<Rightarrow> (ItemRowId r, db)
      | None \<Rightarrow> let i = new_row_id (map ItemRowId (ItemTable db))
                in (i, db\<lparr>ItemTable := ItemTable db @ [\<lparr>ItemRowId = i, ItemRowName = Name\<rparr>]\<rparr>))"

definition asn_id :: "WIP2AsnLookupResult option \<Rightarrow> Db \<Rightarrow> int \<times> Db" where
  "asn_id R db =
     (case R of
        None \<Rightarrow> (0, db)
      | Some r \<Rightarrow>
          (case find (\<lambda>a. AsnNumber a = ASN r \<and> AsnCountry a = Country r \<and> AsnOrganization a = Organization r) (AsnTable db) of
             Some a \<Rightarrow> (AsnRowId a, db)
           | None \<Rightarrow> let i = new_row_id (map AsnRowId (AsnTable db))
                     in (i, db\<lparr>AsnTable := AsnTable db @ [\<lparr>AsnRowId = i, AsnNumber = ASN r, AsnCountry = Country r,
                              AsnOrganization = Organization r\<rparr>]\<rparr>)))"

fun family_number :: "EIPFamily \<Rightarrow> int" where
  "family_number FamilyUnknown = 0"
| "family_number IPv4 = 4"
| "family_number IPv6 = 6"

definition host_id :: "WIPAddress \<Rightarrow> int \<Rightarrow> Db \<Rightarrow> int \<times> Db" where
  "host_id IP AsnID db =
     (case find (\<lambda>h. HostAddress h = GetBytes IP) (HostTable db) of
        Some h \<Rightarrow> (HostRowId h, db)
      | None \<Rightarrow>
          let i = new_row_id (map HostRowId (HostTable db));
              F = (if family_number (Family IP) = 0 then 4 else family_number (Family IP))
          in (i, db\<lparr>HostTable := HostTable db @ [\<lparr>HostRowId = i, HostFamily = F, HostAddress = GetBytes IP,
                   HostAsn = (if AsnID > 0 then Some AsnID else None)\<rparr>]\<rparr>))"

definition insert_event :: "int \<Rightarrow> int \<Rightarrow> int option \<Rightarrow> WTrafficStats \<Rightarrow> Db \<Rightarrow> Db" where
  "insert_event SnapshotID ItemID HostID T db = db\<lparr>EventTable := EventTable db @
     [\<lparr>EventRowId = new_row_id (map EventRowId (EventTable db)), EventSnapshot = SnapshotID, EventItem = ItemID,
       EventHost = HostID, EventIn = sint (BytesIn T), EventOut = sint (BytesOut T)\<rparr>]\<rparr>"

type_synonym 'w asn_lookup = "WIPAddress \<Rightarrow> 'w \<Rightarrow> WIP2AsnLookupResult option \<times> 'w"

definition host_event :: "'w asn_lookup \<Rightarrow> int \<Rightarrow> int \<Rightarrow> WIPAddress \<times> WTrafficStats \<Rightarrow> 'w \<times> Db \<Rightarrow> 'w \<times> Db" where
  "host_event L SnapshotID AppID p st =
     (let (IP, T) = p; (w, db) = st;
          (R, w1) = L IP w;
          (AsnID, db1) = asn_id R db;
          (HostID, db2) = host_id IP AsnID db1
      in (w1, insert_event SnapshotID AppID (Some HostID) T db2))"

definition app_events :: "'w asn_lookup \<Rightarrow> int \<Rightarrow> WTrafficItemId \<times> WItemStats \<Rightarrow> 'w \<times> Db \<Rightarrow> 'w \<times> Db" where
  "app_events L SnapshotID p st =
     (let (_, A) = p; (w, db) = st in
      if StatsPath A = [] then (w, db)
      else let (AppID, db1) = item_id (StatsPath A) db
           in fold (host_event L SnapshotID AppID) (StatsTraffic A) (w, db1))"

definition filter_event :: "int \<Rightarrow> string \<times> WTrafficStats \<Rightarrow> Db \<Rightarrow> Db" where
  "filter_event SnapshotID p db =
     (let (Name, T) = p; (FilterID, db1) = item_id Name db in insert_event SnapshotID FilterID None T db1)"

definition insert_snapshot :: "WSec \<Rightarrow> Db \<Rightarrow> int \<times> Db" where
  "insert_snapshot Now0 db =
     (let i = new_row_id (map SnapshotRowId (SnapshotTable db))
      in (i, db\<lparr>SnapshotTable := SnapshotTable db @ [\<lparr>SnapshotRowId = i, SnapshotStart = Now0\<rparr>]\<rparr>))"

definition MakeSnapshot :: "'w asn_lookup \<Rightarrow> WSec \<Rightarrow> WSnapshot \<Rightarrow> 'w \<Rightarrow> Db \<Rightarrow> WSnapshot \<times> 'w \<times> Db" where
  "MakeSnapshot L Now0 S w db =
     (let (SnapshotID, db1) = insert_snapshot Now0 db;
          (w2, db2) = fold (app_events L SnapshotID) (SnapApps S) (w, db1)
      in (WSnapshot_init, w2, fold (filter_event SnapshotID) (SnapFilters S) db2))"

section \<open>The snapshot sums what was reported\<close>

definition recorded :: "WTrafficItemId \<Rightarrow> WIPAddress \<Rightarrow> WSnapshot \<Rightarrow> WBytes \<times> WBytes" where
  "recorded AppId Host S =
     (case map_of (SnapApps S) AppId of None \<Rightarrow> (0, 0)
      | Some A \<Rightarrow> (case map_of (StatsTraffic A) Host of None \<Rightarrow> (0, 0) | Some T \<Rightarrow> (BytesIn T, BytesOut T)))"

fun reported :: "WTrafficItemId \<Rightarrow> WIPAddress \<Rightarrow> stat_update \<Rightarrow> WBytes \<times> WBytes" where
  "reported AppId Host (AppStats A _ H In Out) = (if A = AppId \<and> H = Host then (In, Out) else (0, 0))"
| "reported AppId Host (FilterStats _ _ _) = (0, 0)"

definition pair_add :: "WBytes \<times> WBytes \<Rightarrow> WBytes \<times> WBytes \<Rightarrow> WBytes \<times> WBytes" where
  "pair_add x y = (fst x + fst y, snd x + snd y)"

lemma recorded_apply_stat: "recorded AppId Host (apply_stat u S) = pair_add (recorded AppId Host S) (reported AppId Host u)"
  by (cases u) (auto simp: recorded_def pair_add_def UpdateAppStats_def UpdateFilterStats_def add_traffic_def Let_def
      split: option.splits)

lemma recorded_fold:
  "recorded AppId Host (fold apply_stat us S) =
     pair_add (recorded AppId Host S) (\<Sum>u\<leftarrow>us. fst (reported AppId Host u), \<Sum>u\<leftarrow>us. snd (reported AppId Host u))"
  by (induction us arbitrary: S) (simp_all add: recorded_apply_stat pair_add_def algebra_simps)

lemma recorded_collect:
  "recorded AppId Host (collect us) = (\<Sum>u\<leftarrow>us. fst (reported AppId Host u), \<Sum>u\<leftarrow>us. snd (reported AppId Host u))"
  by (simp add: collect_def recorded_fold) (simp add: recorded_def WSnapshot_init_def pair_add_def)

section \<open>Well-formed tables\<close>

definition keys_ok :: "int list \<Rightarrow> bool" where
  "keys_ok ids \<longleftrightarrow> distinct ids \<and> (\<forall>i \<in> set ids. 0 < i)"

definition int64 :: "int \<Rightarrow> bool" where
  "int64 i \<longleftrightarrow> - (2 ^ 63) \<le> i \<and> i < 2 ^ 63"

definition item_table_ok :: "item_row list \<Rightarrow> bool" where
  "item_table_ok t \<longleftrightarrow> keys_ok (map ItemRowId t) \<and> distinct (map ItemRowName t)"

abbreviation asn_triple :: "asn_entry \<Rightarrow> u32 \<times> string \<times> string" where
  "asn_triple a \<equiv> (AsnNumber a, AsnCountry a, AsnOrganization a)"

definition asn_table_ok :: "asn_entry list \<Rightarrow> bool" where
  "asn_table_ok t \<longleftrightarrow> keys_ok (map AsnRowId t) \<and> distinct (map asn_triple t)"

definition host_table_ok :: "int set \<Rightarrow> host_row list \<Rightarrow> bool" where
  "host_table_ok asns t \<longleftrightarrow> keys_ok (map HostRowId t) \<and> distinct (map HostAddress t)
     \<and> (\<forall>h \<in> set t. HostFamily h \<in> {4, 6} \<and> (\<forall>a. HostAsn h = Some a \<longrightarrow> a \<in> asns))"

definition snapshot_table_ok :: "snapshot_row list \<Rightarrow> bool" where
  "snapshot_table_ok t \<longleftrightarrow> keys_ok (map SnapshotRowId t)"

definition event_ok :: "Db \<Rightarrow> event_row \<Rightarrow> bool" where
  "event_ok db e \<longleftrightarrow> EventSnapshot e \<in> SnapshotRowId ` set (SnapshotTable db) \<and> EventItem e \<in> ItemRowId ` set (ItemTable db)
     \<and> (\<forall>h. EventHost e = Some h \<longrightarrow> h \<in> HostRowId ` set (HostTable db)) \<and> int64 (EventIn e) \<and> int64 (EventOut e)"

definition event_table_ok :: "Db \<Rightarrow> bool" where
  "event_table_ok db \<longleftrightarrow> keys_ok (map EventRowId (EventTable db)) \<and> (\<forall>e \<in> set (EventTable db). event_ok db e)"

definition history_table_ok :: "Db \<Rightarrow> bool" where
  "history_table_ok db \<longleftrightarrow> (\<forall>r \<in> set (HistoryTable db). HistItem r \<in> ItemRowId ` set (ItemTable db) \<and> HistHost r \<in> HostRowId ` set (HostTable db))"

definition db_ok :: "Db \<Rightarrow> bool" where
  "db_ok db \<longleftrightarrow> item_table_ok (ItemTable db) \<and> asn_table_ok (AsnTable db)
     \<and> host_table_ok (AsnRowId ` set (AsnTable db)) (HostTable db) \<and> snapshot_table_ok (SnapshotTable db)
     \<and> event_table_ok db \<and> history_table_ok db"

definition db_ext :: "Db \<Rightarrow> Db \<Rightarrow> bool" where
  "db_ext db db1 \<longleftrightarrow> (\<exists>xs. ItemTable db1 = ItemTable db @ xs) \<and> (\<exists>xs. AsnTable db1 = AsnTable db @ xs)
     \<and> (\<exists>xs. HostTable db1 = HostTable db @ xs) \<and> (\<exists>xs. SnapshotTable db1 = SnapshotTable db @ xs)
     \<and> HistoryTable db1 = HistoryTable db"

lemma db_ext_refl [intro, simp]: "db_ext db db"
  by (simp add: db_ext_def)

lemma db_ext_trans: "db_ext a b \<Longrightarrow> db_ext b c \<Longrightarrow> db_ext a c"
  by (auto simp: db_ext_def)

lemma new_row_id_bound: "i \<in> set ids \<Longrightarrow> i < new_row_id ids"
  by (induction ids) (auto simp: new_row_id_def)

lemma new_row_id_pos: "0 < new_row_id ids"
  by (induction ids) (auto simp: new_row_id_def)

lemma keys_ok_new: "keys_ok ids \<Longrightarrow> keys_ok (ids @ [new_row_id ids])"
  using new_row_id_bound [of "new_row_id ids" ids] new_row_id_pos [of ids] by (auto simp: keys_ok_def)

lemma find_key: "find (\<lambda>r. k r = v) t = None \<longleftrightarrow> v \<notin> k ` set t"
  by (auto simp: find_None_iff)

lemma find_keyD: "find (\<lambda>r. k r = v) t = Some r \<Longrightarrow> r \<in> set t \<and> k r = v"
  by (auto simp: find_Some_iff)

lemma event_ok_ext:
  assumes "db_ext db db1" "event_ok db e"
  shows "event_ok db1 e"
proof -
  have "SnapshotRowId ` set (SnapshotTable db) \<subseteq> SnapshotRowId ` set (SnapshotTable db1)"
       "ItemRowId ` set (ItemTable db) \<subseteq> ItemRowId ` set (ItemTable db1)"
       "HostRowId ` set (HostTable db) \<subseteq> HostRowId ` set (HostTable db1)"
    using assms(1) by (auto simp: db_ext_def)
  then show ?thesis using assms(2) unfolding event_ok_def by blast
qed

lemma db_ok_ext:
  assumes "db_ok db" "db_ext db db1" "EventTable db1 = EventTable db" "item_table_ok (ItemTable db1)" "asn_table_ok (AsnTable db1)"
    "host_table_ok (AsnRowId ` set (AsnTable db1)) (HostTable db1)" "snapshot_table_ok (SnapshotTable db1)"
  shows "db_ok db1"
proof -
  have "event_table_ok db1" using assms(1-3) event_ok_ext by (auto simp: db_ok_def event_table_ok_def)
  moreover have "history_table_ok db1" using assms(1,2) by (auto simp: db_ok_def history_table_ok_def db_ext_def)
  ultimately show ?thesis using assms by (simp add: db_ok_def)
qed

section \<open>What a snapshot adds to the tables\<close>

lemma host_table_ok_mono: "host_table_ok A t \<Longrightarrow> A \<subseteq> B \<Longrightarrow> host_table_ok B t"
  unfolding host_table_ok_def by blast

definition grows :: "Db \<Rightarrow> Db \<Rightarrow> bool" where
  "grows db db1 \<longleftrightarrow> db_ok db1 \<and> db_ext db db1"

lemma grows_trans: "grows a b \<Longrightarrow> grows b c \<Longrightarrow> grows a c"
  by (auto simp: grows_def intro: db_ext_trans)

lemma item_id_grows:
  assumes "db_ok db" "item_id Name db = (i, db1)"
  shows "grows db db1" "EventTable db1 = EventTable db" "\<exists>r \<in> set (ItemTable db1). ItemRowId r = i \<and> ItemRowName r = Name"
    "SnapshotTable db1 = SnapshotTable db" "HostTable db1 = HostTable db"
proof -
  show ev: "EventTable db1 = EventTable db" and "SnapshotTable db1 = SnapshotTable db" "HostTable db1 = HostTable db"
    and "\<exists>r \<in> set (ItemTable db1). ItemRowId r = i \<and> ItemRowName r = Name"
    using assms(2) by (auto simp: item_id_def Let_def split: option.splits dest!: find_keyD)
  have ext: "db_ext db db1" using assms(2) by (auto simp: item_id_def Let_def db_ext_def split: option.splits)
  have "item_table_ok (ItemTable db1)" "AsnTable db1 = AsnTable db" "HostTable db1 = HostTable db" "SnapshotTable db1 = SnapshotTable db"
    using assms keys_ok_new [of "map ItemRowId (ItemTable db)"]
    by (auto simp: item_id_def Let_def item_table_ok_def db_ok_def find_key split: option.splits)
  then show "grows db db1" using assms(1) ext ev db_ok_ext [OF assms(1) ext ev] by (simp add: grows_def db_ok_def)
qed

lemma asn_id_grows:
  assumes "db_ok db" "asn_id R db = (i, db1)"
  shows "grows db db1" "EventTable db1 = EventTable db" "0 < i \<longrightarrow> i \<in> AsnRowId ` set (AsnTable db1)"
proof -
  show ev: "EventTable db1 = EventTable db" and "0 < i \<longrightarrow> i \<in> AsnRowId ` set (AsnTable db1)"
    using assms(2) by (auto simp: asn_id_def Let_def split: option.splits dest!: find_keyD)
       (auto simp: find_Some_iff)
  have ext: "db_ext db db1" using assms(2) by (auto simp: asn_id_def Let_def db_ext_def split: option.splits)
  have "asn_table_ok (AsnTable db1)"
    using assms keys_ok_new [of "map AsnRowId (AsnTable db)"]
    by (auto simp: asn_id_def Let_def asn_table_ok_def db_ok_def find_None_iff split: option.splits) blast
  moreover have same: "ItemTable db1 = ItemTable db" "HostTable db1 = HostTable db" "SnapshotTable db1 = SnapshotTable db"
    using assms by (auto simp: asn_id_def Let_def split: option.splits)
  moreover have "host_table_ok (AsnRowId ` set (AsnTable db1)) (HostTable db1)"
  proof -
    have "host_table_ok (AsnRowId ` set (AsnTable db)) (HostTable db1)" using assms(1) same by (simp add: db_ok_def)
    moreover have "AsnRowId ` set (AsnTable db) \<subseteq> AsnRowId ` set (AsnTable db1)" using ext by (auto simp: db_ext_def)
    ultimately show ?thesis by (rule host_table_ok_mono)
  qed
  ultimately show "grows db db1" using assms(1) ext ev db_ok_ext [OF assms(1) ext ev] by (simp add: grows_def db_ok_def)
qed

lemma host_id_grows:
  assumes "db_ok db" "host_id IP a db = (i, db1)" "0 < a \<longrightarrow> a \<in> AsnRowId ` set (AsnTable db)"
  shows "grows db db1" "EventTable db1 = EventTable db" "\<exists>r \<in> set (HostTable db1). HostRowId r = i \<and> HostAddress r = GetBytes IP"
proof -
  show ev: "EventTable db1 = EventTable db" and "\<exists>r \<in> set (HostTable db1). HostRowId r = i \<and> HostAddress r = GetBytes IP"
    using assms(2) by (auto simp: host_id_def Let_def split: option.splits dest!: find_keyD)
  have ext: "db_ext db db1" using assms(2) by (auto simp: host_id_def Let_def db_ext_def split: option.splits)
  have "host_table_ok (AsnRowId ` set (AsnTable db)) (HostTable db1)"
    using assms keys_ok_new [of "map HostRowId (HostTable db)"]
    by (cases "Family IP") (auto simp: host_id_def Let_def host_table_ok_def db_ok_def find_key split: option.splits if_splits)
  moreover have same: "ItemTable db1 = ItemTable db" "AsnTable db1 = AsnTable db" "SnapshotTable db1 = SnapshotTable db"
    using assms by (auto simp: host_id_def Let_def split: option.splits)
  ultimately show "grows db db1" using assms(1) ext ev db_ok_ext [OF assms(1) ext ev] by (simp add: grows_def db_ok_def)
qed

lemma int64_sint: "int64 (sint (w :: u64))"
  using sint_range_size [of w] by (simp add: int64_def word_size)

lemma insert_event_grows:
  assumes "db_ok db" "s \<in> SnapshotRowId ` set (SnapshotTable db)" "i \<in> ItemRowId ` set (ItemTable db)"
    "\<And>h. H = Some h \<Longrightarrow> h \<in> HostRowId ` set (HostTable db)"
  shows "grows db (insert_event s i H T db)"
proof -
  let ?db = "insert_event s i H T db"
  have ext: "db_ext db ?db" by (simp add: db_ext_def insert_event_def)
  have tables: "ItemTable ?db = ItemTable db" "AsnTable ?db = AsnTable db" "HostTable ?db = HostTable db"
      "SnapshotTable ?db = SnapshotTable db" "HistoryTable ?db = HistoryTable db" by (simp_all add: insert_event_def)
  have "event_table_ok ?db"
    using assms keys_ok_new [of "map EventRowId (EventTable db)"] event_ok_ext [OF ext]
    by (auto simp: event_table_ok_def db_ok_def event_ok_def insert_event_def int64_sint)
  then have "db_ok ?db" using assms(1) tables by (simp add: db_ok_def history_table_ok_def)
  then show ?thesis using ext by (simp add: grows_def)
qed

lemma insert_snapshot_grows:
  assumes "db_ok db" "insert_snapshot t db = (i, db1)"
  shows "grows db db1" "EventTable db1 = EventTable db" "\<exists>r \<in> set (SnapshotTable db1). SnapshotRowId r = i \<and> SnapshotStart r = t"
proof -
  show ev: "EventTable db1 = EventTable db" and "\<exists>r \<in> set (SnapshotTable db1). SnapshotRowId r = i \<and> SnapshotStart r = t"
    using assms(2) by (auto simp: insert_snapshot_def Let_def)
  have ext: "db_ext db db1" using assms(2) by (auto simp: insert_snapshot_def Let_def db_ext_def)
  have "snapshot_table_ok (SnapshotTable db1)" "ItemTable db1 = ItemTable db" "AsnTable db1 = AsnTable db" "HostTable db1 = HostTable db"
    using assms keys_ok_new [of "map SnapshotRowId (SnapshotTable db)"]
    by (auto simp: insert_snapshot_def Let_def snapshot_table_ok_def db_ok_def)
  then show "grows db db1" using assms(1) ext ev db_ok_ext [OF assms(1) ext ev] by (simp add: grows_def db_ok_def)
qed

section \<open>The tables as a log\<close>

text \<open>The abstract database: the log of what was recorded when, for which name and which remote host.\<close>

record log_entry =
  LogTime :: WSec
  LogName :: string
  LogHost :: "u8 list option"
  LogIn :: WBytes
  LogOut :: WBytes

definition row_with :: "('r \<Rightarrow> int) \<Rightarrow> int \<Rightarrow> 'r list \<Rightarrow> 'r" where
  "row_with k i t = the (find (\<lambda>r. k r = i) t)"

definition log_of :: "Db \<Rightarrow> event_row \<Rightarrow> log_entry" where
  "log_of db e = \<lparr>LogTime = SnapshotStart (row_with SnapshotRowId (EventSnapshot e) (SnapshotTable db)),
     LogName = ItemRowName (row_with ItemRowId (EventItem e) (ItemTable db)),
     LogHost = map_option (\<lambda>h. HostAddress (row_with HostRowId h (HostTable db))) (EventHost e),
     LogIn = word_of_int (EventIn e), LogOut = word_of_int (EventOut e)\<rparr>"

definition traffic_log :: "Db \<Rightarrow> log_entry list" where
  "traffic_log db = map (log_of db) (EventTable db)"

definition app_log :: "WSec \<Rightarrow> WTrafficItemId \<times> WItemStats \<Rightarrow> log_entry list" where
  "app_log t p = (let A = snd p in
     if StatsPath A = [] then []
     else map (\<lambda>(IP, T). \<lparr>LogTime = t, LogName = StatsPath A, LogHost = Some (GetBytes IP), LogIn = BytesIn T, LogOut = BytesOut T\<rparr>)
            (StatsTraffic A))"

definition filter_log :: "WSec \<Rightarrow> string \<times> WTrafficStats \<Rightarrow> log_entry" where
  "filter_log t p = \<lparr>LogTime = t, LogName = fst p, LogHost = None, LogIn = BytesIn (snd p), LogOut = BytesOut (snd p)\<rparr>"

definition snapshot_log :: "WSec \<Rightarrow> WSnapshot \<Rightarrow> log_entry list" where
  "snapshot_log t S = concat (map (app_log t) (SnapApps S)) @ map (filter_log t) (SnapFilters S)"

lemma row_with_append: "i \<in> k ` set t \<Longrightarrow> row_with k i (t @ u) = row_with k i t"
  unfolding row_with_def by (induction t) auto

lemma row_with_unique: "distinct (map k t) \<Longrightarrow> r \<in> set t \<Longrightarrow> row_with k (k r) t = r"
  unfolding row_with_def by (induction t) (auto simp: image_iff)

lemma log_of_ext:
  assumes "db_ext db db1" "event_ok db e"
  shows "log_of db1 e = log_of db e"
  using assms row_with_append [of _ HostRowId] unfolding db_ext_def event_ok_def log_of_def
  by (auto simp: row_with_append intro!: map_option_cong)

lemma traffic_log_ext:
  assumes "db_ok db" "db_ext db db1" "EventTable db1 = EventTable db @ es"
  shows "traffic_log db1 = traffic_log db @ map (log_of db1) es"
  using assms log_of_ext by (auto simp: traffic_log_def db_ok_def event_table_ok_def)

definition adds :: "Db \<Rightarrow> Db \<Rightarrow> log_entry list \<Rightarrow> bool" where
  "adds db db1 es \<longleftrightarrow> grows db db1 \<and> traffic_log db1 = traffic_log db @ es"

lemma adds_trans: "adds a b x \<Longrightarrow> adds b c y \<Longrightarrow> adds a c (x @ y)"
  by (auto simp: adds_def intro: grows_trans)

lemma adds_Nil: "db_ok db \<Longrightarrow> adds db db []"
  by (simp add: adds_def grows_def)

lemma grows_adds: "db_ok db \<Longrightarrow> grows db db1 \<Longrightarrow> EventTable db1 = EventTable db \<Longrightarrow> adds db db1 []"
  using traffic_log_ext [of db db1 "[]"] by (simp add: adds_def grows_def)

lemma adds_db_ok: "adds db db1 es \<Longrightarrow> db_ok db1"
  by (simp add: adds_def grows_def)

lemma insert_event_adds:
  assumes ok: "db_ok db" and s: "s \<in> set (SnapshotTable db)" and i: "i \<in> set (ItemTable db)"
    and h: "\<And>r. H = Some r \<Longrightarrow> r \<in> set (HostTable db)"
  shows "adds db (insert_event (SnapshotRowId s) (ItemRowId i) (map_option HostRowId H) T db)
    [\<lparr>LogTime = SnapshotStart s, LogName = ItemRowName i, LogHost = map_option HostAddress H, LogIn = BytesIn T, LogOut = BytesOut T\<rparr>]"
    (is "adds db ?db1 _")
proof -
  have g: "grows db ?db1" using ok s i h by (intro insert_event_grows) auto
  have "SnapshotTable ?db1 = SnapshotTable db" "ItemTable ?db1 = ItemTable db" "HostTable ?db1 = HostTable db"
    by (simp_all add: insert_event_def)
  moreover have "distinct (map SnapshotRowId (SnapshotTable db))" "distinct (map ItemRowId (ItemTable db))" "distinct (map HostRowId (HostTable db))"
    using ok by (auto simp: db_ok_def item_table_ok_def host_table_ok_def snapshot_table_ok_def keys_ok_def)
  moreover have "EventTable ?db1 = EventTable db @ [\<lparr>EventRowId = new_row_id (map EventRowId (EventTable db)), EventSnapshot = SnapshotRowId s,
       EventItem = ItemRowId i, EventHost = map_option HostRowId H, EventIn = sint (BytesIn T), EventOut = sint (BytesOut T)\<rparr>]"
    by (simp add: insert_event_def)
  ultimately show ?thesis using g s i h traffic_log_ext [OF ok, of ?db1]
    by (cases H) (auto simp: adds_def grows_def log_of_def row_with_unique)
qed

lemma ext_rows:
  assumes "grows db db1"
  shows "s \<in> set (SnapshotTable db) \<Longrightarrow> s \<in> set (SnapshotTable db1)" "i \<in> set (ItemTable db) \<Longrightarrow> i \<in> set (ItemTable db1)"
    "h \<in> set (HostTable db) \<Longrightarrow> h \<in> set (HostTable db1)"
  using assms by (auto simp: grows_def db_ext_def)

lemma host_event_adds:
  assumes ok: "db_ok db" and s: "s \<in> set (SnapshotTable db)" and i: "i \<in> set (ItemTable db)"
  shows "adds db (snd (host_event L (SnapshotRowId s) (ItemRowId i) p (w, db)))
    [\<lparr>LogTime = SnapshotStart s, LogName = ItemRowName i, LogHost = Some (GetBytes (fst p)), LogIn = BytesIn (snd p), LogOut = BytesOut (snd p)\<rparr>]"
proof -
  obtain IP T where p: "p = (IP, T)" by force
  obtain R w1 where L: "L IP w = (R, w1)" by force
  obtain a db1 where a: "asn_id R db = (a, db1)" by force
  obtain h db2 where h: "host_id IP a db1 = (h, db2)" by force
  have 1: "adds db db1 []" using asn_id_grows [OF ok a] ok by (intro grows_adds)
  have asn: "0 < a \<longrightarrow> a \<in> AsnRowId ` set (AsnTable db1)" using asn_id_grows [OF ok a] by simp
  have H: "grows db1 db2" "EventTable db2 = EventTable db1" "\<exists>r \<in> set (HostTable db2). HostRowId r = h \<and> HostAddress r = GetBytes IP"
    using host_id_grows [OF adds_db_ok [OF 1] h asn] by auto
  then obtain r where r: "r \<in> set (HostTable db2)" "HostRowId r = h" "HostAddress r = GetBytes IP" by auto
  have 2: "adds db1 db2 []" using H adds_db_ok [OF 1] by (intro grows_adds)
  have "s \<in> set (SnapshotTable db2)" "i \<in> set (ItemTable db2)"
    using 1 2 s i ext_rows unfolding adds_def by metis+
  then have 3: "adds db2 (insert_event (SnapshotRowId s) (ItemRowId i) (Some h) T db2)
      [\<lparr>LogTime = SnapshotStart s, LogName = ItemRowName i, LogHost = Some (GetBytes IP), LogIn = BytesIn T, LogOut = BytesOut T\<rparr>]"
    using insert_event_adds [OF adds_db_ok [OF 2], of s i "Some r" T] r by simp
  show ?thesis using adds_trans [OF 1 adds_trans [OF 2 3]] by (simp add: host_event_def p L a h)
qed

lemma fold_adds:
  assumes "\<And>x w db. x \<in> set xs \<Longrightarrow> db_ok db \<Longrightarrow> r \<in> set (T db) \<Longrightarrow> s \<in> set (SnapshotTable db) \<Longrightarrow>
      adds db (snd (f x (w, db))) (g x)"
    and "\<And>db db1 es. adds db db1 es \<Longrightarrow> r \<in> set (T db) \<Longrightarrow> r \<in> set (T db1)"
    and "db_ok db" "r \<in> set (T db)" "s \<in> set (SnapshotTable db)"
  shows "adds db (snd (fold f xs (w, db))) (concat (map g xs))"
  using assms
proof (induction xs arbitrary: w db)
  case (Cons x xs)
  obtain w1 db1 where f: "f x (w, db) = (w1, db1)" by force
  have 1: "adds db db1 (g x)" using Cons.prems(1) [of x db w] Cons.prems(3-) f by simp
  have s1: "s \<in> set (SnapshotTable db1)" using ext_rows(1) [of db db1 s] 1 Cons.prems(5) unfolding adds_def by blast
  have "adds db1 (snd (fold f xs (w1, db1))) (concat (map g xs))"
    by (rule Cons.IH [OF _ Cons.prems(2) adds_db_ok [OF 1] Cons.prems(2) [OF 1 Cons.prems(4)] s1])
       (simp_all add: Cons.prems(1))
  from adds_trans [OF 1 this] show ?case by (simp add: f)
qed (simp add: adds_Nil)

lemma adds_rows:
  assumes "adds db db1 es"
  shows "s \<in> set (SnapshotTable db) \<Longrightarrow> s \<in> set (SnapshotTable db1)" "i \<in> set (ItemTable db) \<Longrightarrow> i \<in> set (ItemTable db1)"
  using assms ext_rows unfolding adds_def by blast+

lemma app_events_adds:
  assumes ok: "db_ok db" and s: "s \<in> set (SnapshotTable db)"
  shows "adds db (snd (app_events L (SnapshotRowId s) p (w, db))) (app_log (SnapshotStart s) p)"
proof (cases "StatsPath (snd p) = []")
  case True
  then show ?thesis using ok by (cases p) (simp add: app_events_def app_log_def adds_Nil)
next
  case False
  obtain i db1 where i: "item_id (StatsPath (snd p)) db = (i, db1)" by force
  have 1: "adds db db1 []" using item_id_grows [OF ok i] ok by (intro grows_adds)
  obtain r where r: "r \<in> set (ItemTable db1)" "ItemRowId r = i" "ItemRowName r = StatsPath (snd p)"
    using item_id_grows [OF ok i] by auto
  have "adds db1 (snd (fold (host_event L (SnapshotRowId s) i) (StatsTraffic (snd p)) (w, db1)))
      (concat (map (\<lambda>q. [\<lparr>LogTime = SnapshotStart s, LogName = ItemRowName r, LogHost = Some (GetBytes (fst q)), LogIn = BytesIn (snd q), LogOut = BytesOut (snd q)\<rparr>])
        (StatsTraffic (snd p))))"
    using 1 r(1) s host_event_adds [of _ s r L] r(2) adds_rows
    by (intro fold_adds [where T = ItemTable and r = r]) (auto intro: adds_db_ok)
  from adds_trans [OF 1 this] show ?thesis using False r
    by (simp add: app_events_def app_log_def i split_def concat_map_singleton Let_def)
qed

lemma filter_event_adds:
  assumes ok: "db_ok db" and s: "s \<in> set (SnapshotTable db)"
  shows "adds db (filter_event (SnapshotRowId s) p db) [filter_log (SnapshotStart s) p]"
proof -
  obtain i db1 where i: "item_id (fst p) db = (i, db1)" by force
  have 1: "adds db db1 []" using item_id_grows [OF ok i] ok by (intro grows_adds)
  obtain r where r: "r \<in> set (ItemTable db1)" "ItemRowId r = i" "ItemRowName r = fst p"
    using item_id_grows [OF ok i] by auto
  have s1: "s \<in> set (SnapshotTable db1)" using 1 s by (rule adds_rows(1))
  show ?thesis using adds_trans [OF 1 insert_event_adds [OF adds_db_ok [OF 1] s1 r(1), of None "snd p"]] r
    by (simp add: filter_event_def split_def i filter_log_def)
qed

lemma MakeSnapshot_adds:
  assumes ok: "db_ok db" and M: "MakeSnapshot L t S w db = (S1, w1, db1)"
  shows "adds db db1 (snapshot_log t S)"
proof -
  obtain i dba where a: "insert_snapshot t db = (i, dba)" by force
  obtain s where s: "s \<in> set (SnapshotTable dba)" "SnapshotRowId s = i" "SnapshotStart s = t" using insert_snapshot_grows [OF ok a] by auto
  have 1: "adds db dba []" using insert_snapshot_grows [OF ok a] ok by (intro grows_adds)
  obtain wb dbb where b: "fold (app_events L i) (SnapApps S) (w, dba) = (wb, dbb)" by force
  have 2: "adds dba dbb (concat (map (app_log t) (SnapApps S)))"
    using fold_adds [where T = SnapshotTable and r = s and f = "app_events L i" and g = "app_log t" and xs = "SnapApps S" and w = w and db = dba and s = s]
      app_events_adds [of _ s L] s adds_rows(1) adds_db_ok [OF 1] b by auto
  have "adds dbb (snd (fold (\<lambda>p (u, d). (u, filter_event i p d)) (SnapFilters S) ((), dbb))) (concat (map (\<lambda>p. [filter_log t p]) (SnapFilters S)))"
    using filter_event_adds [of _ s] s adds_rows(1) adds_db_ok [OF 2] adds_rows(1) [OF 2]
    by (intro fold_adds [where T = SnapshotTable and r = s]) auto
  moreover have "snd (fold (\<lambda>p (u, d). (u, filter_event i p d)) xs ((), d)) = fold (filter_event i) xs d" for xs d
    by (induction xs arbitrary: d) auto
  ultimately have 3: "adds dbb (fold (filter_event i) (SnapFilters S) dbb) (map (filter_log t) (SnapFilters S))"
    by (simp add: concat_map_singleton)
  show ?thesis using adds_trans [OF 1 adds_trans [OF 2 3]] M by (simp add: MakeSnapshot_def a b snapshot_log_def)
qed

section \<open>The hourly history of the database\<close>

text \<open>What was reported in an hour, and the time at which the timer writes it.\<close>

definition snapshot_step :: "'w asn_lookup \<Rightarrow> WSec \<times> stat_update list \<Rightarrow> 'w \<times> Db \<Rightarrow> 'w \<times> Db" where
  "snapshot_step L p st =
     (let (t, us) = p; (w, db) = st; (_, w1, db1) = MakeSnapshot L t (collect us) w db in (w1, db1))"

lemma db_ok_init: "db_ok Db_init"
  by (simp add: db_ok_def Db_init_def item_table_ok_def asn_table_ok_def host_table_ok_def snapshot_table_ok_def
      event_table_ok_def history_table_ok_def keys_ok_def)

lemma snapshot_history_adds:
  "db_ok db \<Longrightarrow> adds db (snd (fold (snapshot_step L) hist (w, db))) (concat (map (\<lambda>(t, us). snapshot_log t (collect us)) hist))"
proof (induction hist arbitrary: w db)
  case (Cons p hist)
  obtain t us where p: "p = (t, us)" by force
  obtain S1 w1 db1 where M: "MakeSnapshot L t (collect us) w db = (S1, w1, db1)" by (metis prod_cases3)
  have 1: "adds db db1 (snapshot_log t (collect us))" by (rule MakeSnapshot_adds [OF Cons.prems M])
  from adds_trans [OF 1 Cons.IH [OF adds_db_ok [OF 1], of w1]] show ?case by (simp add: p snapshot_step_def M)
qed (simp add: adds_Nil)

text \<open>
  C14. The tables that the hourly snapshots build are well typed, whatever was reported and whatever the
  address lookups answer: row ids are positive and unique, no item name, host address or autonomous system is stored
  twice, every family satisfies the check constraint of the table, every foreign key refers to a row,
  and every byte count fits its signed 64-bit column.
\<close>

theorem snapshot_tables_well_typed: "db_ok (snd (fold (snapshot_step L) hist (w, Db_init)))"
  by (rule adds_db_ok [OF snapshot_history_adds [OF db_ok_init]])

text \<open>
  C15. The tables refine an append-only log: joining the events of the database with their snapshots, items
  and hosts gives exactly what the snapshots held, in order, with no entry lost, doubled or attributed to
  another time, name or host, and with the 64-bit counts intact after their signed columns.
\<close>

theorem snapshot_tables_refine_log:
  "traffic_log (snd (fold (snapshot_step L) hist (w, Db_init))) = concat (map (\<lambda>(t, us). snapshot_log t (collect us)) hist)"
  using snapshot_history_adds [OF db_ok_init, of L hist w] by (simp add: adds_def traffic_log_def Db_init_def)

text \<open>A host row keeps the autonomous system of its first event: a later snapshot never fills or corrects it.\<close>

lemma host_asn_never_updated:
  assumes "db_ok db" "h \<in> set (HostTable db)" "MakeSnapshot L t S w db = (S1, w1, db1)"
  shows "h \<in> set (HostTable db1)"
  using MakeSnapshot_adds [OF assms(1,3)] assms(2) ext_rows(3) unfolding adds_def by blast

section \<open>What was reported is what is recorded\<close>

lemma sum_update:
  fixes f :: "'k \<Rightarrow> 'v \<Rightarrow> 'a::ab_group_add"
  assumes "um_distinct m"
  shows "(\<Sum>p\<leftarrow>AList.update k v m. f (fst p) (snd p)) =
    (\<Sum>p\<leftarrow>m. f (fst p) (snd p)) - (case map_of m k of None \<Rightarrow> 0 | Some v0 \<Rightarrow> f k v0) + f k v"
  using assms
proof (induction m)
  case (Cons p m)
  then show ?case by (cases p; cases "fst p = k") (auto simp: algebra_simps)
qed simp

lemmas sum_update_value = sum_update [of _ "\<lambda>_. f" for f]

text \<open>The incoming bytes that a log, and the reports, give for the names that satisfy \<open>N\<close>.\<close>

definition logged_in :: "(string \<Rightarrow> bool) \<Rightarrow> log_entry list \<Rightarrow> WBytes" where
  "logged_in N es = (\<Sum>e\<leftarrow>es. if N (LogName e) then LogIn e else 0)"

fun reported_in :: "(string \<Rightarrow> bool) \<Rightarrow> stat_update \<Rightarrow> WBytes" where
  "reported_in N (AppStats _ Path _ In _) = (if N Path then In else 0)"
| "reported_in N (FilterStats F In _) = (if N F then In else 0)"

fun report_ok :: "(WTrafficItemId \<Rightarrow> string) \<Rightarrow> stat_update \<Rightarrow> bool" where
  "report_ok path (AppStats AppId Path _ _ _) \<longleftrightarrow> Path = path AppId \<and> Path \<noteq> []"
| "report_ok path (FilterStats _ _ _) \<longleftrightarrow> True"

definition item_ok :: "(WTrafficItemId \<Rightarrow> string) \<Rightarrow> WTrafficItemId \<times> WItemStats \<Rightarrow> bool" where
  "item_ok path p \<longleftrightarrow> StatsPath (snd p) = path (fst p) \<and> StatsPath (snd p) \<noteq> [] \<and> um_distinct (StatsTraffic (snd p))"

definition snap_ok :: "(WTrafficItemId \<Rightarrow> string) \<Rightarrow> WSnapshot \<Rightarrow> bool" where
  "snap_ok path S \<longleftrightarrow> um_distinct (SnapApps S) \<and> um_distinct (SnapFilters S)
     \<and> (\<forall>p \<in> set (SnapApps S). item_ok path p)"

definition app_in :: "(string \<Rightarrow> bool) \<Rightarrow> WItemStats \<Rightarrow> WBytes" where
  "app_in N A = (if N (StatsPath A) then \<Sum>p\<leftarrow>StatsTraffic A. BytesIn (snd p) else 0)"

definition filter_in :: "(string \<Rightarrow> bool) \<Rightarrow> WSnapshot \<Rightarrow> WBytes" where
  "filter_in N S = (\<Sum>p\<leftarrow>SnapFilters S. if N (fst p) then BytesIn (snd p) else 0)"

lemma in_update: "p \<in> set (AList.update k v m) \<Longrightarrow> p \<in> set m \<or> p = (k, v)"
  by (induction m) (auto split: if_splits)

lemma map_of_in: "map_of m k = Some v \<Longrightarrow> (k, v) \<in> set m"
  by (rule map_of_SomeD)

lemma add_traffic_in: "BytesIn (add_traffic In Out T) = (case T of None \<Rightarrow> 0 | Some t \<Rightarrow> BytesIn t) + In"
  by (simp add: add_traffic_def split: option.split)

lemma apply_stat_snapshot:
  assumes ok: "snap_ok path S" and u: "report_ok path u"
  shows "snap_ok path (apply_stat u S)"
    "(\<Sum>p\<leftarrow>SnapApps (apply_stat u S). app_in N (snd p)) + filter_in N (apply_stat u S) =
     (\<Sum>p\<leftarrow>SnapApps S. app_in N (snd p)) + filter_in N S + reported_in N u"
proof -
  have "snap_ok path (apply_stat u S) \<and>
    (\<Sum>p\<leftarrow>SnapApps (apply_stat u S). app_in N (snd p)) + filter_in N (apply_stat u S) =
     (\<Sum>p\<leftarrow>SnapApps S. app_in N (snd p)) + filter_in N S + reported_in N u"
  proof (cases u)
    case (FilterStats F In Out)
    then show ?thesis using ok by (auto simp: UpdateFilterStats_def snap_ok_def filter_in_def add_traffic_in sum_update [of _ "\<lambda>k v. if N k then BytesIn v else 0"] split: option.split)
  next
    case (AppStats i P h In Out)
    show ?thesis
    proof (cases "In = 0 \<and> Out = 0")
      case False
      define A where "A = (case map_of (SnapApps S) i of
              Some a \<Rightarrow> \<lparr>StatsPath = (if StatsPath a = [] then P else StatsPath a),
                StatsTraffic = AList.update h (add_traffic In Out (map_of (StatsTraffic a) h)) (StatsTraffic a)\<rparr>
            | None \<Rightarrow> \<lparr>StatsPath = P, StatsTraffic = [(h, \<lparr>BytesIn = In, BytesOut = Out\<rparr>)]\<rparr>)"
      have S: "apply_stat u S = S\<lparr>SnapApps := AList.update i A (SnapApps S)\<rparr>"
        using False AppStats by (auto simp: UpdateAppStats_def A_def)
      have P: "P = path i" "P \<noteq> []" using u AppStats by auto
      have old: "StatsPath a = P \<and> um_distinct (StatsTraffic a)" if "map_of (SnapApps S) i = Some a" for a
        using ok map_of_in [OF that] P by (force simp: snap_ok_def item_ok_def)
      have A: "StatsPath A = P" "um_distinct (StatsTraffic A)"
        using old P(2) by (auto simp: A_def split: option.split)
      have new: "app_in N A = (case map_of (SnapApps S) i of None \<Rightarrow> 0 | Some a \<Rightarrow> app_in N a) + reported_in N u"
        using old P(2) by (auto simp: A_def AppStats app_in_def sum_update_value add_traffic_in split: option.split)
      have "um_distinct (SnapApps S)" using ok by (simp add: snap_ok_def)
      then have "(\<Sum>p\<leftarrow>SnapApps (apply_stat u S). app_in N (snd p)) = (\<Sum>p\<leftarrow>SnapApps S. app_in N (snd p)) + reported_in N u"
        by (simp add: S sum_update_value new)
      moreover have "snap_ok path (apply_stat u S)" using ok A P by (auto simp: S snap_ok_def item_ok_def dest!: in_update)
      moreover have "filter_in N (apply_stat u S) = filter_in N S" by (simp add: S filter_in_def)
      ultimately show ?thesis by (simp add: algebra_simps)
    qed (use ok AppStats in \<open>simp add: UpdateAppStats_def\<close>)
  qed
  then show "snap_ok path (apply_stat u S)"
    "(\<Sum>p\<leftarrow>SnapApps (apply_stat u S). app_in N (snd p)) + filter_in N (apply_stat u S) =
     (\<Sum>p\<leftarrow>SnapApps S. app_in N (snd p)) + filter_in N S + reported_in N u" by auto
qed

lemma collect_snapshot:
  assumes "\<forall>u \<in> set us. report_ok path u"
  shows "snap_ok path (collect us)"
    "(\<Sum>p\<leftarrow>SnapApps (collect us). app_in N (snd p)) + filter_in N (collect us) = (\<Sum>u\<leftarrow>us. reported_in N u)"
proof -
  have "snap_ok path (fold apply_stat us S) \<and>
     (\<Sum>p\<leftarrow>SnapApps (fold apply_stat us S). app_in N (snd p)) + filter_in N (fold apply_stat us S) =
       (\<Sum>p\<leftarrow>SnapApps S. app_in N (snd p)) + filter_in N S + (\<Sum>u\<leftarrow>us. reported_in N u)"
    if "snap_ok path S" for S
    using assms that by (induction us arbitrary: S) (simp_all add: apply_stat_snapshot add.assoc)
  moreover have "snap_ok path WSnapshot_init" "(\<Sum>p\<leftarrow>SnapApps WSnapshot_init. app_in N (snd p)) + filter_in N WSnapshot_init = 0"
    by (simp_all add: WSnapshot_init_def snap_ok_def filter_in_def)
  ultimately show "snap_ok path (collect us)"
    "(\<Sum>p\<leftarrow>SnapApps (collect us). app_in N (snd p)) + filter_in N (collect us) = (\<Sum>u\<leftarrow>us. reported_in N u)"
    unfolding collect_def by (metis, metis add_0)
qed

lemma logged_append: "logged_in N (xs @ ys) = logged_in N xs + logged_in N ys"
  by (simp add: logged_in_def)

lemma logged_concat: "logged_in N (concat (map f xs)) = (\<Sum>x\<leftarrow>xs. logged_in N (f x))"
  by (induction xs) (simp_all add: logged_append, simp add: logged_in_def)

lemma logged_app: "StatsPath (snd p) \<noteq> [] \<Longrightarrow> logged_in N (app_log t p) = app_in N (snd p)"
  by (simp add: logged_in_def app_log_def app_in_def Let_def split_def o_def)

lemma logged_filters: "logged_in N (map (filter_log t) (SnapFilters S)) = filter_in N S"
  by (simp add: logged_in_def filter_log_def filter_in_def o_def cong: if_cong)

lemma logged_snapshot:
  assumes "\<forall>u \<in> set us. report_ok path u"
  shows "logged_in N (snapshot_log t (collect us)) = (\<Sum>u\<leftarrow>us. reported_in N u)"
proof -
  have "logged_in N (app_log t p) = app_in N (snd p)" if "p \<in> set (SnapApps (collect us))" for p
    using collect_snapshot(1) [OF assms] that by (intro logged_app) (auto simp: snap_ok_def item_ok_def)
  then have "(\<Sum>p\<leftarrow>SnapApps (collect us). logged_in N (app_log t p)) = (\<Sum>p\<leftarrow>SnapApps (collect us). app_in N (snd p))"
    by (intro arg_cong [of _ _ sum_list] map_cong) auto
  then show ?thesis using collect_snapshot [OF assms]
    by (simp add: snapshot_log_def logged_append logged_concat logged_filters)
qed

end
