(* ===== verification/Number_Format.thy ===== *)
theory Number_Format
  imports Socket_State
begin

text \<open>
  Numbers as text: \<^verbatim>\<open>std::stoul\<close>, \<^verbatim>\<open>std::stoi\<close> and \<^verbatim>\<open>std::to_string\<close> in base 10 as the code calls them, and
  \<^verbatim>\<open>WStringFormat::ParseInt\<close> of \<^verbatim>\<open>Util/Format.hpp\<close>. \<open>None\<close> is a thrown exception.
\<close>

definition stoul10 :: "string \<Rightarrow> u64 option" where
  "stoul10 s =
     (let s1 = dropWhile is_space s in
      case s1 of
        [] \<Rightarrow> None
      | c # cs \<Rightarrow>
          if is_space (if cs = [] then CHR ''0'' else hd cs) \<and> (c = CHR ''-'' \<or> c = CHR ''+'') then None
          else if c = CHR ''-'' then map_option (\<lambda>n. - of_nat n) (fst (get_num 10 64 cs))
          else if c = CHR ''+'' then map_option of_nat (fst (get_num 10 64 cs))
          else map_option of_nat (fst (get_num 10 64 s1)))"

text \<open>\<^verbatim>\<open>WStringFormat::ParseInt\<close>: cut to 32 bits; 0 when \<^verbatim>\<open>stoul\<close> throws.\<close>

definition ParseInt :: "string \<Rightarrow> u32" where
  "ParseInt s = (case stoul10 s of None \<Rightarrow> 0 | Some n \<Rightarrow> ucast n)"

definition sign_and_rest :: "string \<Rightarrow> bool \<times> string" where
  "sign_and_rest s =
     (case s of [] \<Rightarrow> (False, [])
      | c # cs \<Rightarrow> if c = CHR ''-'' then (True, cs) else if c = CHR ''+'' then (False, cs) else (False, s))"

definition stoi10 :: "string \<Rightarrow> int option" where
  "stoi10 s =
     (let (neg, cs) = sign_and_rest (dropWhile is_space s); ds = takeWhile (is_digit 10) cs;
          v = (if neg then - int (digits_value 10 ds) else int (digits_value 10 ds))
      in if ds = [] \<or> v < - (2 ^ 31) \<or> v \<ge> 2 ^ 31 then None else Some v)"

fun decimal_digit :: "nat \<Rightarrow> char" where
  "decimal_digit n = ''0123456789'' ! n"

function to_string :: "nat \<Rightarrow> string" where
  "to_string n = (if n < 10 then [decimal_digit n] else to_string (n div 10) @ [decimal_digit (n mod 10)])"
  by pat_completeness auto
termination
  by (relation "measure id") auto

declare to_string.simps [simp del] decimal_digit.simps [simp del]

section \<open>Reading back what was printed\<close>

lemma digit_cases: "n < 10 \<Longrightarrow> n = 0 \<or> n = 1 \<or> n = 2 \<or> n = 3 \<or> n = 4 \<or> n = 5 \<or> n = 6 \<or> n = 7 \<or> n = 8 \<or> n = (9 :: nat)"
  by presburger

lemma digit_decimal: "n < 10 \<Longrightarrow> digit (decimal_digit n) = Some n"
  by (drule digit_cases) (auto simp: decimal_digit.simps digit_def)

lemma decimal_is_digit: "n < 10 \<Longrightarrow> is_digit 10 (decimal_digit n)"
  by (simp add: is_digit_def digit_decimal)

lemma to_string_digits: "c \<in> set (to_string n) \<Longrightarrow> is_digit 10 c"
proof (induction n rule: to_string.induct)
  case (1 n)
  then show ?case by (subst (asm) (2) to_string.simps) (auto simp: decimal_is_digit split: if_splits)
qed

lemma to_string_nonempty [simp]: "to_string n \<noteq> []"
  by (subst to_string.simps) simp

lemma digits_value_append: "digits_value 10 (s @ [c]) = digits_value 10 s * 10 + (case digit c of None \<Rightarrow> 0 | Some d \<Rightarrow> d)"
  by (simp add: digits_value_def)

lemma digits_value_to_string: "digits_value 10 (to_string n) = n"
proof (induction n rule: to_string.induct)
  case (1 n)
  show ?case
  proof (cases "n < 10")
    case True
    then show ?thesis by (subst to_string.simps) (simp add: digits_value_def digit_decimal)
  next
    case False
    then show ?thesis using 1 by (subst to_string.simps) (simp add: digits_value_append digit_decimal)
  qed
qed

lemma digit_char: "is_digit 10 c \<Longrightarrow> \<not> is_space c \<and> c \<noteq> CHR ''-'' \<and> c \<noteq> CHR ''+'' \<and> c \<noteq> CHR '';''"
  by (auto simp: is_digit_def digit_def split: if_splits)

lemma to_string_Cons: obtains c cs where "to_string n = c # cs" "is_digit 10 c"
  using to_string_nonempty [of n] to_string_digits [of _ n] by (cases "to_string n") auto

lemma dropWhile_to_string: "dropWhile is_space (to_string n) = to_string n"
  by (rule to_string_Cons [of n]) (auto dest: digit_char)

lemma takeWhile_to_string: "takeWhile (is_digit 10) (to_string n) = to_string n"
  using to_string_digits by (simp add: takeWhile_eq_all_conv)

lemma sign_to_string: "sign_and_rest (to_string n) = (False, to_string n)"
  by (rule to_string_Cons [of n]) (auto simp: sign_and_rest_def dest: digit_char)

lemma stoi10_to_string: "n < 2 ^ 31 \<Longrightarrow> stoi10 (to_string n) = Some (int n)"
  unfolding stoi10_def dropWhile_to_string sign_to_string Let_def prod.case takeWhile_to_string digits_value_to_string by simp

lemma stoul10_to_string: "n < 2 ^ 64 \<Longrightarrow> stoul10 (to_string n) = Some (of_nat n)"
proof -
  assume n: "n < 2 ^ 64"
  obtain c cs where c: "to_string n = c # cs" "is_digit 10 c" by (rule to_string_Cons)
  have num: "fst (get_num 10 64 (to_string n)) = Some n"
    using n unfolding get_num_def Let_def dropWhile_to_string takeWhile_to_string digits_value_to_string by simp
  show ?thesis using digit_char [OF c(2)] num dropWhile_to_string [of n] unfolding stoul10_def c(1) by simp
qed

end
