(* ===== verification/Stats_Requests.thy ===== *)
theory Stats_Requests
  imports Statistics Number_Format "HOL-Library.Signed_Division"
begin

text \<open>
  \<^verbatim>\<open>Daemon/Db/StatsManager.cpp\<close>, the requests of the clients: \<^verbatim>\<open>ProcessStatsRequest\<close> sums the events of a time
  range into buckets of an hour, a day or a month, \<^verbatim>\<open>ProcessHistoryRequest\<close> pages through the recorded
  connections, and \<^verbatim>\<open>RequestThreadFunction\<close> serves the queue. A query is a comprehension over the tables (the
  order in which SQLite returns the rows of a query without \<^verbatim>\<open>ORDER BY\<close> is taken to be the order of
  the tables; only \<^verbatim>\<open>ProcessHistoryRequest\<close> depends on it). Times are integers: the overflow of \<^verbatim>\<open>int64_t\<close> in a request
  with absurd times is undefined behaviour of the code and not in the model.
\<close>

section \<open>Time buckets\<close>

datatype bucket_size = Hour | Day | Month

definition bucket_size_for :: "WSec \<Rightarrow> bucket_size" where
  "bucket_size_for Duration = (if Duration > 31 * 86400 then Month else if Duration \<le> 24 * 3600 then Hour else Day)"

fun BucketSecs :: "bucket_size \<Rightarrow> WSec" where
  "BucketSecs Hour = 3600"
| "BucketSecs Day = 86400"
| "BucketSecs Month = 0"

definition GetBucketStart :: "bucket_size \<Rightarrow> WSec \<Rightarrow> WSec" where
  "GetBucketStart b T =
     (if b = Month then timegm ((gmtime T)\<lparr>tm_mday := 1, tm_hour := 0, tm_min := 0, tm_sec := 0\<rparr>)
      else T sdiv BucketSecs b * BucketSecs b)"

definition NextBucket :: "bucket_size \<Rightarrow> WSec \<Rightarrow> WSec" where
  "NextBucket b T =
     (if b = Month then
        (let t = gmtime T; m = tm_mon t + 1
         in timegm (if m > 11 then t\<lparr>tm_mon := 0, tm_year := tm_year t + 1\<rparr> else t\<lparr>tm_mon := m\<rparr>))
      else T + BucketSecs b)"

lemma month_bucket_start: "GetBucketStart Month T = 86400 * month_start (month_index T)"
  by (simp add: GetBucketStart_def timegm_def month_index_def)

lemma month_bucket_next: "NextBucket Month T = T + 86400 * (month_start (month_index T + 1) - month_start (month_index T))"
proof -
  have k: "12 * (tm_year (gmtime T) + 1901) = month_index T + 1" if "11 < tm_mon (gmtime T) + 1"
    using that gmtime_day(3) [of T] by (simp add: month_index_def)
  have "timegm (gmtime T) = T" by (rule timegm_gmtime)
  then have T: "86400 * (month_start (month_index T) + tm_mday (gmtime T) - 1) + 3600 * tm_hour (gmtime T) + 60 * tm_min (gmtime T) + tm_sec (gmtime T) = T"
    by (simp add: timegm_def month_index_def)
  have "NextBucket Month T = 86400 * (month_start (month_index T + 1) + tm_mday (gmtime T) - 1) + 3600 * tm_hour (gmtime T)
      + 60 * tm_min (gmtime T) + tm_sec (gmtime T)"
  proof (cases "11 < tm_mon (gmtime T) + 1")
    case True
    then show ?thesis by (simp add: NextBucket_def timegm_def Let_def flip: k) (simp add: algebra_simps)
  next
    case False
    then show ?thesis by (simp add: NextBucket_def timegm_def Let_def) (simp add: month_index_def algebra_simps)
  qed
  then show ?thesis using T by (simp add: algebra_simps)
qed

lemma NextBucket_increases: "T < NextBucket b T"
  using month_start_step [of "month_index T"] by (cases b) (simp_all add: month_bucket_next, simp_all add: NextBucket_def)

text \<open>
  What the buckets rely on: from the epoch on, every time belongs to the bucket that starts at its floor and ends where the
  next one starts.
\<close>

locale bucketing =
  fixes start next_start :: "WSec \<Rightarrow> WSec"
  assumes start_le: "0 \<le> T \<Longrightarrow> 0 \<le> start T \<and> start T \<le> T"
    and start_next: "0 \<le> T \<Longrightarrow> start T = T \<Longrightarrow> start (next_start T) = next_start T"
    and increases: "T < next_start T"
    and same_bucket: "0 \<le> T \<Longrightarrow> start T = T \<Longrightarrow> T \<le> U \<Longrightarrow> U < next_start T \<Longrightarrow> start U = T"
    and idem: "0 \<le> T \<Longrightarrow> start (start T) = start T"
    and below_next: "0 \<le> T \<Longrightarrow> T < next_start (start T)"
begin

lemma starts_from:
  assumes "0 \<le> T" "start T = T" "T < E"
  shows "start ` {T..<E} = insert T (start ` {next_start T..<E})"
proof -
  have "start U \<in> insert T (start ` {next_start T..<E})" if "U \<in> {T..<E}" for U
    using that same_bucket [OF assms(1,2)] by (cases "U < next_start T") auto
  then have "start ` {T..<E} \<subseteq> insert T (start ` {next_start T..<E})" by (rule image_subsetI)
  moreover have "T \<in> start ` {T..<E}" using assms by (intro image_eqI [of _ _ T]) auto
  moreover have "start ` {next_start T..<E} \<subseteq> start ` {T..<E}" using increases [of T] by (intro image_mono) auto
  ultimately show ?thesis by auto
qed

lemma starts_of_range:
  assumes "0 \<le> T"
  shows "start ` {start T..<E} = start ` {T..<E} \<union> (if start T < E then {start T} else {})"
proof -
  have "start U = start T" if "start T \<le> U" "U < T" for U
    using that same_bucket [of "start T" U] start_le [OF assms] idem [OF assms] below_next [OF assms] by auto
  then have "start U \<in> start ` {T..<E} \<union> {start T}" if "U \<in> {start T..<E}" for U
    using that by (cases "U < T") auto
  then have "start ` {start T..<E} \<subseteq> start ` {T..<E} \<union> {start T}" by (rule image_subsetI)
  moreover have "start T \<in> start ` {start T..<E}" if "start T < E" using that idem [OF assms] by (intro image_eqI [of _ _ "start T"]) auto
  moreover have "start ` {T..<E} \<subseteq> start ` {start T..<E}" using start_le [OF assms] by (intro image_mono) auto
  moreover have "start ` {start T..<E} = {}" if "\<not> start T < E" using that by simp
  ultimately show ?thesis by (cases "start T < E") auto
qed

end

lemma fixed_bucketing:
  fixes B :: int
  assumes "0 < B"
  shows "bucketing (\<lambda>T. T sdiv B * B) (\<lambda>T. T + B)"
proof -
  have floor: "T sdiv B * B = T div B * B" if "0 \<le> T" for T using that assms by (cases "T = 0") (simp_all add: signed_divide_int_def)
  have b: "T div B * B \<le> T" "T < T div B * B + B" for T
    using assms mult_div_mod_eq [of B T] pos_mod_bound [of B T] pos_mod_sign [of B T]
    unfolding mult.commute [of "T div B" B] by linarith+
  have nn: "0 \<le> T div B * B" if "0 \<le> T" for T using that assms by (simp add: pos_imp_zdiv_nonneg_iff)
  have eq: "U div B * B = T" if "T div B * B = T" "T \<le> U" "U < T + B" for T U
  proof -
    have "U = B * (T div B) + (U - T)" using that(1) by (simp add: mult.commute)
    moreover have "0 \<le> U - T" "U - T < B" using that(2,3) by linarith+
    ultimately have "U div B = T div B" by (rule int_div_pos_eq)
    then show ?thesis using that(1) by simp
  qed
  show ?thesis
  proof
    fix T U :: int
    assume T: "0 \<le> T"
    show "0 \<le> T sdiv B * B \<and> T sdiv B * B \<le> T" using floor [OF T] b [of T] nn [OF T] by simp
    show "T sdiv B * B sdiv B * B = T sdiv B * B" using floor [OF T] floor [OF nn [OF T]] assms by simp
    show "T < T sdiv B * B + B" using floor [OF T] b [of T] by simp
    assume e: "T sdiv B * B = T"
    show "(T + B) sdiv B * B = T + B" using e floor [of "T + B"] floor [OF T] T assms by (simp add: algebra_simps)
    assume "T \<le> U" "U < T + B"
    then show "U sdiv B * B = T" using eq [of T U] floor [of U] floor [OF T] e T by simp
  next
    show "T < T + B" for T using assms by simp
  qed
qed

lemma month_bucketing: "bucketing (GetBucketStart Month) (NextBucket Month)"
proof -
  have mi: "month_index (86400 * month_start k) = k" for k using month_start_step [of k] by (intro month_index_unique) auto
  have m0: "month_index 0 = 12 * 1970" by (rule month_index_unique) (simp_all add: month_start_def year_days_def month_days_def)
  have s0: "month_start (12 * 1970) = 0" by (simp add: month_start_def year_days_def)
  have pos: "0 \<le> month_start (month_index T)" if "0 \<le> T" for T
  proof (rule ccontr)
    assume "\<not> ?thesis"
    then have "month_index T < 12 * 1970" using s0 month_start_less [of "12 * 1970" "month_index T"]
      by (cases rule: linorder_cases [of "month_index T" "12 * 1970"]) auto
    then have "month_start (month_index T + 1) \<le> 0" using s0 month_start_less [of "month_index T + 1" "12 * 1970"]
      by (cases "month_index T + 1 = 12 * 1970") auto
    then show False using month_bounds(2) [of T] that by linarith
  qed
  have nxt: "NextBucket Month (86400 * month_start k) = 86400 * month_start (k + 1)" for k
    by (simp add: month_bucket_next mi right_diff_distrib)
  show ?thesis
  proof
    fix T U :: int
    show "T < NextBucket Month T" by (rule NextBucket_increases)
    assume T: "0 \<le> T"
    show "0 \<le> GetBucketStart Month T \<and> GetBucketStart Month T \<le> T" using pos [OF T] month_bounds(1) [of T] by (simp add: month_bucket_start)
    show "GetBucketStart Month (GetBucketStart Month T) = GetBucketStart Month T" by (simp add: month_bucket_start mi)
    show "T < NextBucket Month (GetBucketStart Month T)" using month_bounds(2) [of T] by (simp add: month_bucket_start nxt)
    assume "GetBucketStart Month T = T"
    then obtain k where k: "T = 86400 * month_start k" by (metis month_bucket_start)
    show "GetBucketStart Month (NextBucket Month T) = NextBucket Month T" by (simp add: k nxt month_bucket_start mi)
    assume "T \<le> U" "U < NextBucket Month T"
    then have "month_index U = k" unfolding k nxt by (rule month_index_unique)
    then show "GetBucketStart Month U = T" by (simp add: month_bucket_start k)
  qed
qed

lemma bucketing_all: "bucketing (GetBucketStart b) (NextBucket b)"
proof (cases b)
  case Hour
  have "GetBucketStart Hour = (\<lambda>T. T sdiv 3600 * 3600)" "NextBucket Hour = (\<lambda>T. T + 3600)"
    by (simp_all add: GetBucketStart_def NextBucket_def fun_eq_iff)
  then show ?thesis using fixed_bucketing [of 3600] Hour by simp
next
  case Day
  have "GetBucketStart Day = (\<lambda>T. T sdiv 86400 * 86400)" "NextBucket Day = (\<lambda>T. T + 86400)"
    by (simp_all add: GetBucketStart_def NextBucket_def fun_eq_iff)
  then show ?thesis using fixed_bucketing [of 86400] Day by simp
qed (simp add: month_bucketing)

interpretation bk: bucketing "GetBucketStart b" "NextBucket b" for b
  by (rule bucketing_all)

section \<open>Traffic over time\<close>

record WStatsRequest =
  StatsRequestId :: u32
  StartTime :: WSec
  EndTime :: WSec
  Target :: string

record WStatData =
  StatIn :: WBytes
  StatOut :: WBytes
  StatTimestamp :: WSec

record WStatsResponse =
  DataPoints :: "WStatData list"
  StatsResponseId :: u32

text \<open>The buckets are filled with zeros, each from the one before it; \<open>NextBucket\<close> increases, so the loop ends.\<close>

function fill_buckets :: "bucket_size \<Rightarrow> WSec \<Rightarrow> WSec \<Rightarrow> (WSec, WStatData) umap \<Rightarrow> (WSec, WStatData) umap" where
  "fill_buckets b End T M =
     (if T < End then fill_buckets b End (NextBucket b T) (AList.update T \<lparr>StatIn = 0, StatOut = 0, StatTimestamp = T\<rparr> M) else M)"
  by auto
termination
  by (relation "measure (\<lambda>(b, End, T, M). nat (End - T))") (auto simp: less_diff_conv NextBucket_increases)

declare fill_buckets.simps [simp del]

text \<open>A row of a query: the time of its snapshot and the counts, read back from the signed columns.\<close>

type_synonym stats_row = "WSec \<times> WBytes \<times> WBytes"

definition Accumulate :: "bucket_size \<Rightarrow> stats_row \<Rightarrow> (WSec, WStatData) umap \<Rightarrow> (WSec, WStatData) umap" where
  "Accumulate b row M =
     (let (SnapshotTime, In, Out) = row; Key = GetBucketStart b (max 0 (SnapshotTime - 1)) in
      case map_of M Key of None \<Rightarrow> M
      | Some d \<Rightarrow> AList.update Key (d\<lparr>StatIn := StatIn d + In, StatOut := StatOut d + Out\<rparr>) M)"

datatype ETargetType = TargetSystem | TargetItem | TargetAsn | TargetCountry | TargetOrganization | TargetHost

definition target_type :: "string \<Rightarrow> ETargetType" where
  "target_type t =
     (if t = ''system'' then TargetSystem
      else if t \<noteq> [] \<and> hd t = CHR ''/'' then TargetItem
      else if t = ''LAN'' \<or> t = ''Internet'' \<or> t = ''Localhost'' then TargetItem
      else if StartsWith t ''asn:'' then TargetAsn
      else if StartsWith t ''country:'' then TargetCountry
      else if StartsWith t ''org:'' then TargetOrganization
      else TargetHost)"

abbreviation stats_row_of :: "snapshot_row \<Rightarrow> event_row \<Rightarrow> stats_row" where
  "stats_row_of s e \<equiv> (SnapshotStart s, word_of_int (EventIn e), word_of_int (EventOut e))"

abbreviation in_window :: "WStatsRequest \<Rightarrow> snapshot_row \<Rightarrow> bool" where
  "in_window R s \<equiv> StartTime R < SnapshotStart s \<and> SnapshotStart s \<le> EndTime R"

text \<open>The events of the window, joined with their snapshot, and the further joins of each kind of target.\<close>

definition window_events :: "Db \<Rightarrow> WStatsRequest \<Rightarrow> (snapshot_row \<times> event_row) list" where
  "window_events db R = [(s, e). e \<leftarrow> EventTable db, s \<leftarrow> SnapshotTable db, EventSnapshot e = SnapshotRowId s \<and> in_window R s]"

definition item_rows :: "Db \<Rightarrow> WStatsRequest \<Rightarrow> stats_row list" where
  "item_rows db R = [stats_row_of s e. (s, e) \<leftarrow> window_events db R, i \<leftarrow> ItemTable db,
     EventItem e = ItemRowId i \<and> ItemRowName i = Target R]"

definition asn_rows :: "(asn_entry \<Rightarrow> bool) \<Rightarrow> Db \<Rightarrow> WStatsRequest \<Rightarrow> stats_row list" where
  "asn_rows P db R = [stats_row_of s e. (s, e) \<leftarrow> window_events db R, h \<leftarrow> HostTable db, EventHost e = Some (HostRowId h),
     a \<leftarrow> AsnTable db, HostAsn h = Some (AsnRowId a) \<and> P a]"

definition host_rows :: "u8 list \<Rightarrow> Db \<Rightarrow> WStatsRequest \<Rightarrow> stats_row list" where
  "host_rows addr db R = [stats_row_of s e. (s, e) \<leftarrow> window_events db R, h \<leftarrow> HostTable db,
     EventHost e = Some (HostRowId h) \<and> HostAddress h = addr]"

text \<open>The rows that answer a request; \<open>None\<close> is \<^verbatim>\<open>bFailed\<close>. The C library's \<^verbatim>\<open>inet_pton\<close> is a parameter.\<close>

definition target_rows :: "(string \<Rightarrow> u8 list option) \<Rightarrow> (string \<Rightarrow> u8 list option) \<Rightarrow> Db \<Rightarrow> WStatsRequest \<Rightarrow> stats_row list option" where
  "target_rows pton4 pton6 db R =
     (case target_type (Target R) of
        TargetSystem \<Rightarrow> Some (map (\<lambda>(s, e). stats_row_of s e) (window_events db R))
      | TargetItem \<Rightarrow> Some (item_rows db R)
      | TargetCountry \<Rightarrow> Some (asn_rows (\<lambda>a. AsnCountry a = drop 8 (Target R)) db R)
      | TargetOrganization \<Rightarrow> Some (asn_rows (\<lambda>a. AsnOrganization a = drop 4 (Target R)) db R)
      | TargetAsn \<Rightarrow> (let n = ParseInt (drop 4 (Target R)) in if n = 0 then None else Some (asn_rows (\<lambda>a. AsnNumber a = n) db R))
      | TargetHost \<Rightarrow> map_option (\<lambda>ip. host_rows (GetBytes ip) db R) (FromString pton4 pton6 (Target R)))"

datatype reply = EmptyReply | StatsReply WStatsResponse

definition stats_buckets :: "WStatsRequest \<Rightarrow> stats_row list \<Rightarrow> (WSec, WStatData) umap" where
  "stats_buckets R rows =
     (let b = bucket_size_for (EndTime R - StartTime R)
      in fold (Accumulate b) rows (fill_buckets b (EndTime R) (GetBucketStart b (StartTime R)) []))"

definition ProcessStatsRequest :: "(string \<Rightarrow> u8 list option) \<Rightarrow> (string \<Rightarrow> u8 list option) \<Rightarrow> Db \<Rightarrow> WStatsRequest \<Rightarrow> reply" where
  "ProcessStatsRequest pton4 pton6 db R =
     (case target_rows pton4 pton6 db R of
        None \<Rightarrow> EmptyReply
      | Some rows \<Rightarrow> StatsReply \<lparr>DataPoints = map snd (sort_key fst (stats_buckets R rows)), StatsResponseId = StatsRequestId R\<rparr>)"

section \<open>Every event of the window is counted once\<close>

abbreviation total :: "(WStatData \<Rightarrow> WBytes) \<Rightarrow> (WSec, WStatData) umap \<Rightarrow> WBytes" where
  "total f M \<equiv> \<Sum>p\<leftarrow>M. f (snd p)"

lemma total_update:
  assumes "distinct (map fst M)" "map_of M k = Some d"
  shows "total f (AList.update k d1 M) = total f M - f d + f d1"
  using assms by (simp add: sum_update_value)

lemma keys_Accumulate [simp]: "map fst (Accumulate b row M) = map fst M"
proof -
  have "map fst (AList.update k d M) = map fst M" if "map_of M k = Some d0" for k d d0
    using that by (induction M) (auto split: if_splits)
  then show ?thesis by (auto simp: Accumulate_def Let_def split: option.splits prod.splits)
qed

lemma total_Accumulate:
  assumes "distinct (map fst M)" "GetBucketStart b (max 0 (fst row - 1)) \<in> um_keys M"
  shows "total StatIn (Accumulate b row M) = total StatIn M + fst (snd row)"
    "total StatOut (Accumulate b row M) = total StatOut M + snd (snd row)"
proof -
  obtain t i o1 where row: "row = (t, i, o1)" by (metis prod_cases3)
  obtain d where d: "map_of M (GetBucketStart b (max 0 (t - 1))) = Some d"
    using assms(2) row by (metis fst_conv map_of_None_um_keys not_Some_eq)
  show "total StatIn (Accumulate b row M) = total StatIn M + fst (snd row)"
    "total StatOut (Accumulate b row M) = total StatOut M + snd (snd row)"
    using total_update [OF assms(1) d] by (simp_all add: Accumulate_def row Let_def d)
qed

lemma um_keys_Accumulate [simp]: "um_keys (Accumulate b row M) = um_keys M"
  unfolding um_keys_def list.set_map [symmetric] by simp

lemma total_fold:
  assumes "distinct (map fst M)" "\<And>row. row \<in> set rows \<Longrightarrow> GetBucketStart b (max 0 (fst row - 1)) \<in> um_keys M"
  shows "total StatIn (fold (Accumulate b) rows M) = total StatIn M + (\<Sum>row\<leftarrow>rows. fst (snd row))"
    "total StatOut (fold (Accumulate b) rows M) = total StatOut M + (\<Sum>row\<leftarrow>rows. snd (snd row))"
    "map fst (fold (Accumulate b) rows M) = map fst M"
  using assms by (induction rows arbitrary: M) (simp_all add: total_Accumulate)

text \<open>The buckets that are filled in.\<close>

lemma fill_buckets_spec:
  assumes "0 \<le> T" "GetBucketStart b T = T"
  shows "um_keys (fill_buckets b End T M) = um_keys M \<union> GetBucketStart b ` {T..<End}"
  using assms
proof (induction b End T M rule: fill_buckets.induct)
  case (1 b End T M)
  show ?case
  proof (cases "T < End")
    case True
    have "um_keys (fill_buckets b End (NextBucket b T) (AList.update T \<lparr>StatIn = 0, StatOut = 0, StatTimestamp = T\<rparr> M)) =
        um_keys (AList.update T \<lparr>StatIn = 0, StatOut = 0, StatTimestamp = T\<rparr> M) \<union> GetBucketStart b ` {NextBucket b T..<End}"
      using 1 True bk.start_next [of T b] NextBucket_increases [of T b] by (intro "1.IH") auto
    then show ?thesis using True bk.starts_from [of T b End] "1.prems"
      by (subst fill_buckets.simps) auto
  qed (subst fill_buckets.simps, simp)
qed

definition zeroed :: "(WSec, WStatData) umap \<Rightarrow> bool" where
  "zeroed M \<longleftrightarrow> (\<forall>(k, d) \<in> set M. d = \<lparr>StatIn = 0, StatOut = 0, StatTimestamp = k\<rparr>)"

lemma update_fresh: "k \<notin> um_keys M \<Longrightarrow> AList.update k d M = M @ [(k, d)]"
  by (induction M) (auto simp: um_keys_def)

lemma fill_buckets_sorted:
  assumes "sorted_wrt (<) (map fst M)" "\<And>k. k \<in> um_keys M \<Longrightarrow> k < T" "zeroed M"
  shows "sorted_wrt (<) (map fst (fill_buckets b End T M)) \<and> zeroed (fill_buckets b End T M)"
  using assms
proof (induction b End T M rule: fill_buckets.induct)
  case (1 b End T M)
  show ?case
  proof (cases "T < End")
    case True
    have fresh: "T \<notin> um_keys M" using "1.prems"(2) by blast
    have "sorted_wrt (<) (map fst (M @ [(T, \<lparr>StatIn = 0, StatOut = 0, StatTimestamp = T\<rparr>)]))"
      "zeroed (M @ [(T, \<lparr>StatIn = 0, StatOut = 0, StatTimestamp = T\<rparr>)])"
      using "1.prems" by (auto simp: sorted_wrt_append um_keys_def zeroed_def)
    moreover have "k < NextBucket b T" if "k \<in> um_keys (M @ [(T, \<lparr>StatIn = 0, StatOut = 0, StatTimestamp = T\<rparr>)])" for k
      using that "1.prems"(2) [of k] NextBucket_increases [of T b] by auto
    ultimately show ?thesis using "1.IH" [OF True] True update_fresh [OF fresh] by (subst (1 2) fill_buckets.simps) simp
  qed (subst (1 2) fill_buckets.simps, use "1.prems" in simp)
qed

lemma zeroed_total: "zeroed M \<Longrightarrow> total StatIn M = 0 \<and> total StatOut M = 0"
  by (induction M) (auto simp: zeroed_def)

lemma zeroed_Nil [simp]: "zeroed []"
  by (simp add: zeroed_def)

lemma stats_buckets_spec:
  assumes "0 \<le> StartTime R" "\<And>row. row \<in> set rows \<Longrightarrow> StartTime R < fst row \<and> fst row \<le> EndTime R"
  shows "total StatIn (stats_buckets R rows) = (\<Sum>row\<leftarrow>rows. fst (snd row))"
    "total StatOut (stats_buckets R rows) = (\<Sum>row\<leftarrow>rows. snd (snd row))"
    "sorted_wrt (<) (map fst (stats_buckets R rows))"
    "um_keys (stats_buckets R rows) = GetBucketStart (bucket_size_for (EndTime R - StartTime R))
        ` {GetBucketStart (bucket_size_for (EndTime R - StartTime R)) (StartTime R)..<EndTime R}"
proof -
  define b where "b = bucket_size_for (EndTime R - StartTime R)"
  define M where "M = fill_buckets b (EndTime R) (GetBucketStart b (StartTime R)) []"
  have keys: "um_keys M = GetBucketStart b ` {GetBucketStart b (StartTime R)..<EndTime R}"
    using assms(1) bk.start_le [of "StartTime R" b] bk.idem [of "StartTime R" b] by (simp add: M_def fill_buckets_spec)
  have M: "sorted_wrt (<) (map fst M)" "zeroed M" using fill_buckets_sorted [of "[]"] by (simp_all add: M_def)
  then have dist: "distinct (map fst M)" using strict_sorted_iff [of "map fst M"] by blast
  have "GetBucketStart b (max 0 (fst row - 1)) \<in> um_keys M" if "row \<in> set rows" for row
  proof -
    have "fst row - 1 \<in> {GetBucketStart b (StartTime R)..<EndTime R}"
      using assms(1) assms(2) [OF that] bk.start_le [of "StartTime R" b] by auto
    moreover have "max 0 (fst row - 1) = fst row - 1" using assms(1) assms(2) [OF that] by auto
    ultimately show ?thesis by (simp add: keys)
  qed
  note t = total_fold [of M rows b, OF dist this]
  have s: "stats_buckets R rows = fold (Accumulate b) rows M" by (simp add: stats_buckets_def M_def b_def Let_def)
  show "total StatIn (stats_buckets R rows) = (\<Sum>row\<leftarrow>rows. fst (snd row))"
    "total StatOut (stats_buckets R rows) = (\<Sum>row\<leftarrow>rows. snd (snd row))"
    "sorted_wrt (<) (map fst (stats_buckets R rows))"
    using t M zeroed_total [of M] by (simp_all add: s)
  have "set (map fst (stats_buckets R rows)) = set (map fst M)" using t(3) s by metis
  then show "um_keys (stats_buckets R rows) = GetBucketStart (bucket_size_for (EndTime R - StartTime R))
        ` {GetBucketStart (bucket_size_for (EndTime R - StartTime R)) (StartTime R)..<EndTime R}"
    using keys by (simp add: um_keys_def b_def [symmetric])
qed

section \<open>The queries read the log\<close>

lemma concat_if: "concat (map (\<lambda>x. if P x then [f x] else []) xs) = map f (filter P xs)"
  by (induction xs) auto

lemma join_one:
  assumes "distinct (map k t)" "r \<in> set t" "\<And>s. k s \<noteq> k r \<Longrightarrow> f s = []"
  shows "concat (map f t) = f r"
  using assms
proof (induction t)
  case (Cons s t)
  show ?case
  proof (cases "s = r")
    case True
    have "f x = []" if "x \<in> set t" for x using that Cons.prems(1,3) True by (metis distinct.simps(2) image_eqI image_set list.simps(9))
    then have "concat (map f t) = []" by simp
    then show ?thesis using True by simp
  next
    case False
    then have r: "r \<in> set t" using Cons.prems(2) by simp
    then have "k s \<noteq> k r" using Cons.prems(1) by (auto simp: image_iff)
    then have "f s = []" using Cons.prems(3) [of s] by simp
    moreover have "concat (map f t) = f r" using Cons.IH Cons.prems(1,3) r by simp
    ultimately show ?thesis by simp
  qed
qed simp

abbreviation the_snapshot :: "Db \<Rightarrow> event_row \<Rightarrow> snapshot_row" where
  "the_snapshot db e \<equiv> row_with SnapshotRowId (EventSnapshot e) (SnapshotTable db)"
abbreviation the_item :: "Db \<Rightarrow> event_row \<Rightarrow> item_row" where
  "the_item db e \<equiv> row_with ItemRowId (EventItem e) (ItemTable db)"

lemma row_with_in: "i \<in> k ` set t \<Longrightarrow> row_with k i t \<in> set t \<and> k (row_with k i t) = i"
  unfolding row_with_def by (induction t) auto

lemma row_with_iff: "distinct (map k t) \<Longrightarrow> s \<in> set t \<Longrightarrow> i = k s \<Longrightarrow> s = row_with k i t"
  by (simp add: row_with_unique)

lemma event_rows_exist:
  assumes "db_ok db" "e \<in> set (EventTable db)"
  shows "EventSnapshot e \<in> SnapshotRowId ` set (SnapshotTable db)" "EventItem e \<in> ItemRowId ` set (ItemTable db)"
  using assms by (auto simp: db_ok_def event_table_ok_def event_ok_def)

lemma keys_distinct:
  assumes "db_ok db"
  shows "distinct (map SnapshotRowId (SnapshotTable db))" "distinct (map ItemRowId (ItemTable db))"
  using assms by (auto simp: db_ok_def snapshot_table_ok_def item_table_ok_def keys_ok_def)

lemma window_events_log:
  assumes ok: "db_ok db"
  shows "window_events db R = map (\<lambda>e. (the_snapshot db e, e)) (filter (\<lambda>e. in_window R (the_snapshot db e)) (EventTable db))"
proof -
  have "concat (map (\<lambda>s. if EventSnapshot e = SnapshotRowId s \<and> in_window R s then [(s, e)] else []) (SnapshotTable db)) =
      (if in_window R (the_snapshot db e) then [(the_snapshot db e, e)] else [])" if "e \<in> set (EventTable db)" for e
    using row_with_in [OF event_rows_exist(1) [OF ok that]] keys_distinct(1) [OF ok]
    by (subst join_one [where k = SnapshotRowId and r = "the_snapshot db e"]) auto
  then have "window_events db R = concat (map (\<lambda>e. if in_window R (the_snapshot db e) then [(the_snapshot db e, e)] else []) (EventTable db))"
    unfolding window_events_def by (intro arg_cong [of _ _ concat] map_cong) auto
  then show ?thesis by (simp add: concat_if)
qed

abbreviation log_row :: "log_entry \<Rightarrow> stats_row" where
  "log_row l \<equiv> (LogTime l, LogIn l, LogOut l)"

definition log_window :: "WStatsRequest \<Rightarrow> log_entry list \<Rightarrow> log_entry list" where
  "log_window R = filter (\<lambda>l. StartTime R < LogTime l \<and> LogTime l \<le> EndTime R)"

lemma system_rows_log:
  assumes "db_ok db"
  shows "map (\<lambda>(s, e). stats_row_of s e) (window_events db R) = map log_row (log_window R (traffic_log db))"
  by (simp add: window_events_log [OF assms] traffic_log_def log_window_def filter_map o_def log_of_def)

lemma item_rows_log:
  assumes ok: "db_ok db"
  shows "item_rows db R = map log_row (filter (\<lambda>l. LogName l = Target R) (log_window R (traffic_log db)))"
proof -
  have "concat (map (\<lambda>i. if EventItem e = ItemRowId i \<and> ItemRowName i = Target R then [x] else []) (ItemTable db)) =
      (if ItemRowName (the_item db e) = Target R then [x] else [])" if "e \<in> set (EventTable db)" for e and x :: stats_row
    using row_with_in [OF event_rows_exist(2) [OF ok that]] keys_distinct(2) [OF ok]
    by (subst join_one [where k = ItemRowId and r = "the_item db e"]) auto
  then have "item_rows db R = concat (map (\<lambda>e. if ItemRowName (the_item db e) = Target R then [stats_row_of (the_snapshot db e) e] else [])
      (filter (\<lambda>e. in_window R (the_snapshot db e)) (EventTable db)))"
    unfolding item_rows_def window_events_log [OF ok] map_map by (intro arg_cong [of _ _ concat] map_cong) auto
  also have "\<dots> = map log_row (filter (\<lambda>l. LogName l = Target R) (log_window R (traffic_log db)))"
    unfolding traffic_log_def log_window_def by (simp add: concat_if filter_map o_def log_of_def conj_commute)
  finally show ?thesis .
qed

definition stamped :: "(WSec, WStatData) umap \<Rightarrow> bool" where
  "stamped M \<longleftrightarrow> (\<forall>p \<in> set M. StatTimestamp (snd p) = fst p)"

lemma stamped_Accumulate: "stamped M \<Longrightarrow> stamped (Accumulate b row M)"
  by (fastforce simp: stamped_def Accumulate_def Let_def split: option.splits prod.splits dest!: in_update dest: map_of_SomeD)

lemma stamped_fold: "stamped M \<Longrightarrow> stamped (fold (Accumulate b) rows M)"
  by (induction rows arbitrary: M) (simp_all add: stamped_Accumulate)

lemma zeroed_stamped: "zeroed M \<Longrightarrow> stamped M"
  by (auto simp: zeroed_def stamped_def)

lemma stats_buckets_timestamps: "map StatTimestamp (map snd (stats_buckets R rows)) = map fst (stats_buckets R rows)"
proof -
  have "zeroed (fill_buckets b End T [])" for b End T using fill_buckets_sorted [of "[]" T b End] by simp
  then have "stamped (stats_buckets R rows)" by (simp add: stats_buckets_def Let_def stamped_fold zeroed_stamped)
  then show ?thesis by (simp add: stamped_def)
qed

lemma window_time: "(s, e) \<in> set (window_events db R) \<Longrightarrow> in_window R s"
  by (auto simp: window_events_def)

lemma item_rows_window: "row \<in> set (item_rows db R) \<Longrightarrow> StartTime R < fst row \<and> fst row \<le> EndTime R"
  by (auto simp: item_rows_def split: if_splits dest!: window_time)

lemma host_rows_window: "row \<in> set (host_rows a db R) \<Longrightarrow> StartTime R < fst row \<and> fst row \<le> EndTime R"
  by (auto simp: host_rows_def split: if_splits dest!: window_time)

lemma asn_rows_window: "row \<in> set (asn_rows P db R) \<Longrightarrow> StartTime R < fst row \<and> fst row \<le> EndTime R"
  by (auto simp: asn_rows_def split: if_splits dest!: window_time)

lemma target_rows_window:
  assumes "target_rows p4 p6 db R = Some rows" "row \<in> set rows"
  shows "StartTime R < fst row \<and> fst row \<le> EndTime R"
proof -
  have "StartTime R < fst row \<and> fst row \<le> EndTime R" if "row \<in> set (map (\<lambda>(s, e). stats_row_of s e) (window_events db R))"
    using that by (fastforce dest: window_time)
  then show ?thesis using assms unfolding target_rows_def Let_def
    by (cases "target_type (Target R)")
       (auto split: if_splits dest: item_rows_window host_rows_window asn_rows_window simp del: set_map)
qed

lemma buckets_sorted:
  assumes "sorted_wrt (<) (map fst M)"
  shows "sort_key fst (M :: (WSec, WStatData) umap) = M"
proof -
  have "sorted (map fst M)" using assms strict_sorted_iff by blast
  then show ?thesis by (rule sort_key_id_if_sorted)
qed

lemma ProcessStatsRequest_spec:
  assumes "0 \<le> StartTime R" "target_rows p4 p6 db R = Some rows"
  shows "ProcessStatsRequest p4 p6 db R = StatsReply \<lparr>DataPoints = map snd (stats_buckets R rows), StatsResponseId = StatsRequestId R\<rparr>"
    "(\<Sum>d\<leftarrow>map snd (stats_buckets R rows). StatIn d) = (\<Sum>row\<leftarrow>rows. fst (snd row))"
    "(\<Sum>d\<leftarrow>map snd (stats_buckets R rows). StatOut d) = (\<Sum>row\<leftarrow>rows. snd (snd row))"
    "sorted_wrt (<) (map fst (stats_buckets R rows))"
  using stats_buckets_spec [of R rows, OF assms(1) target_rows_window [OF assms(2)]] buckets_sorted
  by (simp_all add: ProcessStatsRequest_def assms(2) o_def)

text \<open>
  C16. A chart loses no byte and invents none: for a request from the epoch on, whatever the target and whether its buckets are hours,
  days or months, the data points answer under the id of the request, in strictly increasing time, one for
  every bucket of the range, and their incoming and outgoing bytes add up to those of the selected
  rows. So every snapshot of the window, also one written on a bucket boundary, falls into exactly one bucket.
\<close>

theorem stats_request_conserves_bytes:
  assumes "0 \<le> StartTime R" "target_rows p4 p6 db R = Some rows"
  shows "\<exists>ds. ProcessStatsRequest p4 p6 db R = StatsReply \<lparr>DataPoints = ds, StatsResponseId = StatsRequestId R\<rparr>
    \<and> (\<Sum>d\<leftarrow>ds. StatIn d) = (\<Sum>row\<leftarrow>rows. fst (snd row)) \<and> (\<Sum>d\<leftarrow>ds. StatOut d) = (\<Sum>row\<leftarrow>rows. snd (snd row))
    \<and> sorted_wrt (<) (map StatTimestamp ds)
    \<and> set (map StatTimestamp ds) = (let b = bucket_size_for (EndTime R - StartTime R)
        in GetBucketStart b ` {GetBucketStart b (StartTime R)..<EndTime R})"
proof -
  note w = stats_buckets_spec(4) [of R rows, OF assms(1) target_rows_window [OF assms(2)]]
  have "set (map fst (stats_buckets R rows)) = um_keys (stats_buckets R rows)" by (simp add: um_keys_def)
  then show ?thesis using ProcessStatsRequest_spec [OF assms] w
    by (intro exI [of _ "map snd (stats_buckets R rows)"])
       (simp only: stats_buckets_timestamps Let_def simp_thms)
qed

section \<open>From the reports to the charts\<close>

abbreviation recorded_db :: "'w asn_lookup \<Rightarrow> (WSec \<times> stat_update list) list \<Rightarrow> 'w \<Rightarrow> Db" where
  "recorded_db L hist w \<equiv> snd (fold (snapshot_step L) hist (w, Db_init))"

lemma recorded_log:
  "db_ok (recorded_db L hist w)"
  "traffic_log (recorded_db L hist w) = concat (map (\<lambda>(t, us). snapshot_log t (collect us)) hist)"
proof -
  note h = snapshot_history_adds [OF db_ok_init, of L hist w]
  show "db_ok (recorded_db L hist w)" by (rule adds_db_ok [OF h])
  show "traffic_log (recorded_db L hist w) = concat (map (\<lambda>(t, us). snapshot_log t (collect us)) hist)"
    using h by (simp add: adds_def) (simp add: traffic_log_def Db_init_def)
qed

lemma LogTime_snapshot: "l \<in> set (snapshot_log t S) \<Longrightarrow> LogTime l = t"
  by (auto simp: snapshot_log_def app_log_def filter_log_def Let_def split: if_splits)

lemma log_window_concat:
  "log_window R (concat (map (\<lambda>(t, us). snapshot_log t (collect us)) hist)) =
     concat (map (\<lambda>(t, us). if StartTime R < t \<and> t \<le> EndTime R then snapshot_log t (collect us) else []) hist)"
proof (induction hist)
  case (Cons p hist)
  obtain t us where p: "p = (t, us)" by force
  have "filter (\<lambda>l. StartTime R < LogTime l \<and> LogTime l \<le> EndTime R) (snapshot_log t (collect us)) =
      (if StartTime R < t \<and> t \<le> EndTime R then snapshot_log t (collect us) else [])"
    by (auto simp: LogTime_snapshot intro!: filter_True filter_False dest: LogTime_snapshot)
  then show ?case using Cons by (simp add: p log_window_def)
qed (simp add: log_window_def)

lemma chart_of_log:
  assumes "0 \<le> StartTime R" "target_rows p4 p6 (recorded_db L hist w) R = Some (map log_row (filter (\<lambda>l. N (LogName l)) (log_window R (traffic_log (recorded_db L hist w)))))"
    "\<forall>(t, us) \<in> set hist. \<forall>u \<in> set us. report_ok path u"
  shows "\<exists>r. ProcessStatsRequest p4 p6 (recorded_db L hist w) R = StatsReply r \<and>
    (\<Sum>d\<leftarrow>DataPoints r. StatIn d) = (\<Sum>(t, us)\<leftarrow>hist. if StartTime R < t \<and> t \<le> EndTime R then \<Sum>u\<leftarrow>us. reported_in N u else 0)"
proof -
  let ?es = "log_window R (traffic_log (recorded_db L hist w))"
  have "(\<Sum>row\<leftarrow>map log_row (filter (\<lambda>l. N (LogName l)) es). fst (snd row)) = logged_in N es" for es
    by (induction es) (simp_all add: logged_in_def)
  moreover have "logged_in N ?es = (\<Sum>(t, us)\<leftarrow>hist. if StartTime R < t \<and> t \<le> EndTime R then \<Sum>u\<leftarrow>us. reported_in N u else 0)"
  proof -
    have "logged_in N (if c then es else []) = (if c then logged_in N es else 0)" for c es by (simp add: logged_in_def)
    then show ?thesis unfolding recorded_log log_window_concat logged_concat using assms(3)
      by (intro arg_cong [of _ _ sum_list] map_cong) (auto simp: logged_snapshot)
  qed
  ultimately show ?thesis using ProcessStatsRequest_spec(1,2) [OF assms(1,2)] by auto
qed


text \<open>
  The chart of the whole system adds the events of the filters to those of the applications: its total is the sum of everything
  that was reported under any name. The daemon reports the traffic of a socket once for its
  application and again for every filter that matches its addresses, so the chart counts such a byte at least twice.
\<close>

theorem system_chart_adds_filters_to_apps:
  assumes "0 \<le> StartTime R" "Target R = ''system''" "\<forall>(t, us) \<in> set hist. \<forall>u \<in> set us. report_ok path u"
  shows "\<exists>r. ProcessStatsRequest p4 p6 (snd (fold (snapshot_step L) hist (w, Db_init))) R = StatsReply r \<and>
    (\<Sum>d\<leftarrow>DataPoints r. StatIn d) =
      (\<Sum>(t, us)\<leftarrow>hist. if StartTime R < t \<and> t \<le> EndTime R then \<Sum>u\<leftarrow>us. reported_in (\<lambda>n. True) u else 0)"
  using assms system_rows_log [OF recorded_log(1), of L hist w R]
  by (intro chart_of_log) (simp_all add: target_rows_def target_type_def)

section \<open>Recorded connections\<close>

record WConnectionHistoryRequest =
  HistoryRequestId :: u32
  TargetName :: string
  HostTarget :: "WIPAddress option"
  Offset :: u64

record WConnectionHistoryResponseEntry =
  EntryAppName :: string
  EntryEndpoint :: WEndpoint
  EntryIn :: WBytes
  EntryOut :: WBytes
  EntryStart :: WSec
  EntryEnd :: WSec

record WConnectionHistoryResponse =
  HistoryResponseId :: u32
  Entries :: "WConnectionHistoryResponseEntry list"
  NumTotalEntries :: u64

text \<open>What a request finishes its promise with, in order; an exception ends the request and, uncaught in its thread, the daemon.\<close>

datatype history_reply = EmptyHistory | HistoryReply WConnectionHistoryResponse
datatype 'a outcome = Returned 'a | Threw

text \<open>\<^verbatim>\<open>std::string::substr\<close> throws when the position is beyond the end.\<close>

definition substr :: "nat \<Rightarrow> string \<Rightarrow> string outcome" where
  "substr n s = (if n \<le> length s then Returned (drop n s) else Threw)"

text \<open>\<^verbatim>\<open>.limit(100u).offset(Request.Offset)\<close>.\<close>

definition page :: "u64 \<Rightarrow> 'a list \<Rightarrow> 'a list" where
  "page n xs = take 100 (drop (unat n) xs)"

definition BuildHistoryEndpoint :: "host_row \<Rightarrow> u16 \<Rightarrow> WEndpoint option" where
  "BuildHistoryEndpoint h P =
     (let Z = Bytes WIPAddress_init; bs = HostAddress h in
      if HostFamily h = 4
      then Some \<lparr>Address = \<lparr>Bytes = (if length bs = 4 then bs @ drop 4 Z else Z), Family = IPv4\<rparr>, Port = P\<rparr>
      else if HostFamily h = 6 then Some \<lparr>Address = \<lparr>Bytes = bs @ drop (length bs) Z, Family = IPv6\<rparr>, Port = P\<rparr>
      else None)"

definition host_entry :: "item_row \<Rightarrow> connection_row \<Rightarrow> WConnectionHistoryResponseEntry" where
  "host_entry i c = \<lparr>EntryAppName = ItemRowName i, EntryEndpoint = WEndpoint_init, EntryIn = word_of_int (HistIn c),
     EntryOut = word_of_int (HistOut c), EntryStart = HistStart c, EntryEnd = HistEnd c\<rparr>"

definition AppendEndpointHistoryEntries :: "(host_row \<times> connection_row) list \<Rightarrow> WConnectionHistoryResponseEntry list" where
  "AppendEndpointHistoryEntries rows =
     [\<lparr>EntryAppName = [], EntryEndpoint = e, EntryIn = word_of_int (HistIn c), EntryOut = word_of_int (HistOut c),
       EntryStart = HistStart c, EntryEnd = HistEnd c\<rparr>.
      (h, c) \<leftarrow> rows, e \<leftarrow> (case BuildHistoryEndpoint h (HistPort c) of None \<Rightarrow> [] | Some e \<Rightarrow> [e])]"

text \<open>The joins; the counts are numbers of rows of a query.\<close>

definition host_history :: "Db \<Rightarrow> int \<Rightarrow> (item_row \<times> connection_row) list" where
  "host_history db HostID = [(i, c). c \<leftarrow> HistoryTable db, i \<leftarrow> ItemTable db, HistItem c = ItemRowId i \<and> HistHost c = HostID]"

definition item_history :: "Db \<Rightarrow> int \<Rightarrow> (host_row \<times> connection_row) list" where
  "item_history db ItemID = [(h, c). c \<leftarrow> HistoryTable db, h \<leftarrow> HostTable db, HistHost c = HostRowId h \<and> HistItem c = ItemID]"

definition asn_history :: "(asn_entry \<Rightarrow> bool) \<Rightarrow> Db \<Rightarrow> (host_row \<times> connection_row) list" where
  "asn_history P db = [(h, c). c \<leftarrow> HistoryTable db, h \<leftarrow> HostTable db, HistHost c = HostRowId h,
     a \<leftarrow> AsnTable db, HostAsn h = Some (AsnRowId a) \<and> P a]"

type_synonym history_result = "history_reply list \<times> WConnectionHistoryResponseEntry list \<times> u64"

definition ProcessHostHistoryRequest :: "Db \<Rightarrow> WConnectionHistoryRequest \<Rightarrow> WIPAddress \<Rightarrow> history_result" where
  "ProcessHostHistoryRequest db R IP =
     (case find (\<lambda>h. HostAddress h = GetBytes IP) (HostTable db) of
        None \<Rightarrow> ([EmptyHistory], [], 0)
      | Some h \<Rightarrow> let rows = host_history db (HostRowId h)
                  in ([], map (\<lambda>(i, c). host_entry i c) (page (Offset R) rows), of_nat (length rows)))"

definition ProcessAppHistoryRequest :: "Db \<Rightarrow> WConnectionHistoryRequest \<Rightarrow> history_result" where
  "ProcessAppHistoryRequest db R =
     (case find (\<lambda>i. ItemRowName i = TargetName R) (ItemTable db) of
        None \<Rightarrow> ([EmptyHistory], [], 0)
      | Some i \<Rightarrow> let rows = item_history db (ItemRowId i)
                  in ([], AppendEndpointHistoryEntries (page (Offset R) rows), of_nat (length rows)))"

text \<open>
  The four requests by prefix. The count of an organization or a system compares the country, of the name from its ninth
  character on, and throws when the name is shorter.
\<close>

definition asn_request :: "string \<Rightarrow> (asn_entry \<Rightarrow> bool) \<Rightarrow> Db \<Rightarrow> WConnectionHistoryRequest \<Rightarrow> history_result" where
  "asn_request Counted P db R =
     ([], AppendEndpointHistoryEntries (page (Offset R) (asn_history P db)), of_nat (length (asn_history (\<lambda>a. AsnCountry a = Counted) db)))"

definition ProcessCountryHistoryRequest :: "Db \<Rightarrow> WConnectionHistoryRequest \<Rightarrow> history_result outcome" where
  "ProcessCountryHistoryRequest db R =
     (case substr 8 (TargetName R) of
        Threw \<Rightarrow> Threw
      | Returned c \<Rightarrow> Returned (asn_request c (\<lambda>a. AsnCountry a = c) db R))"

definition ProcessOrgHistoryRequest :: "Db \<Rightarrow> WConnectionHistoryRequest \<Rightarrow> history_result outcome" where
  "ProcessOrgHistoryRequest db R =
     (case substr 8 (TargetName R) of
        Threw \<Rightarrow> Threw
      | Returned c \<Rightarrow> Returned (asn_request c (\<lambda>a. AsnOrganization a = drop 4 (TargetName R)) db R))"

definition ProcessAsnHistoryRequest :: "Db \<Rightarrow> WConnectionHistoryRequest \<Rightarrow> history_result outcome" where
  "ProcessAsnHistoryRequest db R =
     (let AsnInt = ParseInt (drop 4 (TargetName R)) in
      if AsnInt = 0 then Returned ([EmptyHistory], [], 0)
      else (case substr 8 (TargetName R) of
          Threw \<Rightarrow> Threw
        | Returned c \<Rightarrow> Returned (asn_request c (\<lambda>a. AsnNumber a = AsnInt) db R)))"

definition ProcessHistoryRequest :: "Db \<Rightarrow> WConnectionHistoryRequest \<Rightarrow> history_reply list outcome" where
  "ProcessHistoryRequest db R =
     (case (case HostTarget R of
          Some IP \<Rightarrow> Returned (ProcessHostHistoryRequest db R IP)
        | None \<Rightarrow>
            if StartsWith (TargetName R) ''asn:'' then ProcessAsnHistoryRequest db R
            else if StartsWith (TargetName R) ''org:'' then ProcessOrgHistoryRequest db R
            else if StartsWith (TargetName R) ''country:'' then ProcessCountryHistoryRequest db R
            else Returned (ProcessAppHistoryRequest db R)) of
        Threw \<Rightarrow> Threw
      | Returned (rs, es, n) \<Rightarrow>
          Returned (rs @ [HistoryReply \<lparr>HistoryResponseId = HistoryRequestId R, Entries = es, NumTotalEntries = n\<rparr>]))"

section \<open>The request thread\<close>

text \<open>The payloads are decoded by cereal, a parameter. A request that does not decode makes the thread return.\<close>

datatype stats_job = HistoryJob "u8 list" | StatsJob "u8 list"
datatype job_reply = FromStats reply | FromHistory "history_reply list"
datatype thread_end = WaitingForWork | ThreadReturned | DaemonTerminated

record stats_codec =
  decode_history :: "u8 list \<Rightarrow> WConnectionHistoryRequest option"
  decode_stats :: "u8 list \<Rightarrow> WStatsRequest option"
  pton_v4 :: "string \<Rightarrow> u8 list option"
  pton_v6 :: "string \<Rightarrow> u8 list option"

fun RequestThread :: "stats_codec \<Rightarrow> Db \<Rightarrow> stats_job list \<Rightarrow> job_reply list \<times> thread_end" where
  "RequestThread C db [] = ([], WaitingForWork)"
| "RequestThread C db (HistoryJob d # q) =
     (case decode_history C d of
        None \<Rightarrow> ([], ThreadReturned)
      | Some R \<Rightarrow>
          (case ProcessHistoryRequest db R of
             Threw \<Rightarrow> ([], DaemonTerminated)
           | Returned rs \<Rightarrow> let (more, t) = RequestThread C db q in (FromHistory rs # more, t)))"
| "RequestThread C db (StatsJob d # q) =
     (case decode_stats C d of
        None \<Rightarrow> ([], ThreadReturned)
      | Some R \<Rightarrow> let (more, t) = RequestThread C db q
                  in (FromStats (ProcessStatsRequest (pton_v4 C) (pton_v6 C) db R) # more, t))"

text \<open>
  Looking up the history of an organization ends the daemon when its name has fewer than four characters, and so
  does that of an autonomous system with a number of at most three digits: the count takes the
  name from its ninth character on, as for a country, and \<^verbatim>\<open>substr\<close> throws in the request thread. Requests
  queued behind it are lost.
\<close>

theorem short_history_target_terminates_daemon:
  assumes "decode_history C d = Some R" "HostTarget R = None"
    "TargetName R = ''org:'' @ s \<or> TargetName R = ''asn:'' @ s \<and> ParseInt s \<noteq> 0" "length s < 4"
  shows "RequestThread C db (HistoryJob d # q) = ([], DaemonTerminated)"
proof -
  have "ProcessHistoryRequest db R = Threw"
    using assms(2-4) by (auto simp: ProcessHistoryRequest_def ProcessOrgHistoryRequest_def ProcessAsnHistoryRequest_def substr_def
        StartsWith_def Let_def)
  then show ?thesis using assms(1) by simp
qed

lemma RequestThread_append:
  "RequestThread C db q1 = (rs, WaitingForWork) \<Longrightarrow>
     RequestThread C db (q1 @ q2) = (let (more, t) = RequestThread C db q2 in (rs @ more, t))"
  by (induction C db q1 arbitrary: rs rule: RequestThread.induct)
     (auto split: option.splits outcome.splits prod.splits)

text \<open>
  One request that does not decode stops the statistics for good: the requests before it are answered, the thread returns at the
  malformed one, and no request after it is ever answered, whoever sent it.
\<close>

theorem malformed_request_stops_statistics:
  assumes "RequestThread C db q1 = (rs, WaitingForWork)" "decode_stats C d = None"
  shows "RequestThread C db (q1 @ StatsJob d # q2) = (rs, ThreadReturned)"
  using assms by (simp add: RequestThread_append)

lemma pages_concat: "concat (map (\<lambda>k. take 100 (drop (100 * k) xs)) [0..<n]) = take (100 * n) xs"
proof (induction n)
  case (Suc n)
  have "take (100 * n) xs @ take 100 (drop (100 * n) xs) = take (100 * n + 100) xs" by (simp add: take_add)
  then show ?case using Suc by (simp add: add.commute)
qed simp

lemma AppendEndpointHistoryEntries_append:
  "AppendEndpointHistoryEntries (xs @ ys) = AppendEndpointHistoryEntries xs @ AppendEndpointHistoryEntries ys"
  by (simp add: AppendEndpointHistoryEntries_def)

lemma AppendEndpointHistoryEntries_concat:
  "AppendEndpointHistoryEntries (concat xss) = concat (map AppendEndpointHistoryEntries xss)"
  by (induction xss) (simp_all add: AppendEndpointHistoryEntries_append, simp add: AppendEndpointHistoryEntries_def)

lemma unat_page: "k < n \<Longrightarrow> 100 * n < 2 ^ 64 \<Longrightarrow> unat (of_nat (100 * k) :: u64) = 100 * k"
  by (simp add: unsigned_of_nat take_bit_nat_eq_self del: of_nat_mult)

definition page_entries :: "Db \<Rightarrow> WConnectionHistoryRequest \<Rightarrow> nat \<Rightarrow> WConnectionHistoryResponseEntry list" where
  "page_entries db R k =
     (case ProcessHistoryRequest db (R\<lparr>Offset := of_nat (100 * k)\<rparr>) of
        Returned rs \<Rightarrow> (case last rs of HistoryReply r \<Rightarrow> Entries r | EmptyHistory \<Rightarrow> [])
      | Threw \<Rightarrow> [])"

text \<open>
  Paging through the history of an application misses no connection and repeats none: the pages of a
  hundred rows, concatenated until they cover the count of the answer, are the entries of all its connections, in order.
\<close>

theorem history_pages_cover:
  assumes "HostTarget R = None" "TargetName R \<noteq> []" "hd (TargetName R) = CHR ''/''"
    "find (\<lambda>i. ItemRowName i = TargetName R) (ItemTable db) = Some i"
    "length (item_history db (ItemRowId i)) \<le> 100 * n" "100 * n < 2 ^ 64"
  shows "concat (map (page_entries db R) [0..<n]) = AppendEndpointHistoryEntries (item_history db (ItemRowId i))"
proof -
  have "\<not> StartsWith (TargetName R) ''asn:''" "\<not> StartsWith (TargetName R) ''org:''" "\<not> StartsWith (TargetName R) ''country:''"
    using assms(2,3) by (cases "TargetName R"; simp add: StartsWith_def)+
  then have "page_entries db R k = AppendEndpointHistoryEntries (page (of_nat (100 * k)) (item_history db (ItemRowId i)))" for k
    using assms(1,4) by (simp add: page_entries_def ProcessHistoryRequest_def ProcessAppHistoryRequest_def Let_def)
  then have "map (page_entries db R) [0..<n] =
      map AppendEndpointHistoryEntries (map (\<lambda>k. take 100 (drop (100 * k) (item_history db (ItemRowId i)))) [0..<n])"
    using unat_page [OF _ assms(6)] by (simp add: page_def)
  then show ?thesis using assms(5)
    by (simp only: AppendEndpointHistoryEntries_concat [symmetric] pages_concat take_all)
qed

section \<open>Witnesses\<close>

definition test_snapshots :: "(WSec \<times> stat_update list) list" where
  "test_snapshots = [(7200, [AppStats 1 ''/bin/a'' WIPAddress_init 10 20, FilterStats ''LAN'' 10 20]), (20000, [AppStats 1 ''/bin/a'' WIPAddress_init 5 5])]"

definition test_request :: "string \<Rightarrow> WStatsRequest" where
  "test_request T = \<lparr>StatsRequestId = 7, StartTime = 3600, EndTime = 10800, Target = T\<rparr>"

definition test_lookup :: "unit asn_lookup" where
  "test_lookup IP w = (None, w)"

lemma test_reports_ok: "\<forall>(t, us) \<in> set test_snapshots. \<forall>u \<in> set us. report_ok (\<lambda>_. ''/bin/a'') u"
  by (simp add: test_snapshots_def)


lemma system_chart_adds_filters_to_apps_witness:
  "\<exists>r. ProcessStatsRequest Map.empty Map.empty (snd (fold (snapshot_step test_lookup) test_snapshots ((), Db_init))) (test_request ''system'') = StatsReply r \<and>
    (\<Sum>d\<leftarrow>DataPoints r. StatIn d) = 20"
  using system_chart_adds_filters_to_apps [of "test_request ''system''" test_snapshots "\<lambda>_. ''/bin/a''" Map.empty Map.empty test_lookup "()"] test_reports_ok
  by (simp add: test_request_def) (simp add: test_snapshots_def)

definition test_tables :: Db where
  "test_tables = \<lparr>ItemTable = [\<lparr>ItemRowId = 1, ItemRowName = ''/bin/a''\<rparr>], AsnTable = [],
     HostTable = [\<lparr>HostRowId = 1, HostFamily = 4, HostAddress = [1, 2, 3, 4], HostAsn = None\<rparr>],
     SnapshotTable = [\<lparr>SnapshotRowId = 1, SnapshotStart = 7200\<rparr>],
     EventTable = [\<lparr>EventRowId = 1, EventSnapshot = 1, EventItem = 1, EventHost = Some 1, EventIn = 10, EventOut = 20\<rparr>],
     HistoryTable = [\<lparr>HistRowId = 1, HistItem = 1, HistHost = 1, HistPort = 80, HistStart = 5, HistEnd = 9, HistIn = 10, HistOut = 20\<rparr>]\<rparr>"

lemma stats_request_conserves_bytes_witness:
  "\<exists>ds. ProcessStatsRequest Map.empty Map.empty test_tables (test_request ''/bin/a'') = StatsReply \<lparr>DataPoints = ds, StatsResponseId = 7\<rparr>
    \<and> (\<Sum>d\<leftarrow>ds. StatIn d) = 10 \<and> (\<Sum>d\<leftarrow>ds. StatOut d) = 20"
proof -
  have "target_rows Map.empty Map.empty test_tables (test_request ''/bin/a'') = Some [(7200, 10, 20)]"
    by (simp add: target_rows_def target_type_def test_request_def item_rows_def window_events_def test_tables_def)
  from stats_request_conserves_bytes [OF _ this] show ?thesis by (auto simp: test_request_def)
qed

definition test_codec :: stats_codec where
  "test_codec = \<lparr>decode_history = (\<lambda>d. if d = [] then None else Some \<lparr>HistoryRequestId = 1, TargetName = ''org:ABC'', HostTarget = None, Offset = 0\<rparr>),
     decode_stats = (\<lambda>d. if d = [] then None else Some (test_request ''x'')), pton_v4 = Map.empty, pton_v6 = Map.empty\<rparr>"

lemma short_history_target_terminates_daemon_witness:
  "RequestThread test_codec test_tables [HistoryJob [1], StatsJob [1]] = ([], DaemonTerminated)"
  using short_history_target_terminates_daemon [of test_codec "[1]"
      "\<lparr>HistoryRequestId = 1, TargetName = ''org:ABC'', HostTarget = None, Offset = 0\<rparr>" "''ABC''" test_tables "[StatsJob [1]]"]
  by (simp add: test_codec_def)

lemma malformed_request_stops_statistics_witness:
  "RequestThread test_codec test_tables ([StatsJob [1]] @ StatsJob [] # [StatsJob [1]]) = ([FromStats EmptyReply], ThreadReturned)"
  by (rule malformed_request_stops_statistics)
     (simp_all add: test_codec_def ProcessStatsRequest_def target_rows_def target_type_def test_request_def StartsWith_def FromString_def FromStringV6_def)

lemma history_pages_cover_witness:
  "concat (map (page_entries test_tables \<lparr>HistoryRequestId = 1, TargetName = ''/bin/a'', HostTarget = None, Offset = 0\<rparr>) [0..<1])
     = AppendEndpointHistoryEntries (item_history test_tables 1) \<and> length (item_history test_tables 1) = 1"
  using history_pages_cover [of "\<lparr>HistoryRequestId = 1, TargetName = ''/bin/a'', HostTarget = None, Offset = 0\<rparr>" test_tables
      "\<lparr>ItemRowId = 1, ItemRowName = ''/bin/a''\<rparr>" 1]
  by (simp add: test_tables_def item_history_def)

end
