(* ===== verification/Web_Socket.thy ===== *)
theory Web_Socket
  imports Byte_Buffer Number_Format
begin

text \<open>
  \<^verbatim>\<open>Daemon/Communication/DaemonWebSocket.cpp\<close>, \<^verbatim>\<open>ClientWebSocket.cpp\<close> and the address of the client's
  \<^verbatim>\<open>Gui/Communication/WebSocketSource.cpp\<close>: serving clients over WebSocket. The library, libwebsockets, is a parameter: it
  calls back with a reason, its answers to \<^verbatim>\<open>lws_write\<close> are arguments, a connection is its number, and a request
  for a write callback is a flag that the callback takes back. A message is kept without the padding the library wants in front.
\<close>

section \<open>One connection\<close>

record WClientWebSocket =
  WsiOpen :: bool
  WsConnected :: bool
  SendQueue :: "u8 list list"
  ReceiveBuffer :: "u8 list"
  WriteRequested :: bool

definition WClientWebSocket_init :: WClientWebSocket where
  "WClientWebSocket_init = \<lparr>WsiOpen = True, WsConnected = True, SendQueue = [], ReceiveBuffer = [], WriteRequested = False\<rparr>"

definition WsIsConnected :: "WClientWebSocket \<Rightarrow> bool" where
  "WsIsConnected c \<longleftrightarrow> WsConnected c \<and> WsiOpen c"

definition WsClose :: "WClientWebSocket \<Rightarrow> WClientWebSocket" where
  "WsClose c = c\<lparr>WsConnected := False\<rparr>"

definition RequestWrite :: "WClientWebSocket \<Rightarrow> WClientWebSocket" where
  "RequestWrite c = (if WsiOpen c \<and> WsConnected c then c\<lparr>WriteRequested := True\<rparr> else c)"

definition WsSendFramed :: "u8 list \<Rightarrow> WClientWebSocket \<Rightarrow> int \<times> WClientWebSocket" where
  "WsSendFramed Payload c =
     (if \<not> WsIsConnected c then (- 1, c)
      else if Payload = [] then (- 1, c)
      else (int (length Payload), RequestWrite (c\<lparr>SendQueue := SendQueue c @ [Payload]\<rparr>)))"

text \<open>The buffer that is handed on; \<open>None\<close> while the message is not complete, and when the buffer could not grow.\<close>

definition WsHandleReceive :: "u8 list \<Rightarrow> bool \<Rightarrow> WClientWebSocket \<Rightarrow> WBuffer option \<times> WClientWebSocket" where
  "WsHandleReceive Fragment IsFinalFragment c =
     (let R = ReceiveBuffer c @ Fragment in
      if \<not> IsFinalFragment then (None, c\<lparr>ReceiveBuffer := R\<rparr>)
      else (Write R (WBuffer_init (length R)), c\<lparr>ReceiveBuffer := []\<rparr>))"

text \<open>The message that was written. The library has taken the request back when it calls.\<close>

definition WsHandleWritable :: "int \<Rightarrow> WClientWebSocket \<Rightarrow> u8 list option \<times> WClientWebSocket" where
  "WsHandleWritable Written c0 =
     (let c = c0\<lparr>WriteRequested := False\<rparr> in
      case SendQueue c of
        [] \<Rightarrow> (None, c)
      | m # q \<Rightarrow>
          if \<not> WsiOpen c then (None, c)
          else if Written < 0 then (None, c\<lparr>WsConnected := False\<rparr>)
          else (Some m, c\<lparr>SendQueue := q, WriteRequested := q \<noteq> []\<rparr>))"

definition WsHandleClose :: "WClientWebSocket \<Rightarrow> WClientWebSocket" where
  "WsHandleClose c = c\<lparr>WsConnected := False, WsiOpen := False\<rparr>"

section \<open>The server\<close>

text \<open>The check of the query string, which is empty when there is none or it does not fit into 512 bytes.\<close>

definition TokenOf :: "string \<Rightarrow> string option" where
  "TokenOf QueryString =
     (case find_str ''token='' QueryString 0 of
        None \<Rightarrow> None
      | Some TokenPos \<Rightarrow>
          let TokenStart = TokenPos + 6 in
          Some (case find_char (CHR ''&'') QueryString TokenStart of
              Some TokenEnd \<Rightarrow> take (TokenEnd - TokenStart) (drop TokenStart QueryString)
            | None \<Rightarrow> drop TokenStart QueryString))"

definition Authenticated :: "string \<Rightarrow> string \<Rightarrow> bool" where
  "Authenticated AuthToken QueryString \<longleftrightarrow> QueryString \<noteq> [] \<and> TokenOf QueryString = Some AuthToken"

datatype lws_reason = FilterProtocolConnection string | Established | ConnectionClosed | Receive "u8 list" bool | ServerWriteable int | OtherReason

datatype ws_event = NewConnection nat | DataReceived nat WBuffer | FrameWritten nat "u8 list" | ConnectionLost nat

type_synonym ws_clients = "(nat, WClientWebSocket) umap"

definition RegisterClient :: "nat \<Rightarrow> WClientWebSocket \<Rightarrow> ws_clients \<Rightarrow> ws_clients" where
  "RegisterClient Wsi c s = AList.update Wsi c s"

definition UnregisterClient :: "nat \<Rightarrow> ws_clients \<Rightarrow> ws_clients" where
  "UnregisterClient Wsi s = AList.delete Wsi s"

definition GetClient :: "nat \<Rightarrow> ws_clients \<Rightarrow> WClientWebSocket option" where
  "GetClient Wsi s = map_of s Wsi"

definition WebSocketCallback :: "string \<Rightarrow> nat \<Rightarrow> lws_reason \<Rightarrow> ws_clients \<Rightarrow> int \<times> ws_event list \<times> ws_clients" where
  "WebSocketCallback AuthToken Wsi Reason s =
     (case Reason of
        FilterProtocolConnection Q \<Rightarrow> (if Authenticated AuthToken Q then 0 else - 1, [], s)
      | Established \<Rightarrow> (0, [NewConnection Wsi], RegisterClient Wsi WClientWebSocket_init s)
      | ConnectionClosed \<Rightarrow>
          (case GetClient Wsi s of
             None \<Rightarrow> (0, [], UnregisterClient Wsi s)
           | Some c \<Rightarrow> (0, [ConnectionLost Wsi], UnregisterClient Wsi (AList.update Wsi (WsHandleClose c) s)))
      | Receive Fragment Final \<Rightarrow>
          (case GetClient Wsi s of
             None \<Rightarrow> (0, [], s)
           | Some c \<Rightarrow> let (B, c1) = WsHandleReceive Fragment Final c
                in (0, (case B of None \<Rightarrow> [] | Some b \<Rightarrow> [DataReceived Wsi b]), AList.update Wsi c1 s))
      | ServerWriteable Written \<Rightarrow>
          (case GetClient Wsi s of
             None \<Rightarrow> (0, [], s)
           | Some c \<Rightarrow> let (m, c1) = WsHandleWritable Written c
                in (0, (case m of None \<Rightarrow> [] | Some b \<Rightarrow> [FrameWritten Wsi b]), AList.update Wsi c1 s))
      | OtherReason \<Rightarrow> (0, [], s))"

definition ListenPort :: "string \<Rightarrow> int" where
  "ListenPort SocketPath =
     (if StartsWith SocketPath ''ws://''
      then (let Colon = length (takeWhile (\<lambda>c. c \<noteq> CHR '':'') (rev SocketPath)) in
            if Colon < length SocketPath \<and> length SocketPath - 1 - Colon > 5
            then (case stoi10 (drop (length SocketPath - Colon) SocketPath) of None \<Rightarrow> 9876 | Some p \<Rightarrow> p)
            else 9876)
      else 9876)"

section \<open>The address a client connects to\<close>

text \<open>Host, port and path; the outer \<open>None\<close> is the exception of \<^verbatim>\<open>stoi\<close>, which nothing catches in this thread. Subtracting
  from a smaller position wraps around to a length beyond the end.\<close>

definition url_parts :: "int \<Rightarrow> string \<Rightarrow> (string \<times> int \<times> string) option" where
  "url_parts DefaultPort Rest =
     (case find_char (CHR '':'') Rest 0 of
        Some Colon \<Rightarrow>
          let Host = take Colon Rest; After = drop (Colon + 1) Rest in
          (case find_char (CHR ''/'') Rest 0 of
             Some Slash \<Rightarrow>
               map_option (\<lambda>p. (Host, p, drop Slash Rest)) (stoi10 (if Colon < Slash then take (Slash - Colon - 1) After else After))
           | None \<Rightarrow> map_option (\<lambda>p. (Host, p, ''/'')) (stoi10 After))
      | None \<Rightarrow>
          Some (case find_char (CHR ''/'') Rest 0 of
              Some Slash \<Rightarrow> (take Slash Rest, DefaultPort, drop Slash Rest)
            | None \<Rightarrow> (Rest, DefaultPort, ''/'')))"

definition ParseUrl :: "string \<Rightarrow> (string \<times> int \<times> string) option" where
  "ParseUrl Url =
     (if StartsWith Url ''ws://'' then url_parts 80 (drop 5 Url)
      else if StartsWith Url ''wss://'' then url_parts 443 (drop 6 Url)
      else Some (''localhost'', 9001, ''/''))"

definition WithToken :: "string \<Rightarrow> string \<Rightarrow> string" where
  "WithToken AuthToken Path =
     (if AuthToken = [] then Path
      else if find_char (CHR ''?'') Path 0 \<noteq> None then Path @ ''&token='' @ AuthToken
      else Path @ ''?token='' @ AuthToken)"

text \<open>The arguments of a request, as the server's library delivers them.\<close>

definition query_of :: "string \<Rightarrow> string" where
  "query_of Path = drop (length (takeWhile (\<lambda>c. c \<noteq> CHR ''?'') Path) + 1) Path"


section \<open>Authentication\<close>

lemma find_str_Some: "find_str needle s p = Some q \<Longrightarrow> q + length needle \<le> length s \<and> take (length needle) (drop q s) = needle"
  by (induction needle s p rule: find_str.induct) (subst (asm) (2) find_str.simps, auto split: if_splits)

lemma TokenOf_Some:
  assumes "TokenOf Q = Some T"
  obtains pre post where "Q = pre @ ''token='' @ T @ post" "post = [] \<or> hd post = CHR ''&''" "CHR ''&'' \<notin> set T"
proof -
  obtain p where p: "find_str ''token='' Q 0 = Some p" using assms by (auto simp: TokenOf_def split: option.splits)
  have at: "p + 6 \<le> length Q" "take 6 (drop p Q) = ''token=''" using find_str_Some [OF p] by (simp_all add: eval_nat_numeral)
  have Q: "Q = take p Q @ ''token='' @ drop (p + 6) Q"
    using at(2) by (metis append_take_drop_id drop_drop add.commute)
  show ?thesis
  proof (cases "find_char (CHR ''&'') Q (p + 6)")
    case None
    then have "T = drop (p + 6) Q" using assms p by (simp add: TokenOf_def Let_def)
    then show ?thesis using that [of "take p Q" "[]"] Q find_char_None [OF None] by simp
  next
    case (Some e)
    then have T: "T = take (e - (p + 6)) (drop (p + 6) Q)" using assms p by (simp add: TokenOf_def Let_def)
    note F = find_char_Some [OF Some]
    have "Q = take p Q @ ''token='' @ T @ CHR ''&'' # drop (e + 1) Q" using Q F(3) T by simp
    then show ?thesis using that [of "take p Q" "CHR ''&'' # drop (e + 1) Q"] F(4) T by simp
  qed
qed

section \<open>The library's order of calls\<close>

text \<open>A connection is established only after its request was let through; the number of a connection is used again after
  it was closed. The daemon may send on any connection it knows. The state holds the queries of the requests that were let through.\<close>

inductive lws_step :: "string \<Rightarrow> (nat, string) umap \<times> ws_clients \<Rightarrow> (nat, string) umap \<times> ws_clients \<Rightarrow> bool" for Token where
  request: "WebSocketCallback Token w (FilterProtocolConnection q) cs = (r, ev, cs') \<Longrightarrow> w \<notin> um_keys acc \<Longrightarrow>
    lws_step Token (acc, cs) (if r = 0 then AList.update w q acc else acc, cs')"
| established: "w \<in> um_keys acc \<Longrightarrow> WebSocketCallback Token w Established cs = (r, ev, cs') \<Longrightarrow> lws_step Token (acc, cs) (acc, cs')"
| closed: "WebSocketCallback Token w ConnectionClosed cs = (r, ev, cs') \<Longrightarrow> lws_step Token (acc, cs) (AList.delete w acc, cs')"
| receive: "WebSocketCallback Token w (Receive b final) cs = (r, ev, cs') \<Longrightarrow> lws_step Token (acc, cs) (acc, cs')"
| writeable: "WebSocketCallback Token w (ServerWriteable n) cs = (r, ev, cs') \<Longrightarrow> lws_step Token (acc, cs) (acc, cs')"
| send: "GetClient w cs = Some c \<Longrightarrow> lws_step Token (acc, cs) (acc, AList.update w (snd (WsSendFramed m c)) cs)"
| close: "GetClient w cs = Some c \<Longrightarrow> lws_step Token (acc, cs) (acc, AList.update w (WsClose c) cs)"

definition client_live :: "WClientWebSocket \<Rightarrow> bool" where
  "client_live c \<longleftrightarrow> (SendQueue c \<noteq> [] \<and> WsIsConnected c \<longrightarrow> WriteRequested c)"

definition server_ok :: "string \<Rightarrow> (nat, string) umap \<times> ws_clients \<Rightarrow> bool" where
  "server_ok Token st \<longleftrightarrow> (let (acc, cs) = st in
     (\<forall>w \<in> um_keys cs. w \<in> um_keys acc) \<and> (\<forall>w q. map_of acc w = Some q \<longrightarrow> Authenticated Token q)
     \<and> (\<forall>w c. map_of cs w = Some c \<longrightarrow> client_live c))"

lemma client_live_ops:
  "client_live WClientWebSocket_init" "client_live c \<Longrightarrow> client_live (snd (WsSendFramed m c))" "client_live (WsClose c)"
  "client_live c \<Longrightarrow> client_live (snd (WsHandleReceive b final c))" "client_live (snd (WsHandleWritable n c))"
  by (auto simp: client_live_def WClientWebSocket_init_def WsSendFramed_def RequestWrite_def WsIsConnected_def WsClose_def
      WsHandleReceive_def WsHandleWritable_def Let_def split: list.split)

lemma server_ok_update:
  assumes "server_ok Token (acc, cs)" "GetClient w cs = Some c" "client_live c'"
  shows "server_ok Token (acc, AList.update w c' cs)"
  using assms by (auto simp: server_ok_def GetClient_def dest: map_of_Some_um_keys split: if_splits)

lemma server_ok_step: "lws_step Token s t \<Longrightarrow> server_ok Token s \<Longrightarrow> server_ok Token t"
proof (induction rule: lws_step.induct)
  case (request w q cs r ev cs' acc)
  then show ?case by (auto simp: server_ok_def WebSocketCallback_def split: if_splits)
next
  case (established w acc cs r ev cs')
  then show ?case by (auto simp: server_ok_def WebSocketCallback_def RegisterClient_def client_live_ops split: if_splits)
next
  case (closed w cs r ev cs' acc)
  then show ?case by (auto simp: server_ok_def WebSocketCallback_def UnregisterClient_def split: if_splits option.splits)
next
  case (receive w b final cs r ev cs' acc)
  show ?case
  proof (cases "GetClient w cs")
    case (Some c)
    obtain B c1 where c1: "WsHandleReceive b final c = (B, c1)" by force
    have "client_live c" using receive.prems Some by (auto simp: server_ok_def GetClient_def)
    then have "client_live c1" using client_live_ops(4) [of c b final] c1 by simp
    then show ?thesis using receive Some c1 server_ok_update [of Token acc cs w c c1] by (simp add: WebSocketCallback_def)
  qed (use receive in \<open>simp add: WebSocketCallback_def\<close>)
next
  case (writeable w n cs r ev cs' acc)
  show ?case
  proof (cases "GetClient w cs")
    case (Some c)
    obtain m c1 where c1: "WsHandleWritable n c = (m, c1)" by force
    have "client_live c1" using client_live_ops(5) [of n c] c1 by simp
    then show ?thesis using writeable Some c1 server_ok_update [of Token acc cs w c c1] by (simp add: WebSocketCallback_def)
  qed (use writeable in \<open>simp add: WebSocketCallback_def\<close>)
next
  case (send w cs c acc m)
  then have "client_live c" by (auto simp: server_ok_def GetClient_def)
  then show ?case using send client_live_ops(2) server_ok_update by blast
next
  case (close w cs c acc)
  then show ?case using client_live_ops(3) server_ok_update by blast
qed

interpretation ws_sm: state_machine "\<lambda>s. s = ([], [])" "lws_step Token" "server_ok Token" for Token
proof unfold_locales
  show "s = ([], []) \<Longrightarrow> server_ok Token s" for s by (simp add: server_ok_def)
  show "server_ok Token s \<Longrightarrow> lws_step Token s t \<Longrightarrow> server_ok Token t" for s t using server_ok_step by blast
qed

text \<open>C24. Bytes reach the daemon's message handler only from a connection whose query holds \<^verbatim>\<open>token=\<close> and the whole
  configured token, up to the next parameter or the end.\<close>

theorem websocket_bytes_are_authenticated:
  assumes "reachable (\<lambda>s. s = ([], [])) (lws_step Token) (acc, cs)"
    and "WebSocketCallback Token w (Receive b final) cs = (r, ev, cs')" and "DataReceived v B \<in> set ev"
  shows "\<exists>pre post. map_of acc v = Some (pre @ ''token='' @ Token @ post) \<and> (post = [] \<or> hd post = CHR ''&'')"
proof -
  have ok: "server_ok Token (acc, cs)" using assms(1) by (rule ws_sm.reachable_invar)
  have v: "v = w" "w \<in> um_keys cs" using assms(2,3)
    by (auto simp: WebSocketCallback_def GetClient_def dest: map_of_Some_um_keys split: option.splits prod.splits)
  then have "v \<in> um_keys acc" using ok by (simp add: server_ok_def)
  then obtain q where q: "map_of acc v = Some q" using map_of_None_um_keys by (metis option.exhaust)
  then have "TokenOf q = Some Token" using ok by (auto simp: server_ok_def Authenticated_def)
  then show ?thesis using q by (metis TokenOf_Some)
qed

text \<open>A message that waits on an open connection always has a write callback coming, so it does not wait for ever.\<close>

theorem websocket_queue_never_stuck:
  assumes "reachable (\<lambda>s. s = ([], [])) (lws_step Token) (acc, cs)" and "GetClient w cs = Some c"
    and "SendQueue c \<noteq> []" and "WsIsConnected c"
  shows "WriteRequested c"
  using ws_sm.reachable_invar [OF assms(1)] assms(2-4) by (auto simp: server_ok_def GetClient_def client_live_def)


section \<open>Messages\<close>

text \<open>Sends and write callbacks of one connection in any order; the frames that were written and the messages that were taken.\<close>

datatype ws_op = SendOp "u8 list" | WritableOp int

fun ws_run :: "ws_op list \<Rightarrow> WClientWebSocket \<Rightarrow> u8 list list \<times> u8 list list \<times> WClientWebSocket" where
  "ws_run [] c = ([], [], c)"
| "ws_run (SendOp m # ops) c =
     (let (r, c1) = WsSendFramed m c; (written, taken, c2) = ws_run ops c1
      in (written, if r < 0 then taken else m # taken, c2))"
| "ws_run (WritableOp n # ops) c =
     (let (f, c1) = WsHandleWritable n c; (written, taken, c2) = ws_run ops c1
      in ((case f of None \<Rightarrow> written | Some m \<Rightarrow> m # written), taken, c2))"

lemma WsSendFramed_cases:
  "WsSendFramed m c = (r, c1) \<Longrightarrow> (r < 0 \<and> c1 = c) \<or> (r = int (length m) \<and> SendQueue c1 = SendQueue c @ [m] \<and> m \<noteq> [])"
  by (auto simp: WsSendFramed_def RequestWrite_def split: if_splits)

lemma WsHandleWritable_queue:
  "WsHandleWritable n c = (f, c1) \<Longrightarrow> (case f of None \<Rightarrow> SendQueue c1 = SendQueue c | Some m \<Rightarrow> SendQueue c = m # SendQueue c1)"
  by (auto simp: WsHandleWritable_def Let_def split: list.splits if_splits)

lemma ws_run_queue: "ws_run ops c = (written, taken, c') \<Longrightarrow> written @ SendQueue c' = SendQueue c @ taken"
proof (induction ops c arbitrary: written taken rule: ws_run.induct)
  case (2 m ops c)
  obtain r c1 where c1: "WsSendFramed m c = (r, c1)" by force
  obtain written1 taken1 c2 where c2: "ws_run ops c1 = (written1, taken1, c2)" by (cases "ws_run ops c1")
  then show ?case using 2 c1 WsSendFramed_cases [OF c1] by auto
next
  case (3 n ops c)
  obtain f c1 where c1: "WsHandleWritable n c = (f, c1)" by force
  obtain written1 taken1 c2 where c2: "ws_run ops c1 = (written1, taken1, c2)" by (cases "ws_run ops c1")
  then show ?case using 3 c1 WsHandleWritable_queue [OF c1] by (auto split: option.splits)
qed simp

text \<open>A message arrives as fragments, the last of them marked.\<close>

fun ws_fragments :: "u8 list list \<Rightarrow> (u8 list \<times> bool) list" where
  "ws_fragments [] = []"
| "ws_fragments [f] = [(f, True)]"
| "ws_fragments (f # fs) = (f, False) # ws_fragments fs"

fun ws_receive :: "(u8 list \<times> bool) list \<Rightarrow> WClientWebSocket \<Rightarrow> WBuffer list \<times> WClientWebSocket" where
  "ws_receive [] c = ([], c)"
| "ws_receive ((b, final) # fs) c =
     (let (B, c1) = WsHandleReceive b final c; (Bs, c2) = ws_receive fs c1
      in ((case B of None \<Rightarrow> Bs | Some x \<Rightarrow> x # Bs), c2))"

lemma WsHandleReceive_final:
  assumes "length (ReceiveBuffer c @ b) \<le> SIZE_MAX"
  obtains B where "WsHandleReceive b True c = (Some B, c\<lparr>ReceiveBuffer := []\<rparr>)" "buffer_inv B" "GetReadableData B = ReceiveBuffer c @ b"
proof -
  have "buffer_inv (WBuffer_init n)" "WritePos (WBuffer_init n) = 0" "GetReadableData (WBuffer_init n) = []" for n
    by (simp_all add: buffer_inv_def WBuffer_init_def GetReadableData_def GetReadableSize_def)
  then obtain B where "Write (ReceiveBuffer c @ b) (WBuffer_init (length (ReceiveBuffer c @ b))) = Some B" "buffer_inv B"
      "GetReadableData B = ReceiveBuffer c @ b"
    using Write_law [of "WBuffer_init (length (ReceiveBuffer c @ b))" "ReceiveBuffer c @ b"] assms by auto
  then show ?thesis using that by (simp add: WsHandleReceive_def Let_def)
qed

lemma ws_receive_message:
  assumes "fs \<noteq> []" "length (ReceiveBuffer c @ concat fs) \<le> SIZE_MAX"
  obtains B where "ws_receive (ws_fragments fs @ rest) c = (B # fst (ws_receive rest (c\<lparr>ReceiveBuffer := []\<rparr>)), snd (ws_receive rest (c\<lparr>ReceiveBuffer := []\<rparr>)))"
    "GetReadableData B = ReceiveBuffer c @ concat fs"
  using assms
proof (induction fs arbitrary: c thesis rule: ws_fragments.induct)
  case (2 f)
  have len: "length (ReceiveBuffer c @ f) \<le> SIZE_MAX" using 2(3) by simp
  obtain B where B: "WsHandleReceive f True c = (Some B, c\<lparr>ReceiveBuffer := []\<rparr>)" "GetReadableData B = ReceiveBuffer c @ f"
    using WsHandleReceive_final [OF len] by blast
  show ?case by (rule 2(1) [of B]) (use B in \<open>simp_all add: case_prod_unfold Let_def\<close>)
next
  case (3 f g fs)
  let ?c = "c\<lparr>ReceiveBuffer := ReceiveBuffer c @ f\<rparr>"
  have step: "WsHandleReceive f False c = (None, ?c)" by (simp add: WsHandleReceive_def)
  show ?case
    by (rule 3(1) [of ?c]) (use 3(2-4) step in \<open>auto simp: case_prod_unfold\<close>)
qed simp

lemma ws_receive_messages:
  assumes "ReceiveBuffer c = []" "\<forall>fs \<in> set mss. fs \<noteq> [] \<and> length (concat fs) \<le> SIZE_MAX"
  shows "map GetReadableData (fst (ws_receive (concat (map ws_fragments mss)) c)) = map concat mss"
  using assms
proof (induction mss arbitrary: c)
  case (Cons fs mss)
  have fs: "fs \<noteq> []" "length (ReceiveBuffer c @ concat fs) \<le> SIZE_MAX" using Cons.prems by simp_all
  obtain B where B: "ws_receive (ws_fragments fs @ concat (map ws_fragments mss)) c
      = (B # fst (ws_receive (concat (map ws_fragments mss)) (c\<lparr>ReceiveBuffer := []\<rparr>)),
         snd (ws_receive (concat (map ws_fragments mss)) (c\<lparr>ReceiveBuffer := []\<rparr>)))"
    "GetReadableData B = ReceiveBuffer c @ concat fs"
    using ws_receive_message [OF fs] by blast
  then show ?case using Cons.IH [of "c\<lparr>ReceiveBuffer := []\<rparr>"] Cons.prems by simp
qed simp

text \<open>C25. Over a WebSocket the messages that one side takes for sending arrive whole, once and in their order, up to
  those that still wait: sends and write callbacks in any order write a prefix of the messages, and however the
  frames are cut into fragments the other side hands on exactly their contents.\<close>

theorem websocket_delivers_messages:
  assumes "ws_run ops c = (written, taken, c')" and "SendQueue c = []"
    and "map concat fragmented = written" and "\<forall>fs \<in> set fragmented. fs \<noteq> [] \<and> length (concat fs) \<le> SIZE_MAX"
    and "ReceiveBuffer d = []"
  shows "map GetReadableData (fst (ws_receive (concat (map ws_fragments fragmented)) d)) @ SendQueue c' = taken"
  using ws_run_queue [OF assms(1)] assms(2,3) ws_receive_messages [OF assms(5,4)] by simp

section \<open>The client's address\<close>

lemma find_str_here: "find_str n (n @ s) 0 = Some 0"
  by (subst find_str.simps) simp

lemma find_char_None_iff: "find_char d s p = None \<longleftrightarrow> d \<notin> set (drop p s)"
proof
  assume "d \<notin> set (drop p s)"
  then have "takeWhile (\<lambda>x. x \<noteq> d) (drop p s) = drop p s" unfolding takeWhile_eq_all_conv by auto
  then show "find_char d s p = None" by (simp only: find_char_def Let_def) simp
qed (rule find_char_None)

lemma query_of_append: "CHR ''?'' \<notin> set path \<Longrightarrow> query_of (path @ CHR ''?'' # q) = q"
proof -
  assume "CHR ''?'' \<notin> set path"
  then have "takeWhile (\<lambda>c. c \<noteq> CHR ''?'') (path @ CHR ''?'' # q) = path" by (subst takeWhile_append2) auto
  then show ?thesis by (simp add: query_of_def)
qed

text \<open>A client that is given a token is let in by the daemon exactly when it is the daemon's token; without a
  token it is refused. (The path has no query of its own and the token no \<open>&\<close>.)\<close>

theorem websocket_client_let_in:
  assumes "CHR ''?'' \<notin> set path" and "CHR ''&'' \<notin> set AuthToken"
  shows "Authenticated Token (query_of (WithToken AuthToken path)) \<longleftrightarrow> AuthToken \<noteq> [] \<and> AuthToken = Token"
proof (cases "AuthToken = []")
  case True
  have "takeWhile (\<lambda>c. c \<noteq> CHR ''?'') path = path" unfolding takeWhile_eq_all_conv using assms(1) by auto
  then have "query_of path = []" by (simp only: query_of_def) simp
  then show ?thesis using True by (simp add: WithToken_def Authenticated_def)
next
  case False
  have "find_char (CHR ''?'') path 0 = None" using assms(1) by (simp add: find_char_None_iff)
  then have q: "query_of (WithToken AuthToken path) = ''token='' @ AuthToken"
    using False query_of_append [OF assms(1), of "''token='' @ AuthToken"] by (simp add: WithToken_def)
  have "find_char (CHR ''&'') (''token='' @ AuthToken) 6 = None" using assms(2) by (simp add: find_char_None_iff)
  then have "TokenOf (''token='' @ AuthToken) = Some AuthToken"
    using find_str_here [of "''token=''" AuthToken] by (simp add: TokenOf_def)
  then show ?thesis using False q by (simp add: Authenticated_def)
qed

text \<open>An address with a port that is no number, or none after the colon, makes \<^verbatim>\<open>stoi\<close> throw in the thread of the client. A parameter
  whose name ends in \<^verbatim>\<open>token\<close> in front of the token hides it.\<close>

lemma bad_port_throws: "ParseUrl ''ws://host:/x'' = None" "ParseUrl ''ws://host:http'' = None"
  by code_simp+

lemma hidden_token: "Authenticated ''abc'' ''mytoken=1&token=abc'' = False"
  by code_simp

section \<open>A concrete connection\<close>

lemma ws_test_reachable:
  "reachable (\<lambda>s. s = ([], [])) (lws_step ''abc'') ([(7, ''token=abc'')], [(7, snd (WsSendFramed [1] WClientWebSocket_init))])"
    (is "reachable ?I ?S ([(7, ?q)], [(7, ?c)])")
proof -
  have "WebSocketCallback ''abc'' 7 (FilterProtocolConnection ?q) [] = (0, [], [])" by code_simp
  then have req: "?S ([], []) ([(7, ?q)], [])" using lws_step.request [of "''abc''" 7 ?q "[]" 0 "[]" "[]" "[]"] by (simp add: um_keys_def)
  have "WebSocketCallback ''abc'' 7 Established [] = (0, [NewConnection 7], [(7, WClientWebSocket_init)])"
    by (simp add: WebSocketCallback_def RegisterClient_def)
  then have est: "?S ([(7, ?q)], []) ([(7, ?q)], [(7, WClientWebSocket_init)])"
    by (intro lws_step.established) (simp_all add: um_keys_def)
  have snd: "?S ([(7, ?q)], [(7, WClientWebSocket_init)]) ([(7, ?q)], [(7, ?c)])"
    using lws_step.send [of 7 "[(7, WClientWebSocket_init)]" WClientWebSocket_init "''abc''" "[(7, ?q)]" "[1]"] by (simp add: GetClient_def)
  have "reachable ?I ?S ([], [])" by (rule reach_start) simp
  then have "reachable ?I ?S ([(7, ?q)], [])" using req by (rule reach_step)
  then have "reachable ?I ?S ([(7, ?q)], [(7, WClientWebSocket_init)])" using est by (rule reach_step)
  then show ?thesis using snd by (rule reach_step)
qed

lemma ws_test_receive:
  obtains B cs where "WebSocketCallback ''abc'' 7 (Receive [2] True) [(7, snd (WsSendFramed [1] WClientWebSocket_init))]
    = (0, [DataReceived 7 B], cs)"
proof -
  let ?c = "snd (WsSendFramed [1] WClientWebSocket_init)"
  have "ReceiveBuffer ?c = []" by code_simp
  then have "length (ReceiveBuffer ?c @ [2]) \<le> SIZE_MAX" by (simp add: SIZE_MAX_def)
  then obtain B where "WsHandleReceive [2] True ?c = (Some B, ?c\<lparr>ReceiveBuffer := []\<rparr>)" by (rule WsHandleReceive_final)
  then show ?thesis by (intro that [of B]) (simp add: WebSocketCallback_def GetClient_def)
qed

theorem websocket_bytes_are_authenticated_witness:
  "\<exists>pre post. map_of [(7 :: nat, ''token=abc'')] 7 = Some (pre @ ''token='' @ ''abc'' @ post) \<and> (post = [] \<or> hd post = CHR ''&'')"
proof -
  obtain B cs where cb: "WebSocketCallback ''abc'' 7 (Receive [2] True) [(7, snd (WsSendFramed [1] WClientWebSocket_init))]
      = (0, [DataReceived 7 B], cs)" by (rule ws_test_receive)
  show ?thesis by (rule websocket_bytes_are_authenticated [OF ws_test_reachable cb, of 7 B]) simp
qed

theorem websocket_queue_never_stuck_witness: "WriteRequested (snd (WsSendFramed [1] WClientWebSocket_init))"
  by (rule websocket_queue_never_stuck [OF ws_test_reachable, of 7]) (simp add: GetClient_def, code_simp+)

theorem websocket_delivers_messages_witness:
  "map GetReadableData (fst (ws_receive (concat (map ws_fragments [[[1], [2, 3]], [[4]]])) WClientWebSocket_init)) @ [] = [[1, 2, 3], [4]]"
proof -
  have "ws_run [SendOp [1, 2, 3], SendOp [4], WritableOp 3, WritableOp 1] WClientWebSocket_init
      = ([[1, 2, 3], [4]], [[1, 2, 3], [4]], WClientWebSocket_init)" by code_simp
  from websocket_delivers_messages [OF this _ _ _, of "[[[1], [2, 3]], [[4]]]" WClientWebSocket_init]
  show ?thesis by (simp add: WClientWebSocket_init_def SIZE_MAX_def)
qed

theorem websocket_client_let_in_witness: "Authenticated ''abc'' (query_of (WithToken ''abc'' ''/ws''))"
  using websocket_client_let_in [of "''/ws''" "''abc''" "''abc''"] by simp

end
