(* ===== verification/Daemon_Config.thy ===== *)
theory Daemon_Config
  imports Number_Format
begin

text \<open>
  \<^verbatim>\<open>Daemon/DaemonConfig.cpp\<close>: the configuration of the daemon, read from and written back to an INI file at every start and
  written when a client changes it. The INI library is a parameter: a file of type \<open>'f\<close> is read into sections
  and written from them. The network interfaces and the random token come from the environment. Limits, privileges and
  the test for BTF are calls of the system and left out. \<open>std::stoul\<close> and \<open>std::stoi\<close> are \<open>stoul10\<close> and \<open>stoi10\<close>.
\<close>

section \<open>Model\<close>

record WDaemonConfig =
  NetworkInterfaceName :: string
  IngressNetworkInterfaceName :: string
  CGroupPath :: string
  DaemonUser :: string
  DaemonGroup :: string
  DaemonSocketPath :: string
  IpLinkProcSocketPath :: string
  WebSocketAuthToken :: string
  IgnoredConnectionHistoryApps :: "string list"
  IgnoredConnectionHistoryPorts :: "u16 list"
  bFirstTimeSetupRun :: bool
  DaemonSocketMode :: u32
  ConfigPath :: string

definition WDaemonConfig_init :: WDaemonConfig where
  "WDaemonConfig_init = \<lparr>NetworkInterfaceName = [], IngressNetworkInterfaceName = [], CGroupPath = ''/sys/fs/cgroup'',
     DaemonUser = ''nobody'', DaemonGroup = ''nogroup'', DaemonSocketPath = ''/var/run/waechterd.sock'',
     IpLinkProcSocketPath = ''/var/run/waechter-iplink.sock'', WebSocketAuthToken = [], IgnoredConnectionHistoryApps = [],
     IgnoredConnectionHistoryPorts = [], bFirstTimeSetupRun = False, DaemonSocketMode = 432, ConfigPath = []\<rparr>"

type_synonym ini = "(string, (string, string) umap) umap"

record 'f ini_lib =
  ReadIni :: "'f \<Rightarrow> ini option"
  WriteIni :: "ini \<Rightarrow> 'f option \<Rightarrow> 'f option"

record config_env =
  Ifaces :: "string list"
  RandomHex :: string

definition SafeGet :: "ini \<Rightarrow> string \<Rightarrow> string \<Rightarrow> string \<Rightarrow> string" where
  "SafeGet Ini Section Name Val =
     (case map_of Ini Section of None \<Rightarrow> Val
      | Some m \<Rightarrow> (case map_of m Name of None \<Rightarrow> Val | Some v \<Rightarrow> v))"

definition SafeGetInt :: "ini \<Rightarrow> string \<Rightarrow> string \<Rightarrow> int \<Rightarrow> int" where
  "SafeGetInt Ini Section Name Val =
     (let s = SafeGet Ini Section Name [] in
      if s = [] then Val else (case stoi10 s of None \<Rightarrow> Val | Some i \<Rightarrow> i))"

definition SafeGetBool :: "ini \<Rightarrow> string \<Rightarrow> string \<Rightarrow> bool" where
  "SafeGetBool Ini Section Name \<longleftrightarrow> SafeGet Ini Section Name [] = ''true''"

definition auto_interface :: "config_env \<Rightarrow> string \<Rightarrow> string" where
  "auto_interface E Name =
     (if Name = ''auto'' then (case find (\<lambda>i. i \<noteq> ''lo'') (Ifaces E) of None \<Rightarrow> Name | Some i \<Rightarrow> i) else Name)"

definition read_ports :: "string \<Rightarrow> u16 list" where
  "read_ports s = map ucast (List.map_filter stoul10 (SplitString s (CHR '';'')))"

text \<open>Both lists are read into the string of the application names, as the source does.\<close>

definition load_ini :: "config_env \<Rightarrow> ini \<Rightarrow> WDaemonConfig \<Rightarrow> WDaemonConfig" where
  "load_ini E Ini cfg =
     (let Main = auto_interface E (SafeGet Ini ''network'' ''interface'' (NetworkInterfaceName cfg));
          Ingress0 = SafeGet Ini ''network'' ''ingress_interface'' (IngressNetworkInterfaceName cfg);
          Token = SafeGet Ini ''daemon'' ''websocket_auth_token'' (WebSocketAuthToken cfg);
          AppNames0 = SafeGet Ini ''daemon'' ''ignored_connection_history_app_names'' [];
          AppNames = SafeGet Ini ''daemon'' ''ignored_connection_history_remote_ports'' AppNames0;
          PortNames = []
      in cfg\<lparr>NetworkInterfaceName := Main,
           IngressNetworkInterfaceName := (if Ingress0 = ''auto'' then Main else Ingress0),
           CGroupPath := SafeGet Ini ''network'' ''cgroup_path'' (CGroupPath cfg),
           DaemonUser := SafeGet Ini ''daemon'' ''user'' (DaemonUser cfg),
           DaemonGroup := SafeGet Ini ''daemon'' ''group'' (DaemonGroup cfg),
           DaemonSocketPath := SafeGet Ini ''daemon'' ''socket_path'' (DaemonSocketPath cfg),
           IpLinkProcSocketPath := SafeGet Ini ''daemon'' ''ip_proc_socket_path'' (IpLinkProcSocketPath cfg),
           WebSocketAuthToken := (if Token = [] \<or> Token = ''change_me'' then RandomHex E else Token),
           bFirstTimeSetupRun := SafeGetBool Ini ''daemon'' ''first_time_setup_run'',
           DaemonSocketMode := word_of_int (SafeGetInt Ini ''daemon'' ''socket_permissions'' (sint (DaemonSocketMode cfg))),
           IgnoredConnectionHistoryApps := SplitString AppNames (CHR '';''),
           IgnoredConnectionHistoryPorts := IgnoredConnectionHistoryPorts cfg @ read_ports PortNames\<rparr>)"

definition Load :: "'f ini_lib \<Rightarrow> config_env \<Rightarrow> 'f \<Rightarrow> string \<Rightarrow> WDaemonConfig \<Rightarrow> WDaemonConfig" where
  "Load L E File Path cfg =
     (case ReadIni L File of None \<Rightarrow> cfg | Some Ini \<Rightarrow> (load_ini E Ini cfg)\<lparr>ConfigPath := Path\<rparr>)"

definition config_ini :: "WDaemonConfig \<Rightarrow> ini" where
  "config_ini cfg =
     [(''network'', [(''interface'', NetworkInterfaceName cfg), (''ingress_interface'', IngressNetworkInterfaceName cfg),
        (''cgroup_path'', CGroupPath cfg)]),
      (''daemon'', [(''user'', DaemonUser cfg), (''group'', DaemonGroup cfg), (''socket_path'', DaemonSocketPath cfg),
        (''ip_proc_socket_path'', IpLinkProcSocketPath cfg), (''websocket_auth_token'', WebSocketAuthToken cfg),
        (''socket_permissions'', to_string (unat (DaemonSocketMode cfg))),
        (''ignored_connection_history_app_names'', JoinStrings (IgnoredConnectionHistoryApps cfg) (CHR '';'')),
        (''ignored_connection_history_remote_ports'',
           JoinStrings (map (\<lambda>p. to_string (unat p)) (IgnoredConnectionHistoryPorts cfg)) (CHR '';'')),
        (''first_time_setup_run'', if bFirstTimeSetupRun cfg then ''true'' else ''false'')])]"

text \<open>The files by path; writing tells whether it worked.\<close>

type_synonym 'f files = "(string, 'f) umap"

definition WriteConfig :: "'f ini_lib \<Rightarrow> WDaemonConfig \<Rightarrow> 'f files \<Rightarrow> bool \<times> 'f files" where
  "WriteConfig L cfg fs =
     (case WriteIni L (config_ini cfg) (map_of fs (ConfigPath cfg)) of
        None \<Rightarrow> (False, fs)
      | Some f \<Rightarrow> (True, AList.update (ConfigPath cfg) f fs))"

definition SetDefaults :: "config_env \<Rightarrow> WDaemonConfig \<Rightarrow> WDaemonConfig" where
  "SetDefaults E cfg =
     (let Name = (case Ifaces E of [] \<Rightarrow> ''eth0'' | [i] \<Rightarrow> i | _ # i # _ \<Rightarrow> i)
      in cfg\<lparr>NetworkInterfaceName := Name, IngressNetworkInterfaceName := Name\<rparr>)"

abbreviation local_ini :: string where "local_ini \<equiv> ''./waechterd.ini''"
abbreviation system_ini :: string where "system_ini \<equiv> ''/etc/waechter/waechterd.ini''"

definition StartConfig :: "'f ini_lib \<Rightarrow> config_env \<Rightarrow> 'f files \<Rightarrow> WDaemonConfig \<times> 'f files" where
  "StartConfig L E fs =
     (let cfg0 = SetDefaults E WDaemonConfig_init;
          cfg1 = (case map_of fs local_ini of
              Some f \<Rightarrow> Load L E f local_ini cfg0
            | None \<Rightarrow>
                (case map_of fs system_ini of
                   Some f \<Rightarrow> Load L E f system_ini cfg0
                 | None \<Rightarrow> cfg0\<lparr>ConfigPath := [], bFirstTimeSetupRun := True\<rparr>));
          (ok, fs1) = WriteConfig L cfg1 fs
      in (if ok then cfg1 else cfg1\<lparr>bFirstTimeSetupRun := True\<rparr>, fs1))"

record WDaemonConfigMessage =
  MsgNetworkInterfaces :: "string list"
  MsgFirstTimeSetupRan :: bool
  MsgSocketPath :: string
  MsgDaemonUser :: string
  MsgDaemonGroup :: string
  MsgMainInterface :: string
  MsgVpnInterface :: string
  MsgSocketMode :: int

definition HandleConfigMessage :: "'f ini_lib \<Rightarrow> (u8 list \<Rightarrow> WDaemonConfigMessage option) \<Rightarrow> u8 list
    \<Rightarrow> WDaemonConfig \<times> 'f files \<Rightarrow> WDaemonConfig \<times> 'f files" where
  "HandleConfigMessage L decode Buf st =
     (let (cfg, fs) = st in
      case decode Buf of None \<Rightarrow> (cfg, fs)
      | Some M \<Rightarrow>
          let cfg1 = cfg\<lparr>NetworkInterfaceName := MsgMainInterface M, IngressNetworkInterfaceName := MsgVpnInterface M,
                DaemonSocketPath := MsgSocketPath M, DaemonUser := MsgDaemonUser M, DaemonGroup := MsgDaemonGroup M,
                DaemonSocketMode := word_of_int (MsgSocketMode M), bFirstTimeSetupRun := True\<rparr>
          in (cfg1, snd (WriteConfig L cfg1 fs)))"

section \<open>What the INI library promises\<close>

text \<open>What is read holds no line breaks and zero bytes. A file that was written reads back as the values it was written
  from, with blanks around them removed; sections and keys that were in the file keep their place, so the order
  may differ. The keys are in lower case and the values free of line breaks.\<close>

definition trim_blanks :: "string \<Rightarrow> string" where
  "trim_blanks s = rev (dropWhile is_space (rev (dropWhile is_space s)))"

definition clean_ini :: "ini \<Rightarrow> ini" where
  "clean_ini = map (\<lambda>(s, m). (s, map (\<lambda>(k, v). (k, trim_blanks v)) m))"

definition one_line :: "string \<Rightarrow> bool" where
  "one_line s \<longleftrightarrow> CHR 0x0A \<notin> set s \<and> CHR 0x0D \<notin> set s \<and> CHR 0x00 \<notin> set s"

definition key_word :: "string \<Rightarrow> bool" where
  "key_word s \<longleftrightarrow> s \<noteq> [] \<and> list_all (\<lambda>c. c \<in> set ''abcdefghijklmnopqrstuvwxyz_'') s"

definition ini_one_line :: "ini \<Rightarrow> bool" where
  "ini_one_line Ini \<longleftrightarrow> list_all (\<lambda>(s, m). list_all (\<lambda>(k, v). one_line v) m) Ini"

definition ini_keys :: "ini \<Rightarrow> bool" where
  "ini_keys Ini \<longleftrightarrow> distinct (map fst Ini) \<and> list_all (\<lambda>(s, m). key_word s \<and> distinct (map fst m) \<and> list_all (\<lambda>(k, v). key_word k) m) Ini"

definition same_values :: "ini \<Rightarrow> ini \<Rightarrow> bool" where
  "same_values I J \<longleftrightarrow> (\<forall>s k d. SafeGet I s k d = SafeGet J s k d)"

definition ini_laws :: "'f ini_lib \<Rightarrow> bool" where
  "ini_laws L \<longleftrightarrow> (\<forall>f Ini. ReadIni L f = Some Ini \<longrightarrow> ini_one_line Ini)
     \<and> (\<forall>Ini f f'. ini_one_line Ini \<longrightarrow> ini_keys Ini \<longrightarrow> WriteIni L Ini f = Some f' \<longrightarrow>
          (\<exists>Ini'. ReadIni L f' = Some Ini' \<and> same_values Ini' (clean_ini Ini)))"

definition plain :: "string \<Rightarrow> bool" where
  "plain s \<longleftrightarrow> trim_blanks s = s"

definition config_plain :: "WDaemonConfig \<Rightarrow> bool" where
  "config_plain cfg \<longleftrightarrow> ini_one_line (config_ini cfg) \<and> list_all plain [NetworkInterfaceName cfg, IngressNetworkInterfaceName cfg, CGroupPath cfg, DaemonUser cfg,
     DaemonGroup cfg, DaemonSocketPath cfg, IpLinkProcSocketPath cfg, WebSocketAuthToken cfg]
     \<and> NetworkInterfaceName cfg \<noteq> ''auto'' \<and> IngressNetworkInterfaceName cfg \<noteq> ''auto''
     \<and> WebSocketAuthToken cfg \<noteq> [] \<and> WebSocketAuthToken cfg \<noteq> ''change_me'' \<and> unat (DaemonSocketMode cfg) < 2 ^ 31"

section \<open>Round trip\<close>

lemma config_ini_keys: "ini_keys (config_ini cfg)"
  unfolding ini_keys_def config_ini_def by code_simp

lemma written_ini:
  assumes "ini_laws L" "WriteIni L (config_ini cfg) f = Some f'" "ini_one_line (config_ini cfg)"
  obtains Ini where "ReadIni L f' = Some Ini" "same_values Ini (clean_ini (config_ini cfg))" "ini_one_line Ini"
  using assms config_ini_keys unfolding ini_laws_def by metis

lemma load_ini_same: "same_values I J \<Longrightarrow> load_ini E I cfg = load_ini E J cfg"
  by (simp add: load_ini_def same_values_def SafeGetInt_def SafeGetBool_def)

lemma map_of_clean: "map_of (map (\<lambda>(k, v). (k, trim_blanks v)) m) k = map_option trim_blanks (map_of m k)"
  by (induction m) auto

lemma SafeGet_clean:
  assumes "map_of Ini Section = Some m" "map_of m Name = Some v"
  shows "SafeGet (clean_ini Ini) Section Name d = trim_blanks v"
proof -
  have "map_of (clean_ini Ini) Section = Some (map (\<lambda>(k, v). (k, trim_blanks v)) m)"
    using assms(1) by (induction Ini) (auto simp: clean_ini_def)
  then show ?thesis using assms(2) by (simp add: SafeGet_def map_of_clean)
qed

lemma trim_digits: "trim_blanks (to_string n) = to_string n"
proof -
  have "\<not> is_space (last (to_string n))" using digit_char to_string_digits by (metis last_in_set to_string_nonempty)
  then have "dropWhile is_space (rev (to_string n)) = rev (to_string n)"
    by (cases "rev (to_string n)") (auto simp: rev_swap)
  then show ?thesis unfolding trim_blanks_def dropWhile_to_string by simp
qed


lemma written_section:
  "map_of (config_ini cfg) ''network'' = Some [(''interface'', NetworkInterfaceName cfg), (''ingress_interface'', IngressNetworkInterfaceName cfg),
        (''cgroup_path'', CGroupPath cfg)]"
  "map_of (config_ini cfg) ''daemon'' = Some [(''user'', DaemonUser cfg), (''group'', DaemonGroup cfg), (''socket_path'', DaemonSocketPath cfg),
        (''ip_proc_socket_path'', IpLinkProcSocketPath cfg), (''websocket_auth_token'', WebSocketAuthToken cfg),
        (''socket_permissions'', to_string (unat (DaemonSocketMode cfg))),
        (''ignored_connection_history_app_names'', JoinStrings (IgnoredConnectionHistoryApps cfg) (CHR '';'')),
        (''ignored_connection_history_remote_ports'',
           JoinStrings (map (\<lambda>p. to_string (unat p)) (IgnoredConnectionHistoryPorts cfg)) (CHR '';'')),
        (''first_time_setup_run'', if bFirstTimeSetupRun cfg then ''true'' else ''false'')]"
  by (simp_all add: config_ini_def)

lemma written_values:
  "SafeGet (clean_ini (config_ini cfg)) ''network'' ''interface'' d = trim_blanks (NetworkInterfaceName cfg)"
  "SafeGet (clean_ini (config_ini cfg)) ''network'' ''ingress_interface'' d = trim_blanks (IngressNetworkInterfaceName cfg)"
  "SafeGet (clean_ini (config_ini cfg)) ''network'' ''cgroup_path'' d = trim_blanks (CGroupPath cfg)"
  "SafeGet (clean_ini (config_ini cfg)) ''daemon'' ''user'' d = trim_blanks (DaemonUser cfg)"
  "SafeGet (clean_ini (config_ini cfg)) ''daemon'' ''group'' d = trim_blanks (DaemonGroup cfg)"
  "SafeGet (clean_ini (config_ini cfg)) ''daemon'' ''socket_path'' d = trim_blanks (DaemonSocketPath cfg)"
  "SafeGet (clean_ini (config_ini cfg)) ''daemon'' ''ip_proc_socket_path'' d = trim_blanks (IpLinkProcSocketPath cfg)"
  "SafeGet (clean_ini (config_ini cfg)) ''daemon'' ''websocket_auth_token'' d = trim_blanks (WebSocketAuthToken cfg)"
  "SafeGet (clean_ini (config_ini cfg)) ''daemon'' ''socket_permissions'' d = to_string (unat (DaemonSocketMode cfg))"
  "SafeGet (clean_ini (config_ini cfg)) ''daemon'' ''ignored_connection_history_remote_ports'' d
     = trim_blanks (JoinStrings (map (\<lambda>p. to_string (unat p)) (IgnoredConnectionHistoryPorts cfg)) (CHR '';''))"
  "SafeGet (clean_ini (config_ini cfg)) ''daemon'' ''first_time_setup_run'' d = (if bFirstTimeSetupRun cfg then ''true'' else ''false'')"
  by (simp_all add: SafeGet_clean [OF written_section(1)] SafeGet_clean [OF written_section(2)] trim_digits)
     (simp add: trim_blanks_def)

lemma read_ports_Nil [simp]: "read_ports [] = []"
  by (simp add: read_ports_def SplitString_def List.map_filter_simps)


section \<open>Two starts\<close>

definition first_load :: "config_env \<Rightarrow> ini \<Rightarrow> WDaemonConfig" where
  "first_load E Ini = (load_ini E Ini (SetDefaults E WDaemonConfig_init))\<lparr>ConfigPath := system_ini\<rparr>"

lemma start_system:
  assumes "map_of fs local_ini = None" "map_of fs system_ini = Some f" "ReadIni L f = Some Ini" "\<And>I g. WriteIni L I g \<noteq> None"
  obtains f1 where "StartConfig L E fs = (first_load E Ini, AList.update system_ini f1 fs)"
    "WriteIni L (config_ini (first_load E Ini)) (Some f) = Some f1"
proof -
  obtain f1 where f1: "WriteIni L (config_ini (first_load E Ini)) (Some f) = Some f1" using assms(4) by blast
  have "ConfigPath (first_load E Ini) = system_ini" by (simp add: first_load_def)
  then have "WriteConfig L (first_load E Ini) fs = (True, AList.update system_ini f1 fs)"
    using assms(2) f1 by (simp add: WriteConfig_def)
  moreover have "Load L E f system_ini (SetDefaults E WDaemonConfig_init) = first_load E Ini"
    by (simp add: Load_def first_load_def assms(3))
  ultimately have "StartConfig L E fs = (first_load E Ini, AList.update system_ini f1 fs)"
    using assms(1,2) by (simp add: StartConfig_def Let_def)
  then show ?thesis using that f1 by blast
qed

text \<open>Everything the daemon writes after a start is free of line breaks.\<close>

definition env_one_line :: "config_env \<Rightarrow> bool" where
  "env_one_line E \<longleftrightarrow> list_all one_line (Ifaces E) \<and> one_line (RandomHex E)"

lemma one_line_subset: "set s \<subseteq> set t \<Longrightarrow> one_line t \<Longrightarrow> one_line s"
  by (auto simp: one_line_def)

lemma if_one_line: "one_line a \<Longrightarrow> one_line b \<Longrightarrow> one_line (if P then a else b)"
  by simp

lemma SafeGet_one_line: "ini_one_line Ini \<Longrightarrow> one_line d \<Longrightarrow> one_line (SafeGet Ini s k d)"
  by (auto simp: SafeGet_def ini_one_line_def list_all_iff dest!: map_of_SomeD split: option.splits)

lemma set_join_with: "x \<in> set xs \<Longrightarrow> set x \<subseteq> set (join_with d xs)"
  by (induction d xs rule: join_with.induct) auto

lemma SplitString_one_line: "one_line s \<Longrightarrow> x \<in> set (SplitString s d) \<Longrightarrow> one_line x"
  by (metis set_join_with SplitString_roundtrip one_line_subset)

lemma set_JoinStrings: "set (JoinStrings xs d) \<subseteq> (\<Union>x \<in> set xs. set x) \<union> {d, CHR '' ''}"
  by (induction xs d rule: JoinStrings.induct) auto

lemma JoinStrings_one_line: "\<forall>x \<in> set xs. one_line x \<Longrightarrow> one_line (JoinStrings xs (CHR '';''))"
  using set_JoinStrings [of xs "CHR '';''"] by (auto simp: one_line_def)

lemma SetDefaults_one_line: "env_one_line E \<Longrightarrow> one_line (NetworkInterfaceName (SetDefaults E WDaemonConfig_init))"
  by (cases "Ifaces E") (auto simp: SetDefaults_def env_one_line_def one_line_def Let_def split: list.split)

lemma auto_interface_one_line: "env_one_line E \<Longrightarrow> one_line s \<Longrightarrow> one_line (auto_interface E s)"
  by (auto simp: auto_interface_def env_one_line_def list_all_iff find_Some_iff split: option.split)

lemma to_string_one_line: "one_line (to_string n)"
proof -
  have "\<not> is_digit 10 (CHR 0x0A)" "\<not> is_digit 10 (CHR 0x0D)" "\<not> is_digit 10 (CHR 0x00)" by code_simp+
  then show ?thesis using to_string_digits [of _ n] unfolding one_line_def by blast
qed

lemma config_one_line:
  "ini_one_line (config_ini cfg) \<longleftrightarrow> list_all one_line [NetworkInterfaceName cfg, IngressNetworkInterfaceName cfg, CGroupPath cfg, DaemonUser cfg,
     DaemonGroup cfg, DaemonSocketPath cfg, IpLinkProcSocketPath cfg, WebSocketAuthToken cfg, JoinStrings (IgnoredConnectionHistoryApps cfg) (CHR '';'')]"
proof -
  have "one_line ''true''" "one_line ''false''" by code_simp+
  moreover have "one_line (JoinStrings (map (\<lambda>p. to_string (unat p)) (IgnoredConnectionHistoryPorts cfg)) (CHR '';''))"
    by (rule JoinStrings_one_line) (auto simp: to_string_one_line)
  ultimately show ?thesis by (auto simp: ini_one_line_def config_ini_def to_string_one_line)
qed

lemma first_load_one_line:
  assumes "env_one_line E" "ini_one_line Ini"
  shows "ini_one_line (config_ini (first_load E Ini))"
proof -
  let ?d = "SetDefaults E WDaemonConfig_init"
  have d: "list_all one_line [NetworkInterfaceName ?d, IngressNetworkInterfaceName ?d, CGroupPath ?d, DaemonUser ?d,
     DaemonGroup ?d, DaemonSocketPath ?d, IpLinkProcSocketPath ?d, WebSocketAuthToken ?d, RandomHex E, []]"
    using SetDefaults_one_line [OF assms(1)] assms(1)
    by (simp add: SetDefaults_def WDaemonConfig_init_def Let_def env_one_line_def one_line_def)
  note get = SafeGet_one_line [OF assms(2)]
  have "one_line (JoinStrings (SplitString (SafeGet Ini s k (SafeGet Ini s2 k2 [])) (CHR '';'')) (CHR '';''))" for s k s2 k2
  proof (rule JoinStrings_one_line)
    have "one_line (SafeGet Ini s k (SafeGet Ini s2 k2 []))" using d by (intro get) simp
    then show "\<forall>x \<in> set (SplitString (SafeGet Ini s k (SafeGet Ini s2 k2 [])) (CHR '';'')). one_line x" using SplitString_one_line by blast
  qed
  then show ?thesis
    using d by (simp add: config_one_line first_load_def load_ini_def Let_def auto_interface_one_line [OF assms(1)] get)
qed

lemma two_starts:
  assumes laws: "ini_laws L" and writable: "\<And>I g. WriteIni L I g \<noteq> None" and env: "env_one_line E"
    and files: "map_of fs local_ini = None" "map_of fs system_ini = Some f" "ReadIni L f = Some Ini"
  shows "fst (StartConfig L E fs) = first_load E Ini"
    and "fst (StartConfig L E2 (snd (StartConfig L E fs))) = first_load E2 (clean_ini (config_ini (first_load E Ini)))"
proof -
  obtain f1 where f1: "StartConfig L E fs = (first_load E Ini, AList.update system_ini f1 fs)"
    "WriteIni L (config_ini (first_load E Ini)) (Some f) = Some f1"
    using start_system [OF files writable] by blast
  have "ini_one_line Ini" using laws files(3) unfolding ini_laws_def by blast
  then have "ini_one_line (config_ini (first_load E Ini))" by (rule first_load_one_line [OF env])
  then obtain I1 where read: "ReadIni L f1 = Some I1" and same: "same_values I1 (clean_ini (config_ini (first_load E Ini)))"
    using written_ini [OF laws f1(2)] by blast
  have "map_of (AList.update system_ini f1 fs) local_ini = None" "map_of (AList.update system_ini f1 fs) system_ini = Some f1"
    using files(1) by simp_all
  from start_system [OF this read writable]
  have "fst (StartConfig L E2 (AList.update system_ini f1 fs)) = first_load E2 I1" by (metis fst_conv)
  then show "fst (StartConfig L E fs) = first_load E Ini"
    "fst (StartConfig L E2 (snd (StartConfig L E fs))) = first_load E2 (clean_ini (config_ini (first_load E Ini)))"
    using f1(1) same by (simp_all add: first_load_def load_ini_same)
qed

lemma first_load_fields:
  "IgnoredConnectionHistoryPorts (first_load E Ini) = []"
  "IgnoredConnectionHistoryApps (first_load E Ini) = SplitString (SafeGet Ini ''daemon'' ''ignored_connection_history_remote_ports''
     (SafeGet Ini ''daemon'' ''ignored_connection_history_app_names'' [])) (CHR '';'')"
  "WebSocketAuthToken (first_load E Ini) = (let T = SafeGet Ini ''daemon'' ''websocket_auth_token'' [] in
     if T = [] \<or> T = ''change_me'' then RandomHex E else T)"
  by (simp_all add: first_load_def load_ini_def Let_def SetDefaults_def WDaemonConfig_init_def)

text \<open>Whatever a user has the history ignore, after two starts the daemon ignores no application and no port, and
  the file says so: the first start reads the ports as names and writes an empty list of ports, the second one reads
  that empty list as the names.\<close>

theorem ignored_lists_lost:
  assumes "ini_laws L" and "\<And>I g. WriteIni L I g \<noteq> None" and "env_one_line E"
    and "map_of fs local_ini = None" and "map_of fs system_ini = Some f" and "ReadIni L f = Some Ini"
    and "StartConfig L E fs = (cfg1, fs1)" and "StartConfig L E2 fs1 = (cfg2, fs2)"
  shows "IgnoredConnectionHistoryPorts cfg1 = [] \<and> IgnoredConnectionHistoryPorts cfg2 = [] \<and> IgnoredConnectionHistoryApps cfg2 = []"
proof -
  have "cfg1 = first_load E Ini" "cfg2 = first_load E2 (clean_ini (config_ini (first_load E Ini)))"
    using two_starts(1) [OF assms(1-6)] two_starts(2) [OF assms(1-6), of E2] assms(7,8) by simp_all
  then show ?thesis
    by (simp add: first_load_fields written_values) (simp add: trim_blanks_def SplitString_def)
qed

text \<open>The token that a start generates for an unchanged configuration is written to the file and is the token of
  the next start, although the file says that every start generates a new one.\<close>

theorem generated_token_kept:
  assumes "ini_laws L" and "\<And>I g. WriteIni L I g \<noteq> None" and "env_one_line E"
    and "map_of fs local_ini = None" and "map_of fs system_ini = Some f" and "ReadIni L f = Some Ini"
    and "SafeGet Ini ''daemon'' ''websocket_auth_token'' [] \<in> {[], ''change_me''}"
    and "plain (RandomHex E)" and "RandomHex E \<noteq> []" and "RandomHex E \<noteq> ''change_me''"
    and "StartConfig L E fs = (cfg1, fs1)" and "StartConfig L E2 fs1 = (cfg2, fs2)"
  shows "WebSocketAuthToken cfg1 = RandomHex E \<and> WebSocketAuthToken cfg2 = RandomHex E"
proof -
  have "cfg1 = first_load E Ini" "cfg2 = first_load E2 (clean_ini (config_ini (first_load E Ini)))"
    using two_starts(1) [OF assms(1-6)] two_starts(2) [OF assms(1-6), of E2] assms(11,12) by simp_all
  then show ?thesis using assms(7-10) by (auto simp: first_load_fields written_values plain_def Let_def)
qed

text \<open>The permissions 660 of the packaged file are a decimal number, so the mode of the socket is 01224.\<close>

lemma packaged_mode: "SafeGetInt [(''daemon'', [(''socket_permissions'', ''660'')])] ''daemon'' ''socket_permissions'' 432 = 660"
  "(660 :: int) = 1 * 512 + 2 * 64 + 2 * 8 + 4"
   apply code_simp
  apply simp
  done

section \<open>A concrete library\<close>

text \<open>A file is its sections, written with the values trimmed.\<close>

definition test_ini_lib :: "ini ini_lib" where
  "test_ini_lib = \<lparr>ReadIni = (\<lambda>I. if ini_one_line I then Some I else None), WriteIni = (\<lambda>I _. Some (clean_ini I))\<rparr>"

definition test_ini :: ini where
  "test_ini = [(''daemon'', [(''ignored_connection_history_app_names'', ''unbound''),
     (''ignored_connection_history_remote_ports'', ''53''), (''websocket_auth_token'', ''change_me'')])]"

definition test_env :: config_env where
  "test_env = \<lparr>Ifaces = [''lo'', ''eth0''], RandomHex = ''abc123''\<rparr>"

lemma clean_one_line: "ini_one_line I \<Longrightarrow> ini_one_line (clean_ini I)"
proof -
  have "set (trim_blanks v) \<subseteq> set v" for v unfolding trim_blanks_def by (auto dest!: set_dropWhileD)
  then have "one_line v \<Longrightarrow> one_line (trim_blanks v)" for v by (rule one_line_subset)
  then show "ini_one_line I \<Longrightarrow> ini_one_line (clean_ini I)" by (fastforce simp: ini_one_line_def clean_ini_def list_all_iff)
qed

lemma test_ini_laws:
  "ini_laws test_ini_lib" "WriteIni test_ini_lib I g \<noteq> None" "env_one_line test_env" "ReadIni test_ini_lib test_ini = Some test_ini"
proof -
  show "ini_laws test_ini_lib" by (auto simp: ini_laws_def test_ini_lib_def same_values_def clean_one_line)
  show "WriteIni test_ini_lib I g \<noteq> None" by (simp add: test_ini_lib_def)
  show "env_one_line test_env" by code_simp
  have "ini_one_line test_ini" by code_simp
  then show "ReadIni test_ini_lib test_ini = Some test_ini" by (simp add: test_ini_lib_def)
qed

lemma test_files: "map_of [(system_ini, test_ini)] local_ini = None" "map_of [(system_ini, test_ini)] system_ini = Some test_ini"
  by simp_all


theorem ignored_lists_lost_witness:
  "IgnoredConnectionHistoryApps (fst (StartConfig test_ini_lib test_env (snd (StartConfig test_ini_lib test_env [(system_ini, test_ini)])))) = []"
  using ignored_lists_lost [OF test_ini_laws(1,2,3) test_files test_ini_laws(4) surjective_pairing surjective_pairing] by blast

theorem generated_token_kept_witness:
  "WebSocketAuthToken (fst (StartConfig test_ini_lib test_env (snd (StartConfig test_ini_lib test_env [(system_ini, test_ini)])))) = ''abc123''"
proof -
  have "SafeGet test_ini ''daemon'' ''websocket_auth_token'' [] \<in> {[], ''change_me''}" by code_simp
  moreover have "plain (RandomHex test_env)" "RandomHex test_env = ''abc123''" by (simp_all add: plain_def trim_blanks_def test_env_def)
  ultimately show ?thesis
    using generated_token_kept [OF test_ini_laws(1,2,3) test_files test_ini_laws(4) _ _ _ _ surjective_pairing surjective_pairing] by simp
qed

end
