(* ===== verification/Daemon_Socket.thy ===== *)
theory Daemon_Socket
  imports Web_Socket Daemon_Config Client_Socket Connection_History
begin

text \<open>
  \<^verbatim>\<open>Daemon/Communication/DaemonSocket.cpp\<close>, \<^verbatim>\<open>DaemonClient.hpp\<close> and the periodic broadcasts of \<^verbatim>\<open>Daemon/Daemon.cpp\<close>: the list of
  clients and what is sent to them. A connection is reached through the interface \<^verbatim>\<open>IClientSocket\<close>, a record of functions with
  two instances, on the sockets of \<open>Client_Socket\<close> and on those of \<open>Web_Socket\<close>. The mutexes that the calling thread holds
  are an argument: taking one of them again, which \<^verbatim>\<open>std::mutex\<close> does not allow, is a deadlock of the thread, and a
  \<^verbatim>\<open>send\<close> that does not return blocks it. The payloads that cereal writes are arguments.
\<close>

section \<open>Connections\<close>

record 'c client_link =
  LinkIsConnected :: "'c \<Rightarrow> bool"
  LinkSendFramed :: "u8 list \<Rightarrow> 'c \<Rightarrow> (int \<times> 'c) option"
  LinkClose :: "'c \<Rightarrow> 'c"
  LinkClosedEvents :: "'c \<Rightarrow> nat"

text \<open>A Unix socket with the answers \<^verbatim>\<open>send\<close> will give; \<open>None\<close> is a call that has not returned when they are used up.\<close>

definition unix_link :: "(WClientSocket \<times> send_answer list) client_link" where
  "unix_link = \<lparr>
     LinkIsConnected = (\<lambda>(s, answers). IsConnected s),
     LinkSendFramed = (\<lambda>Msg (s, answers). case SendFramed answers s Msg of
         None \<Rightarrow> None
       | Some (ok, s1, answers1) \<Rightarrow> Some (if ok then int (length Msg) else - 1, (s1, answers1))),
     LinkClose = (\<lambda>(s, answers). (CloseSocket s, answers)),
     LinkClosedEvents = (\<lambda>(s, answers). ClosedEvents s)\<rparr>"

definition ws_link :: "WClientWebSocket client_link" where
  "ws_link = \<lparr>LinkIsConnected = WsIsConnected, LinkSendFramed = (\<lambda>Msg c. Some (WsSendFramed Msg c)),
     LinkClose = WsClose, LinkClosedEvents = (\<lambda>_. 0)\<rparr>"

section \<open>The clients of the daemon\<close>

text \<open>The objects of the connections and the list of clients, which refers to them by position.\<close>

record 'c daemon_socket =
  Conns :: "'c list"
  Clients :: "nat list"
  bHasClients :: bool

datatype stuck = SelfDeadlock | SendBlocked
datatype mutex = ClientsMutex | SinkMutex
datatype log_level = LogDebug | LogInfo | LogWarn | LogError

type_synonym 'c logger = "log_level \<Rightarrow> string \<Rightarrow> 'c daemon_socket \<Rightarrow> stuck + 'c daemon_socket"

record 'c comm_env =
  ClientLink :: "'c client_link"
  LogPayload :: "log_level \<Rightarrow> string \<Rightarrow> u8 list"
  StrError :: string

text \<open>The first byte of a message is its type.\<close>

definition SerializeMessage :: "int \<Rightarrow> u8 list \<Rightarrow> u8 list" where
  "SerializeMessage Type Payload = word_of_int Type # Payload"

abbreviation "MT_TrafficTree \<equiv> 0 :: int"
abbreviation "MT_TrafficTreeUpdate \<equiv> 1 :: int"
abbreviation "MT_AppIconAtlasData \<equiv> 2 :: int"
abbreviation "MT_RuleUpdate \<equiv> 3 :: int"
abbreviation "MT_Handshake \<equiv> 4 :: int"
abbreviation "MT_ConnectionHistory \<equiv> 5 :: int"
abbreviation "MT_ConnectionHistoryUpdate \<equiv> 6 :: int"
abbreviation "MT_MemoryStats \<equiv> 7 :: int"
abbreviation "MT_DaemonConfig \<equiv> 17 :: int"
abbreviation "MT_DaemonLog \<equiv> 18 :: int"

definition and_then :: "'e + 'a \<Rightarrow> ('a \<Rightarrow> 'e + 'b) \<Rightarrow> 'e + 'b" where
  "and_then x f = (case x of Inl e \<Rightarrow> Inl e | Inr a \<Rightarrow> f a)"

text \<open>A connection that closes emits its signal, on which the client logs.\<close>

definition notify_closed :: "'c client_link \<Rightarrow> 'c logger \<Rightarrow> 'c \<Rightarrow> 'c \<Rightarrow> 'c daemon_socket \<Rightarrow> stuck + 'c daemon_socket" where
  "notify_closed L lg c c' s =
     (if LinkClosedEvents L c' \<noteq> LinkClosedEvents L c then lg LogInfo ''Client disconnected'' s else Inr s)"

definition CloseClient :: "'c client_link \<Rightarrow> 'c logger \<Rightarrow> nat \<Rightarrow> 'c daemon_socket \<Rightarrow> stuck + 'c daemon_socket" where
  "CloseClient L lg i s =
     (let c = Conns s ! i; c' = LinkClose L c in notify_closed L lg c c' (s\<lparr>Conns := (Conns s)[i := c']\<rparr>))"

definition SendFramedData :: "'c client_link \<Rightarrow> 'c logger \<Rightarrow> u8 list \<Rightarrow> nat \<Rightarrow> 'c daemon_socket \<Rightarrow> stuck + int \<times> 'c daemon_socket" where
  "SendFramedData L lg Msg i s =
     (let c = Conns s ! i in
      if \<not> LinkIsConnected L c then Inr (0, s)
      else case LinkSendFramed L Msg c of
          None \<Rightarrow> Inl SendBlocked
        | Some (r, c') \<Rightarrow>
            and_then (notify_closed L lg c c' (s\<lparr>Conns := (Conns s)[i := c']\<rparr>)) (\<lambda>s1. Inr (r, s1)))"

definition SendMessage :: "'c client_link \<Rightarrow> 'c logger \<Rightarrow> string \<Rightarrow> u8 list \<Rightarrow> nat \<Rightarrow> 'c daemon_socket \<Rightarrow> stuck + int \<times> 'c daemon_socket" where
  "SendMessage L lg Errno Msg i s =
     and_then (SendFramedData L lg Msg i s) (\<lambda>(Sent, s1).
       if Sent < 0 then and_then (lg LogError (''Failed to send message to client: '' @ Errno) s1) (\<lambda>s2. Inr (Sent, s2))
       else Inr (Sent, s1))"

text \<open>The loop of the broadcasts; \<open>send\<close> is one of the two above.\<close>

definition send_or_close :: "'c client_link \<Rightarrow> 'c logger \<Rightarrow> string \<Rightarrow> (nat \<Rightarrow> 'c daemon_socket \<Rightarrow> stuck + int \<times> 'c daemon_socket)
    \<Rightarrow> nat \<Rightarrow> 'c daemon_socket \<Rightarrow> stuck + 'c daemon_socket" where
  "send_or_close L lg What send i s =
     and_then (send i s) (\<lambda>(Sent, s1).
       if Sent < 0 then and_then (lg LogError What s1) (CloseClient L lg i) else Inr s1)"

fun broadcast_to :: "'c client_link \<Rightarrow> 'c logger \<Rightarrow> string \<Rightarrow> (nat \<Rightarrow> 'c daemon_socket \<Rightarrow> stuck + int \<times> 'c daemon_socket)
    \<Rightarrow> nat list \<Rightarrow> 'c daemon_socket \<Rightarrow> stuck + 'c daemon_socket" where
  "broadcast_to L lg What send [] s = Inr s"
| "broadcast_to L lg What send (i # is) s = and_then (send_or_close L lg What send i s) (broadcast_to L lg What send is)"

text \<open>\<^verbatim>\<open>BroadcastMessage\<close> copies the list under the mutex and sends without it.\<close>

definition broadcast_unlocked :: "'c comm_env \<Rightarrow> 'c logger \<Rightarrow> mutex set \<Rightarrow> u8 list \<Rightarrow> nat option \<Rightarrow> 'c daemon_socket \<Rightarrow> stuck + 'c daemon_socket" where
  "broadcast_unlocked E lg held Msg Except s =
     (if ClientsMutex \<in> held then Inl SelfDeadlock
      else broadcast_to (ClientLink E) lg (''Failed to send message to client: '' @ StrError E) (SendFramedData (ClientLink E) lg Msg)
             (filter (\<lambda>i. Some i \<noteq> Except) (Clients s)) s)"

text \<open>A log message. The logger drops what is below its level; the sink of \<^verbatim>\<open>WDaemonLogSink\<close> runs under the mutex of its base
  class, so its flag for a call from inside itself is never reached.\<close>

function log_message :: "'c comm_env \<Rightarrow> mutex set \<Rightarrow> 'c logger" where
  "log_message E held Level Text s =
     (if Level = LogDebug then Inr s
      else if SinkMutex \<in> held then Inl SelfDeadlock
      else broadcast_unlocked E (log_message E (insert SinkMutex held)) (insert SinkMutex held)
             (SerializeMessage MT_DaemonLog (LogPayload E Level Text)) None s)"
  by pat_completeness auto
termination
  by (relation "measure (\<lambda>(E, held, l, t, s). if SinkMutex \<in> held then 0 else 1)") auto

declare log_message.simps [simp del]

definition BroadcastMessage :: "'c comm_env \<Rightarrow> mutex set \<Rightarrow> u8 list \<Rightarrow> nat option \<Rightarrow> 'c daemon_socket \<Rightarrow> stuck + 'c daemon_socket" where
  "BroadcastMessage E held Msg Except s = broadcast_unlocked E (log_message E held) held Msg Except s"

text \<open>The other broadcasts send while they hold the mutex of the list.\<close>

definition broadcast_locked :: "'c comm_env \<Rightarrow> string \<Rightarrow> (nat \<Rightarrow> 'c daemon_socket \<Rightarrow> stuck + int \<times> 'c daemon_socket) \<Rightarrow> 'c daemon_socket \<Rightarrow> stuck + 'c daemon_socket" where
  "broadcast_locked E What send s =
     broadcast_to (ClientLink E) (log_message E {ClientsMutex}) (What @ StrError E) send (Clients s) s"

definition BroadcastMemoryUsageUpdate :: "'c comm_env \<Rightarrow> u8 list \<Rightarrow> 'c daemon_socket \<Rightarrow> stuck + 'c daemon_socket" where
  "BroadcastMemoryUsageUpdate E Stats s =
     broadcast_locked E ''Failed to send memory usage update to client: ''
       (SendFramedData (ClientLink E) (log_message E {ClientsMutex}) (SerializeMessage MT_MemoryStats Stats)) s"

definition BroadcastTrafficUpdate :: "'c comm_env \<Rightarrow> (WTrafficTreeUpdates \<Rightarrow> u8 list) \<Rightarrow> WSystemMap \<times> 'c daemon_socket \<Rightarrow> stuck + WSystemMap \<times> 'c daemon_socket" where
  "BroadcastTrafficUpdate E encode Ms =
     (case Ms of (M, s) \<Rightarrow>
        if \<not> bHasClients s then Inr (M, s)
        else let (Updates, M1) = GetUpdates M in
          and_then (broadcast_locked E ''Failed to send traffic update to client: ''
            (SendFramedData (ClientLink E) (log_message E {ClientsMutex}) (SerializeMessage MT_TrafficTreeUpdate (encode Updates))) s)
          (\<lambda>s1. Inr (M1, s1)))"

definition BroadcastConnectionHistoryUpdate :: "'c comm_env \<Rightarrow> (WConnectionHistoryUpdate \<Rightarrow> u8 list) \<Rightarrow> WConnectionHistoryUpdate
    \<Rightarrow> 'c daemon_socket \<Rightarrow> stuck + 'c daemon_socket" where
  "BroadcastConnectionHistoryUpdate E encode Changed s =
     broadcast_locked E ''Failed to send app icon atlas update to client: ''
       (SendMessage (ClientLink E) (log_message E {ClientsMutex}) (StrError E) (SerializeMessage MT_ConnectionHistoryUpdate (encode Changed))) s"

text \<open>The atlas builder is a parameter: what it has for the active applications.\<close>

definition BroadcastAtlasUpdate :: "'c comm_env \<Rightarrow> u8 list option \<Rightarrow> 'c daemon_socket \<Rightarrow> stuck + 'c daemon_socket" where
  "BroadcastAtlasUpdate E Atlas s =
     (case Atlas of
        None \<Rightarrow> Inr s
      | Some d \<Rightarrow> broadcast_locked E ''Failed to send app icon atlas update to client: ''
          (SendFramedData (ClientLink E) (log_message E {ClientsMutex}) (SerializeMessage MT_AppIconAtlasData d)) s)"

section \<open>A new client\<close>

definition InitialConfig :: "WDaemonConfig \<Rightarrow> string list \<Rightarrow> WDaemonConfigMessage" where
  "InitialConfig cfg Interfaces =
     \<lparr>MsgNetworkInterfaces = Interfaces, MsgFirstTimeSetupRan = bFirstTimeSetupRun cfg, MsgSocketPath = DaemonSocketPath cfg,
      MsgDaemonUser = DaemonUser cfg, MsgDaemonGroup = DaemonGroup cfg, MsgMainInterface = NetworkInterfaceName cfg,
      MsgVpnInterface = IngressNetworkInterfaceName cfg, MsgSocketMode = sint (DaemonSocketMode cfg)\<rparr>"

text \<open>The payloads of the first messages, in their order; the atlas is sent when there is one.\<close>

record initial_data =
  Handshake :: "u8 list"
  TrafficTree :: "u8 list"
  HistoryData :: "u8 list"
  ConfigData :: "u8 list"
  MemoryStats :: "u8 list"
  CurrentRules :: "u8 list list"
  AtlasData :: "u8 list option"

definition initial_messages :: "initial_data \<Rightarrow> u8 list list" where
  "initial_messages d =
     [SerializeMessage MT_Handshake (Handshake d), SerializeMessage MT_TrafficTree (TrafficTree d),
      SerializeMessage MT_ConnectionHistory (HistoryData d), SerializeMessage MT_DaemonConfig (ConfigData d),
      SerializeMessage MT_MemoryStats (MemoryStats d)]
     @ map (SerializeMessage MT_RuleUpdate) (CurrentRules d)
     @ (case AtlasData d of None \<Rightarrow> [] | Some a \<Rightarrow> [SerializeMessage MT_AppIconAtlasData a])"

fun send_all :: "'c comm_env \<Rightarrow> nat \<Rightarrow> u8 list list \<Rightarrow> 'c daemon_socket \<Rightarrow> stuck + 'c daemon_socket" where
  "send_all E i [] s = Inr s"
| "send_all E i (m # ms) s = and_then (SendMessage (ClientLink E) (log_message E {}) (StrError E) m i s) (\<lambda>(Sent, s1). send_all E i ms s1)"

definition SendInitialDataToClient :: "'c comm_env \<Rightarrow> initial_data \<Rightarrow> nat \<Rightarrow> 'c daemon_socket \<Rightarrow> stuck + 'c daemon_socket" where
  "SendInitialDataToClient E d i s = send_all E i (initial_messages d) s"

text \<open>Erasing a client destroys it, which closes its connection; the mutex is held.\<close>

definition RemoveInactiveClients :: "'c comm_env \<Rightarrow> 'c daemon_socket \<Rightarrow> stuck + 'c daemon_socket" where
  "RemoveInactiveClients E s =
     (let gone = filter (\<lambda>i. \<not> LinkIsConnected (ClientLink E) (Conns s ! i)) (Clients s) in
      and_then (foldl (\<lambda>r i. and_then r (CloseClient (ClientLink E) (log_message E {ClientsMutex}) i)) (Inr s) gone)
        (\<lambda>s1. let cs = filter (\<lambda>i. i \<notin> set gone) (Clients s1) in Inr (s1\<lparr>Clients := cs, bHasClients := cs \<noteq> []\<rparr>)))"

definition PushClient :: "'c comm_env \<Rightarrow> nat \<Rightarrow> 'c daemon_socket \<Rightarrow> stuck + 'c daemon_socket" where
  "PushClient E i s = RemoveInactiveClients E (s\<lparr>Clients := Clients s @ [i], bHasClients := True\<rparr>)"

definition OnNewConnection :: "'c comm_env \<Rightarrow> initial_data \<Rightarrow> nat \<Rightarrow> 'c daemon_socket \<Rightarrow> stuck + 'c daemon_socket" where
  "OnNewConnection E d i s = and_then (SendInitialDataToClient E d i s) (PushClient E i)"

section \<open>The periodic updates\<close>

record update_env =
  EncodeUpdates :: "WTrafficTreeUpdates \<Rightarrow> u8 list"
  EncodeHistory :: "WConnectionHistoryUpdate \<Rightarrow> u8 list"
  AtlasDirty :: bool
  AtlasOfApps :: "u8 list option"

definition BroadcastUpdates :: "'c comm_env \<Rightarrow> update_env \<Rightarrow> WSystemMap \<times> WConnectionHistory \<times> 'c daemon_socket
    \<Rightarrow> stuck + WSystemMap \<times> WConnectionHistory \<times> 'c daemon_socket" where
  "BroadcastUpdates E U MHs =
     (case MHs of (M, H, s) \<Rightarrow>
        if \<not> bHasClients s then Inr (M, H, s)
        else
          and_then (if HasNewData M then BroadcastTrafficUpdate E (EncodeUpdates U) (M, s) else Inr (M, s)) (\<lambda>(M1, s1).
          and_then (if AtlasDirty U then BroadcastAtlasUpdate E (AtlasOfApps U) s1 else Inr s1) (\<lambda>s2.
            let (Changed, H1) = HistoryUpdate M1 H in
            and_then (if Changes Changed \<noteq> [] then BroadcastConnectionHistoryUpdate E (EncodeHistory U) Changed s2 else Inr s2) (\<lambda>s3.
              Inr (M1, H1, s3)))))"


section \<open>The contract of a connection\<close>

text \<open>A message that was taken is delivered after the ones before, one that was refused is not and closes the connection, and a
  closed connection stays closed. A frame needs a payload that is not empty and whose length fits its header.\<close>

definition sendable :: "u8 list \<Rightarrow> bool" where
  "sendable m \<longleftrightarrow> m \<noteq> [] \<and> length m < 2 ^ 32"

locale client_contract =
  fixes L :: "'c client_link"
    and good :: "'c \<Rightarrow> bool"
    and delivered :: "'c \<Rightarrow> u8 list list"
  assumes taken: "good c \<Longrightarrow> LinkIsConnected L c \<Longrightarrow> sendable m \<Longrightarrow> LinkSendFramed L m c = Some (r, c') \<Longrightarrow> 0 \<le> r \<Longrightarrow>
      good c' \<and> LinkIsConnected L c' \<and> delivered c' = delivered c @ [m] \<and> LinkClosedEvents L c' = LinkClosedEvents L c"
    and refused: "good c \<Longrightarrow> LinkIsConnected L c \<Longrightarrow> sendable m \<Longrightarrow> LinkSendFramed L m c = Some (r, c') \<Longrightarrow> r < 0 \<Longrightarrow>
      good c' \<and> \<not> LinkIsConnected L c' \<and> delivered c' = delivered c"
    and closed: "good c \<Longrightarrow> good (LinkClose L c) \<and> \<not> LinkIsConnected L (LinkClose L c) \<and> delivered (LinkClose L c) = delivered c"

text \<open>Log messages carry their type in the first byte; the rest of what a connection delivered are its updates.\<close>

definition is_log :: "u8 list \<Rightarrow> bool" where
  "is_log m \<longleftrightarrow> m \<noteq> [] \<and> hd m = 18"

definition updates_of :: "('c \<Rightarrow> u8 list list) \<Rightarrow> 'c daemon_socket \<Rightarrow> nat \<Rightarrow> u8 list list" where
  "updates_of delivered s i = filter (\<lambda>m. \<not> is_log m) (delivered (Conns s ! i))"

lemma is_log_SerializeMessage: "is_log (SerializeMessage MT_DaemonLog p)"
  by (simp add: is_log_def SerializeMessage_def)

lemma and_then_simps [simp]: "and_then (Inl e) f = Inl e" "and_then (Inr a) f = f a"
  by (simp_all add: and_then_def)

lemma and_then_Inr: "and_then x f = Inr b \<longleftrightarrow> (\<exists>a. x = Inr a \<and> f a = Inr b)"
  by (cases x) auto

definition logs_fit :: "'c comm_env \<Rightarrow> bool" where
  "logs_fit E \<longleftrightarrow> (\<forall>l t. length (LogPayload E l t) < 2 ^ 32 - 1)"

lemma conn_nth_update: "j < length xs \<Longrightarrow> xs[i := x] ! j = (if i = j then x else xs ! j)"
  by (cases "i = j") auto

context client_contract
begin

text \<open>What a step does to the connections: the list stays, none is opened again, and one that is open at the end has
  delivered the updates \<open>D\<close> in addition.\<close>

definition delta :: "(nat \<Rightarrow> u8 list list) \<Rightarrow> 'c daemon_socket \<Rightarrow> 'c daemon_socket \<Rightarrow> bool" where
  "delta D s t \<longleftrightarrow> Clients t = Clients s \<and> bHasClients t = bHasClients s \<and> length (Conns t) = length (Conns s)
     \<and> (\<forall>i < length (Conns s). good (Conns t ! i)
          \<and> (LinkIsConnected L (Conns t ! i) \<longrightarrow> LinkIsConnected L (Conns s ! i) \<and> updates_of delivered t i = updates_of delivered s i @ D i))"

definition all_good :: "'c daemon_socket \<Rightarrow> bool" where
  "all_good s \<longleftrightarrow> (\<forall>i < length (Conns s). good (Conns s ! i))"

lemma delta_refl: "all_good s \<Longrightarrow> delta (\<lambda>_. []) s s"
  by (simp add: delta_def all_good_def)

lemma delta_trans: "delta D s t \<Longrightarrow> delta D' t u \<Longrightarrow> delta (\<lambda>i. D i @ D' i) s u"
  by (simp add: delta_def)

lemma delta_quiet_trans: "delta D s t \<Longrightarrow> delta (\<lambda>_. []) t u \<Longrightarrow> delta D s u"
  "delta (\<lambda>_. []) s t \<Longrightarrow> delta D t u \<Longrightarrow> delta D s u"
  by (simp_all add: delta_def)

lemma delta_good: "delta D s t \<Longrightarrow> all_good t"
  by (simp add: delta_def all_good_def)

definition quiet_logger :: "'c logger \<Rightarrow> bool" where
  "quiet_logger lg \<longleftrightarrow> (\<forall>l t s s'. all_good s \<longrightarrow> lg l t s = Inr s' \<longrightarrow> delta (\<lambda>_. []) s s')"

lemma quiet_loggerD: "quiet_logger lg \<Longrightarrow> all_good s \<Longrightarrow> lg l t s = Inr s' \<Longrightarrow> delta (\<lambda>_. []) s s'"
  by (simp add: quiet_logger_def)

lemma notify_closed_quiet: "quiet_logger lg \<Longrightarrow> all_good s \<Longrightarrow> notify_closed L lg c c' s = Inr s' \<Longrightarrow> delta (\<lambda>_. []) s s'"
  by (auto simp: notify_closed_def delta_refl split: if_splits dest: quiet_loggerD)

lemma CloseClient_quiet:
  assumes "quiet_logger lg" "all_good s" "CloseClient L lg i s = Inr s'"
  shows "delta (\<lambda>_. []) s s'"
proof -
  let ?s = "s\<lparr>Conns := (Conns s)[i := LinkClose L (Conns s ! i)]\<rparr>"
  have 1: "delta (\<lambda>_. []) s ?s" using assms(2) closed by (auto simp: delta_def all_good_def updates_of_def conn_nth_update)
  have "notify_closed L lg (Conns s ! i) (LinkClose L (Conns s ! i)) ?s = Inr s'" using assms(3) by (simp add: CloseClient_def Let_def)
  from delta_quiet_trans(1) [OF 1 notify_closed_quiet [OF assms(1) delta_good [OF 1] this]] show ?thesis .
qed

lemma SendFramedData_delta:
  assumes "quiet_logger lg" "all_good s" "sendable m" "SendFramedData L lg m i s = Inr (r, s')"
  shows "delta (\<lambda>j. if j = i \<and> \<not> is_log m then [m] else []) s s'"
proof (cases "LinkIsConnected L (Conns s ! i)")
  case False
  then show ?thesis using assms by (auto simp: SendFramedData_def delta_def all_good_def)
next
  case True
  then obtain c' where snd: "LinkSendFramed L m (Conns s ! i) = Some (r, c')"
      and n: "notify_closed L lg (Conns s ! i) c' (s\<lparr>Conns := (Conns s)[i := c']\<rparr>) = Inr s'"
    using assms(4) by (auto simp: SendFramedData_def Let_def and_then_Inr split: option.splits)
  have c': "good c' \<and> (LinkIsConnected L c' \<longrightarrow> delivered c' = delivered (Conns s ! i) @ [m])" if "i < length (Conns s)"
  proof -
    have g: "good (Conns s ! i)" using assms(2) that by (simp add: all_good_def)
    show ?thesis using taken [OF g True assms(3) snd] refused [OF g True assms(3) snd] by (cases "r < 0") simp_all
  qed
  have 1: "delta (\<lambda>j. if j = i \<and> \<not> is_log m then [m] else []) s (s\<lparr>Conns := (Conns s)[i := c']\<rparr>)"
    using assms(2) True c' by (auto simp: delta_def all_good_def updates_of_def conn_nth_update)
  show ?thesis by (rule delta_quiet_trans(1) [OF 1 notify_closed_quiet [OF assms(1) delta_good [OF 1] n]])
qed

lemma SendMessage_delta:
  assumes "quiet_logger lg" "all_good s" "sendable m" "SendMessage L lg e m i s = Inr (r, s')"
  shows "delta (\<lambda>j. if j = i \<and> \<not> is_log m then [m] else []) s s'"
proof -
  obtain s1 where s1: "SendFramedData L lg m i s = Inr (r, s1)" "s' = s1 \<or> lg LogError (''Failed to send message to client: '' @ e) s1 = Inr s'"
    using assms(4) by (auto simp: SendMessage_def and_then_Inr split: if_splits)
  note d = SendFramedData_delta [OF assms(1-3) s1(1)]
  show ?thesis using s1(2) d delta_quiet_trans(1) [OF d quiet_loggerD [OF assms(1) delta_good [OF d]]] by blast
qed

text \<open>One loop for both ways to send.\<close>

lemma broadcast_to_delta:
  assumes quiet: "quiet_logger lg" and m: "sendable m"
    and send: "\<And>i s r s'. all_good s \<Longrightarrow> send i s = Inr (r, s') \<Longrightarrow> delta (\<lambda>j. if j = i \<and> \<not> is_log m then [m] else []) s s'"
    and "all_good s" "distinct is \<or> is_log m" "broadcast_to L lg What send is s = Inr s'"
  shows "delta (\<lambda>j. if j \<in> set is \<and> \<not> is_log m then [m] else []) s s'"
  using assms(4-6)
proof (induction "is" arbitrary: s)
  case Nil
  then show ?case by (simp add: delta_refl)
next
  case (Cons i "is")
  let ?D = "\<lambda>j. if j = i \<and> \<not> is_log m then [m] else []"
  obtain r s1 s2 where s1: "send i s = Inr (r, s1)" and rest: "broadcast_to L lg What send is s2 = Inr s'"
    and s2: "if r < 0 then and_then (lg LogError What s1) (CloseClient L lg i) = Inr s2 else s2 = s1"
    using Cons.prems(3) by (auto simp: send_or_close_def and_then_Inr split: if_splits)
  have d1: "delta ?D s s1" by (rule send [OF Cons.prems(1) s1])
  have "delta ?D s s2"
  proof (cases "r < 0")
    case True
    then obtain s3 where s3: "lg LogError What s1 = Inr s3" "CloseClient L lg i s3 = Inr s2" using s2 by (auto simp: and_then_Inr)
    have d3: "delta ?D s s3" by (rule delta_quiet_trans(1) [OF d1 quiet_loggerD [OF quiet delta_good [OF d1] s3(1)]])
    from delta_quiet_trans(1) [OF d3 CloseClient_quiet [OF quiet delta_good [OF d3] s3(2)]] show ?thesis .
  next
    case False
    then show ?thesis using d1 s2 by simp
  qed
  moreover from this have "delta (\<lambda>j. if j \<in> set is \<and> \<not> is_log m then [m] else []) s2 s'"
    using Cons.IH [OF delta_good _ rest] Cons.prems(2) by fastforce
  ultimately have "delta (\<lambda>j. ?D j @ (if j \<in> set is \<and> \<not> is_log m then [m] else [])) s s'" by (rule delta_trans)
  moreover have "(\<lambda>j. ?D j @ (if j \<in> set is \<and> \<not> is_log m then [m] else [])) = (\<lambda>j. if j \<in> set (i # is) \<and> \<not> is_log m then [m] else [])"
    using Cons.prems(2) by (auto simp: fun_eq_iff)
  ultimately show ?case by simp
qed

text \<open>The list of clients refers to connections, each once.\<close>

definition clients_ok :: "'c daemon_socket \<Rightarrow> bool" where
  "clients_ok s \<longleftrightarrow> distinct (Clients s) \<and> (\<forall>i \<in> set (Clients s). i < length (Conns s)) \<and> all_good s"

end


section \<open>Connecting, broadcasting and ending in any order\<close>

text \<open>The thread that accepts sends a new client its data and only then enters it into the list; the broadcasts of the other threads
  may come between. A connection that ends does so first, and the log message about it is another operation.\<close>

datatype 'c comm_op = Accept 'c initial_data | PushOp nat | UpdateOp "u8 list" | HistoryOp "u8 list" | MessageOp "u8 list" "nat option"
  | LogOp log_level string | EndedOp nat

fun run_op :: "'c comm_env \<Rightarrow> 'c comm_op \<Rightarrow> 'c daemon_socket \<Rightarrow> stuck + 'c daemon_socket" where
  "run_op E (Accept c d) s = SendInitialDataToClient E d (length (Conns s)) (s\<lparr>Conns := Conns s @ [c]\<rparr>)"
| "run_op E (PushOp i) s = PushClient E i s"
| "run_op E (UpdateOp m) s = broadcast_locked E ''Failed to send traffic update to client: '' (SendFramedData (ClientLink E) (log_message E {ClientsMutex}) m) s"
| "run_op E (HistoryOp m) s =
     broadcast_locked E ''Failed to send app icon atlas update to client: '' (SendMessage (ClientLink E) (log_message E {ClientsMutex}) (StrError E) m) s"
| "run_op E (MessageOp m x) s = BroadcastMessage E {} m x s"
| "run_op E (LogOp l t) s = log_message E {} l t s"
| "run_op E (EndedOp i) s = Inr (s\<lparr>Conns := (Conns s)[i := LinkClose (ClientLink E) (Conns s ! i)]\<rparr>)"

fun comm_run :: "'c comm_env \<Rightarrow> 'c comm_op list \<Rightarrow> 'c daemon_socket \<Rightarrow> stuck + 'c daemon_socket" where
  "comm_run E [] s = Inr s"
| "comm_run E (x # xs) s = and_then (run_op E x s) (comm_run E xs)"

text \<open>What client \<open>i\<close> is to get, when \<open>n\<close> connections exist and \<open>J\<close> tells whether it is in the list: its initial data,
  then every broadcast since it was entered.\<close>

fun op_messages :: "'c comm_op \<Rightarrow> nat \<Rightarrow> nat \<Rightarrow> bool \<Rightarrow> u8 list list" where
  "op_messages (Accept c d) n i J = (if i = n then initial_messages d else [])"
| "op_messages (UpdateOp m) n i J = (if J then [m] else [])"
| "op_messages (HistoryOp m) n i J = (if J then [m] else [])"
| "op_messages (MessageOp m x) n i J = (if J \<and> x \<noteq> Some i then [m] else [])"
| "op_messages _ n i J = []"

fun op_conns :: "'c comm_op \<Rightarrow> nat \<Rightarrow> nat" where
  "op_conns (Accept c d) n = n + 1"
| "op_conns _ n = n"

fun op_pushes :: "'c comm_op \<Rightarrow> nat set" where
  "op_pushes (PushOp i) = {i}"
| "op_pushes _ = {}"

fun expected :: "'c comm_op list \<Rightarrow> nat \<Rightarrow> nat \<Rightarrow> bool \<Rightarrow> u8 list list" where
  "expected [] n i J = []"
| "expected (x # xs) n i J = op_messages x n i J @ expected xs (op_conns x n) i (J \<or> i \<in> op_pushes x)"

text \<open>A connection is entered once, after it was accepted; the messages fit a frame and are no log messages.\<close>

fun well_ordered :: "'c comm_op list \<Rightarrow> nat \<Rightarrow> nat set \<Rightarrow> bool" where
  "well_ordered [] n P \<longleftrightarrow> True"
| "well_ordered (x # xs) n P \<longleftrightarrow> (\<forall>i \<in> op_pushes x. i < n \<and> i \<notin> P) \<and> well_ordered xs (op_conns x n) (P \<union> op_pushes x)"

definition update_fits :: "u8 list \<Rightarrow> bool" where
  "update_fits m \<longleftrightarrow> sendable m \<and> \<not> is_log m"

fun op_fits :: "('c \<Rightarrow> bool) \<Rightarrow> 'c comm_op \<Rightarrow> bool" where
  "op_fits fresh (Accept c d) \<longleftrightarrow> fresh c \<and> list_all update_fits (initial_messages d)"
| "op_fits fresh (UpdateOp m) \<longleftrightarrow> update_fits m"
| "op_fits fresh (HistoryOp m) \<longleftrightarrow> update_fits m"
| "op_fits fresh (MessageOp m x) \<longleftrightarrow> update_fits m"
| "op_fits fresh _ \<longleftrightarrow> True"

definition no_clients :: "'c daemon_socket" where
  "no_clients = \<lparr>Conns = [], Clients = [], bHasClients = False\<rparr>"

context client_contract
begin

lemma log_sendable: "logs_fit E \<Longrightarrow> sendable (SerializeMessage MT_DaemonLog (LogPayload E l t))"
proof -
  assume "logs_fit E"
  then have "length (LogPayload E l t) < 2 ^ 32 - 1" unfolding logs_fit_def by blast
  then show ?thesis unfolding sendable_def SerializeMessage_def by simp
qed

lemma log_message_quiet_step:
  assumes "logs_fit E" "ClientLink E = L" "quiet_logger (log_message E (insert SinkMutex held))"
  shows "quiet_logger (log_message E held)"
  unfolding quiet_logger_def
proof (intro allI impI)
  fix l t s s'
  assume good: "all_good s" and run: "log_message E held l t s = Inr s'"
  let ?m = "SerializeMessage MT_DaemonLog (LogPayload E l t)" and ?lg = "log_message E (insert SinkMutex held)"
  show "delta (\<lambda>_. []) s s'"
  proof (cases "l = LogDebug")
    case True
    then show ?thesis using run good delta_refl by (simp add: log_message.simps)
  next
    case False
    then have "broadcast_unlocked E ?lg (insert SinkMutex held) ?m None s = Inr s'"
      using run by (subst (asm) log_message.simps) (auto split: if_splits)
    then have run': "broadcast_to L ?lg (''Failed to send message to client: '' @ StrError E) (SendFramedData L ?lg ?m) (filter (\<lambda>i. Some i \<noteq> None) (Clients s)) s = Inr s'"
      using assms(2) by (simp add: broadcast_unlocked_def split: if_splits)
    have "delta (\<lambda>j. if j \<in> set (filter (\<lambda>i. Some i \<noteq> None) (Clients s)) \<and> \<not> is_log ?m then [?m] else []) s s'"
      by (rule broadcast_to_delta [OF assms(3) log_sendable [OF assms(1)] SendFramedData_delta [OF assms(3) _ log_sendable [OF assms(1)]] good _ run'])
         (simp_all add: is_log_SerializeMessage)
    then show ?thesis by (simp add: is_log_SerializeMessage)
  qed
qed

lemma log_message_quiet: "logs_fit E \<Longrightarrow> ClientLink E = L \<Longrightarrow> quiet_logger (log_message E held)"
proof (rule log_message_quiet_step)
  show "quiet_logger (log_message E (insert SinkMutex held))"
    unfolding quiet_logger_def by (subst log_message.simps) (auto simp: delta_refl split: if_splits)
qed

lemma broadcast_locked_delta:
  assumes "logs_fit E" "ClientLink E = L" "clients_ok s" "update_fits m"
    and "\<And>i s r s'. all_good s \<Longrightarrow> send i s = Inr (r, s') \<Longrightarrow> delta (\<lambda>j. if j = i \<and> \<not> is_log m then [m] else []) s s'"
    and "broadcast_locked E What send s = Inr s'"
  shows "delta (\<lambda>j. if j \<in> set (Clients s) then [m] else []) s s'"
proof -
  have m: "sendable m" "\<not> is_log m" using assms(4) by (simp_all add: update_fits_def)
  have "delta (\<lambda>j. if j \<in> set (Clients s) \<and> \<not> is_log m then [m] else []) s s'"
    by (rule broadcast_to_delta [OF log_message_quiet [OF assms(1,2)] m(1) assms(5)])
       (use assms(2,3,6) in \<open>simp_all add: clients_ok_def broadcast_locked_def\<close>)
  then show ?thesis using m(2) by simp
qed

lemma BroadcastMessage_delta:
  assumes "logs_fit E" "ClientLink E = L" "clients_ok s" "update_fits m" "BroadcastMessage E {} m x s = Inr s'"
  shows "delta (\<lambda>j. if j \<in> set (Clients s) \<and> x \<noteq> Some j then [m] else []) s s'"
proof -
  have m: "sendable m" "\<not> is_log m" using assms(4) by (simp_all add: update_fits_def)
  note q = log_message_quiet [OF assms(1,2)]
  have "broadcast_to L (log_message E {}) (''Failed to send message to client: '' @ StrError E) (SendFramedData L (log_message E {}) m) (filter (\<lambda>i. Some i \<noteq> x) (Clients s)) s = Inr s'"
    using assms(2,5) by (simp add: BroadcastMessage_def broadcast_unlocked_def)
  from broadcast_to_delta [OF q m(1) SendFramedData_delta [OF q _ m(1)] _ _ this]
  have "delta (\<lambda>j. if j \<in> set (filter (\<lambda>i. Some i \<noteq> x) (Clients s)) \<and> \<not> is_log m then [m] else []) s s'"
    using assms(3) by (simp add: clients_ok_def)
  moreover have "(\<lambda>j. if j \<in> set (filter (\<lambda>i. Some i \<noteq> x) (Clients s)) \<and> \<not> is_log m then [m] else []) = (\<lambda>j. if j \<in> set (Clients s) \<and> x \<noteq> Some j then [m] else [])"
    using m(2) by (auto simp: fun_eq_iff)
  ultimately show ?thesis by simp
qed

lemma send_all_delta:
  assumes "logs_fit E" "ClientLink E = L" "all_good s" "list_all update_fits ms" "send_all E i ms s = Inr s'"
  shows "delta (\<lambda>j. if j = i then ms else []) s s'"
  using assms(3-5)
proof (induction ms arbitrary: s)
  case Nil
  then show ?case by (simp add: delta_refl if_distrib)
next
  case (Cons m ms)
  obtain r s1 where s1: "SendMessage L (log_message E {}) (StrError E) m i s = Inr (r, s1)" "send_all E i ms s1 = Inr s'"
    using Cons.prems(3) assms(2) by (auto simp: and_then_Inr)
  have m: "sendable m" "\<not> is_log m" using Cons.prems(2) by (simp_all add: update_fits_def)
  note d1 = SendMessage_delta [OF log_message_quiet [OF assms(1,2)] Cons.prems(1) m(1) s1(1)]
  have "delta (\<lambda>j. if j = i then ms else []) s1 s'" using Cons.IH [OF delta_good [OF d1] _ s1(2)] Cons.prems(2) by simp
  from delta_trans [OF d1 this] have "delta (\<lambda>j. (if j = i \<and> \<not> is_log m then [m] else []) @ (if j = i then ms else [])) s s'" .
  moreover have "(\<lambda>j. (if j = i \<and> \<not> is_log m then [m] else []) @ (if j = i then ms else [])) = (\<lambda>j. if j = i then m # ms else [])"
    using m(2) by (auto simp: fun_eq_iff)
  ultimately show ?case by simp
qed

text \<open>Removing the clients that are gone keeps those whose connection is still open.\<close>

lemma RemoveInactiveClients_delta:
  assumes "logs_fit E" "ClientLink E = L" "all_good s" "RemoveInactiveClients E s = Inr s'"
  obtains s1 where "delta (\<lambda>_. []) s s1" "Conns s' = Conns s1"
    "Clients s' = filter (\<lambda>i. LinkIsConnected L (Conns s ! i)) (Clients s)"
proof -
  let ?gone = "filter (\<lambda>i. \<not> LinkIsConnected L (Conns s ! i)) (Clients s)"
  let ?close = "\<lambda>r i. and_then r (CloseClient L (log_message E {ClientsMutex}) i)"
  have fold_Inl: "foldl ?close (Inl e) is = Inl e" for e "is" by (induction "is") simp_all
  have fold: "all_good t \<Longrightarrow> foldl ?close (Inr t) is = Inr u \<Longrightarrow> delta (\<lambda>_. []) t u" for t u "is"
  proof (induction "is" arbitrary: t)
    case Nil
    then show ?case by (simp add: delta_refl)
  next
    case (Cons i "is")
    obtain t1 where t1: "CloseClient L (log_message E {ClientsMutex}) i t = Inr t1" "foldl ?close (Inr t1) is = Inr u"
      using Cons.prems(2) by (cases "CloseClient L (log_message E {ClientsMutex}) i t") (auto simp: fold_Inl)
    note d = CloseClient_quiet [OF log_message_quiet [OF assms(1,2)] Cons.prems(1) t1(1)]
    show ?case by (rule delta_quiet_trans(1) [OF d Cons.IH [OF delta_good [OF d] t1(2)]])
  qed
  obtain s1 where s1: "foldl ?close (Inr s) ?gone = Inr s1" "s' = s1\<lparr>Clients := filter (\<lambda>i. i \<notin> set ?gone) (Clients s1), bHasClients := filter (\<lambda>i. i \<notin> set ?gone) (Clients s1) \<noteq> []\<rparr>"
    using assms(2,4) by (auto simp: RemoveInactiveClients_def Let_def and_then_Inr)
  have d: "delta (\<lambda>_. []) s s1" by (rule fold [OF assms(3) s1(1)])
  have "Clients s' = filter (\<lambda>i. LinkIsConnected L (Conns s ! i)) (Clients s)"
    using s1(2) d by (auto simp: delta_def intro: filter_cong)
  then show ?thesis using that [OF d] s1(2) by simp
qed

end


context client_contract
begin

abbreviation up :: "'c daemon_socket \<Rightarrow> nat \<Rightarrow> bool" where
  "up s i \<equiv> LinkIsConnected L (Conns s ! i)"

definition op_effect :: "'c comm_op \<Rightarrow> 'c daemon_socket \<Rightarrow> 'c daemon_socket \<Rightarrow> bool" where
  "op_effect x s t \<longleftrightarrow> clients_ok t \<and> length (Conns t) = op_conns x (length (Conns s)) \<and> set (Clients t) \<subseteq> set (Clients s) \<union> op_pushes x
     \<and> (\<forall>i < length (Conns t). up t i \<longrightarrow> (i < length (Conns s) \<longrightarrow> up s i)
          \<and> (i \<in> set (Clients t) \<longleftrightarrow> i \<in> set (Clients s) \<or> i \<in> op_pushes x)
          \<and> updates_of delivered t i = (if i < length (Conns s) then updates_of delivered s i else [])
              @ op_messages x (length (Conns s)) i (i \<in> set (Clients s)))"

lemma delta_effect:
  assumes "clients_ok s" "delta D s t" "op_conns x (length (Conns s)) = length (Conns s)" "op_pushes x = {}"
    and "\<And>i. i < length (Conns s) \<Longrightarrow> D i = op_messages x (length (Conns s)) i (i \<in> set (Clients s))"
  shows "op_effect x s t"
  using assms by (auto simp: op_effect_def delta_def clients_ok_def all_good_def)

lemma Accept_effect:
  assumes E: "logs_fit E" "ClientLink E = L" and "clients_ok s" "op_fits (\<lambda>c. good c \<and> delivered c = []) (Accept c d)"
    and "run_op E (Accept c d) s = Inr t"
  shows "op_effect (Accept c d) s t"
proof -
  let ?n = "length (Conns s)" and ?s = "s\<lparr>Conns := Conns s @ [c]\<rparr>"
  have good: "all_good ?s" using assms(3,4) by (auto simp: clients_ok_def all_good_def nth_append)
  have "send_all E ?n (initial_messages d) ?s = Inr t" using assms(5) by (simp add: SendInitialDataToClient_def)
  with assms(4) have d: "delta (\<lambda>j. if j = ?n then initial_messages d else []) ?s t" by (intro send_all_delta [OF E good]) simp_all
  have old: "i < ?n \<Longrightarrow> updates_of delivered ?s i = updates_of delivered s i" for i by (simp add: updates_of_def nth_append)
  have new: "updates_of delivered ?s ?n = []" using assms(4) by (simp add: updates_of_def)
  have "i \<in> set (Clients s) \<Longrightarrow> i < ?n" for i using assms(3) by (simp add: clients_ok_def)
  then show ?thesis
    using d assms(3) old new by (auto simp: op_effect_def delta_def clients_ok_def all_good_def nth_append less_Suc_eq)
qed

lemma PushOp_effect:
  assumes E: "logs_fit E" "ClientLink E = L" and "clients_ok s" "i < length (Conns s)" "i \<notin> set (Clients s)"
    and "run_op E (PushOp i) s = Inr t"
  shows "op_effect (PushOp i) s t"
proof -
  let ?s = "s\<lparr>Clients := Clients s @ [i], bHasClients := True\<rparr>"
  have good: "all_good ?s" using assms(3) by (simp add: clients_ok_def all_good_def)
  have "RemoveInactiveClients E ?s = Inr t" using assms(6) by (simp add: PushClient_def)
  then obtain s1 where s1: "delta (\<lambda>_. []) ?s s1" "Conns t = Conns s1" "Clients t = filter (\<lambda>i. LinkIsConnected L (Conns ?s ! i)) (Clients ?s)"
    using RemoveInactiveClients_delta [OF E good] by blast
  have "updates_of delivered t j = updates_of delivered s1 j" "updates_of delivered ?s j = updates_of delivered s j" for j
    using s1(2) by (simp_all add: updates_of_def)
  then show ?thesis
    using s1 assms(3-5) by (auto simp: op_effect_def delta_def clients_ok_def all_good_def)
qed

lemma run_op_effect:
  assumes E: "logs_fit E" "ClientLink E = L" and ok: "clients_ok s" and fits: "op_fits (\<lambda>c. good c \<and> delivered c = []) x"
    and "\<forall>i \<in> op_pushes x. i < length (Conns s) \<and> i \<notin> set (Clients s)" and run: "run_op E x s = Inr t"
  shows "op_effect x s t"
proof (cases x)
  case (Accept c d)
  then show ?thesis using Accept_effect [OF E ok] fits run by simp
next
  case (PushOp i)
  then show ?thesis using PushOp_effect [OF E ok, of i] assms(5) run by simp
next
  case (UpdateOp m)
  have m: "update_fits m" "sendable m" using fits UpdateOp by (simp_all add: update_fits_def)
  have "delta (\<lambda>j. if j \<in> set (Clients s) then [m] else []) s t"
    by (rule broadcast_locked_delta [OF E ok m(1) SendFramedData_delta [OF log_message_quiet [OF E] _ m(2)]])
       (use run UpdateOp E(2) in simp_all)
  then show ?thesis by (rule delta_effect [OF ok]) (simp_all add: UpdateOp)
next
  case (HistoryOp m)
  have m: "update_fits m" "sendable m" using fits HistoryOp by (simp_all add: update_fits_def)
  have "delta (\<lambda>j. if j \<in> set (Clients s) then [m] else []) s t"
    by (rule broadcast_locked_delta [OF E ok m(1) SendMessage_delta [OF log_message_quiet [OF E] _ m(2)]])
       (use run HistoryOp E(2) in simp_all)
  then show ?thesis by (rule delta_effect [OF ok]) (simp_all add: HistoryOp)
next
  case (MessageOp m y)
  have "delta (\<lambda>j. if j \<in> set (Clients s) \<and> y \<noteq> Some j then [m] else []) s t"
    by (rule BroadcastMessage_delta [OF E ok]) (use run fits MessageOp in simp_all)
  then show ?thesis by (rule delta_effect [OF ok]) (simp_all add: MessageOp)
next
  case (LogOp l u)
  have "all_good s" using ok by (simp add: clients_ok_def)
  from quiet_loggerD [OF log_message_quiet [OF E] this] run LogOp have "delta (\<lambda>_. []) s t" by simp
  then show ?thesis by (rule delta_effect [OF ok]) (simp_all add: LogOp)
next
  case (EndedOp i)
  have "delta (\<lambda>_. []) s t"
    using run EndedOp E(2) ok closed by (auto simp: delta_def updates_of_def clients_ok_def all_good_def conn_nth_update split: if_splits)
  then show ?thesis by (rule delta_effect [OF ok]) (simp_all add: EndedOp)
qed

text \<open>The whole run, from any state.\<close>

lemma comm_run_expected:
  assumes E: "logs_fit E" "ClientLink E = L"
  shows "clients_ok s \<Longrightarrow> set (Clients s) \<subseteq> P \<Longrightarrow> well_ordered xs (length (Conns s)) P \<Longrightarrow> list_all (op_fits (\<lambda>c. good c \<and> delivered c = [])) xs \<Longrightarrow>
    comm_run E xs s = Inr t \<Longrightarrow> i < length (Conns t) \<Longrightarrow> up t i \<Longrightarrow>
    length (Conns s) \<le> length (Conns t) \<and> (i < length (Conns s) \<longrightarrow> up s i) \<and>
    updates_of delivered t i = (if i < length (Conns s) then updates_of delivered s i else [])
      @ expected xs (length (Conns s)) i (i \<in> set (Clients s))"
proof (induction xs arbitrary: s P)
  case (Cons x xs)
  obtain s1 where s1: "run_op E x s = Inr s1" "comm_run E xs s1 = Inr t" using Cons.prems(5) by (auto simp: and_then_Inr)
  have e: "op_effect x s s1" using run_op_effect [OF E Cons.prems(1) _ _ s1(1)] Cons.prems(2-4) by auto
  then have n1: "length (Conns s1) = op_conns x (length (Conns s))" "clients_ok s1" "set (Clients s1) \<subseteq> P \<union> op_pushes x"
    "length (Conns s) \<le> length (Conns s1)"
    using Cons.prems(2) by (auto simp: op_effect_def) (cases x; simp)
  have IH: "length (Conns s1) \<le> length (Conns t) \<and> (i < length (Conns s1) \<longrightarrow> up s1 i) \<and>
    updates_of delivered t i = (if i < length (Conns s1) then updates_of delivered s1 i else [])
      @ expected xs (length (Conns s1)) i (i \<in> set (Clients s1))"
    by (rule Cons.IH [OF n1(2,3) _ _ s1(2)]) (use Cons.prems n1(1) in simp_all)
  show ?case
  proof (cases "i < length (Conns s1)")
    case True
    with IH e have "(i < length (Conns s) \<longrightarrow> up s i)" "(i \<in> set (Clients s1) \<longleftrightarrow> i \<in> set (Clients s) \<or> i \<in> op_pushes x)"
      "updates_of delivered s1 i = (if i < length (Conns s) then updates_of delivered s i else []) @ op_messages x (length (Conns s)) i (i \<in> set (Clients s))"
      by (auto simp: op_effect_def)
    then show ?thesis using IH True n1 by simp
  next
    case False
    then have out: "i \<notin> set (Clients s1)" "i \<notin> set (Clients s)" "\<not> i < length (Conns s)" "i \<notin> op_pushes x" "i \<noteq> length (Conns s) \<or> op_conns x (length (Conns s)) = length (Conns s)"
      using n1 Cons.prems(1,3) by (auto simp: clients_ok_def)
    then have "op_messages x (length (Conns s)) i False = []" by (cases x) auto
    then show ?thesis using IH False out n1 by simp
  qed
qed simp

end


section \<open>The two kinds of connections keep the contract\<close>

definition unix_good :: "WClientSocket \<times> send_answer list \<Rightarrow> bool" where
  "unix_good c \<longleftrightarrow> (IsConnected (fst c) \<longrightarrow> snd (frames (Wire (fst c))) = [])"

definition unix_delivered :: "WClientSocket \<times> send_answer list \<Rightarrow> u8 list list" where
  "unix_delivered c = fst (frames (Wire (fst c)))"

lemma frames_append_complete:
  "snd (frames w) = [] \<Longrightarrow> frames (w @ bs) = (fst (frames w) @ fst (frames bs), snd (frames bs))"
proof (induction w rule: frames.induct)
  case (1 w)
  show ?case
  proof (cases "has_frame w")
    case True
    let ?rest = "drop (4 + FrameLength w) w"
    have w: "frames w = (take (FrameLength w) (drop 4 w) # fst (frames ?rest), snd (frames ?rest))"
      using True by (subst frames.simps) (simp add: Let_def case_prod_unfold)
    have "frames (?rest @ bs) = (fst (frames ?rest) @ fst (frames bs), snd (frames bs))"
      using 1(1) [OF True refl] 1(2) w by simp
    then show ?thesis using frames_append [OF True, of bs] w by simp
  next
    case False
    then have "frames w = ([], w)" by (subst frames.simps) simp
    then show ?thesis using 1(2) by simp
  qed
qed

lemma partial_frame:
  assumes "k < 4 + length p" "length p < 2 ^ 32"
  shows "frames (take k (frame p)) = ([], take k (frame p))"
proof -
  have h: "length (store32 w) = 4" for w by (simp add: store32_def)
  have "\<not> has_frame (take k (frame p))"
  proof
    assume hf: "has_frame (take k (frame p))"
    then have "4 \<le> length (take k (frame p))" unfolding has_frame_def by blast
    then have "4 \<le> k" by simp
    then have "take k (frame p) = store32 (of_nat (length p)) @ take (k - 4) p" by (simp add: frame_def h)
    then have "FrameLength (take k (frame p)) = length p" using assms(2) by (simp add: unat_of_nat take_bit_nat_eq_self)
    then have "4 + length p \<le> length (take k (frame p))" using hf unfolding has_frame_def by metis
    moreover have "length (take k (frame p)) \<le> k" by simp
    ultimately show False using assms(1) by linarith
  qed
  then show ?thesis by (subst frames.simps) simp
qed

lemma CloseSocket_ended [simp]: "\<not> IsConnected (CloseSocket s)" "Wire (CloseSocket s) = Wire s"
  by (simp_all add: CloseSocket_def IsConnected_def Let_def)

lemma unix_send:
  assumes "LinkSendFramed unix_link m c = Some (r, c')" "LinkIsConnected unix_link c" "sendable m" "unix_good c"
  shows "0 \<le> r \<Longrightarrow> fst c' = (fst c)\<lparr>Wire := Wire (fst c) @ frame m\<rparr>"
    and "r < 0 \<Longrightarrow> \<not> IsConnected (fst c') \<and> unix_delivered c' = unix_delivered c"
proof -
  obtain s a s1 a1 ok where c: "c = (s, a)" and c': "c' = (s1, a1)" and send: "SendFramed a s m = Some (ok, s1, a1)"
      and r: "r = (if ok then int (length m) else - 1)"
    using assms(1) by (cases c) (auto simp: unix_link_def split: option.splits)
  have conn: "IsConnected s" using assms(2) c by (simp add: unix_link_def)
  obtain k where k: "Wire s1 = Wire s @ take k (frame m)" "k \<le> 4 + length m" "ok \<longleftrightarrow> m \<noteq> [] \<and> k = 4 + length m"
      "ok \<longrightarrow> s1 = s\<lparr>Wire := Wire s @ frame m\<rparr>" "IsConnected s1 \<longleftrightarrow> k = 4 + length m"
    using SendFramed_wire [OF conn send] by blast
  show "0 \<le> r \<Longrightarrow> fst c' = (fst c)\<lparr>Wire := Wire (fst c) @ frame m\<rparr>" using r k(4) c c' by (simp split: if_splits)
  assume "r < 0"
  then have "k < 4 + length m" using r k(2,3) assms(3) by (auto simp: sendable_def split: if_splits)
  moreover have "snd (frames (Wire s)) = []" using assms(4) conn c by (simp add: unix_good_def)
  ultimately show "\<not> IsConnected (fst c') \<and> unix_delivered c' = unix_delivered c"
    using k(1,5) c c' assms(3) frames_append_complete [of "Wire s"] partial_frame [of k m] by (simp add: unix_delivered_def sendable_def)
qed

interpretation unix: client_contract unix_link unix_good unix_delivered
proof
  fix c :: "WClientSocket \<times> send_answer list" and m r c'
  assume A: "unix_good c" "LinkIsConnected unix_link c" "sendable m" "LinkSendFramed unix_link m c = Some (r, c')"
  show "unix_good c' \<and> LinkIsConnected unix_link c' \<and> unix_delivered c' = unix_delivered c @ [m] \<and> LinkClosedEvents unix_link c' = LinkClosedEvents unix_link c" if "0 \<le> r"
  proof -
    have c': "fst c' = (fst c)\<lparr>Wire := Wire (fst c) @ frame m\<rparr>" by (rule unix_send(1) [OF A(4,2,3,1) that])
    have conn: "IsConnected (fst c)" using A(2) by (simp add: unix_link_def case_prod_unfold)
    then have rest: "snd (frames (Wire (fst c))) = []" using A(1) by (simp add: unix_good_def)
    have "frames (frame m) = ([m], [])" using frames_concat [of "[m]"] A(3) by (simp add: sendable_def)
    then show ?thesis
      using frames_append_complete [OF rest, of "frame m"] c' conn
      by (simp add: unix_good_def unix_delivered_def unix_link_def case_prod_unfold IsConnected_def)
  qed
  show "unix_good c' \<and> \<not> LinkIsConnected unix_link c' \<and> unix_delivered c' = unix_delivered c" if "r < 0"
    using unix_send(2) [OF A(4,2,3,1) that] by (simp add: unix_good_def unix_link_def case_prod_unfold)
qed (simp add: unix_good_def unix_delivered_def unix_link_def case_prod_unfold)

text \<open>Over a WebSocket a message that was taken is in the queue.\<close>

interpretation ws: client_contract ws_link "\<lambda>_. True" SendQueue
  by unfold_locales
     (auto simp: ws_link_def WsSendFramed_def WsIsConnected_def RequestWrite_def WsClose_def sendable_def split: if_splits)

section \<open>When a broadcast returns\<close>

lemma log_with_clients_locked: "l \<noteq> LogDebug \<Longrightarrow> log_message E {ClientsMutex} l t s = Inl SelfDeadlock"
  by (subst log_message.simps) (simp add: broadcast_unlocked_def)

definition takes :: "'c client_link \<Rightarrow> u8 list \<Rightarrow> 'c \<Rightarrow> bool" where
  "takes L m c \<longleftrightarrow> (\<exists>r c'. LinkSendFramed L m c = Some (r, c') \<and> 0 \<le> r)"

context client_contract
begin

lemma send_locked:
  fixes E :: "'c comm_env"
  defines "lg \<equiv> log_message E {ClientsMutex}"
  assumes "all_good s" "i < length (Conns s)" "sendable m"
  shows "if up s i \<longrightarrow> takes L m (Conns s ! i)
    then \<exists>c'. good c' \<and> send_or_close L lg What (SendFramedData L lg m) i s = Inr (s\<lparr>Conns := (Conns s)[i := c']\<rparr>)
    else \<exists>e. send_or_close L lg What (SendFramedData L lg m) i s = Inl e"
proof (cases "up s i")
  case False
  then show ?thesis using assms(2,3) by (auto simp: send_or_close_def SendFramedData_def all_good_def intro!: exI [of _ "Conns s ! i"])
next
  case True
  have g: "good (Conns s ! i)" using assms(2,3) by (simp add: all_good_def)
  show ?thesis
  proof (cases "takes L m (Conns s ! i)")
    case yes: True
    then obtain r c' where c': "LinkSendFramed L m (Conns s ! i) = Some (r, c')" "0 \<le> r" by (auto simp: takes_def)
    from taken [OF g True assms(4) c'] show ?thesis
      using True yes c' by (auto simp: send_or_close_def SendFramedData_def notify_closed_def)
  next
    case no: False
    show ?thesis
    proof (cases "LinkSendFramed L m (Conns s ! i)")
      case None
      then show ?thesis using True no by (simp add: send_or_close_def SendFramedData_def Let_def)
    next
      case (Some p)
      obtain r c' where p: "p = (r, c')" by force
      then have "r < 0" using no Some by (auto simp: takes_def not_le)
      then show ?thesis
        using True no Some p by (simp add: lg_def send_or_close_def SendFramedData_def Let_def notify_closed_def log_with_clients_locked)
    qed
  qed
qed

lemma broadcast_returns:
  fixes E :: "'c comm_env"
  defines "lg \<equiv> log_message E {ClientsMutex}"
  assumes "sendable m"
  shows "all_good s \<Longrightarrow> distinct is \<Longrightarrow> \<forall>i \<in> set is. i < length (Conns s) \<Longrightarrow>
    (\<exists>t. broadcast_to L lg What (SendFramedData L lg m) is s = Inr t) \<longleftrightarrow> (\<forall>i \<in> set is. up s i \<longrightarrow> takes L m (Conns s ! i))"
proof (induction "is" arbitrary: s)
  case (Cons i "is")
  have i: "i < length (Conns s)" using Cons.prems(3) by simp
  note step = send_locked [where E = E and What = What, OF Cons.prems(1) i assms(2), folded lg_def]
  show ?case
  proof (cases "up s i \<longrightarrow> takes L m (Conns s ! i)")
    case True
    with step obtain c' where c': "good c'" "send_or_close L lg What (SendFramedData L lg m) i s = Inr (s\<lparr>Conns := (Conns s)[i := c']\<rparr>)" by auto
    let ?s = "s\<lparr>Conns := (Conns s)[i := c']\<rparr>"
    have "all_good ?s" using Cons.prems(1) c'(1) by (simp add: all_good_def conn_nth_update)
    then have "(\<exists>t. broadcast_to L lg What (SendFramedData L lg m) is ?s = Inr t) \<longleftrightarrow> (\<forall>j \<in> set is. up ?s j \<longrightarrow> takes L m (Conns ?s ! j))"
      using Cons.IH [of ?s] Cons.prems(2,3) by simp
    moreover have "Conns ?s ! j = Conns s ! j" if "j \<in> set is" for j using that Cons.prems(2) by (cases "i = j") auto
    ultimately show ?thesis using True c'(2) by simp
  next
    case False
    with step obtain e where "send_or_close L lg What (SendFramedData L lg m) i s = Inl e" by auto
    then show ?thesis using False by simp
  qed
qed simp

end


text \<open>C27. A traffic update reaches the clients only if every one whose connection is open takes the whole frame: exactly then the
  broadcast returns. If one client's socket refuses, or does not take the bytes, the thread of the updates never
  comes back, since it logs the failure, which takes the mutex of the list again, or waits in \<^verbatim>\<open>send\<close> while it holds it.\<close>

theorem broadcast_needs_every_client:
  assumes "ClientLink E = unix_link" and "bHasClients s"
    and "distinct (Clients s)" and "\<forall>i \<in> set (Clients s). i < length (Conns s)" and "\<forall>c \<in> set (Conns s). unix_good c"
    and "length (encode (fst (GetUpdates M))) < 2 ^ 32 - 1"
  shows "(\<exists>Ms. BroadcastTrafficUpdate E encode (M, s) = Inr Ms) \<longleftrightarrow>
    (\<forall>i \<in> set (Clients s). IsConnected (fst (Conns s ! i)) \<longrightarrow>
      (\<exists>Sock rest. SendFramed (snd (Conns s ! i)) (fst (Conns s ! i)) (SerializeMessage MT_TrafficTreeUpdate (encode (fst (GetUpdates M))))
        = Some (True, Sock, rest)))"
proof -
  let ?m = "SerializeMessage MT_TrafficTreeUpdate (encode (fst (GetUpdates M)))"
  have m: "sendable ?m" using assms(6) by (simp add: sendable_def SerializeMessage_def)
  have "(\<exists>Ms. BroadcastTrafficUpdate E encode (M, s) = Inr Ms) \<longleftrightarrow>
      (\<exists>t. broadcast_to unix_link (log_message E {ClientsMutex}) (''Failed to send traffic update to client: '' @ StrError E)
        (SendFramedData unix_link (log_message E {ClientsMutex}) ?m) (Clients s) s = Inr t)"
    using assms(1,2) by (simp add: BroadcastTrafficUpdate_def broadcast_locked_def case_prod_unfold Let_def and_then_Inr)
  also have "\<dots> \<longleftrightarrow> (\<forall>i \<in> set (Clients s). LinkIsConnected unix_link (Conns s ! i) \<longrightarrow> takes unix_link ?m (Conns s ! i))"
    using assms(3-5) by (intro unix.broadcast_returns [OF m]) (auto simp: unix.all_good_def)
  also have "\<dots> \<longleftrightarrow> (\<forall>i \<in> set (Clients s). IsConnected (fst (Conns s ! i)) \<longrightarrow>
      (\<exists>Sock rest. SendFramed (snd (Conns s ! i)) (fst (Conns s ! i)) ?m = Some (True, Sock, rest)))"
  proof (intro ball_cong refl imp_cong)
    fix i
    show "LinkIsConnected unix_link (Conns s ! i) = IsConnected (fst (Conns s ! i))" by (simp add: unix_link_def case_prod_unfold)
    show "takes unix_link ?m (Conns s ! i) \<longleftrightarrow> (\<exists>Sock rest. SendFramed (snd (Conns s ! i)) (fst (Conns s ! i)) ?m = Some (True, Sock, rest))"
      by (auto simp: takes_def unix_link_def case_prod_unfold split: option.splits if_splits)
  qed
  finally show ?thesis .
qed


text \<open>The update that comes between is lost: nothing in the list is sent twice, and the next update has only what changed since.\<close>

lemma update_while_connecting_lost:
  "expected [Accept c d, UpdateOp m, PushOp 0, UpdateOp m'] 0 0 False = initial_messages d @ [m']"
  by simp

section \<open>The history\<close>

definition updates_fit :: "update_env \<Rightarrow> WSystemMap \<Rightarrow> bool" where
  "updates_fit U M \<longleftrightarrow> length (EncodeUpdates U (fst (GetUpdates M))) < 2 ^ 32 - 1 \<and> (\<forall>a. AtlasOfApps U = Some a \<longrightarrow> length a < 2 ^ 32 - 1)"

definition is_history :: "u8 list \<Rightarrow> bool" where
  "is_history m \<longleftrightarrow> m \<noteq> [] \<and> hd m = 6"

lemma update_fits_message:
  "length p < 2 ^ 32 - 1 \<Longrightarrow> update_fits (SerializeMessage MT_TrafficTreeUpdate p) \<and> \<not> is_history (SerializeMessage MT_TrafficTreeUpdate p)"
  "length p < 2 ^ 32 - 1 \<Longrightarrow> update_fits (SerializeMessage MT_AppIconAtlasData p) \<and> \<not> is_history (SerializeMessage MT_AppIconAtlasData p)"
  by (auto simp: update_fits_def sendable_def SerializeMessage_def is_log_def is_history_def)

context client_contract
begin

text \<open>What the traffic and atlas parts of the periodic updates send.\<close>

definition no_history :: "'c daemon_socket \<Rightarrow> 'c daemon_socket \<Rightarrow> bool" where
  "no_history s t \<longleftrightarrow> (\<exists>D. delta D s t \<and> (\<forall>i. \<forall>m \<in> set (D i). \<not> is_history m))"

lemma no_history_trans: "no_history s t \<Longrightarrow> no_history t u \<Longrightarrow> no_history s u"
proof -
  assume "no_history s t" "no_history t u"
  then obtain D D' where D: "delta D s t" "\<forall>i. \<forall>m \<in> set (D i). \<not> is_history m" "delta D' t u" "\<forall>i. \<forall>m \<in> set (D' i). \<not> is_history m"
    unfolding no_history_def by blast
  have "\<forall>i. \<forall>m \<in> set (D i @ D' i). \<not> is_history m" using D(2,4) by auto
  then show ?thesis unfolding no_history_def using delta_trans [OF D(1,3)] by blast
qed

lemma no_history_refl: "clients_ok s \<Longrightarrow> no_history s s"
  unfolding no_history_def clients_ok_def by (intro exI [of _ "\<lambda>_. []"]) (simp add: delta_refl)

lemma no_history_ok: "clients_ok s \<Longrightarrow> no_history s t \<Longrightarrow> clients_ok t"
  by (auto simp: no_history_def clients_ok_def delta_def all_good_def)

lemma broadcast_locked_no_history:
  assumes E: "logs_fit E" "ClientLink E = L" and "clients_ok s" "update_fits m \<and> \<not> is_history m"
    and "broadcast_locked E What (SendFramedData (ClientLink E) (log_message E {ClientsMutex}) m) s = Inr t"
  shows "no_history s t"
proof -
  have "sendable m" using assms(4) by (simp add: update_fits_def)
  note send = SendFramedData_delta [OF log_message_quiet [OF E] _ this]
  have "delta (\<lambda>j. if j \<in> set (Clients s) then [m] else []) s t"
    by (rule broadcast_locked_delta [OF E assms(3) _ send]) (use assms(4,5) E(2) in simp_all)
  then show ?thesis unfolding no_history_def using assms(4) by (intro exI [of _ "\<lambda>j. if j \<in> set (Clients s) then [m] else []"]) auto
qed

lemma BroadcastUpdates_no_history:
  assumes E: "logs_fit E" "ClientLink E = L" and "updates_fit U M" "clients_ok s" "bHasClients s"
    and run: "BroadcastUpdates E U (M, H, s) = Inr (M', H', s')" and "Changes (fst (HistoryUpdate M' H)) = []"
  shows "H' = snd (HistoryUpdate M' H) \<and> no_history s s'"
proof -
  obtain s1 s2 where s1: "(if HasNewData M then BroadcastTrafficUpdate E (EncodeUpdates U) (M, s) else Inr (M, s)) = Inr (M', s1)"
    and s2: "(if AtlasDirty U then BroadcastAtlasUpdate E (AtlasOfApps U) s1 else Inr s1) = Inr s2"
    and s': "H' = snd (HistoryUpdate M' H)"
      "(if Changes (fst (HistoryUpdate M' H)) \<noteq> [] then BroadcastConnectionHistoryUpdate E (EncodeHistory U) (fst (HistoryUpdate M' H)) s2 else Inr s2) = Inr s'"
    using run assms(5) unfolding BroadcastUpdates_def prod.case and_then_Inr case_prod_unfold Let_def by (auto simp: and_then_Inr cong: if_cong)
  have H': "H' = snd (HistoryUpdate M' H)" "s' = s2" using s' assms(7) by simp_all
  have n1: "no_history s s1"
  proof (cases "HasNewData M")
    case True
    then have "broadcast_locked E ''Failed to send traffic update to client: '' (SendFramedData (ClientLink E) (log_message E {ClientsMutex})
        (SerializeMessage MT_TrafficTreeUpdate (EncodeUpdates U (fst (GetUpdates M))))) s = Inr s1"
      using s1 assms(5) by (auto simp: BroadcastTrafficUpdate_def and_then_Inr case_prod_unfold Let_def)
    then show ?thesis by (rule broadcast_locked_no_history [OF E assms(4) update_fits_message(1), rotated]) (use assms(3) in \<open>simp add: updates_fit_def\<close>)
  qed (use s1 assms(4) no_history_refl in simp)
  have ok1: "clients_ok s1" by (rule no_history_ok [OF assms(4) n1])
  have "no_history s1 s2"
  proof (cases "AtlasDirty U \<and> AtlasOfApps U \<noteq> None")
    case True
    then obtain a where a: "AtlasOfApps U = Some a" by auto
    then have "broadcast_locked E ''Failed to send app icon atlas update to client: '' (SendFramedData (ClientLink E) (log_message E {ClientsMutex})
        (SerializeMessage MT_AppIconAtlasData a)) s1 = Inr s2"
      using s2 True by (simp add: BroadcastAtlasUpdate_def)
    then show ?thesis by (rule broadcast_locked_no_history [OF E ok1 update_fits_message(2), rotated]) (use assms(3) a in \<open>simp add: updates_fit_def\<close>)
  next
    case False
    then have "s2 = s1" using s2 by (auto simp: BroadcastAtlasUpdate_def split: if_splits)
    then show ?thesis using no_history_refl [OF ok1] by simp
  qed
  then show ?thesis using H' no_history_trans [OF n1] by simp
qed

end

lemma update_entry_counter: "NewItemCounter (snd (update_entry M i cH)) = NewItemCounter (snd cH)"
  by (simp add: update_entry_def case_prod_unfold Let_def upd_entry_def)

lemma fold_update_counter: "NewItemCounter (snd (fold (update_entry M) is cH)) = NewItemCounter (snd cH)"
  by (induction "is" arbitrary: cH) (simp_all add: update_entry_counter)

lemma HistoryUpdate_counter:
  "NewItemCounter (snd (HistoryUpdate M H)) = 0" "NewItemCounter H = 0 \<Longrightarrow> NewEntries (fst (HistoryUpdate M H)) = []"
  using fold_update_counter [of M "History H" "([], H)"] by (auto simp: HistoryUpdate_def case_prod_unfold Let_def word_gt_0)



section \<open>Concrete clients\<close>

definition test_comm :: "(WClientSocket \<times> send_answer list) comm_env" where
  "test_comm = \<lparr>ClientLink = unix_link, LogPayload = (\<lambda>l t. [0]), StrError = ''Broken pipe''\<rparr>"

definition test_initial :: initial_data where
  "test_initial = \<lparr>Handshake = [1], TrafficTree = [], HistoryData = [], ConfigData = [], MemoryStats = [], CurrentRules = [], AtlasData = None\<rparr>"

definition test_ops :: "(WClientSocket \<times> send_answer list) comm_op list" where
  "test_ops = [Accept (test_socket, replicate 14 (Sent 9)) test_initial, UpdateOp [1, 7], PushOp 0, LogOp LogInfo ''Atlas'', UpdateOp [1, 8]]"

definition test_clients :: "(WClientSocket \<times> send_answer list) daemon_socket" where
  "test_clients = (case comm_run test_comm test_ops no_clients of Inr s \<Rightarrow> s | Inl _ \<Rightarrow> no_clients)"

lemma test_comm_run: "comm_run test_comm test_ops no_clients = Inr test_clients"
  by code_simp

lemma test_clients_state: "length (Conns test_clients) = 1" "IsConnected (fst (Conns test_clients ! 0))" "bHasClients test_clients" "Clients test_clients = [0]"
 "snd (frames (Wire (fst (Conns test_clients ! 0)))) = []"
  by code_simp+

definition test_quiet_map :: WSystemMap where
  "test_quiet_map = test_history_map\<lparr>SockHeap := [\<lparr>SockCounter = TTrafficCounter_init 0 (test_tcp_item\<lparr>TotalDownloadBytes := 0, TotalUploadBytes := 0\<rparr>),
     ParentProcess = 0, UDPPerConnectionCounters = []\<rparr>]\<rparr>"

definition test_updates :: update_env where
  "test_updates = \<lparr>EncodeUpdates = (\<lambda>_. [0]), EncodeHistory = (\<lambda>_. [0]), AtlasDirty = False, AtlasOfApps = None\<rparr>"

lemma test_comm_fits: "logs_fit test_comm" "ClientLink test_comm = unix_link" "updates_fit test_updates M"
  by (simp_all add: logs_fit_def test_comm_def updates_fit_def test_updates_def)

lemma test_clients_ok:
  "distinct (Clients test_clients)" "\<forall>i \<in> set (Clients test_clients). i < length (Conns test_clients)" "\<forall>c \<in> set (Conns test_clients). unix_good c"
proof -
  show "distinct (Clients test_clients)" "\<forall>i \<in> set (Clients test_clients). i < length (Conns test_clients)"
    by (simp_all add: test_clients_state)
  have "Conns test_clients = [Conns test_clients ! 0]"
    using test_clients_state(1) by (metis One_nat_def length_0_conv length_Suc_conv nth_Cons_0)
  then show "\<forall>c \<in> set (Conns test_clients). unix_good c"
    using test_clients_state(5) by (metis empty_iff list.set(1) set_ConsD unix_good_def)
qed

text \<open>A client that hung up just before an update.\<close>

definition test_hung_up :: "(WClientSocket \<times> send_answer list) daemon_socket" where
  "test_hung_up = \<lparr>Conns = [(test_socket, [SendFailed])], Clients = [0], bHasClients = True\<rparr>"

lemma hung_up_deadlocks: "BroadcastTrafficUpdate test_comm (\<lambda>_. [0]) (test_quiet_map, test_hung_up) = Inl SelfDeadlock"
proof -
  have "broadcast_locked test_comm What (SendFramedData (ClientLink test_comm) (log_message test_comm {ClientsMutex}) [1, 0]) test_hung_up = Inl SelfDeadlock" for What
  proof -
    have "SendFramed [SendFailed] test_socket [1, 0] = Some (False, CloseSocket test_socket, [])" "IsConnected test_socket"
        "ClosedEvents (CloseSocket test_socket) \<noteq> ClosedEvents test_socket" by code_simp+
    then show ?thesis
      by (simp add: broadcast_locked_def test_hung_up_def test_comm_def unix_link_def send_or_close_def SendFramedData_def notify_closed_def
          log_with_clients_locked)
  qed
  then show ?thesis by (simp add: BroadcastTrafficUpdate_def case_prod_unfold Let_def SerializeMessage_def test_hung_up_def)
qed

theorem broadcast_needs_every_client_witness:
  "\<not> (\<exists>Ms. BroadcastTrafficUpdate test_comm (\<lambda>_. [0]) (test_quiet_map, test_hung_up) = Inr Ms)"
proof -
  have "SendFramed [SendFailed] test_socket [1, 0] = Some (False, CloseSocket test_socket, [])" "IsConnected test_socket" by code_simp+
  moreover have "unix_good (test_socket, [SendFailed])" by code_simp
  ultimately show ?thesis
    using broadcast_needs_every_client [of test_comm test_hung_up "\<lambda>_. [0]" test_quiet_map]
    by (simp add: test_comm_fits test_hung_up_def SerializeMessage_def)
qed


lemma test_quiet_update:
  "HasNewData test_quiet_map = False" "Changes (fst (HistoryUpdate test_quiet_map test_history)) = []"
  "length (NewEntries (fst (HistoryUpdate test_quiet_map test_history))) = 1"
proof -
  show "HasNewData test_quiet_map = False" by code_simp
  have e: "EntryUpdate test_quiet_map test_history (EntryHeap test_history ! 0) = (False, EntryHeap test_history ! 0)"
    by code_simp
  have u: "update_entry test_quiet_map 0 ([], test_history) = ([], upd_entry 0 (\<lambda>_. EntryHeap test_history ! 0) test_history)"
    by (simp add: update_entry_def e Let_def)
  then show "Changes (fst (HistoryUpdate test_quiet_map test_history)) = []"
    "length (NewEntries (fst (HistoryUpdate test_quiet_map test_history))) = 1"
    by (simp_all add: HistoryUpdate_def test_history_state Let_def upd_entry_def)
qed



section \<open>Requests of a client\<close>

text \<open>Which handler a message goes to. The handlers are \<open>HandleRuleChange\<close> of \<open>Rule_Manager\<close>, \<open>RequestStats\<close> of \<open>Stats_Requests\<close>,
  \<open>UpdateDatabase\<close> of \<open>IP2Asn_Db\<close>, \<open>HandleConfigMessage\<close> of \<open>Daemon_Config\<close> and the two below.\<close>

datatype client_request = RuleRequest | ResolveRequest | StatsRequest int | LookupRequest | UpdateDbRequest | ConfigRequest

abbreviation "MT_UpdateIP2AsnDb \<equiv> 8 :: int"
abbreviation "MT_ResolveRequest \<equiv> 9 :: int"
abbreviation "MT_ResolveResponse \<equiv> 10 :: int"
abbreviation "MT_StatsRequest \<equiv> 11 :: int"
abbreviation "MT_HistoryRequest \<equiv> 13 :: int"
abbreviation "MT_IPLookupRequest \<equiv> 15 :: int"
abbreviation "MT_IPLookupResponse \<equiv> 16 :: int"

definition OnDataReceived :: "WBuffer \<Rightarrow> client_request option \<times> WBuffer" where
  "OnDataReceived RecvBuf =
     (let (Type, Buf) = ReadMessageTypeFromBuffer RecvBuf in
      (if Type = MT_Invalid then None
       else if Type = MT_RuleUpdate then Some RuleRequest
       else if Type = MT_ResolveRequest then Some ResolveRequest
       else if Type = MT_HistoryRequest \<or> Type = MT_StatsRequest then Some (StatsRequest Type)
       else if Type = MT_IPLookupRequest then Some LookupRequest
       else if Type = MT_UpdateIP2AsnDb then Some UpdateDbRequest
       else if Type = MT_DaemonConfig then Some ConfigRequest
       else None, Buf))"

text \<open>The answer of the resolver or of the database comes later, when the connection may be closed.\<close>

definition HandleResolveRequest :: "'c client_link \<Rightarrow> (WBuffer \<Rightarrow> WIPAddress option) \<Rightarrow> (WIPAddress \<Rightarrow> string) \<Rightarrow> (WIPAddress \<Rightarrow> string \<Rightarrow> u8 list)
    \<Rightarrow> WBuffer \<Rightarrow> 'c \<Rightarrow> (int \<times> 'c) option" where
  "HandleResolveRequest L decode resolve encode Buf c =
     (case decode Buf of
        None \<Rightarrow> Some (0, c)
      | Some A \<Rightarrow>
          if \<not> LinkIsConnected L c then Some (0, c)
          else LinkSendFramed L (SerializeMessage MT_ResolveResponse (encode A (resolve A))) c)"

definition HandleIPLookupRequest :: "'c client_link \<Rightarrow> (WBuffer \<Rightarrow> WIPAddress option) \<Rightarrow> (WIPAddress \<Rightarrow> 'r option) \<Rightarrow> ('r \<Rightarrow> u8 list)
    \<Rightarrow> WBuffer \<Rightarrow> 'c \<Rightarrow> (int \<times> 'c) option" where
  "HandleIPLookupRequest L decode lookup encode Buf c =
     (case decode Buf of
        None \<Rightarrow> Some (0, c)
      | Some A \<Rightarrow>
          if \<not> LinkIsConnected L c then Some (0, c)
          else (case lookup A of
              None \<Rightarrow> Some (0, c)
            | Some r \<Rightarrow> LinkSendFramed L (SerializeMessage MT_IPLookupResponse (encode r)) c))"

text \<open>Every request with a known answer is answered with one message, over a connection that takes it.\<close>

context client_contract
begin

lemma resolve_answered:
  assumes "decode Buf = Some A" "good c" "LinkIsConnected L c" "sendable (SerializeMessage MT_ResolveResponse (encode A (resolve A)))"
    and "HandleResolveRequest L decode resolve encode Buf c = Some (r, c')" "0 \<le> r"
  shows "delivered c' = delivered c @ [SerializeMessage MT_ResolveResponse (encode A (resolve A))]"
  using taken [OF assms(2-4)] assms(1,3,5,6) by (simp add: HandleResolveRequest_def)

lemma lookup_answered:
  assumes "decode Buf = Some A" "lookup A = Some x" "good c" "LinkIsConnected L c" "sendable (SerializeMessage MT_IPLookupResponse (encode x))"
    and "HandleIPLookupRequest L decode lookup encode Buf c = Some (r, c')" "0 \<le> r"
  shows "delivered c' = delivered c @ [SerializeMessage MT_IPLookupResponse (encode x)]"
  using taken [OF assms(3-5)] assms(1,2,4,6,7) by (simp add: HandleIPLookupRequest_def)

end

end
