(* ===== verification/Client_Tree.thy ===== *)
theory Client_Tree
  imports Rule_Manager System_Tree
begin

text \<open>
  \<^verbatim>\<open>Gui/Windows/TrafficTree.cpp\<close>, \<^verbatim>\<open>Gui/ClientRuleManager.cpp\<close> and the dispatch of \<^verbatim>\<open>Gui/Client.cpp\<close>: the copy of the item
  tree that a client keeps, loaded from the daemon when it connects and updated once a second. An item is shared between
  the tree, the index \<^verbatim>\<open>TrafficItems\<close> and the windows, so it is an object in a heap and a
  \<^verbatim>\<open>shared_ptr\<close> is its address; objects are never freed. The messages are decoded by cereal, a parameter. A failed
  load leaves the part of the tree that was read; an application that is \<^verbatim>\<open>NULL\<close> in a message is
  dropped while loading. The daemon always sends the endpoints with a state change. Drawing is not in the model; of
  what the windows do with the state only the lookups are.
\<close>

section \<open>State\<close>

datatype tree_ref = RootRef | AppPtr addr | ProcPtr addr | SockPtr addr | TuplePtr addr | FilterPtr addr

record WTrafficTree =
  Root :: "(addr, addr) WSystemItem"
  CApps :: "addr WApplicationItem list"
  CProcs :: "addr WProcessItem list"
  CSocks :: "addr WSocketItem list"
  CTuples :: "WTupleItem list"
  CFilters :: "WFilterItem list"
  TreeItems :: "(WTrafficItemId, tree_ref) umap"
  MarkedItems :: "WTrafficItemId list"
  ResolvedAddresses :: "(WIPAddress, string) umap"
  SelectedItemId :: WTrafficItemId
  bRequireTreeSorting :: bool
  ClientRules :: "(WTrafficItemId, WTrafficItemRules) umap"
  ResolveRequests :: "WIPAddress list"
  GraphData :: "(WBytesPerSecond \<times> WBytesPerSecond) list"

definition WSystemItem_init :: "(addr, addr) WSystemItem" where
  "WSystemItem_init = ITrafficItem.extend (ITrafficItem_init 0) (WSystemItem.fields ''System'' [] [])"

definition WTrafficTree_init :: WTrafficTree where
  "WTrafficTree_init = \<lparr>Root = WSystemItem_init, CApps = [], CProcs = [], CSocks = [], CTuples = [], CFilters = [],
     TreeItems = [], MarkedItems = [], ResolvedAddresses = [], SelectedItemId = - 1, bRequireTreeSorting = False,
     ClientRules = [], ResolveRequests = [], GraphData = []\<rparr>"

section \<open>Objects\<close>

text \<open>What an operation does to the part that all items share.\<close>

definition lift_base :: "(ITrafficItem \<Rightarrow> ITrafficItem) \<Rightarrow> 'a ITrafficItem_scheme \<Rightarrow> 'a ITrafficItem_scheme" where
  "lift_base f i = ITrafficItem.extend (f (ITrafficItem.truncate i)) (ITrafficItem.more i)"

fun upd_base :: "tree_ref \<Rightarrow> (ITrafficItem \<Rightarrow> ITrafficItem) \<Rightarrow> WTrafficTree \<Rightarrow> WTrafficTree" where
  "upd_base RootRef f s = s\<lparr>Root := lift_base f (Root s)\<rparr>"
| "upd_base (AppPtr a) f s = s\<lparr>CApps := (CApps s)[a := lift_base f (CApps s ! a)]\<rparr>"
| "upd_base (ProcPtr a) f s = s\<lparr>CProcs := (CProcs s)[a := lift_base f (CProcs s ! a)]\<rparr>"
| "upd_base (SockPtr a) f s = s\<lparr>CSocks := (CSocks s)[a := lift_base f (CSocks s ! a)]\<rparr>"
| "upd_base (TuplePtr a) f s = s\<lparr>CTuples := (CTuples s)[a := lift_base f (CTuples s ! a)]\<rparr>"
| "upd_base (FilterPtr a) f s = s\<lparr>CFilters := (CFilters s)[a := lift_base f (CFilters s ! a)]\<rparr>"

fun get_base :: "tree_ref \<Rightarrow> WTrafficTree \<Rightarrow> ITrafficItem" where
  "get_base RootRef s = ITrafficItem.truncate (Root s)"
| "get_base (AppPtr a) s = ITrafficItem.truncate (CApps s ! a)"
| "get_base (ProcPtr a) s = ITrafficItem.truncate (CProcs s ! a)"
| "get_base (SockPtr a) s = ITrafficItem.truncate (CSocks s ! a)"
| "get_base (TuplePtr a) s = ITrafficItem.truncate (CTuples s ! a)"
| "get_base (FilterPtr a) s = ITrafficItem.truncate (CFilters s ! a)"

definition upd_csock :: "addr \<Rightarrow> (addr WSocketItem \<Rightarrow> addr WSocketItem) \<Rightarrow> WTrafficTree \<Rightarrow> WTrafficTree" where
  "upd_csock a f s = s\<lparr>CSocks := (CSocks s)[a := f (CSocks s ! a)]\<rparr>"

definition index_item :: "WTrafficItemId \<Rightarrow> tree_ref \<Rightarrow> WTrafficTree \<Rightarrow> WTrafficTree" where
  "index_item i r s = s\<lparr>TreeItems := AList.update i r (TreeItems s)\<rparr>"

definition GetItemFromId :: "WTrafficItemId \<Rightarrow> WTrafficTree \<Rightarrow> tree_ref option" where
  "GetItemFromId i s = map_of (TreeItems s) i"

section \<open>Loading\<close>

fun alloc_all :: "('x \<Rightarrow> 's \<Rightarrow> addr \<times> 's) \<Rightarrow> 'x list \<Rightarrow> 's \<Rightarrow> addr list \<times> 's" where
  "alloc_all f [] s = ([], s)"
| "alloc_all f (x # xs) s = (let (a, s1) = f x s; (as, s2) = alloc_all f xs s1 in (a # as, s2))"

definition alloc_map :: "('x \<Rightarrow> 's \<Rightarrow> addr \<times> 's) \<Rightarrow> ('k, 'x) umap \<Rightarrow> 's \<Rightarrow> ('k, addr) umap \<times> 's" where
  "alloc_map f m s = (let (as, s1) = alloc_all f (map snd m) s in (zip (map fst m) as, s1))"

definition load_tuple :: "WTupleItem \<Rightarrow> WTrafficTree \<Rightarrow> addr \<times> WTrafficTree" where
  "load_tuple t s = (length (CTuples s), s\<lparr>CTuples := CTuples s @ [t]\<rparr>)"

definition load_filter :: "WFilterItem \<Rightarrow> WTrafficTree \<Rightarrow> addr \<times> WTrafficTree" where
  "load_filter t s = (length (CFilters s), s\<lparr>CFilters := CFilters s @ [t]\<rparr>)"

definition load_socket :: "SocketTree \<Rightarrow> WTrafficTree \<Rightarrow> addr \<times> WTrafficTree" where
  "load_socket k s =
     (let (ts, s1) = alloc_all load_tuple (UDPPerConnectionTraffic k) s;
          item = ITrafficItem.extend (ITrafficItem.truncate k)
            (WSocketItem.fields (SocketTuple k) ts (Cookie k) (SocketType k) (ConnectionState k))
      in (length (CSocks s1), s1\<lparr>CSocks := CSocks s1 @ [item]\<rparr>))"

definition load_process :: "ProcessTree \<Rightarrow> WTrafficTree \<Rightarrow> addr \<times> WTrafficTree" where
  "load_process p s =
     (let (m, s1) = alloc_map load_socket (Sockets p) s;
          item = ITrafficItem.extend (ITrafficItem.truncate p) (WProcessItem.fields (ProcessId p) m)
      in (length (CProcs s1), s1\<lparr>CProcs := CProcs s1 @ [item]\<rparr>))"

definition load_app :: "ApplicationTree \<Rightarrow> WTrafficTree \<Rightarrow> addr \<times> WTrafficTree" where
  "load_app A s =
     (let (m, s1) = alloc_map load_process (Processes A) s;
          item = ITrafficItem.extend (ITrafficItem.truncate A)
            (WApplicationItem.fields (ApplicationName A) (ApplicationPath A) (ApplicationCommandLine A) m)
      in (length (CApps s1), s1\<lparr>CApps := CApps s1 @ [item]\<rparr>))"

text \<open>What the archive holds, and what of it becomes the tree: \<^verbatim>\<open>NULL\<close> applications are erased.\<close>

type_synonym WireTree = "(WFilterItem, ApplicationTree option) WSystemItem"

definition present_apps :: "(string, ApplicationTree option) umap \<Rightarrow> (string, ApplicationTree) umap" where
  "present_apps m = List.map_filter (\<lambda>(k, A). map_option (Pair k) A) m"

definition load_root :: "WireTree \<Rightarrow> WTrafficTree \<Rightarrow> WTrafficTree" where
  "load_root T s =
     (let (m, s1) = alloc_map load_app (present_apps (Applications T)) s;
          (fs, s2) = alloc_all load_filter (Filters T) s1
      in s2\<lparr>Root := ITrafficItem.extend (ITrafficItem.truncate T) (WSystemItem.fields (HostName T) fs m)\<rparr>)"

text \<open>The index of a loaded tree, in the order of the loops.\<close>

definition index_tuple :: "addr \<Rightarrow> WTrafficTree \<Rightarrow> WTrafficTree" where
  "index_tuple t s = index_item (ItemId (CTuples s ! t)) (TuplePtr t) s"

definition index_socket :: "addr \<Rightarrow> WTrafficTree \<Rightarrow> WTrafficTree" where
  "index_socket k s =
     (let s1 = index_item (ItemId (CSocks s ! k)) (SockPtr k) s in fold index_tuple (UDPPerConnectionTraffic (CSocks s1 ! k)) s1)"

definition index_process :: "addr \<Rightarrow> WTrafficTree \<Rightarrow> WTrafficTree" where
  "index_process p s =
     (let s1 = index_item (ItemId (CProcs s ! p)) (ProcPtr p) s in fold (\<lambda>(_, k). index_socket k) (Sockets (CProcs s1 ! p)) s1)"

definition index_app :: "addr \<Rightarrow> WTrafficTree \<Rightarrow> WTrafficTree" where
  "index_app a s =
     (let s1 = index_item (ItemId (CApps s ! a)) (AppPtr a) s in fold (\<lambda>(_, p). index_process p) (Processes (CApps s1 ! a)) s1)"

definition index_filter :: "addr \<Rightarrow> WTrafficTree \<Rightarrow> WTrafficTree" where
  "index_filter t s = index_item (ItemId (CFilters s ! t)) (FilterPtr t) s"

definition index_tree :: "WTrafficTree \<Rightarrow> WTrafficTree" where
  "index_tree s =
     (let s1 = fold (\<lambda>(_, a). index_app a) (Applications (Root s)) s
      in index_item 0 RootRef (fold index_filter (Filters (Root s1)) s1))"

record client_codec =
  decode_tree :: "u8 list \<Rightarrow> bool \<times> WireTree"
  decode_updates :: "u8 list \<Rightarrow> WTrafficTreeUpdates option"
  decode_resolve :: "u8 list \<Rightarrow> (WIPAddress \<times> string) option"
  decode_rule :: "u8 list \<Rightarrow> WRuleUpdate option"

definition LoadFromBuffer :: "client_codec \<Rightarrow> u8 list \<Rightarrow> WTrafficTree \<Rightarrow> WTrafficTree" where
  "LoadFromBuffer C Buffer s =
     (let (ok, T) = decode_tree C Buffer; s1 = load_root T (s\<lparr>TreeItems := []\<rparr>)
      in if ok then index_tree s1 else s1)"

section \<open>Removing\<close>

text \<open>\<^verbatim>\<open>RemoveTrafficItem\<close> looks for an application, then application by application for a process and for a socket.\<close>

fun remove_in_procs :: "WTrafficItemId \<Rightarrow> addr list \<Rightarrow> WTrafficTree \<Rightarrow> bool \<times> WTrafficTree" where
  "remove_in_procs Ident [] s = (False, s)"
| "remove_in_procs Ident (p # ps) s =
     (let (ok, P) = RemoveChildProcess (\<lambda>k. ItemId (CSocks s ! k)) Ident (CProcs s ! p) in
      if ok then (True, s\<lparr>CProcs := (CProcs s)[p := P]\<rparr>) else remove_in_procs Ident ps s)"

fun remove_in_apps :: "WTrafficItemId \<Rightarrow> addr list \<Rightarrow> WTrafficTree \<Rightarrow> WTrafficTree" where
  "remove_in_apps Ident [] s = s"
| "remove_in_apps Ident (a # as) s =
     (let (ok, A) = RemoveChildApplication (\<lambda>p. ItemId (CProcs s ! p)) Ident (CApps s ! a) in
      if ok then s\<lparr>CApps := (CApps s)[a := A]\<rparr>
      else (case remove_in_procs Ident (map snd (Processes (CApps s ! a))) s of
          (True, s1) \<Rightarrow> s1
        | (False, _) \<Rightarrow> remove_in_apps Ident as s))"

definition RemoveRules :: "WTrafficItemId \<Rightarrow> WTrafficTree \<Rightarrow> WTrafficTree" where
  "RemoveRules Ident s = s\<lparr>ClientRules := AList.delete Ident (ClientRules s)\<rparr>"

definition RemoveTrafficItem :: "WTrafficItemId \<Rightarrow> WTrafficTree \<Rightarrow> WTrafficTree" where
  "RemoveTrafficItem Ident s =
     (let s1 = RemoveRules Ident (s\<lparr>MarkedItems := removeAll Ident (MarkedItems s)\<rparr>);
          (ok, R) = RemoveChildSystem (\<lambda>a. ItemId (CApps s1 ! a)) Ident (Root s1)
      in if ok then s1\<lparr>Root := R\<rparr> else remove_in_apps Ident (map snd (Applications (Root s1))) s1)"

section \<open>Updating\<close>

definition mark_item :: "WTrafficItemId \<Rightarrow> WTrafficTree \<Rightarrow> WTrafficTree" where
  "mark_item MarkedId s =
     (let s1 = s\<lparr>MarkedItems := List.insert MarkedId (MarkedItems s)\<rparr> in
      case map_of (TreeItems s1) MarkedId of
        None \<Rightarrow> s1
      | Some r \<Rightarrow>
          let s2 = upd_base r (\<lambda>i. i\<lparr>DownloadSpeed := 0, UploadSpeed := 0\<rparr>) s1
          in (case r of SockPtr k \<Rightarrow> upd_csock k (\<lambda>i. i\<lparr>ConnectionState := Closed\<rparr>) s2 | _ \<Rightarrow> s2))"

definition remove_item :: "WTrafficItemId \<Rightarrow> WTrafficTree \<Rightarrow> WTrafficTree" where
  "remove_item RemovedId s = RemoveTrafficItem RemovedId (s\<lparr>TreeItems := AList.delete RemovedId (TreeItems s)\<rparr>)"

definition find_or_add_app :: "WTrafficTreeSocketAddition \<Rightarrow> WTrafficTree \<Rightarrow> addr \<times> WTrafficTree" where
  "find_or_add_app A s =
     (case map_of (Applications (Root s)) (AddApplicationPath A) of
        Some a \<Rightarrow> (a, s)
      | None \<Rightarrow>
          let a = length (CApps s);
              s1 = s\<lparr>CApps := CApps s @ [new_app_item (AddApplicationItemId A) (AddApplicationName A) (AddApplicationPath A) []]\<rparr>;
              s2 = s1\<lparr>Root := (Root s1)\<lparr>Applications := AList.update (AddApplicationPath A) a (Applications (Root s1))\<rparr>\<rparr>
          in (a, index_item (AddApplicationItemId A) (AppPtr a) s2))"

definition find_or_add_process :: "WTrafficTreeSocketAddition \<Rightarrow> addr \<Rightarrow> WTrafficTree \<Rightarrow> addr \<times> WTrafficTree" where
  "find_or_add_process A a s =
     (case map_of (Processes (CApps s ! a)) (AddProcessId A) of
        Some p \<Rightarrow> (p, s)
      | None \<Rightarrow>
          let p = length (CProcs s);
              s1 = s\<lparr>CProcs := CProcs s @ [new_proc_item (AddProcessItemId A) (AddProcessId A)]\<rparr>;
              s2 = s1\<lparr>CApps := (CApps s1)[a := (CApps s1 ! a)\<lparr>Processes := AList.update (AddProcessId A) p (Processes (CApps s1 ! a))\<rparr>]\<rparr>
          in (p, index_item (AddProcessItemId A) (ProcPtr p) s2))"

definition client_sock_item :: "WTrafficTreeSocketAddition \<Rightarrow> addr WSocketItem" where
  "client_sock_item A = (new_sock_item (AddItemId A) (AddSocketCookie A))
     \<lparr>SocketTuple := AddSocketTuple A, SocketType := AddSocketType A, ConnectionState := AddConnectionState A\<rparr>"

definition add_socket :: "WTrafficTreeSocketAddition \<Rightarrow> WTrafficTree \<Rightarrow> WTrafficTree" where
  "add_socket A s =
     (if um_contains (TreeItems s) (AddItemId A) then s
      else
        let (a, s1) = find_or_add_app A s;
            (p, s2) = find_or_add_process A a s1;
            k = length (CSocks s2);
            s3 = s2\<lparr>CSocks := CSocks s2 @ [client_sock_item A]\<rparr>;
            s4 = s3\<lparr>CProcs := (CProcs s3)[p := (CProcs s3 ! p)\<lparr>Sockets := AList.update (AddItemId A) k (Sockets (CProcs s3 ! p))\<rparr>]\<rparr>
        in index_item (AddItemId A) (SockPtr k) s4)"

definition add_tuple :: "WTrafficTreeTupleAddition \<Rightarrow> WTrafficTree \<Rightarrow> WTrafficTree" where
  "add_tuple A s =
     (if um_contains (TreeItems s) (TupItemId A) then s
      else (case map_of (TreeItems s) (TupSocketItemId A) of
          Some (SockPtr k) \<Rightarrow>
            let t = length (CTuples s);
                s1 = s\<lparr>CTuples := CTuples s @ [new_tuple_item (TupItemId A) WEndpoint_init]\<rparr>;
                s2 = upd_csock k (\<lambda>i. i\<lparr>UDPPerConnectionTraffic := UDPPerConnectionTraffic i @ [t]\<rparr>) s1
            in index_item (TupItemId A) (TuplePtr t) s2
        | _ \<Rightarrow> s))"

definition change_state :: "WTrafficTreeSocketStateChange \<Rightarrow> WTrafficTree \<Rightarrow> WTrafficTree" where
  "change_state c s =
     (case map_of (TreeItems s) (ChangeItemId c) of
        Some (SockPtr k) \<Rightarrow> upd_csock k (\<lambda>i. i\<lparr>ConnectionState := NewState c, SocketType := ChangeSocketType c,
            SocketTuple := ChangeTuple c\<rparr>) s
      | _ \<Rightarrow> s)"

definition show_traffic :: "WTrafficTreeTrafficUpdate \<Rightarrow> WTrafficTree \<Rightarrow> WTrafficTree" where
  "show_traffic u s =
     (case map_of (TreeItems s) (UpdItemId u) of
        None \<Rightarrow> s
      | Some r \<Rightarrow>
          let s1 = upd_base r (\<lambda>i. i\<lparr>DownloadSpeed := NewDownloadSpeed u, UploadSpeed := NewUploadSpeed u,
                TotalDownloadBytes := UpdTotalDownloadBytes u, TotalUploadBytes := UpdTotalUploadBytes u\<rparr>) s
          in if UpdItemId u = 0 then s1\<lparr>GraphData := GraphData s1 @ [(UploadSpeed (get_base r s1), DownloadSpeed (get_base r s1))]\<rparr>
             else s1)"

definition apply_updates :: "WTrafficTreeUpdates \<Rightarrow> WTrafficTree \<Rightarrow> WTrafficTree" where
  "apply_updates u s =
     (let s1 = fold mark_item (OutMarkedForRemoval u) s;
          s2 = fold remove_item (OutRemovedItems u) s1;
          s3 = fold add_socket (OutAddedSockets u) s2;
          s4 = fold add_tuple (OutAddedTuples u) s3;
          s5 = fold change_state (OutStateChanges u) s4;
          s6 = fold show_traffic (OutUpdatedItems u) s5
      in s6\<lparr>bRequireTreeSorting := True\<rparr>)"

definition UpdateFromBuffer :: "client_codec \<Rightarrow> u8 list \<Rightarrow> WTrafficTree \<Rightarrow> WTrafficTree" where
  "UpdateFromBuffer C Buffer s = (case decode_updates C Buffer of None \<Rightarrow> s | Some u \<Rightarrow> apply_updates u s)"

section \<open>Names, rules and messages\<close>

definition HandleResolveResponse :: "client_codec \<Rightarrow> u8 list \<Rightarrow> WTrafficTree \<Rightarrow> WTrafficTree" where
  "HandleResolveResponse C Buffer s =
     (case decode_resolve C Buffer of None \<Rightarrow> s
      | Some (ip, n) \<Rightarrow> s\<lparr>ResolvedAddresses := AList.update ip n (ResolvedAddresses s)\<rparr>)"

definition ResolveAddress :: "WIPAddress \<Rightarrow> WTrafficTree \<Rightarrow> string \<times> WTrafficTree" where
  "ResolveAddress ip s =
     (case map_of (ResolvedAddresses s) ip of
        Some n \<Rightarrow> (n, s)
      | None \<Rightarrow> ([], s\<lparr>ResolvedAddresses := AList.update ip [] (ResolvedAddresses s), ResolveRequests := ResolveRequests s @ [ip]\<rparr>))"

fun app_ptr :: "tree_ref \<Rightarrow> addr option" where
  "app_ptr (AppPtr a) = Some a"
| "app_ptr _ = None"

definition find_app_named :: "string \<Rightarrow> WTrafficTree \<Rightarrow> addr option" where
  "find_app_named Name s = find (\<lambda>a. ApplicationName (CApps s ! a) = Name) (List.map_filter (\<lambda>(_, r). app_ptr r) (TreeItems s))"

definition FindDaemonItem :: "WTrafficTree \<Rightarrow> addr option" where
  "FindDaemonItem = find_app_named ''waechterd''"

definition FindClientItem :: "WTrafficTree \<Rightarrow> addr option" where
  "FindClientItem = find_app_named ''waechter''"

definition Clear :: "WTrafficTree \<Rightarrow> WTrafficTree" where
  "Clear s = s\<lparr>TreeItems := [], ResolvedAddresses := [], SelectedItemId := - 1, Root := WSystemItem_init\<rparr>"

definition HandleRuleUpdate :: "client_codec \<Rightarrow> u8 list \<Rightarrow> WTrafficTree \<Rightarrow> WTrafficTree" where
  "HandleRuleUpdate C Buffer s =
     (case decode_rule C Buffer of None \<Rightarrow> s
      | Some u \<Rightarrow> s\<lparr>ClientRules := AList.update (TrafficItemId u) (UpdateRules u) (ClientRules s)\<rparr>)"

definition GetOrCreateRules :: "WTrafficItemId \<Rightarrow> WTrafficTree \<Rightarrow> WTrafficItemRules \<times> WTrafficTree" where
  "GetOrCreateRules i s =
     (case map_of (ClientRules s) i of
        Some R \<Rightarrow> (R, s)
      | None \<Rightarrow> (WTrafficItemRules_init, s\<lparr>ClientRules := AList.update i WTrafficItemRules_init (ClientRules s)\<rparr>))"

definition HasRules :: "WTrafficItemId \<Rightarrow> WTrafficTree \<Rightarrow> bool" where
  "HasRules i s \<longleftrightarrow> um_contains (ClientRules s) i"

text \<open>The messages of \<^verbatim>\<open>WClient::OnDataReceived\<close> that change this state; the others go to windows. A buffer is the payload
  with its type byte.\<close>

definition OnTreeMessage :: "client_codec \<Rightarrow> u8 list \<Rightarrow> WTrafficTree \<Rightarrow> WTrafficTree" where
  "OnTreeMessage C Buf s =
     (if Buf = [] then s
      else if hd Buf = 0 then LoadFromBuffer C Buf s
      else if hd Buf = 1 then UpdateFromBuffer C Buf s
      else if hd Buf = 3 then HandleRuleUpdate C Buf s
      else if hd Buf = 10 then HandleResolveResponse C Buf s
      else s)"


section \<open>Every index entry points to its object\<close>

fun in_heap :: "tree_ref \<Rightarrow> WTrafficTree \<Rightarrow> bool" where
  "in_heap RootRef s = True"
| "in_heap (AppPtr a) s = (a < length (CApps s))"
| "in_heap (ProcPtr a) s = (a < length (CProcs s))"
| "in_heap (SockPtr a) s = (a < length (CSocks s))"
| "in_heap (TuplePtr a) s = (a < length (CTuples s))"
| "in_heap (FilterPtr a) s = (a < length (CFilters s))"

definition entry_ok :: "WTrafficTree \<Rightarrow> WTrafficItemId \<Rightarrow> tree_ref \<Rightarrow> bool" where
  "entry_ok s i r \<longleftrightarrow> in_heap r s \<and> ItemId (get_base r s) = i"

definition index_ok :: "WTrafficTree \<Rightarrow> bool" where
  "index_ok s \<longleftrightarrow> (\<forall>i r. map_of (TreeItems s) i = Some r \<longrightarrow> entry_ok s i r)"

definition app_ok :: "WTrafficTree \<Rightarrow> addr WApplicationItem \<Rightarrow> bool" where
  "app_ok s A \<longleftrightarrow> (\<forall>p \<in> set (map snd (Processes A)). p < length (CProcs s))"

definition proc_ok :: "WTrafficTree \<Rightarrow> addr WProcessItem \<Rightarrow> bool" where
  "proc_ok s P \<longleftrightarrow> (\<forall>k \<in> set (map snd (Sockets P)). k < length (CSocks s))"

definition sock_ok :: "WTrafficTree \<Rightarrow> addr WSocketItem \<Rightarrow> bool" where
  "sock_ok s K \<longleftrightarrow> (\<forall>t \<in> set (UDPPerConnectionTraffic K). t < length (CTuples s))"

definition root_ok :: "WTrafficTree \<Rightarrow> (addr, addr) WSystemItem \<Rightarrow> bool" where
  "root_ok s R \<longleftrightarrow> (\<forall>a \<in> set (map snd (Applications R)). a < length (CApps s))
     \<and> (\<forall>f \<in> set (Filters R). f < length (CFilters s))"

definition links_ok :: "WTrafficTree \<Rightarrow> bool" where
  "links_ok s \<longleftrightarrow> root_ok s (Root s) \<and> (\<forall>A \<in> set (CApps s). app_ok s A) \<and> (\<forall>P \<in> set (CProcs s). proc_ok s P)
     \<and> (\<forall>K \<in> set (CSocks s). sock_ok s K)"

definition client_ok :: "WTrafficTree \<Rightarrow> bool" where
  "client_ok s \<longleftrightarrow> index_ok s \<and> links_ok s"

text \<open>No operation frees an object or changes the id of one.\<close>

definition same_size :: "WTrafficTree \<Rightarrow> WTrafficTree \<Rightarrow> bool" where
  "same_size s t \<longleftrightarrow> length (CApps s) \<le> length (CApps t) \<and> length (CProcs s) \<le> length (CProcs t) \<and> length (CSocks s) \<le> length (CSocks t)
     \<and> length (CTuples s) \<le> length (CTuples t) \<and> length (CFilters s) \<le> length (CFilters t)"

definition keeps :: "WTrafficTree \<Rightarrow> WTrafficTree \<Rightarrow> bool" where
  "keeps s t \<longleftrightarrow> same_size s t \<and> (\<forall>r. in_heap r s \<longrightarrow> ItemId (get_base r t) = ItemId (get_base r s))"

lemma keeps_refl [simp, intro]: "keeps s s"
  by (simp add: keeps_def same_size_def)

lemma in_heap_mono: "same_size s t \<Longrightarrow> in_heap r s \<Longrightarrow> in_heap r t"
  by (cases r) (auto simp: same_size_def)

lemma same_size_trans: "same_size s t \<Longrightarrow> same_size t u \<Longrightarrow> same_size s u"
  by (auto simp: same_size_def)

lemma keeps_trans [trans]:
  assumes "keeps s t" "keeps t u"
  shows "keeps s u"
proof -
  have "ItemId (get_base r u) = ItemId (get_base r s)" if "in_heap r s" for r
    using assms that in_heap_mono [of s t r] unfolding keeps_def by simp
  then show ?thesis using assms unfolding keeps_def by (auto intro: same_size_trans)
qed

lemma entry_ok_keeps: "entry_ok s i r \<Longrightarrow> keeps s t \<Longrightarrow> entry_ok t i r"
  by (auto simp: entry_ok_def keeps_def dest: in_heap_mono)

lemma index_ok_keeps:
  assumes "index_ok s" "keeps s t"
    and "\<And>i r. map_of (TreeItems t) i = Some r \<Longrightarrow> map_of (TreeItems s) i = Some r \<or> entry_ok t i r"
  shows "index_ok t"
  using assms by (auto simp: index_ok_def dest: entry_ok_keeps)

text \<open>The fields beside the heap.\<close>

definition heap_of :: "WTrafficTree \<Rightarrow> (addr, addr) WSystemItem \<times> addr WApplicationItem list \<times> addr WProcessItem list
    \<times> addr WSocketItem list \<times> WTupleItem list \<times> WFilterItem list" where
  "heap_of s = (Root s, CApps s, CProcs s, CSocks s, CTuples s, CFilters s)"

lemma heap_of_frame [simp]:
  "heap_of (s\<lparr>TreeItems := m\<rparr>) = heap_of s" "heap_of (s\<lparr>MarkedItems := ms\<rparr>) = heap_of s"
  "heap_of (s\<lparr>ResolvedAddresses := ra\<rparr>) = heap_of s" "heap_of (s\<lparr>SelectedItemId := i\<rparr>) = heap_of s"
  "heap_of (s\<lparr>bRequireTreeSorting := b\<rparr>) = heap_of s" "heap_of (s\<lparr>ClientRules := cr\<rparr>) = heap_of s"
  "heap_of (s\<lparr>ResolveRequests := rr\<rparr>) = heap_of s" "heap_of (s\<lparr>GraphData := g\<rparr>) = heap_of s"
  "heap_of (index_item j r s) = heap_of s" "heap_of (RemoveRules j s) = heap_of s"
  by (simp_all add: heap_of_def index_item_def RemoveRules_def)

lemma get_base_heap: "heap_of s = heap_of t \<Longrightarrow> get_base r s = get_base r t"
  by (cases r) (simp_all add: heap_of_def)

lemma in_heap_heap: "heap_of s = heap_of t \<Longrightarrow> in_heap r s = in_heap r t"
  by (cases r) (simp_all add: heap_of_def)

lemma entry_ok_heap: "heap_of s = heap_of t \<Longrightarrow> entry_ok s i r = entry_ok t i r"
  by (simp add: entry_ok_def cong: get_base_heap in_heap_heap)

lemma keeps_heap: "heap_of s = heap_of t \<Longrightarrow> keeps s t"
  by (simp add: keeps_def same_size_def get_base_heap [of s t]) (simp add: heap_of_def)

lemma links_ok_heap: "heap_of s = heap_of t \<Longrightarrow> links_ok s = links_ok t"
  by (simp add: links_ok_def root_ok_def app_ok_def proc_ok_def sock_ok_def heap_of_def)

lemma TreeItems_index_item [simp]: "TreeItems (index_item i r s) = AList.update i r (TreeItems s)"
  by (simp add: index_item_def)

lemma index_ok_index_item:
  assumes "index_ok s" "entry_ok s i r"
  shows "index_ok (index_item i r s)"
  using assms(1) keeps_heap [OF heap_of_frame(9) [symmetric]]
  by (rule index_ok_keeps) (use assms(2) in \<open>auto simp: entry_ok_heap [OF heap_of_frame(9)] split: if_splits\<close>)

text \<open>Updating an object and allocating one.\<close>

lemma lift_base_sel [simp]:
  "ItemId (lift_base f i) = ItemId (f (ITrafficItem.truncate i))"
  "ITrafficItem.truncate (lift_base f i) = f (ITrafficItem.truncate i)"
  "ITrafficItem.more (lift_base f i) = ITrafficItem.more i"
  by (cases i; cases "f (ITrafficItem.truncate i)"; simp add: lift_base_def ITrafficItem.defs)+

lemma truncate_ItemId [simp]: "ItemId (ITrafficItem.truncate i) = ItemId i"
  by (cases i) (simp add: ITrafficItem.defs)

lemma lift_base_socket [simp]:
  "SocketTuple (lift_base f K) = SocketTuple K" "UDPPerConnectionTraffic (lift_base f K) = UDPPerConnectionTraffic K"
  "SocketType (lift_base f K) = SocketType K" "ConnectionState (lift_base f K) = ConnectionState K"
  by (cases K; simp add: lift_base_def ITrafficItem.defs)+

lemma lift_base_process [simp]: "Sockets (lift_base f P) = Sockets P"
  by (cases P; simp add: lift_base_def ITrafficItem.defs)

lemma lift_base_application [simp]: "Processes (lift_base f A) = Processes A"
  by (cases A; simp add: lift_base_def ITrafficItem.defs)

lemma lift_base_root [simp]: "Applications (lift_base f R) = Applications R" "Filters (lift_base f R) = Filters R"
  by (cases R; simp add: lift_base_def ITrafficItem.defs)+

lemma upd_base_frame [simp]:
  "TreeItems (upd_base r f s) = TreeItems s" "same_size s (upd_base r f s)" "same_size (upd_base r f s) s"
  "in_heap q (upd_base r f s) = in_heap q s"
  by (cases r; simp add: same_size_def; cases q; simp)+

lemma get_base_upd_base:
  "in_heap r s \<Longrightarrow> get_base q (upd_base r f s) = (if q = r then f (get_base r s) else get_base q s)"
  by (cases r; cases q) (simp_all add: nth_list_update)

lemma keeps_upd_base: "(\<And>i. ItemId (f i) = ItemId i) \<Longrightarrow> in_heap r s \<Longrightarrow> keeps s (upd_base r f s)"
  by (simp add: keeps_def get_base_upd_base)

lemma upd_csock_frame [simp]:
  "TreeItems (upd_csock k f s) = TreeItems s" "same_size s (upd_csock k f s)" "same_size (upd_csock k f s) s"
  "in_heap q (upd_csock k f s) = in_heap q s"
  by (simp_all add: upd_csock_def same_size_def) (cases q; simp)

lemma get_base_upd_csock:
  "k < length (CSocks s) \<Longrightarrow>
     get_base q (upd_csock k f s) = (if q = SockPtr k then ITrafficItem.truncate (f (CSocks s ! k)) else get_base q s)"
  by (cases q) (simp_all add: upd_csock_def nth_list_update)


lemma links_mono:
  "same_size s t \<Longrightarrow> app_ok s A \<Longrightarrow> app_ok t A" "same_size s t \<Longrightarrow> proc_ok s P \<Longrightarrow> proc_ok t P"
  "same_size s t \<Longrightarrow> sock_ok s K \<Longrightarrow> sock_ok t K" "same_size s t \<Longrightarrow> root_ok s R \<Longrightarrow> root_ok t R"
  by (auto simp: app_ok_def proc_ok_def sock_ok_def root_ok_def same_size_def intro: less_le_trans)

lemma links_okI:
  assumes "links_ok s" "same_size s t" "root_ok t (Root t)"
    and "\<And>A. A \<in> set (CApps t) \<Longrightarrow> A \<in> set (CApps s) \<or> app_ok t A"
    and "\<And>P. P \<in> set (CProcs t) \<Longrightarrow> P \<in> set (CProcs s) \<or> proc_ok t P"
    and "\<And>K. K \<in> set (CSocks t) \<Longrightarrow> K \<in> set (CSocks s) \<or> sock_ok t K"
  shows "links_ok t"
  using assms(1,3-6) links_mono [OF assms(2)] unfolding links_ok_def by blast

lemma links_ok_nth:
  assumes "links_ok s"
  shows "a < length (CApps s) \<Longrightarrow> app_ok s (CApps s ! a)" "a < length (CProcs s) \<Longrightarrow> proc_ok s (CProcs s ! a)"
    "a < length (CSocks s) \<Longrightarrow> sock_ok s (CSocks s ! a)"
  using assms by (simp_all add: links_ok_def)

lemma in_set_update: "x \<in> set (xs[i := y]) \<Longrightarrow> x \<in> set xs \<or> x = y"
  using set_update_subset_insert [of xs i y] by auto

lemma client_ok_heap:
  assumes "client_ok s" "heap_of s = heap_of t"
    and "\<And>i r. map_of (TreeItems t) i = Some r \<Longrightarrow> map_of (TreeItems s) i = Some r"
  shows "client_ok t"
  using assms index_ok_keeps [OF _ keeps_heap [OF assms(2)]] links_ok_heap [OF assms(2)] by (simp add: client_ok_def)

lemma client_ok_index_item: "client_ok s \<Longrightarrow> entry_ok s i r \<Longrightarrow> client_ok (index_item i r s)"
  by (simp add: client_ok_def index_ok_index_item links_ok_heap [OF heap_of_frame(9)])

lemma links_ok_upd_base: "links_ok s \<Longrightarrow> in_heap r s \<Longrightarrow> links_ok (upd_base r f s)"
proof (rule links_okI)
  assume ok: "links_ok s" and r: "in_heap r s"
  note mono = links_mono [OF upd_base_frame(2) [of s r f]]
  show "root_ok (upd_base r f s) (Root (upd_base r f s))"
    using ok by (cases r) (simp_all add: links_ok_def root_ok_def)
  show "A \<in> set (CApps s) \<or> app_ok (upd_base r f s) A" if "A \<in> set (CApps (upd_base r f s))" for A
    using that r links_ok_nth(1) [OF ok] mono(1)
    by (cases r) (fastforce simp: app_ok_def dest!: in_set_update)+
  show "P \<in> set (CProcs s) \<or> proc_ok (upd_base r f s) P" if "P \<in> set (CProcs (upd_base r f s))" for P
    using that r links_ok_nth(2) [OF ok] mono(2)
    by (cases r) (fastforce simp: proc_ok_def dest!: in_set_update)+
  show "K \<in> set (CSocks s) \<or> sock_ok (upd_base r f s) K" if "K \<in> set (CSocks (upd_base r f s))" for K
    using that r links_ok_nth(3) [OF ok] mono(3)
    by (cases r) (fastforce simp: sock_ok_def dest!: in_set_update)+
qed simp_all

lemma client_ok_upd_base:
  assumes "client_ok s" "in_heap r s" "\<And>i. ItemId (f i) = ItemId i"
  shows "client_ok (upd_base r f s)"
proof -
  have "index_ok (upd_base r f s)"
    using assms by (intro index_ok_keeps [OF _ keeps_upd_base [of f r s]]) (simp_all add: client_ok_def)
  then show ?thesis using assms by (simp add: client_ok_def links_ok_upd_base)
qed

lemma client_ok_upd_csock:
  assumes ok: "client_ok s" and k: "k < length (CSocks s)"
    and f: "ItemId (f (CSocks s ! k)) = ItemId (CSocks s ! k)" "sock_ok s (f (CSocks s ! k))"
  shows "client_ok (upd_csock k f s)"
proof -
  have keeps: "keeps s (upd_csock k f s)"
    using f(1) k by (simp add: keeps_def get_base_upd_csock [OF k])
  then have "index_ok (upd_csock k f s)"
    using ok by (intro index_ok_keeps [OF _ keeps]) (simp_all add: client_ok_def)
  moreover have "links_ok (upd_csock k f s)"
  proof (rule links_okI [of s])
    show "K \<in> set (CSocks s) \<or> sock_ok (upd_csock k f s) K" if "K \<in> set (CSocks (upd_csock k f s))" for K
      using that links_mono(3) [OF upd_csock_frame(2) f(2)] by (auto simp: upd_csock_def dest!: in_set_update)
  qed (use ok in \<open>simp_all add: client_ok_def links_ok_def upd_csock_def root_ok_def same_size_def\<close>)
  ultimately show ?thesis by (simp add: client_ok_def)
qed

lemma index_entry:
  assumes "client_ok s" "map_of (TreeItems s) i = Some r"
  shows "in_heap r s" "ItemId (get_base r s) = i"
  using assms by (auto simp: client_ok_def index_ok_def entry_ok_def)

lemma client_ok_mark: "client_ok s \<Longrightarrow> client_ok (mark_item i s)"
proof -
  assume ok: "client_ok s"
  let ?s1 = "s\<lparr>MarkedItems := List.insert i (MarkedItems s)\<rparr>"
  have ok1: "client_ok ?s1" using ok by (rule client_ok_heap) simp_all
  show ?thesis
  proof (cases "map_of (TreeItems s) i")
    case (Some r)
    then have r: "in_heap r ?s1" using index_entry [OF ok1] by simp
    have ok2: "client_ok (upd_base r (\<lambda>i. i\<lparr>DownloadSpeed := 0, UploadSpeed := 0\<rparr>) ?s1)" (is "client_ok ?s2")
      using ok1 r by (rule client_ok_upd_base) simp
    have "client_ok (upd_csock k (\<lambda>i. i\<lparr>ConnectionState := Closed\<rparr>) ?s2)" if "r = SockPtr k" for k
    proof (rule client_ok_upd_csock [OF ok2])
      show k: "k < length (CSocks ?s2)" using r that by simp
      show "sock_ok ?s2 ((CSocks ?s2 ! k)\<lparr>ConnectionState := Closed\<rparr>)"
        using links_ok_nth(3) [of ?s2 k] ok2 k by (simp add: sock_ok_def client_ok_def)
    qed simp
    then show ?thesis using Some ok2 by (auto simp: mark_item_def Let_def split: tree_ref.split)
  qed (use ok1 in \<open>simp add: mark_item_def Let_def\<close>)
qed

lemma client_ok_change_state: "client_ok s \<Longrightarrow> client_ok (change_state c s)"
proof -
  assume ok: "client_ok s"
  have "client_ok (upd_csock k (\<lambda>i. i\<lparr>ConnectionState := NewState c, SocketType := ChangeSocketType c, SocketTuple := ChangeTuple c\<rparr>) s)"
    if "map_of (TreeItems s) (ChangeItemId c) = Some (SockPtr k)" for k
    using index_entry(1) [OF ok that] links_ok_nth(3) [of s k] ok
    by (intro client_ok_upd_csock [OF ok]) (auto simp: sock_ok_def client_ok_def)
  then show ?thesis using ok by (auto simp: change_state_def split: option.split tree_ref.split)
qed

lemma client_ok_show_traffic: "client_ok s \<Longrightarrow> client_ok (show_traffic u s)"
proof -
  assume ok: "client_ok s"
  have "client_ok (upd_base r (\<lambda>i. i\<lparr>DownloadSpeed := NewDownloadSpeed u, UploadSpeed := NewUploadSpeed u,
                TotalDownloadBytes := UpdTotalDownloadBytes u, TotalUploadBytes := UpdTotalUploadBytes u\<rparr>) s)" (is "client_ok ?t")
    if "map_of (TreeItems s) (UpdItemId u) = Some r" for r
    using index_entry(1) [OF ok that] by (intro client_ok_upd_base [OF ok]) simp_all
  moreover have "client_ok (t\<lparr>GraphData := g\<rparr>)" if "client_ok t" for t g
    using that by (rule client_ok_heap) simp_all
  ultimately show ?thesis using ok by (auto simp: show_traffic_def Let_def split: option.split)
qed


lemma remove_child_subset: "set (snd (remove_child idf i m)) \<subseteq> set m"
  by (induction m) (auto simp: case_prod_unfold Let_def split: if_splits)

lemma remove_child_fields:
  "ItemId (snd (RemoveChildProcess idf i P)) = ItemId P" "set (Sockets (snd (RemoveChildProcess idf i P))) \<subseteq> set (Sockets P)"
  "ItemId (snd (RemoveChildApplication idf i A)) = ItemId A" "set (Processes (snd (RemoveChildApplication idf i A))) \<subseteq> set (Processes A)"
  "ItemId (snd (RemoveChildSystem idf i R)) = ItemId R" "set (Applications (snd (RemoveChildSystem idf i R))) \<subseteq> set (Applications R)"
  "Filters (snd (RemoveChildSystem idf i R)) = Filters R"
  using remove_child_subset [of idf i "Sockets P"] remove_child_subset [of idf i "Processes A"] remove_child_subset [of idf i "Applications R"]
  by (simp_all add: RemoveChildProcess_def RemoveChildApplication_def RemoveChildSystem_def case_prod_unfold Let_def)

text \<open>What unlinking an item leaves alone.\<close>

definition unlinks :: "WTrafficTree \<Rightarrow> WTrafficTree \<Rightarrow> bool" where
  "unlinks s t \<longleftrightarrow> keeps s t \<and> same_size t s \<and> (links_ok s \<longrightarrow> links_ok t) \<and> TreeItems t = TreeItems s \<and> CSocks t = CSocks s"

lemma unlinks_refl [simp]: "unlinks s s"
  by (simp add: unlinks_def same_size_def)

lemma unlinks_trans: "unlinks s t \<Longrightarrow> unlinks t u \<Longrightarrow> unlinks s u"
  unfolding unlinks_def by (auto intro: keeps_trans same_size_trans)

lemma nth_update: "xs[i := x] ! j = (if i = j \<and> j < length xs then x else xs ! j)"
  by (cases "i < length xs") (auto simp: nth_list_update list_update_beyond)

lemma get_base_proc: "ItemId P = ItemId (CProcs s ! p) \<Longrightarrow>
    ItemId (get_base r (s\<lparr>CProcs := (CProcs s)[p := P]\<rparr>)) = ItemId (get_base r s)"
  by (cases r) (auto simp: nth_update)

lemma get_base_app: "ItemId A = ItemId (CApps s ! a) \<Longrightarrow>
    ItemId (get_base r (s\<lparr>CApps := (CApps s)[a := A]\<rparr>)) = ItemId (get_base r s)"
  by (cases r) (auto simp: nth_update)

lemma unlinks_process:
  assumes "ItemId P = ItemId (CProcs s ! p)" "set (Sockets P) \<subseteq> set (Sockets (CProcs s ! p))"
  shows "unlinks s (s\<lparr>CProcs := (CProcs s)[p := P]\<rparr>)"
proof -
  have size: "same_size s (s\<lparr>CProcs := (CProcs s)[p := P]\<rparr>)" by (simp add: same_size_def)
  have "links_ok (s\<lparr>CProcs := (CProcs s)[p := P]\<rparr>)" if ok: "links_ok s"
  proof (rule links_okI [OF ok size])
    show "Q \<in> set (CProcs s) \<or> proc_ok (s\<lparr>CProcs := (CProcs s)[p := P]\<rparr>) Q"
      if Q: "Q \<in> set (CProcs (s\<lparr>CProcs := (CProcs s)[p := P]\<rparr>))" for Q
    proof (cases "p < length (CProcs s)")
      case True
      then show ?thesis using Q links_ok_nth(2) [OF ok True] assms(2) by (auto simp: proc_ok_def dest!: in_set_update)
    qed (use Q in \<open>simp add: list_update_beyond\<close>)
  qed (use ok in \<open>auto simp: links_ok_def root_ok_def\<close>)
  then show ?thesis using size by (simp add: unlinks_def keeps_def get_base_proc [OF assms(1)]) (simp add: same_size_def)
qed

lemma unlinks_application:
  assumes "ItemId A = ItemId (CApps s ! a)" "set (Processes A) \<subseteq> set (Processes (CApps s ! a))"
  shows "unlinks s (s\<lparr>CApps := (CApps s)[a := A]\<rparr>)"
proof -
  have size: "same_size s (s\<lparr>CApps := (CApps s)[a := A]\<rparr>)" by (simp add: same_size_def)
  have "links_ok (s\<lparr>CApps := (CApps s)[a := A]\<rparr>)" if ok: "links_ok s"
  proof (rule links_okI [OF ok size])
    show "Q \<in> set (CApps s) \<or> app_ok (s\<lparr>CApps := (CApps s)[a := A]\<rparr>) Q"
      if Q: "Q \<in> set (CApps (s\<lparr>CApps := (CApps s)[a := A]\<rparr>))" for Q
    proof (cases "a < length (CApps s)")
      case True
      then show ?thesis using Q links_ok_nth(1) [OF ok True] assms(2) by (auto simp: app_ok_def dest!: in_set_update)
    qed (use Q in \<open>simp add: list_update_beyond\<close>)
  qed (use ok in \<open>auto simp: links_ok_def root_ok_def\<close>)
  then show ?thesis using size by (simp add: unlinks_def keeps_def get_base_app [OF assms(1)]) (simp add: same_size_def)
qed

lemma unlinks_root:
  assumes "ItemId R = ItemId (Root s)" "set (Applications R) \<subseteq> set (Applications (Root s))" "Filters R = Filters (Root s)"
  shows "unlinks s (s\<lparr>Root := R\<rparr>)"
proof -
  have "ItemId (get_base r (s\<lparr>Root := R\<rparr>)) = ItemId (get_base r s)" for r using assms(1) by (cases r) simp_all
  moreover have "links_ok (s\<lparr>Root := R\<rparr>)" if "links_ok s"
    using that assms(2,3) by (auto simp: links_ok_def root_ok_def app_ok_def proc_ok_def sock_ok_def)
  ultimately show ?thesis by (simp add: unlinks_def keeps_def same_size_def)
qed

lemma unlinks_procs: "unlinks s (snd (remove_in_procs i ps s))"
proof (induction ps arbitrary: s)
  case (Cons p ps)
  obtain ok P where P: "RemoveChildProcess (\<lambda>k. ItemId (CSocks s ! k)) i (CProcs s ! p) = (ok, P)" by force
  show ?case
    using P Cons unlinks_process [of P s p]
      remove_child_fields(1,2) [of "\<lambda>k. ItemId (CSocks s ! k)" i "CProcs s ! p"] by simp
qed simp

lemma unlinks_apps: "unlinks s (remove_in_apps i as s)"
proof (induction as)
  case (Cons a as)
  obtain ok A where A: "RemoveChildApplication (\<lambda>p. ItemId (CProcs s ! p)) i (CApps s ! a) = (ok, A)" by force
  obtain ok2 s2 where P: "remove_in_procs i (map snd (Processes (CApps s ! a))) s = (ok2, s2)" by force
  show ?case
    using A P Cons unlinks_application [of A s a] unlinks_procs [of s i "map snd (Processes (CApps s ! a))"]
      remove_child_fields(3,4) [of "\<lambda>p. ItemId (CProcs s ! p)" i "CApps s ! a"] by (cases ok; cases ok2) simp_all
qed simp

definition forgotten :: "WTrafficItemId \<Rightarrow> WTrafficTree \<Rightarrow> WTrafficTree" where
  "forgotten i s = RemoveRules i (s\<lparr>TreeItems := AList.delete i (TreeItems s), MarkedItems := removeAll i (MarkedItems s)\<rparr>)"

lemma unlinks_remove: "unlinks (forgotten i s) (remove_item i s)"
proof -
  obtain ok R where R: "RemoveChildSystem (\<lambda>a. ItemId (CApps (forgotten i s) ! a)) i (Root (forgotten i s)) = (ok, R)" by force
  show ?thesis
    using R unlinks_root [of R "forgotten i s"] unlinks_apps [of "forgotten i s" i]
      remove_child_fields(5-7) [of "\<lambda>a. ItemId (CApps (forgotten i s) ! a)" i "Root (forgotten i s)"]
    by (cases ok) (simp_all add: remove_item_def RemoveTrafficItem_def forgotten_def Let_def)
qed

lemma forgotten_frame [simp]:
  "heap_of (forgotten i s) = heap_of s" "TreeItems (forgotten i s) = AList.delete i (TreeItems s)" "CSocks (forgotten i s) = CSocks s"
  by (simp_all add: forgotten_def heap_of_def RemoveRules_def)

lemma client_ok_unlinks: "client_ok s \<Longrightarrow> unlinks s t \<Longrightarrow> client_ok t"
  by (auto simp: client_ok_def unlinks_def elim!: index_ok_keeps)

lemma client_ok_remove: "client_ok s \<Longrightarrow> client_ok (remove_item i s)"
  by (rule client_ok_unlinks [OF client_ok_heap unlinks_remove]) (auto split: if_splits)


text \<open>Allocating an object and linking it.\<close>

definition grows_to :: "WTrafficTree \<Rightarrow> WTrafficTree \<Rightarrow> bool" where
  "grows_to s t \<longleftrightarrow> keeps s t \<and> (links_ok s \<longrightarrow> links_ok t) \<and> (index_ok s \<longrightarrow> index_ok t)"

lemma grows_to_client: "grows_to s t \<Longrightarrow> client_ok s \<Longrightarrow> client_ok t"
  by (simp add: grows_to_def client_ok_def)

lemma grows_to_trans [trans]: "grows_to s t \<Longrightarrow> grows_to t u \<Longrightarrow> grows_to s u"
  unfolding grows_to_def by (auto intro: keeps_trans)

lemma grows_to_refl [simp]: "grows_to s s"
  by (simp add: grows_to_def)

lemma grows_toI:
  assumes "keeps s t" "TreeItems t = TreeItems s" "links_ok s \<Longrightarrow> links_ok t"
  shows "grows_to s t"
  using assms index_ok_keeps [OF _ assms(1)] by (simp add: grows_to_def)

lemma grows_to_index_item: "entry_ok s i r \<Longrightarrow> grows_to s (index_item i r s)"
  by (simp add: grows_to_def keeps_heap index_ok_index_item links_ok_heap [OF heap_of_frame(9)])

lemma grows_alloc:
  assumes size: "same_size s t" and root: "Root t = Root s" and index: "TreeItems t = TreeItems s"
    and base: "\<And>r. in_heap r s \<Longrightarrow> get_base r t = get_base r s"
    and new: "\<And>A. A \<in> set (CApps t) \<Longrightarrow> A \<in> set (CApps s) \<or> app_ok t A"
      "\<And>P. P \<in> set (CProcs t) \<Longrightarrow> P \<in> set (CProcs s) \<or> proc_ok t P"
      "\<And>K. K \<in> set (CSocks t) \<Longrightarrow> K \<in> set (CSocks s) \<or> sock_ok t K"
  shows "grows_to s t"
proof (rule grows_toI)
  show "keeps s t" using size base by (simp add: keeps_def)
  show "links_ok t" if "links_ok s"
    using that size _ new by (rule links_okI) (use that root links_mono(4) [OF size] in \<open>simp add: links_ok_def\<close>)
qed (rule index)

lemma grows_alloc_app: "app_ok s A \<Longrightarrow> grows_to s (s\<lparr>CApps := CApps s @ [A]\<rparr>)"
  by (rule grows_alloc) (auto simp: same_size_def app_ok_def nth_append elim: in_heap.elims)

lemma grows_alloc_proc: "proc_ok s P \<Longrightarrow> grows_to s (s\<lparr>CProcs := CProcs s @ [P]\<rparr>)"
  by (rule grows_alloc) (auto simp: same_size_def proc_ok_def nth_append elim: in_heap.elims)

lemma grows_alloc_sock: "sock_ok s K \<Longrightarrow> grows_to s (s\<lparr>CSocks := CSocks s @ [K]\<rparr>)"
  by (rule grows_alloc) (auto simp: same_size_def sock_ok_def nth_append elim: in_heap.elims)

lemma grows_alloc_tuple: "grows_to s (s\<lparr>CTuples := CTuples s @ [t]\<rparr>)"
  by (rule grows_alloc) (auto simp: same_size_def nth_append elim: in_heap.elims)

lemma grows_alloc_filter: "grows_to s (s\<lparr>CFilters := CFilters s @ [t]\<rparr>)"
  by (rule grows_alloc) (auto simp: same_size_def nth_append elim: in_heap.elims)

text \<open>Linking a child below its parent.\<close>

lemma set_update_values: "x \<in> set (map snd (AList.update k v m)) \<Longrightarrow> x = v \<or> x \<in> set (map snd m)"
  by (induction m) (auto split: if_splits)

lemma grows_link_app:
  assumes a: "a < length (CApps s)"
  shows "grows_to s (s\<lparr>Root := (Root s)\<lparr>Applications := AList.update path a (Applications (Root s))\<rparr>\<rparr>)" (is "grows_to s ?t")
proof (rule grows_toI)
  have "ItemId (get_base r ?t) = ItemId (get_base r s)" for r by (cases r) simp_all
  then show "keeps s ?t" by (simp add: keeps_def same_size_def)
  show "links_ok ?t" if "links_ok s"
    using that a by (auto simp: links_ok_def root_ok_def app_ok_def proc_ok_def sock_ok_def simp del: set_map dest!: set_update_values)
qed simp

lemma grows_link_proc:
  assumes p: "p < length (CProcs s)" and a: "a < length (CApps s)"
  shows "grows_to s (s\<lparr>CApps := (CApps s)[a := (CApps s ! a)\<lparr>Processes := AList.update pid p (Processes (CApps s ! a))\<rparr>]\<rparr>)" (is "grows_to s ?t")
proof (rule grows_toI)
  show "keeps s ?t" by (simp add: keeps_def same_size_def get_base_app)
  show "links_ok ?t" if ok: "links_ok s"
  proof (rule links_okI [OF ok])
    show "A \<in> set (CApps s) \<or> app_ok ?t A" if A: "A \<in> set (CApps ?t)" for A
      using A links_ok_nth(1) [OF ok a] p by (auto simp: app_ok_def simp del: set_map dest!: in_set_update set_update_values)
  qed (use ok in \<open>simp_all add: same_size_def links_ok_def root_ok_def\<close>)
qed simp

lemma grows_link_sock:
  assumes k: "k < length (CSocks s)" and p: "p < length (CProcs s)"
  shows "grows_to s (s\<lparr>CProcs := (CProcs s)[p := (CProcs s ! p)\<lparr>Sockets := AList.update i k (Sockets (CProcs s ! p))\<rparr>]\<rparr>)" (is "grows_to s ?t")
proof (rule grows_toI)
  show "keeps s ?t" by (simp add: keeps_def same_size_def get_base_proc)
  show "links_ok ?t" if ok: "links_ok s"
  proof (rule links_okI [OF ok])
    show "P \<in> set (CProcs s) \<or> proc_ok ?t P" if P: "P \<in> set (CProcs ?t)" for P
      using P links_ok_nth(2) [OF ok p] k by (auto simp: proc_ok_def simp del: set_map dest!: in_set_update set_update_values)
  qed (use ok in \<open>simp_all add: same_size_def links_ok_def root_ok_def\<close>)
qed simp


lemma find_or_add_app_grows:
  assumes "links_ok s" "find_or_add_app A s = (a, t)"
  shows "grows_to s t" "a < length (CApps t)"
proof -
  let ?item = "new_app_item (AddApplicationItemId A) (AddApplicationName A) (AddApplicationPath A) []"
  let ?s1 = "s\<lparr>CApps := CApps s @ [?item]\<rparr>"
  have "grows_to s t \<and> a < length (CApps t)"
  proof (cases "map_of (Applications (Root s)) (AddApplicationPath A)")
    case None
    let ?s2 = "?s1\<lparr>Root := (Root ?s1)\<lparr>Applications := AList.update (AddApplicationPath A) (length (CApps s)) (Applications (Root ?s1))\<rparr>\<rparr>"
    have t: "t = index_item (AddApplicationItemId A) (AppPtr a) ?s2" "a = length (CApps s)"
      using assms(2) None by (auto simp: find_or_add_app_def Let_def)
    have "grows_to s ?s1" by (rule grows_alloc_app) (simp add: app_ok_def new_app_item_def ITrafficItem.defs WApplicationItem.defs)
    also have "grows_to ?s1 ?s2" using grows_link_app [of "length (CApps s)" ?s1 "AddApplicationPath A"] by simp
    also have "grows_to ?s2 t"
      unfolding t by (rule grows_to_index_item) (simp add: entry_ok_def new_app_item_def ITrafficItem_init_def ITrafficItem.defs)
    finally show ?thesis using t by (simp add: index_item_def)
  next
    case (Some b)
    then have "b \<in> set (map snd (Applications (Root s)))" by (force dest: map_of_SomeD)
    then show ?thesis using Some assms by (auto simp: find_or_add_app_def links_ok_def root_ok_def)
  qed
  then show "grows_to s t" "a < length (CApps t)" by simp_all
qed

lemma find_or_add_process_grows:
  assumes "links_ok s" "a < length (CApps s)" "find_or_add_process A a s = (p, t)"
  shows "grows_to s t" "p < length (CProcs t)"
proof -
  let ?item = "new_proc_item (AddProcessItemId A) (AddProcessId A)"
  let ?s1 = "s\<lparr>CProcs := CProcs s @ [?item]\<rparr>"
  have "grows_to s t \<and> p < length (CProcs t)"
  proof (cases "map_of (Processes (CApps s ! a)) (AddProcessId A)")
    case None
    let ?s2 = "?s1\<lparr>CApps := (CApps ?s1)[a := (CApps ?s1 ! a)\<lparr>Processes := AList.update (AddProcessId A) (length (CProcs s)) (Processes (CApps ?s1 ! a))\<rparr>]\<rparr>"
    have t: "t = index_item (AddProcessItemId A) (ProcPtr p) ?s2" "p = length (CProcs s)"
      using assms(3) None by (auto simp: find_or_add_process_def Let_def)
    have "grows_to s ?s1" by (rule grows_alloc_proc) (simp add: proc_ok_def new_proc_item_def ITrafficItem.defs WProcessItem.defs)
    also have "grows_to ?s1 ?s2"
      using grows_link_proc [of "length (CProcs s)" ?s1 a "AddProcessId A"] assms(2) by simp
    also have "grows_to ?s2 t"
      unfolding t by (rule grows_to_index_item) (simp add: entry_ok_def new_proc_item_def ITrafficItem_init_def ITrafficItem.defs)
    finally show ?thesis using t by (simp add: index_item_def)
  next
    case (Some b)
    then have "b \<in> set (map snd (Processes (CApps s ! a)))" by (force dest: map_of_SomeD)
    then show ?thesis using Some assms links_ok_nth(1) [OF assms(1,2)] by (auto simp: find_or_add_process_def app_ok_def)
  qed
  then show "grows_to s t" "p < length (CProcs t)" by simp_all
qed

lemma client_ok_add_socket: "client_ok s \<Longrightarrow> client_ok (add_socket A s)"
proof -
  assume ok: "client_ok s"
  obtain a s1 where a: "find_or_add_app A s = (a, s1)" by force
  obtain p s2 where p: "find_or_add_process A a s1 = (p, s2)" by force
  let ?K = "client_sock_item A"
  let ?k = "length (CSocks s2)"
  let ?s3 = "s2\<lparr>CSocks := CSocks s2 @ [?K]\<rparr>"
  let ?s4 = "?s3\<lparr>CProcs := (CProcs ?s3)[p := (CProcs ?s3 ! p)\<lparr>Sockets := AList.update (AddItemId A) ?k (Sockets (CProcs ?s3 ! p))\<rparr>]\<rparr>"
  note g1 = find_or_add_app_grows [OF _ a]
  have l1: "links_ok s1" using g1(1) ok by (simp add: client_ok_def grows_to_def)
  note g2 = find_or_add_process_grows [OF l1 _ p]
  have "grows_to s s1" using ok by (simp add: g1(1) client_ok_def)
  also have "grows_to s1 s2" using g1(2) g2(1) ok by (simp add: client_ok_def)
  also have "grows_to s2 ?s3"
    by (rule grows_alloc_sock) (simp add: sock_ok_def client_sock_item_def new_sock_item_def ITrafficItem.defs WSocketItem.defs)
  also have "grows_to ?s3 ?s4" using grows_link_sock [of ?k ?s3 p "AddItemId A"] g1(2) g2(2) ok by (simp add: client_ok_def)
  also have "grows_to ?s4 (index_item (AddItemId A) (SockPtr ?k) ?s4)"
    by (rule grows_to_index_item) (simp add: entry_ok_def client_sock_item_def new_sock_item_def ITrafficItem_init_def ITrafficItem.defs)
  finally have "client_ok (index_item (AddItemId A) (SockPtr ?k) ?s4)" using ok by (rule grows_to_client)
  then show ?thesis using ok a p by (simp add: add_socket_def Let_def)
qed

lemma client_ok_add_tuple: "client_ok s \<Longrightarrow> client_ok (add_tuple A s)"
proof -
  assume ok: "client_ok s"
  have "client_ok (index_item (TupItemId A) (TuplePtr (length (CTuples s)))
      (upd_csock k (\<lambda>i. i\<lparr>UDPPerConnectionTraffic := UDPPerConnectionTraffic i @ [length (CTuples s)]\<rparr>)
        (s\<lparr>CTuples := CTuples s @ [new_tuple_item (TupItemId A) WEndpoint_init]\<rparr>)))" (is "client_ok (index_item _ _ (upd_csock k ?f ?s1))")
    if k: "map_of (TreeItems s) (TupSocketItemId A) = Some (SockPtr k)" for k
  proof (rule client_ok_index_item [OF client_ok_upd_csock])
    show ok1: "client_ok ?s1" using grows_alloc_tuple ok by (rule grows_to_client)
    show k: "k < length (CSocks ?s1)" using index_entry(1) [OF ok k] by simp
    show "sock_ok ?s1 (?f (CSocks ?s1 ! k))"
      using links_ok_nth(3) [of ?s1 k] ok1 k by (simp add: sock_ok_def client_ok_def)
    show "entry_ok (upd_csock k ?f ?s1) (TupItemId A) (TuplePtr (length (CTuples s)))"
      using k by (simp add: entry_ok_def upd_csock_def new_tuple_item_def ITrafficItem_init_def ITrafficItem.defs)
  qed simp
  then show ?thesis using ok by (auto simp: add_tuple_def Let_def split: option.split tree_ref.split)
qed


text \<open>Loading.\<close>

definition loads :: "('x \<Rightarrow> WTrafficTree \<Rightarrow> addr \<times> WTrafficTree) \<Rightarrow> (WTrafficTree \<Rightarrow> nat) \<Rightarrow> bool" where
  "loads f n \<longleftrightarrow> (\<forall>x s a t. f x s = (a, t) \<longrightarrow> grows_to s t \<and> a < n t \<and> TreeItems t = TreeItems s)
     \<and> (\<forall>s t. same_size s t \<longrightarrow> n s \<le> n t)"

lemma alloc_all_loads:
  assumes "loads f n" "alloc_all f xs s = (as, t)"
  shows "grows_to s t \<and> (\<forall>a \<in> set as. a < n t) \<and> TreeItems t = TreeItems s"
  using assms(2)
proof (induction xs arbitrary: s as)
  case (Cons x xs)
  obtain a s1 bs where st: "f x s = (a, s1)" "alloc_all f xs s1 = (bs, t)" "as = a # bs"
    using Cons.prems by (auto split: prod.splits)
  have g: "grows_to s s1" "a < n s1" "TreeItems s1 = TreeItems s" using assms(1) st(1) by (auto simp: loads_def)
  have IH: "grows_to s1 t" "\<forall>a \<in> set bs. a < n t" "TreeItems t = TreeItems s1" using Cons.IH [OF st(2)] by auto
  have "n s1 \<le> n t" using assms(1) IH(1) by (auto simp: loads_def grows_to_def keeps_def)
  then show ?case using g IH st(3) grows_to_trans by auto
qed simp

lemma alloc_map_loads:
  assumes "loads f n" "alloc_map f m s = (m1, t)"
  shows "grows_to s t" "\<forall>a \<in> set (map snd m1). a < n t" "TreeItems t = TreeItems s"
  using assms(2) alloc_all_loads [OF assms(1), of "map snd m" s]
  by (auto simp: alloc_map_def split: prod.splits dest: set_zip_rightD)

lemma loads_tuple: "loads load_tuple (\<lambda>s. length (CTuples s))"
  by (auto simp: loads_def load_tuple_def grows_alloc_tuple same_size_def)

lemma loads_filter: "loads load_filter (\<lambda>s. length (CFilters s))"
  by (auto simp: loads_def load_filter_def grows_alloc_filter same_size_def)

lemma loads_socket: "loads load_socket (\<lambda>s. length (CSocks s))"
  unfolding loads_def
proof (intro conjI allI impI)
  fix k s a t
  assume t: "load_socket k s = (a, t)"
  obtain ts s1 where ts: "alloc_all load_tuple (UDPPerConnectionTraffic k) s = (ts, s1)" by force
  let ?item = "ITrafficItem.extend (ITrafficItem.truncate k) (WSocketItem.fields (SocketTuple k) ts (Cookie k) (SocketType k) (ConnectionState k))"
  note g = alloc_all_loads [OF loads_tuple ts]
  have "sock_ok s1 ?item" using g by (simp add: sock_ok_def ITrafficItem.defs WSocketItem.defs)
  then show "grows_to s t" "a < length (CSocks t)" "TreeItems t = TreeItems s"
    using t ts g grows_to_trans [OF _ grows_alloc_sock, of s s1 ?item] by (auto simp: load_socket_def)
qed (simp add: same_size_def)

lemma loads_process: "loads load_process (\<lambda>s. length (CProcs s))"
  unfolding loads_def
proof (intro conjI allI impI)
  fix p s a t
  assume t: "load_process p s = (a, t)"
  obtain m s1 where m: "alloc_map load_socket (Sockets p) s = (m, s1)" by force
  let ?item = "ITrafficItem.extend (ITrafficItem.truncate p) (WProcessItem.fields (ProcessId p) m)"
  note g = alloc_map_loads [OF loads_socket m]
  have "proc_ok s1 ?item" using g(2) by (simp add: proc_ok_def ITrafficItem.defs WProcessItem.defs)
  then show "grows_to s t" "a < length (CProcs t)" "TreeItems t = TreeItems s"
    using t m g grows_to_trans [OF _ grows_alloc_proc, of s s1 ?item] by (auto simp: load_process_def)
qed (simp add: same_size_def)

lemma loads_app: "loads load_app (\<lambda>s. length (CApps s))"
  unfolding loads_def
proof (intro conjI allI impI)
  fix A s a t
  assume t: "load_app A s = (a, t)"
  obtain m s1 where m: "alloc_map load_process (Processes A) s = (m, s1)" by force
  let ?item = "ITrafficItem.extend (ITrafficItem.truncate A)
    (WApplicationItem.fields (ApplicationName A) (ApplicationPath A) (ApplicationCommandLine A) m)"
  note g = alloc_map_loads [OF loads_process m]
  have "app_ok s1 ?item" using g(2) by (simp add: app_ok_def ITrafficItem.defs WApplicationItem.defs)
  then show "grows_to s t" "a < length (CApps t)" "TreeItems t = TreeItems s"
    using t m g grows_to_trans [OF _ grows_alloc_app, of s s1 ?item] by (auto simp: load_app_def)
qed (simp add: same_size_def)

lemma truncate_extend_root [simp]:
  "ItemId (ITrafficItem.extend (ITrafficItem.truncate T) x) = ItemId T"
  by (cases T) (simp add: ITrafficItem.defs)

lemma load_root_ok:
  assumes "client_ok s" "TreeItems s = []"
  shows "client_ok (load_root T s)" "TreeItems (load_root T s) = []" "ItemId (Root (load_root T s)) = ItemId T"
proof -
  obtain m s1 where m: "alloc_map load_app (present_apps (Applications T)) s = (m, s1)" by force
  obtain fs s2 where fs: "alloc_all load_filter (Filters T) s1 = (fs, s2)" by force
  note g1 = alloc_map_loads [OF loads_app m] and g2 = alloc_all_loads [OF loads_filter fs]
  have "links_ok s2" using assms g1 g2 by (simp add: client_ok_def grows_to_def)
  moreover have "length (CApps s1) \<le> length (CApps s2)" using g2 by (simp add: grows_to_def keeps_def same_size_def)
  ultimately have "links_ok (load_root T s)" using m fs g1(2) g2
    by (auto simp: load_root_def links_ok_def root_ok_def app_ok_def proc_ok_def sock_ok_def ITrafficItem.defs WSystemItem.defs intro: less_le_trans)
  moreover show "TreeItems (load_root T s) = []" using m fs g1(3) g2 assms(2) by (simp add: load_root_def)
  ultimately show "client_ok (load_root T s)" by (simp add: client_ok_def index_ok_def)
  show "ItemId (Root (load_root T s)) = ItemId T" using m fs by (simp add: load_root_def)
qed


text \<open>The loops that fill the index change nothing else.\<close>

definition indexes :: "WTrafficTree \<Rightarrow> (WTrafficTree \<Rightarrow> WTrafficTree) \<Rightarrow> bool" where
  "indexes s f \<longleftrightarrow> (\<forall>t. heap_of t = heap_of s \<and> index_ok t \<longrightarrow> heap_of (f t) = heap_of s \<and> index_ok (f t))"

lemma indexes_item:
  assumes "entry_ok s i r"
  shows "indexes s (index_item i r)"
  unfolding indexes_def using assms by (metis entry_ok_heap heap_of_frame(9) index_ok_index_item)

lemma indexes_comp: "indexes s f \<Longrightarrow> indexes s g \<Longrightarrow> indexes s (\<lambda>t. g (f t))"
  by (simp add: indexes_def)

lemma indexes_fold: "(\<And>x. x \<in> set xs \<Longrightarrow> indexes s (f x)) \<Longrightarrow> indexes s (fold f xs)"
proof (induction xs)
  case (Cons x xs)
  then show ?case using indexes_comp [of s "f x" "fold f xs"] by simp
qed (simp add: indexes_def)

lemma indexes_item_fold:
  assumes "entry_ok s i r" "\<And>x. x \<in> set xs \<Longrightarrow> indexes s (f x)"
  shows "indexes s (\<lambda>t. fold f xs (index_item i r t))"
  using indexes_comp [OF indexes_item [OF assms(1)] indexes_fold [of xs s f]] assms(2) by simp

lemma indexes_cong: "(\<And>t. heap_of t = heap_of s \<Longrightarrow> f t = g t) \<Longrightarrow> indexes s g \<Longrightarrow> indexes s f"
  by (simp add: indexes_def)

lemma heap_fields: "heap_of t = heap_of s \<Longrightarrow> Root t = Root s \<and> CApps t = CApps s \<and> CProcs t = CProcs s \<and> CSocks t = CSocks s
    \<and> CTuples t = CTuples s \<and> CFilters t = CFilters s"
  by (simp add: heap_of_def)

lemma index_item_sel [simp]:
  "Root (index_item i r s) = Root s" "CApps (index_item i r s) = CApps s" "CProcs (index_item i r s) = CProcs s"
  "CSocks (index_item i r s) = CSocks s" "CTuples (index_item i r s) = CTuples s" "CFilters (index_item i r s) = CFilters s"
  by (simp_all add: index_item_def)

lemma indexes_tuple: "a < length (CTuples s) \<Longrightarrow> indexes s (index_tuple a)"
  by (rule indexes_cong [OF _ indexes_item [of s "ItemId (CTuples s ! a)" "TuplePtr a"]])
     (drule heap_fields, simp_all add: index_tuple_def entry_ok_def)

lemma indexes_filter: "a < length (CFilters s) \<Longrightarrow> indexes s (index_filter a)"
  by (rule indexes_cong [OF _ indexes_item [of s "ItemId (CFilters s ! a)" "FilterPtr a"]])
     (drule heap_fields, simp_all add: index_filter_def entry_ok_def)

lemma indexes_socket:
  assumes ok: "links_ok s" and k: "k < length (CSocks s)"
  shows "indexes s (index_socket k)"
proof (rule indexes_cong)
  show "indexes s (\<lambda>t. fold index_tuple (UDPPerConnectionTraffic (CSocks s ! k)) (index_item (ItemId (CSocks s ! k)) (SockPtr k) t))"
    using k links_ok_nth(3) [OF ok k]
    by (intro indexes_item_fold indexes_tuple) (auto simp: entry_ok_def sock_ok_def)
qed (drule heap_fields, simp add: index_socket_def Let_def)

lemma indexes_process:
  assumes ok: "links_ok s" and p: "p < length (CProcs s)"
  shows "indexes s (index_process p)"
proof (rule indexes_cong)
  show "indexes s (\<lambda>t. fold (\<lambda>(_, k). index_socket k) (Sockets (CProcs s ! p)) (index_item (ItemId (CProcs s ! p)) (ProcPtr p) t))"
    using p links_ok_nth(2) [OF ok p]
    by (intro indexes_item_fold) (auto simp: entry_ok_def proc_ok_def intro!: indexes_socket [OF ok])
qed (drule heap_fields, simp add: index_process_def Let_def)

lemma indexes_app:
  assumes ok: "links_ok s" and a: "a < length (CApps s)"
  shows "indexes s (index_app a)"
proof (rule indexes_cong)
  show "indexes s (\<lambda>t. fold (\<lambda>(_, p). index_process p) (Processes (CApps s ! a)) (index_item (ItemId (CApps s ! a)) (AppPtr a) t))"
    using a links_ok_nth(1) [OF ok a]
    by (intro indexes_item_fold) (auto simp: entry_ok_def app_ok_def intro!: indexes_process [OF ok])
qed (drule heap_fields, simp add: index_app_def Let_def)

lemma client_ok_index_tree:
  assumes ok: "client_ok s" and root: "ItemId (Root s) = 0"
  shows "client_ok (index_tree s)"
proof -
  have links: "links_ok s" and index: "index_ok s" using ok by (simp_all add: client_ok_def)
  have apps: "indexes s (fold (\<lambda>(_, a). index_app a) (Applications (Root s)))"
    using links by (intro indexes_fold) (auto simp: links_ok_def root_ok_def intro!: indexes_app [OF links])
  then have "Root (fold (\<lambda>(_, a). index_app a) (Applications (Root s)) s) = Root s"
    using index by (auto simp: indexes_def dest: heap_fields)
  then have tree: "index_tree s = index_item 0 RootRef (fold index_filter (Filters (Root s)) (fold (\<lambda>(_, a). index_app a) (Applications (Root s)) s))"
    by (simp add: index_tree_def)
  have "indexes s (fold index_filter (Filters (Root s)))"
    using links by (intro indexes_fold indexes_filter) (auto simp: links_ok_def root_ok_def)
  moreover have "indexes s (index_item 0 RootRef)" using root by (intro indexes_item) (simp add: entry_ok_def)
  ultimately have "heap_of (index_tree s) = heap_of s \<and> index_ok (index_tree s)" using apps index by (simp add: indexes_def tree)
  then show ?thesis using index links links_ok_heap [of s "index_tree s"] by (simp add: client_ok_def)
qed

definition codec_sound :: "client_codec \<Rightarrow> bool" where
  "codec_sound C \<longleftrightarrow> (\<forall>Buf T. decode_tree C Buf = (True, T) \<longrightarrow> ItemId T = 0)"

lemma client_ok_Load:
  assumes "codec_sound C" "client_ok s"
  shows "client_ok (LoadFromBuffer C Buf s)"
proof -
  obtain ok T where T: "decode_tree C Buf = (ok, T)" by force
  have "client_ok (s\<lparr>TreeItems := []\<rparr>)" using assms(2) by (rule client_ok_heap) simp_all
  note load = load_root_ok [OF this, of T]
  show ?thesis using T load client_ok_index_tree [of "load_root T (s\<lparr>TreeItems := []\<rparr>)"] assms(1)
    by (cases ok) (auto simp: LoadFromBuffer_def Let_def codec_sound_def)
qed

lemma client_ok_fold: "(\<And>x s. client_ok s \<Longrightarrow> client_ok (f x s)) \<Longrightarrow> client_ok s \<Longrightarrow> client_ok (fold f xs s)"
  by (induction xs arbitrary: s) simp_all

lemmas client_ok_folds = client_ok_fold [where f = mark_item, OF client_ok_mark] client_ok_fold [where f = remove_item, OF client_ok_remove]
  client_ok_fold [where f = add_socket, OF client_ok_add_socket] client_ok_fold [where f = add_tuple, OF client_ok_add_tuple]
  client_ok_fold [where f = change_state, OF client_ok_change_state] client_ok_fold [where f = show_traffic, OF client_ok_show_traffic]

lemma client_ok_updates: "client_ok s \<Longrightarrow> client_ok (apply_updates u s)"
proof -
  assume "client_ok s"
  then have "client_ok (fold show_traffic (OutUpdatedItems u) (fold change_state (OutStateChanges u) (fold add_tuple (OutAddedTuples u)
      (fold add_socket (OutAddedSockets u) (fold remove_item (OutRemovedItems u) (fold mark_item (OutMarkedForRemoval u) s))))))"
    by (intro client_ok_folds)
  then show ?thesis unfolding apply_updates_def Let_def by (rule client_ok_heap) simp_all
qed

lemma client_ok_message: "codec_sound C \<Longrightarrow> client_ok s \<Longrightarrow> client_ok (OnTreeMessage C Buf s)"
  by (auto simp: OnTreeMessage_def client_ok_Load UpdateFromBuffer_def client_ok_updates HandleRuleUpdate_def HandleResolveResponse_def
        split: option.split elim: client_ok_heap)

section \<open>Reachable clients\<close>

inductive client_step :: "client_codec \<Rightarrow> WTrafficTree \<Rightarrow> WTrafficTree \<Rightarrow> bool" for C where
  message: "client_step C s (OnTreeMessage C Buf s)"
| clear: "client_step C s (Clear s)"
| resolve: "client_step C s (snd (ResolveAddress ip s))"
| rules: "client_step C s (snd (GetOrCreateRules i s))"

inductive_cases client_stepE: "client_step C s t"

lemma client_ok_init: "client_ok WTrafficTree_init"
  by (simp add: client_ok_def index_ok_def links_ok_def root_ok_def WTrafficTree_init_def WSystemItem_init_def ITrafficItem.defs WSystemItem.defs)

lemma client_ok_Clear: "client_ok s \<Longrightarrow> client_ok (Clear s)"
  by (simp add: client_ok_def index_ok_def links_ok_def root_ok_def app_ok_def proc_ok_def sock_ok_def Clear_def WSystemItem_init_def
      ITrafficItem.defs WSystemItem.defs)

lemma client_ok_step: "codec_sound C \<Longrightarrow> client_ok s \<Longrightarrow> client_step C s t \<Longrightarrow> client_ok t"
  by (erule client_stepE)
     (auto simp: client_ok_message client_ok_Clear ResolveAddress_def GetOrCreateRules_def split: option.split elim: client_ok_heap)


interpretation client_sm: state_machine "\<lambda>s. s = WTrafficTree_init" "client_step C" "\<lambda>s. codec_sound C \<longrightarrow> client_ok s" for C
  by unfold_locales (auto simp: client_ok_init intro: client_ok_step)

lemma client_reachable_ok: "codec_sound C \<Longrightarrow> reachable (\<lambda>s. s = WTrafficTree_init) (client_step C) s \<Longrightarrow> client_ok s"
  using client_sm.reachable_invar by blast

text \<open>C22. In every state a client can reach, by any messages, disconnects and lookups, what the index finds under an id
  is an object of the heap that has this id, and no link of the tree dangles. (The daemon's root has the id 0.)\<close>

theorem client_index_sound:
  assumes "codec_sound C" and "reachable (\<lambda>s. s = WTrafficTree_init) (client_step C) s" and "GetItemFromId i s = Some r"
  shows "in_heap r s \<and> ItemId (get_base r s) = i \<and> links_ok s"
  using client_reachable_ok [OF assms(1,2)] assms(3) by (auto simp: client_ok_def index_ok_def entry_ok_def GetItemFromId_def)

section \<open>The sockets a client shows\<close>

type_synonym socket_view = "WTrafficItemId \<rightharpoonup> WSocketTuple \<times> u8 \<times> ESocketConnectionState"

definition socket_data :: "addr WSocketItem \<Rightarrow> WSocketTuple \<times> u8 \<times> ESocketConnectionState" where
  "socket_data K = (SocketTuple K, SocketType K, ConnectionState K)"

definition shown_sockets :: "WTrafficTree \<Rightarrow> socket_view" where
  "shown_sockets s i = (case map_of (TreeItems s) i of Some (SockPtr k) \<Rightarrow> Some (socket_data (CSocks s ! k)) | _ \<Rightarrow> None)"

text \<open>What a message says of the sockets, without objects and addresses.\<close>

definition view_mark :: "WTrafficItemId \<Rightarrow> socket_view \<Rightarrow> socket_view" where
  "view_mark i V = V(i := map_option (\<lambda>(t, ty, _). (t, ty, Closed)) (V i))"

definition view_add :: "WTrafficTreeSocketAddition \<Rightarrow> socket_view \<Rightarrow> socket_view" where
  "view_add A V = (if V (AddItemId A) = None then V(AddItemId A \<mapsto> (AddSocketTuple A, AddSocketType A, AddConnectionState A)) else V)"

definition view_change :: "WTrafficTreeSocketStateChange \<Rightarrow> socket_view \<Rightarrow> socket_view" where
  "view_change c V = V(ChangeItemId c := map_option (\<lambda>_. (ChangeTuple c, ChangeSocketType c, NewState c)) (V (ChangeItemId c)))"

definition view_updates :: "WTrafficTreeUpdates \<Rightarrow> socket_view \<Rightarrow> socket_view" where
  "view_updates u V = fold view_change (OutStateChanges u) (fold view_add (OutAddedSockets u)
     (fold (\<lambda>i V. V(i := None)) (OutRemovedItems u) (fold view_mark (OutMarkedForRemoval u) V)))"

lemma socket_data_lift [simp]: "socket_data (lift_base f K) = socket_data K"
  by (simp add: socket_data_def)

lemma shown_cong: "CSocks t = CSocks s \<Longrightarrow> TreeItems t = TreeItems s \<Longrightarrow> shown_sockets t = shown_sockets s"
  by (rule ext) (simp add: shown_sockets_def split: option.split tree_ref.split)

lemma shown_upd_base [simp]: "shown_sockets (upd_base r f s) = shown_sockets s"
  by (rule ext, cases r) (auto simp: shown_sockets_def nth_update split: option.split tree_ref.split)

lemma shown_heap: "heap_of t = heap_of s \<Longrightarrow> TreeItems t = TreeItems s \<Longrightarrow> shown_sockets t = shown_sockets s"
  by (rule shown_cong) (auto dest: heap_fields)

lemma sock_ptr_inj:
  assumes "client_ok s" "map_of (TreeItems s) i = Some r" "map_of (TreeItems s) j = Some r"
  shows "i = j"
  using index_entry(2) [OF assms(1)] assms(2,3) by blast

lemma shown_upd_csock:
  assumes ok: "client_ok s" and i: "map_of (TreeItems s) i = Some (SockPtr k)"
  shows "shown_sockets (upd_csock k f s) = (shown_sockets s)(i \<mapsto> socket_data (f (CSocks s ! k)))"
proof
  fix j
  have k: "k < length (CSocks s)" using index_entry(1) [OF ok i] by simp
  show "shown_sockets (upd_csock k f s) j = ((shown_sockets s)(i \<mapsto> socket_data (f (CSocks s ! k)))) j"
  proof (cases "j = i")
    case True
    then show ?thesis using i k by (simp add: shown_sockets_def upd_csock_def)
  next
    case False
    then have "map_of (TreeItems s) j \<noteq> Some (SockPtr k)" using sock_ptr_inj [OF ok i] by blast
    then show ?thesis using False by (simp add: shown_sockets_def upd_csock_def nth_update split: option.split tree_ref.split)
  qed
qed

lemma shown_entry: "map_of (TreeItems s) i = Some (SockPtr k) \<Longrightarrow> shown_sockets s i = Some (socket_data (CSocks s ! k))"
  by (simp add: shown_sockets_def)

lemma shown_no_entry: "(\<And>k. map_of (TreeItems s) i \<noteq> Some (SockPtr k)) \<Longrightarrow> shown_sockets s i = None"
  by (auto simp: shown_sockets_def split: option.split tree_ref.split)

lemma view_mark_none: "V i = None \<Longrightarrow> view_mark i V = V"
  by (simp add: view_mark_def fun_upd_idem)

lemma shown_mark: "client_ok s \<Longrightarrow> shown_sockets (mark_item i s) = view_mark i (shown_sockets s)"
proof -
  assume ok: "client_ok s"
  let ?s1 = "s\<lparr>MarkedItems := List.insert i (MarkedItems s)\<rparr>"
  let ?f = "\<lambda>i. i\<lparr>DownloadSpeed := 0, UploadSpeed := 0\<rparr>"
  have ok1: "client_ok ?s1" using ok by (rule client_ok_heap) simp_all
  have same: "shown_sockets ?s1 = shown_sockets s" by (rule shown_heap) simp_all
  show ?thesis
  proof (cases "\<exists>k. map_of (TreeItems s) i = Some (SockPtr k)")
    case True
    then obtain k where k: "map_of (TreeItems s) i = Some (SockPtr k)" by auto
    let ?s2 = "upd_base (SockPtr k) ?f ?s1"
    have ok2: "client_ok ?s2" using index_entry(1) [OF ok1, of i] k by (intro client_ok_upd_base [OF ok1]) simp_all
    have s2: "shown_sockets ?s2 = shown_sockets s" "map_of (TreeItems ?s2) i = Some (SockPtr k)"
      using same shown_upd_base [of "SockPtr k" ?f ?s1] k by simp_all
    then have old: "shown_sockets s i = Some (socket_data (CSocks ?s2 ! k))" using shown_entry by metis
    have "mark_item i s = upd_csock k (\<lambda>i. i\<lparr>ConnectionState := Closed\<rparr>) ?s2" using k by (simp add: mark_item_def Let_def)
    then show ?thesis using shown_upd_csock [OF ok2 s2(2)] s2(1) old by (simp add: view_mark_def socket_data_def del: upd_base.simps)
  next
    case False
    then have "shown_sockets (mark_item i s) = shown_sockets s"
      using same by (auto simp: mark_item_def Let_def simp del: upd_base.simps split: option.split tree_ref.split)
    moreover have "shown_sockets s i = None" using False by (intro shown_no_entry) auto
    ultimately show ?thesis by (simp add: view_mark_none)
  qed
qed

lemma shown_remove: "shown_sockets (remove_item i s) = (shown_sockets s)(i := None)"
  using unlinks_remove [of i s] by (auto simp: unlinks_def shown_sockets_def fun_eq_iff split: option.split tree_ref.split)

lemma shown_change: "client_ok s \<Longrightarrow> shown_sockets (change_state c s) = view_change c (shown_sockets s)"
  using shown_upd_csock [of s "ChangeItemId c"]
  by (auto simp: change_state_def view_change_def socket_data_def split: option.split tree_ref.split)
     (auto simp: shown_sockets_def fun_upd_idem)

lemma shown_traffic_frame: "shown_sockets (show_traffic u s) = shown_sockets s"
proof -
  have "shown_sockets (t\<lparr>GraphData := g\<rparr>) = shown_sockets t" for t g by (rule shown_heap) simp_all
  then show ?thesis by (simp add: show_traffic_def Let_def split: option.split)
qed

lemma shown_index_other:
  assumes "shown_sockets s i = None" "\<And>k. r \<noteq> SockPtr k"
  shows "shown_sockets (index_item i r s) = shown_sockets s"
  using assms by (auto simp: fun_eq_iff shown_sockets_def split: option.split tree_ref.split)

lemma shown_alloc_sock: "client_ok s \<Longrightarrow> shown_sockets (s\<lparr>CSocks := CSocks s @ [K]\<rparr>) = shown_sockets s"
  using index_entry(1) [of s] by (fastforce simp: fun_eq_iff shown_sockets_def nth_append split: option.split tree_ref.split)

lemma shown_add_tuple: "client_ok s \<Longrightarrow> shown_sockets (add_tuple A s) = shown_sockets s"
proof (cases "\<exists>k. map_of (TreeItems s) (TupSocketItemId A) = Some (SockPtr k) \<and> TupItemId A \<notin> um_keys (TreeItems s)")
  case True
  assume ok: "client_ok s"
  from True obtain k where k: "map_of (TreeItems s) (TupSocketItemId A) = Some (SockPtr k)" and new: "TupItemId A \<notin> um_keys (TreeItems s)" by auto
  let ?s1 = "s\<lparr>CTuples := CTuples s @ [new_tuple_item (TupItemId A) WEndpoint_init]\<rparr>"
  let ?f = "\<lambda>i. i\<lparr>UDPPerConnectionTraffic := UDPPerConnectionTraffic i @ [length (CTuples s)]\<rparr>"
  have ok1: "client_ok ?s1" using grows_alloc_tuple ok by (rule grows_to_client)
  have "shown_sockets (upd_csock k ?f ?s1) = shown_sockets s"
    using shown_upd_csock [OF ok1, of "TupSocketItemId A" k ?f] k
    by (simp add: shown_cong [of ?s1 s] socket_data_def) (simp add: shown_sockets_def socket_data_def fun_upd_idem)
  moreover have "shown_sockets s (TupItemId A) = None" using new by (simp add: shown_sockets_def map_of_None_um_keys [THEN iffD2])
  ultimately show ?thesis
    using k new shown_index_other [of "upd_csock k ?f ?s1" "TupItemId A" "TuplePtr (length (CTuples s))"] by (simp add: add_tuple_def Let_def)
qed (auto simp: add_tuple_def split: option.split tree_ref.split)


text \<open>The ids of sockets are not ids of applications or processes; the daemon counts ids up for all of them.\<close>

definition ids_apart :: "WTrafficTreeSocketAddition list \<Rightarrow> WTrafficTree \<Rightarrow> bool" where
  "ids_apart As s \<longleftrightarrow>
     (AddItemId ` set As \<union> dom (shown_sockets s)) \<inter> (AddApplicationItemId ` set As \<union> AddProcessItemId ` set As) = {}
     \<and> (\<forall>A \<in> set As. um_contains (TreeItems s) (AddItemId A) \<longrightarrow> shown_sockets s (AddItemId A) \<noteq> None)"

lemma shown_find_app:
  assumes "find_or_add_app A s = (a, t)" "shown_sockets s (AddApplicationItemId A) = None"
  shows "shown_sockets t = shown_sockets s" "um_keys (TreeItems t) \<subseteq> insert (AddApplicationItemId A) (um_keys (TreeItems s))"
proof -
  have "shown_sockets t = shown_sockets s \<and> um_keys (TreeItems t) \<subseteq> insert (AddApplicationItemId A) (um_keys (TreeItems s))"
  proof (cases "map_of (Applications (Root s)) (AddApplicationPath A)")
    case None
    then obtain u where t: "t = index_item (AddApplicationItemId A) (AppPtr a) u" "CSocks u = CSocks s" "TreeItems u = TreeItems s"
      using assms(1) by (auto simp: find_or_add_app_def Let_def)
    then show ?thesis using assms(2) shown_cong [OF t(2,3)] shown_index_other [of u "AddApplicationItemId A" "AppPtr a"] by simp
  qed (use assms(1) in \<open>auto simp: find_or_add_app_def\<close>)
  then show "shown_sockets t = shown_sockets s" "um_keys (TreeItems t) \<subseteq> insert (AddApplicationItemId A) (um_keys (TreeItems s))"
    by simp_all
qed

lemma shown_find_process:
  assumes "find_or_add_process A a s = (p, t)" "shown_sockets s (AddProcessItemId A) = None"
  shows "shown_sockets t = shown_sockets s" "um_keys (TreeItems t) \<subseteq> insert (AddProcessItemId A) (um_keys (TreeItems s))"
proof -
  have "shown_sockets t = shown_sockets s \<and> um_keys (TreeItems t) \<subseteq> insert (AddProcessItemId A) (um_keys (TreeItems s))"
  proof (cases "map_of (Processes (CApps s ! a)) (AddProcessId A)")
    case None
    then obtain u where t: "t = index_item (AddProcessItemId A) (ProcPtr p) u" "CSocks u = CSocks s" "TreeItems u = TreeItems s"
      using assms(1) by (auto simp: find_or_add_process_def Let_def)
    then show ?thesis using assms(2) shown_cong [OF t(2,3)] shown_index_other [of u "AddProcessItemId A" "ProcPtr p"] by simp
  qed (use assms(1) in \<open>auto simp: find_or_add_process_def\<close>)
  then show "shown_sockets t = shown_sockets s" "um_keys (TreeItems t) \<subseteq> insert (AddProcessItemId A) (um_keys (TreeItems s))"
    by simp_all
qed

lemma socket_data_new [simp]:
  "socket_data (client_sock_item A) = (AddSocketTuple A, AddSocketType A, AddConnectionState A)"
  by (simp add: socket_data_def client_sock_item_def)

lemma shown_add_socket:
  assumes ok: "client_ok s" and apart: "ids_apart (A # As) s"
  shows "shown_sockets (add_socket A s) = view_add A (shown_sockets s)"
    and "um_keys (TreeItems (add_socket A s)) \<subseteq> {AddApplicationItemId A, AddProcessItemId A, AddItemId A} \<union> um_keys (TreeItems s)"
proof -
  have new: "shown_sockets s (AddApplicationItemId A) = None" "shown_sockets s (AddProcessItemId A) = None"
    using apart by (auto simp: ids_apart_def)
  have "shown_sockets (add_socket A s) = view_add A (shown_sockets s) \<and>
    um_keys (TreeItems (add_socket A s)) \<subseteq> {AddApplicationItemId A, AddProcessItemId A, AddItemId A} \<union> um_keys (TreeItems s)"
  proof (cases "AddItemId A \<in> um_keys (TreeItems s)")
    case True
    then show ?thesis using apart by (auto simp: add_socket_def view_add_def ids_apart_def)
  next
    case False
    obtain a s1 where a: "find_or_add_app A s = (a, s1)" by force
    obtain p s2 where p: "find_or_add_process A a s1 = (p, s2)" by force
    note g1 = find_or_add_app_grows [OF _ a] and v1 = shown_find_app [OF a new(1)]
    have l1: "links_ok s1" using g1(1) ok by (simp add: client_ok_def grows_to_def)
    note g2 = find_or_add_process_grows [OF l1 _ p]
    have ok2: "client_ok s2" using ok g1 g2(1) grows_to_client by (simp add: client_ok_def grows_to_def)
    have v2: "shown_sockets s2 = shown_sockets s" "um_keys (TreeItems s2) \<subseteq> {AddApplicationItemId A, AddProcessItemId A} \<union> um_keys (TreeItems s)"
      using shown_find_process [OF p] v1 new(2) by auto
    let ?k = "length (CSocks s2)"
    let ?s3 = "s2\<lparr>CSocks := CSocks s2 @ [client_sock_item A]\<rparr>"
    let ?s4 = "?s3\<lparr>CProcs := (CProcs ?s3)[p := (CProcs ?s3 ! p)\<lparr>Sockets := AList.update (AddItemId A) ?k (Sockets (CProcs ?s3 ! p))\<rparr>]\<rparr>"
    have add: "add_socket A s = index_item (AddItemId A) (SockPtr ?k) ?s4" using False a p by (simp add: add_socket_def Let_def)
    have "shown_sockets ?s4 = shown_sockets s" using shown_alloc_sock [OF ok2] v2(1) shown_cong [of ?s4 ?s3] by simp
    moreover have "shown_sockets (index_item (AddItemId A) (SockPtr ?k) ?s4)
        = (shown_sockets ?s4)(AddItemId A \<mapsto> (AddSocketTuple A, AddSocketType A, AddConnectionState A))"
      by (rule ext) (simp add: shown_sockets_def split: option.split tree_ref.split)
    moreover have "shown_sockets s (AddItemId A) = None" using False by (simp add: shown_sockets_def map_of_None_um_keys [THEN iffD2])
    ultimately show ?thesis using v2(2) unfolding add by (auto simp: view_add_def)
  qed
  then show "shown_sockets (add_socket A s) = view_add A (shown_sockets s)"
    "um_keys (TreeItems (add_socket A s)) \<subseteq> {AddApplicationItemId A, AddProcessItemId A, AddItemId A} \<union> um_keys (TreeItems s)"
    by simp_all
qed

lemma ids_apart_add: "client_ok s \<Longrightarrow> ids_apart (A # As) s \<Longrightarrow> ids_apart As (add_socket A s)"
proof -
  assume ok: "client_ok s" and apart: "ids_apart (A # As) s"
  note add = shown_add_socket [OF ok apart]
  let ?t = "add_socket A s"
  have dom: "dom (shown_sockets ?t) = insert (AddItemId A) (dom (shown_sockets s))"
    by (auto simp: add(1) view_add_def)
  show ?thesis
    unfolding ids_apart_def um_contains_iff
  proof (intro conjI ballI impI)
    show "(AddItemId ` set As \<union> dom (shown_sockets ?t)) \<inter> (AddApplicationItemId ` set As \<union> AddProcessItemId ` set As) = {}"
      using apart unfolding dom ids_apart_def by auto
    fix B assume B: "B \<in> set As" "AddItemId B \<in> um_keys (TreeItems ?t)"
    have "AddItemId B \<noteq> AddApplicationItemId A" "AddItemId B \<noteq> AddProcessItemId A"
      using apart imageI [OF B(1), of AddItemId] unfolding ids_apart_def by auto
    then have "AddItemId B = AddItemId A \<or> AddItemId B \<in> um_keys (TreeItems s)" using B(2) add(2) by auto
    then have "AddItemId B \<in> dom (shown_sockets ?t)" using apart B(1) unfolding dom ids_apart_def by auto
    then show "shown_sockets ?t (AddItemId B) \<noteq> None" by auto
  qed
qed

lemma shown_add_sockets:
  "client_ok s \<Longrightarrow> ids_apart As s \<Longrightarrow> shown_sockets (fold add_socket As s) = fold view_add As (shown_sockets s)"
proof (induction As arbitrary: s)
  case (Cons A As)
  then show ?case using client_ok_add_socket ids_apart_add shown_add_socket(1) by simp
qed simp

lemma ids_apart_sub:
  assumes "ids_apart As s" "dom (shown_sockets t) \<subseteq> dom (shown_sockets s)"
    and "\<And>i. i \<in> um_keys (TreeItems t) \<Longrightarrow> i \<in> um_keys (TreeItems s) \<and> (shown_sockets s i \<noteq> None \<longrightarrow> shown_sockets t i \<noteq> None)"
  shows "ids_apart As t"
  using assms unfolding ids_apart_def um_contains_iff by fast

lemma TreeItems_mark [simp]: "TreeItems (mark_item i s) = TreeItems s"
  by (simp add: mark_item_def Let_def split: option.split tree_ref.split)

lemma ids_apart_mark: "client_ok s \<Longrightarrow> ids_apart As s \<Longrightarrow> ids_apart As (mark_item i s)"
  by (erule ids_apart_sub) (auto simp: shown_mark view_mark_def split: if_splits)

lemma ids_apart_remove: "ids_apart As s \<Longrightarrow> ids_apart As (remove_item i s)"
  using unlinks_remove [of i s] by (erule_tac ids_apart_sub) (auto simp: shown_remove unlinks_def split: if_splits)

lemma fold_marks:
  "client_ok s \<Longrightarrow> ids_apart As s \<Longrightarrow>
     shown_sockets (fold mark_item is s) = fold view_mark is (shown_sockets s) \<and> ids_apart As (fold mark_item is s)"
proof (induction "is" arbitrary: s)
  case (Cons i "is")
  then show ?case using client_ok_mark [of s i] ids_apart_mark [of s As i] shown_mark [of s i] by simp
qed simp

lemma fold_removes:
  "ids_apart As s \<Longrightarrow>
     shown_sockets (fold remove_item is s) = fold (\<lambda>i V. V(i := None)) is (shown_sockets s) \<and> ids_apart As (fold remove_item is s)"
proof (induction "is" arbitrary: s)
  case (Cons i "is")
  then show ?case using ids_apart_remove [of As s i] shown_remove [of i s] by simp
qed simp

lemma fold_tuples: "client_ok s \<Longrightarrow> shown_sockets (fold add_tuple As s) = shown_sockets s"
  by (induction As arbitrary: s) (simp_all add: shown_add_tuple client_ok_add_tuple)

lemma fold_changes: "client_ok s \<Longrightarrow> shown_sockets (fold change_state cs s) = fold view_change cs (shown_sockets s)"
  by (induction cs arbitrary: s) (simp_all add: shown_change client_ok_change_state)

lemma fold_traffic: "shown_sockets (fold show_traffic us s) = shown_sockets s"
  by (induction us arbitrary: s) (simp_all add: shown_traffic_frame)

lemma apply_updates_shown:
  assumes ok: "client_ok s" and apart: "ids_apart (OutAddedSockets u) s"
  shows "shown_sockets (apply_updates u s) = view_updates u (shown_sockets s)"
proof -
  let ?s1 = "fold mark_item (OutMarkedForRemoval u) s"
  let ?s2 = "fold remove_item (OutRemovedItems u) ?s1"
  let ?s4 = "fold add_tuple (OutAddedTuples u) (fold add_socket (OutAddedSockets u) ?s2)"
  have marks: "shown_sockets ?s1 = fold view_mark (OutMarkedForRemoval u) (shown_sockets s)" "ids_apart (OutAddedSockets u) ?s1"
    using fold_marks [OF ok apart] by simp_all
  have removes: "shown_sockets ?s2 = fold (\<lambda>i V. V(i := None)) (OutRemovedItems u) (shown_sockets ?s1)" "ids_apart (OutAddedSockets u) ?s2"
    using fold_removes [OF marks(2)] by simp_all
  have ok2: "client_ok ?s2" using ok by (intro client_ok_folds)
  have ok3: "client_ok (fold add_socket (OutAddedSockets u) ?s2)" using ok by (intro client_ok_folds)
  have "shown_sockets ?s4 = fold view_add (OutAddedSockets u) (shown_sockets ?s2)"
    using fold_tuples [OF ok3] shown_add_sockets [OF ok2 removes(2)] by simp
  moreover have "client_ok ?s4" using ok by (intro client_ok_folds)
  moreover have "shown_sockets (t\<lparr>bRequireTreeSorting := b\<rparr>) = shown_sockets t" for t b by (rule shown_heap) simp_all
  ultimately show ?thesis
    by (simp add: apply_updates_def view_updates_def Let_def fold_traffic fold_changes marks(1) removes(1))
qed



lemma view_adds_keep: "V i \<noteq> None \<Longrightarrow> fold view_add As V i \<noteq> None"
  by (induction As arbitrary: V) (simp_all add: view_add_def)

lemma view_adds_new: "A \<in> set As \<Longrightarrow> fold view_add As V (AddItemId A) \<noteq> None"
proof (induction As arbitrary: V)
  case (Cons B As)
  have "view_add B V (AddItemId B) \<noteq> None" by (simp add: view_add_def)
  then show ?case using Cons view_adds_keep [of "view_add B V" "AddItemId B" As] by auto
qed simp

lemma view_changes_keep: "V i \<noteq> None \<Longrightarrow> fold view_change cs V i \<noteq> None"
proof (induction cs arbitrary: V)
  case (Cons c cs)
  have "view_change c V i \<noteq> None" using Cons.prems by (cases "i = ChangeItemId c") (auto simp: view_change_def)
  then show ?case using Cons.IH by simp
qed simp

text \<open>C23. When a socket is removed in the second in which it was added, the daemon lists it as removed and as added;
  the client works removals off first, so it shows a socket that the daemon no longer has.\<close>

theorem removed_socket_stays_in_client:
  assumes "codec_sound C" and "reachable (\<lambda>s. s = WTrafficTree_init) (client_step C) s"
    and "decode_updates C Buf = Some (fst (GetUpdates d))" and "ids_apart (OutAddedSockets (fst (GetUpdates d))) s"
    and "a \<in> set (AddedSockets (MapUpdate d))" and "CounterState (SockCounter (SockHeap d ! a)) \<noteq> CS_PendingRemoval"
    and "ItemId (sock_item d a) \<in> set (RemovedItems (MapUpdate d))"
  shows "ItemId (sock_item d a) \<in> set (OutRemovedItems (fst (GetUpdates d)))
    \<and> shown_sockets (UpdateFromBuffer C Buf s) (ItemId (sock_item d a)) \<noteq> None"
proof -
  let ?u = "fst (GetUpdates d)"
  have "socket_addition d a \<in> set (OutAddedSockets ?u)" using assms(5,6) by (simp add: GetUpdates_def Let_def)
  moreover have "AddItemId (socket_addition d a) = ItemId (sock_item d a)" by (simp add: socket_addition_def Let_def)
  ultimately have "view_updates ?u (shown_sockets s) (ItemId (sock_item d a)) \<noteq> None"
    unfolding view_updates_def by (metis view_adds_new view_changes_keep)
  then show ?thesis
    using apply_updates_shown [OF client_reachable_ok [OF assms(1,2)] assms(4)] assms(3,7)
    by (simp add: UpdateFromBuffer_def) (simp add: GetUpdates_def Let_def)
qed

section \<open>The traffic a client shows\<close>

definition shown_traffic :: "WTrafficTree \<Rightarrow> WTrafficItemId \<rightharpoonup> WBytesPerSecond \<times> WBytesPerSecond \<times> WBytes \<times> WBytes" where
  "shown_traffic s i = map_option (\<lambda>r. let b = get_base r s in
     (DownloadSpeed b, UploadSpeed b, TotalDownloadBytes b, TotalUploadBytes b)) (GetItemFromId i s)"

definition sent_traffic :: "WTrafficTreeTrafficUpdate \<Rightarrow> WBytesPerSecond \<times> WBytesPerSecond \<times> WBytes \<times> WBytes" where
  "sent_traffic w = (NewDownloadSpeed w, NewUploadSpeed w, UpdTotalDownloadBytes w, UpdTotalUploadBytes w)"

lemma shown_traffic_heap: "heap_of t = heap_of s \<Longrightarrow> TreeItems t = TreeItems s \<Longrightarrow> shown_traffic t = shown_traffic s"
  by (rule ext) (simp add: shown_traffic_def GetItemFromId_def get_base_heap [of t s])

lemma shown_show_traffic:
  assumes ok: "client_ok s"
  shows "shown_traffic (show_traffic w s) = (\<lambda>i. if i = UpdItemId w then map_option (\<lambda>_. sent_traffic w) (GetItemFromId i s) else shown_traffic s i)"
    and "GetItemFromId i (show_traffic w s) = GetItemFromId i s"
proof -
  let ?f = "\<lambda>i. i\<lparr>DownloadSpeed := NewDownloadSpeed w, UploadSpeed := NewUploadSpeed w,
    TotalDownloadBytes := UpdTotalDownloadBytes w, TotalUploadBytes := UpdTotalUploadBytes w\<rparr>"
  have "shown_traffic (show_traffic w s) = (\<lambda>i. if i = UpdItemId w then map_option (\<lambda>_. sent_traffic w) (GetItemFromId i s) else shown_traffic s i)
    \<and> TreeItems (show_traffic w s) = TreeItems s"
  proof (cases "map_of (TreeItems s) (UpdItemId w)")
    case None
    then show ?thesis by (auto simp: show_traffic_def shown_traffic_def GetItemFromId_def fun_eq_iff)
  next
    case (Some r)
    let ?t = "upd_base r ?f s"
    have r: "in_heap r s" using index_entry(1) [OF ok Some] .
    have "shown_traffic ?t = (\<lambda>i. if i = UpdItemId w then map_option (\<lambda>_. sent_traffic w) (GetItemFromId i s) else shown_traffic s i)"
    proof
      fix i
      have "map_of (TreeItems s) i = Some r \<longleftrightarrow> i = UpdItemId w" using Some sock_ptr_inj [OF ok Some, of i] by auto
      then show "shown_traffic ?t i = (if i = UpdItemId w then map_option (\<lambda>_. sent_traffic w) (GetItemFromId i s) else shown_traffic s i)"
        using Some by (cases "map_of (TreeItems s) i")
          (auto simp: shown_traffic_def GetItemFromId_def get_base_upd_base [OF r] sent_traffic_def Let_def simp del: upd_base.simps)
    qed
    moreover have "heap_of (show_traffic w s) = heap_of ?t" "TreeItems (show_traffic w s) = TreeItems s"
      using Some by (simp_all add: show_traffic_def Let_def del: upd_base.simps)
    ultimately show ?thesis using shown_traffic_heap [of "show_traffic w s" ?t] by simp
  qed
  then show "shown_traffic (show_traffic w s) = (\<lambda>i. if i = UpdItemId w then map_option (\<lambda>_. sent_traffic w) (GetItemFromId i s) else shown_traffic s i)"
    "GetItemFromId i (show_traffic w s) = GetItemFromId i s" by (simp_all add: GetItemFromId_def)
qed

lemma shown_fold_traffic:
  assumes "client_ok s" "distinct (map UpdItemId ws)" "w \<in> set ws"
  shows "shown_traffic (fold show_traffic ws s) (UpdItemId w) = map_option (\<lambda>_. sent_traffic w) (GetItemFromId (UpdItemId w) s)"
  using assms
proof (induction ws arbitrary: s)
  case (Cons x ws)
  have other: "shown_traffic (fold show_traffic vs t) i = shown_traffic t i" if "client_ok t" "i \<notin> UpdItemId ` set vs" for vs t i
    using that by (induction vs arbitrary: t) (simp_all add: shown_show_traffic client_ok_show_traffic)
  show ?case
  proof (cases "w = x")
    case True
    then have "UpdItemId w \<notin> UpdItemId ` set ws" using Cons.prems(2) by auto
    then show ?thesis using True Cons.prems(1) by (simp add: other client_ok_show_traffic shown_show_traffic(1))
  next
    case False
    then show ?thesis using Cons by (simp add: client_ok_show_traffic shown_show_traffic(2))
  qed
qed simp

lemma GetItemFromId_fold: "client_ok s \<Longrightarrow> GetItemFromId i (fold show_traffic ws s) = GetItemFromId i s"
  by (induction ws arbitrary: s) (simp_all add: client_ok_show_traffic shown_show_traffic(2))

lemma UpdateFromBuffer_shows:
  assumes "codec_sound C" and "reachable (\<lambda>s. s = WTrafficTree_init) (client_step C) s"
    and "decode_updates C Buf = Some u" and "distinct (map UpdItemId (OutUpdatedItems u))" and "w \<in> set (OutUpdatedItems u)"
  shows "shown_traffic (UpdateFromBuffer C Buf s) (UpdItemId w)
    = map_option (\<lambda>_. sent_traffic w) (GetItemFromId (UpdItemId w) (UpdateFromBuffer C Buf s))"
proof -
  let ?t = "fold change_state (OutStateChanges u) (fold add_tuple (OutAddedTuples u)
    (fold add_socket (OutAddedSockets u) (fold remove_item (OutRemovedItems u) (fold mark_item (OutMarkedForRemoval u) s))))"
  have ok: "client_ok ?t" using client_reachable_ok [OF assms(1,2)] by (intro client_ok_folds)
  have last: "UpdateFromBuffer C Buf s = (fold show_traffic (OutUpdatedItems u) ?t)\<lparr>bRequireTreeSorting := True\<rparr>"
    using assms(3) by (simp add: UpdateFromBuffer_def apply_updates_def Let_def)
  have same: "shown_traffic (t\<lparr>bRequireTreeSorting := b\<rparr>) = shown_traffic t" "GetItemFromId i (t\<lparr>bRequireTreeSorting := b\<rparr>) = GetItemFromId i t" for t b i
    by (rule shown_traffic_heap, simp_all add: GetItemFromId_def)
  show ?thesis unfolding last same using shown_fold_traffic [OF ok assms(4,5)] GetItemFromId_fold [OF ok] by simp
qed

text \<open>After an update every item that it lists and the client knows shows exactly the speeds and totals the daemon
  sent for its id; no update for one item is seen on another.\<close>

theorem client_shows_sent_traffic:
  assumes "codec_sound C" and "reachable (\<lambda>s. s = WTrafficTree_init) (client_step C) s"
    and "decode_updates C Buf = Some u" and "distinct (map UpdItemId (OutUpdatedItems u))" and "w \<in> set (OutUpdatedItems u)"
  shows "shown_traffic (UpdateFromBuffer C Buf s) (UpdItemId w)
    = map_option (\<lambda>_. sent_traffic w) (GetItemFromId (UpdItemId w) (UpdateFromBuffer C Buf s))"
  by (rule UpdateFromBuffer_shows [OF assms])


text \<open>Smaller facts: a disconnect keeps the marks and the rules, a new tuple has no endpoint, and a new socket is entered
  under its id where the loaded ones are under their cookie, so it can replace a loaded one in its process.\<close>

lemma Clear_keeps_marks: "MarkedItems (Clear s) = MarkedItems s \<and> ClientRules (Clear s) = ClientRules s"
  by (simp add: Clear_def)

lemma added_tuple_has_no_endpoint:
  assumes "map_of (TreeItems s) (TupSocketItemId A) = Some (SockPtr k)" "TupItemId A \<notin> um_keys (TreeItems s)"
  shows "GetItemFromId (TupItemId A) (add_tuple A s) = Some (TuplePtr (length (CTuples s)))"
    "TupleEndpoint (CTuples (add_tuple A s) ! length (CTuples s)) = WEndpoint_init"
  using assms
  by (simp_all add: add_tuple_def GetItemFromId_def upd_csock_def Let_def new_tuple_item_def ITrafficItem_init_def ITrafficItem.defs WTupleItem.defs)

lemma added_socket_replaces_loaded:
  assumes "map_of (Applications (Root s)) (AddApplicationPath A) = Some a" "map_of (Processes (CApps s ! a)) (AddProcessId A) = Some p"
    and "p < length (CProcs s)" "map_of (Sockets (CProcs s ! p)) (AddItemId A) = Some k" "AddItemId A \<notin> um_keys (TreeItems s)"
  shows "map_of (Sockets (CProcs (add_socket A s) ! p)) (AddItemId A) = Some (length (CSocks s))"
    "j \<noteq> AddItemId A \<Longrightarrow> GetItemFromId j (add_socket A s) = GetItemFromId j s"
  using assms by (simp_all add: add_socket_def find_or_add_app_def find_or_add_process_def Let_def GetItemFromId_def)

section \<open>A concrete client\<close>

definition test_daemon :: WSystemMap where
  "test_daemon = remove_process test_sys_env 42 0 test_map"

definition test_message :: WTrafficTreeUpdates where
  "test_message = (fst (GetUpdates test_daemon))\<lparr>OutUpdatedItems := [\<lparr>UpdItemId = 0, NewDownloadSpeed = 5, NewUploadSpeed = 6,
     UpdTotalDownloadBytes = 7, UpdTotalUploadBytes = 8\<rparr>]\<rparr>"

definition test_client_codec :: client_codec where
  "test_client_codec = \<lparr>decode_tree = (\<lambda>_. (True, ITrafficItem.extend (ITrafficItem_init 0) (WSystemItem.fields ''host'' [] []))),
     decode_updates = (\<lambda>b. if b = [1] then Some (fst (GetUpdates test_daemon)) else Some test_message),
     decode_resolve = (\<lambda>_. None), decode_rule = (\<lambda>_. None)\<rparr>"

definition test_client :: WTrafficTree where
  "test_client = OnTreeMessage test_client_codec [0] WTrafficTree_init"

lemma test_codec_sound: "codec_sound test_client_codec"
  by (auto simp: codec_sound_def test_client_codec_def ITrafficItem_init_def ITrafficItem.defs)

lemma test_client_reachable: "reachable (\<lambda>s. s = WTrafficTree_init) (client_step test_client_codec) test_client"
  unfolding test_client_def by (rule reach_step, rule reach_start, rule refl, rule message)

lemma test_client_index: "TreeItems test_client = [(0, RootRef)]" "CSocks test_client = []"
  by code_simp+

lemma test_daemon_facts:
  "AddedSockets (MapUpdate test_daemon) = [0]" "ItemId (sock_item test_daemon 0) = 6"
  "RemovedItems (MapUpdate test_daemon) = [6, 5]" "CounterState (SockCounter (SockHeap test_daemon ! 0)) \<noteq> CS_PendingRemoval"
  "map AddItemId (OutAddedSockets (fst (GetUpdates test_daemon))) = [6]"
  "map AddApplicationItemId (OutAddedSockets (fst (GetUpdates test_daemon))) = [4]"
  "map AddProcessItemId (OutAddedSockets (fst (GetUpdates test_daemon))) = [5]"
  by code_simp+

lemma test_ids_apart: "ids_apart (OutAddedSockets (fst (GetUpdates test_daemon))) test_client"
proof -
  let ?As = "OutAddedSockets (fst (GetUpdates test_daemon))"
  have "shown_sockets test_client = Map.empty" by (rule ext) (simp add: shown_sockets_def test_client_index)
  moreover have "AddItemId ` set ?As = {6}" "AddApplicationItemId ` set ?As = {4}" "AddProcessItemId ` set ?As = {5}"
    using arg_cong [OF test_daemon_facts(5), of set] arg_cong [OF test_daemon_facts(6), of set] arg_cong [OF test_daemon_facts(7), of set]
    by simp_all
  moreover have "AddItemId A \<noteq> 0" if "A \<in> set ?As" for A
    using imageI [OF that, of AddItemId] unfolding calculation(2) by auto
  ultimately show ?thesis by (auto simp: ids_apart_def test_client_index um_keys_def)
qed

theorem client_index_sound_witness: "ItemId (get_base RootRef test_client) = 0 \<and> links_ok test_client"
  using client_index_sound [OF test_codec_sound test_client_reachable, of 0 RootRef] by (simp add: GetItemFromId_def test_client_index)


theorem removed_socket_stays_in_client_witness:
  "6 \<in> set (OutRemovedItems (fst (GetUpdates test_daemon))) \<and> shown_sockets (UpdateFromBuffer test_client_codec [1] test_client) 6 \<noteq> None"
proof -
  have "decode_updates test_client_codec [1] = Some (fst (GetUpdates test_daemon))" by (simp add: test_client_codec_def)
  from removed_socket_stays_in_client [OF test_codec_sound test_client_reachable this test_ids_apart, of 0]
  show ?thesis unfolding test_daemon_facts(2) using test_daemon_facts(1,3,4) by simp
qed

theorem client_shows_sent_traffic_witness:
  "shown_traffic (UpdateFromBuffer test_client_codec [1, 1] test_client) 0
     = map_option (\<lambda>_. (5, 6, 7, 8)) (GetItemFromId 0 (UpdateFromBuffer test_client_codec [1, 1] test_client))"
proof -
  have "decode_updates test_client_codec [1, 1] = Some test_message" by (simp add: test_client_codec_def)
  from client_shows_sent_traffic [OF test_codec_sound test_client_reachable this, of "hd (OutUpdatedItems test_message)"]
  show ?thesis by (simp add: test_message_def sent_traffic_def)
qed

end
