(* ===== verification/End_To_End.thy ===== *)
theory End_To_End
  imports Daemon_Socket Client_Tree
begin

text \<open>
  From the counters of the daemon to the tree of a client: \<open>System_Map\<close> makes the update, \<open>Daemon_Socket\<close> broadcasts it,
  \<open>Client_Socket\<close> frames it and \<open>Client_Tree\<close> takes it in. The tree of a client is what its handler makes of the frames
  on the wire, one after the other.
\<close>

definition client_tree :: "client_codec \<Rightarrow> WClientSocket \<times> send_answer list \<Rightarrow> WTrafficTree" where
  "client_tree C c = fold (OnTreeMessage C) (fst (frames (Wire (fst c)))) WTrafficTree_init"

lemma client_tree_reachable: "reachable (\<lambda>s. s = WTrafficTree_init) (client_step C) (fold (OnTreeMessage C) ms WTrafficTree_init)"
proof (induction ms rule: rev_induct)
  case Nil
  then show ?case by (simp add: reach_start)
next
  case (snoc m ms)
  from reach_step [OF snoc client_step.message] show ?case by simp
qed

text \<open>Log messages do not touch the tree.\<close>

lemma OnTreeMessage_log: "is_log m \<Longrightarrow> OnTreeMessage C m s = s"
  by (simp add: is_log_def OnTreeMessage_def)

lemma fold_without_logs: "fold (OnTreeMessage C) (filter (\<lambda>m. \<not> is_log m) ms) s = fold (OnTreeMessage C) ms s"
  by (induction ms arbitrary: s) (simp_all add: OnTreeMessage_log)

lemma client_tree_updates: "client_tree C (Conns s ! i) = fold (OnTreeMessage C) (updates_of unix_delivered s i) WTrafficTree_init"
  by (simp add: client_tree_def updates_of_def unix_delivered_def fold_without_logs)

lemma OnTreeMessage_update: "OnTreeMessage C (SerializeMessage MT_TrafficTreeUpdate p) s = UpdateFromBuffer C (SerializeMessage MT_TrafficTreeUpdate p) s"
  by (simp add: OnTreeMessage_def SerializeMessage_def)

text \<open>A broadcast that returned left its update as the last message of each open connection in the list.\<close>

lemma broadcast_reaches_tree:
  assumes E: "logs_fit E" "ClientLink E = unix_link" and s: "unix.clients_ok s" "bHasClients s" "i \<in> set (Clients s)"
    and "length (encode (fst (GetUpdates M))) < 2 ^ 32 - 1"
    and run: "BroadcastTrafficUpdate E encode (M, s) = Inr (M', s')" and up: "IsConnected (fst (Conns s' ! i))"
  shows "client_tree C (Conns s' ! i)
    = UpdateFromBuffer C (SerializeMessage MT_TrafficTreeUpdate (encode (fst (GetUpdates M)))) (client_tree C (Conns s ! i))"
proof -
  let ?m = "SerializeMessage MT_TrafficTreeUpdate (encode (fst (GetUpdates M)))"
  have m: "update_fits ?m" using update_fits_message(1) [OF assms(6)] by simp
  then have "sendable ?m" by (simp add: update_fits_def)
  note send = unix.SendFramedData_delta [OF unix.log_message_quiet [OF E] _ this]
  have b: "broadcast_locked E ''Failed to send traffic update to client: '' (SendFramedData unix_link (log_message E {ClientsMutex}) ?m) s = Inr s'"
    using run s(2) E(2) by (auto simp: BroadcastTrafficUpdate_def and_then_Inr case_prod_unfold Let_def)
  have d: "unix.delta (\<lambda>j. if j \<in> set (Clients s) then [?m] else []) s s'"
    by (rule unix.broadcast_locked_delta [OF E s(1) m send b])
  have "i < length (Conns s)" using s(1,3) by (simp add: unix.clients_ok_def)
  moreover have "LinkIsConnected unix_link (Conns s' ! i)" using up by (simp add: unix_link_def case_prod_unfold)
  ultimately have "updates_of unix_delivered s' i = updates_of unix_delivered s i @ [?m]" using d s(3) by (simp add: unix.delta_def)
  then show ?thesis by (simp add: client_tree_updates OnTreeMessage_update)
qed

lemma app_in_updates:
  "(k, a) \<in> set (AppMap M) \<Longrightarrow> IsActive (AppHeap M ! a) \<Longrightarrow> traffic_update (app_item M a) \<in> set (OutUpdatedItems (fst (GetUpdates M)))"
  by (force simp: GetUpdates_def Let_def active_updates_def)

lemma sent_traffic_update:
  "UpdItemId (traffic_update I) = ItemId I" "sent_traffic (traffic_update I) = (DownloadSpeed I, UploadSpeed I, TotalDownloadBytes I, TotalUploadBytes I)"
  by (simp_all add: traffic_update_def sent_traffic_def)

text \<open>C5. What a client shows is what the daemon counts: when a traffic update has been broadcast, every client whose connection is open
  shows for each active application that it knows the speeds and the totals of the daemon's counter, whatever it was sent
  before. (The client decodes what the daemon encoded, and no two items of the update have the same id.)\<close>

theorem client_shows_daemon_traffic:
  assumes "logs_fit E" and "ClientLink E = unix_link" and "codec_sound C"
    and "length (encode (fst (GetUpdates M))) < 2 ^ 32 - 1"
    and "decode_updates C (SerializeMessage MT_TrafficTreeUpdate (encode (fst (GetUpdates M)))) = Some (fst (GetUpdates M))"
    and "distinct (Clients s)" and "\<forall>j \<in> set (Clients s). j < length (Conns s)" and "\<forall>c \<in> set (Conns s). unix_good c"
    and "bHasClients s" and "i \<in> set (Clients s)"
    and "BroadcastTrafficUpdate E encode (M, s) = Inr (M', s')" and "IsConnected (fst (Conns s' ! i))"
    and "distinct (map UpdItemId (OutUpdatedItems (fst (GetUpdates M))))"
    and "(k, a) \<in> set (AppMap M)" and "IsActive (AppHeap M ! a)"
  shows "shown_traffic (client_tree C (Conns s' ! i)) (ItemId (app_item M a)) =
    map_option (\<lambda>_. (DownloadSpeed (app_item M a), UploadSpeed (app_item M a), TotalDownloadBytes (app_item M a), TotalUploadBytes (app_item M a)))
      (GetItemFromId (ItemId (app_item M a)) (client_tree C (Conns s' ! i)))"
proof -
  have ok: "unix.clients_ok s" using assms(6-8) by (simp add: unix.clients_ok_def unix.all_good_def)
  have reach: "reachable (\<lambda>s. s = WTrafficTree_init) (client_step C) (client_tree C (Conns s ! i))"
    unfolding client_tree_def by (rule client_tree_reachable)
  show ?thesis
    unfolding broadcast_reaches_tree [OF assms(1,2) ok assms(9,10,4,11,12)]
    using UpdateFromBuffer_shows [OF assms(3) reach assms(5,13) app_in_updates [OF assms(14,15)]]
    unfolding sent_traffic_update .
qed


section \<open>A concrete client\<close>

definition test_listening :: "(WClientSocket \<times> send_answer list) daemon_socket" where
  "test_listening = \<lparr>Conns = [(test_socket, [Sent 9, Sent 9])], Clients = [0], bHasClients = True\<rparr>"

lemma test_broadcast:
  obtains M' s' where "BroadcastTrafficUpdate test_comm (\<lambda>_. []) (test_daemon, test_listening) = Inr (M', s')" "IsConnected (fst (Conns s' ! 0))"
proof -
  have "case BroadcastTrafficUpdate test_comm (\<lambda>_. []) (test_daemon, test_listening) of Inl _ \<Rightarrow> False | Inr (M, s) \<Rightarrow> IsConnected (fst (Conns s ! 0))"
    by code_simp
  then show ?thesis using that by (cases "BroadcastTrafficUpdate test_comm (\<lambda>_. []) (test_daemon, test_listening)") auto
qed

theorem client_shows_daemon_traffic_witness:
  "\<exists>M' s'. BroadcastTrafficUpdate test_comm (\<lambda>_. []) (test_daemon, test_listening) = Inr (M', s')
    \<and> shown_traffic (client_tree test_client_codec (Conns s' ! 0)) (ItemId (app_item test_daemon 0)) =
      map_option (\<lambda>_. (DownloadSpeed (app_item test_daemon 0), UploadSpeed (app_item test_daemon 0),
          TotalDownloadBytes (app_item test_daemon 0), TotalUploadBytes (app_item test_daemon 0)))
        (GetItemFromId (ItemId (app_item test_daemon 0)) (client_tree test_client_codec (Conns s' ! 0)))"
proof -
  obtain M' s' where run: "BroadcastTrafficUpdate test_comm (\<lambda>_. []) (test_daemon, test_listening) = Inr (M', s')" "IsConnected (fst (Conns s' ! 0))"
    by (rule test_broadcast)
  have decode: "decode_updates test_client_codec (SerializeMessage MT_TrafficTreeUpdate []) = Some (fst (GetUpdates test_daemon))"
    by (simp add: test_client_codec_def SerializeMessage_def)
  have "unix_good (test_socket, [Sent 9, Sent 9])" by code_simp
  then have s: "distinct (Clients test_listening)" "\<forall>j \<in> set (Clients test_listening). j < length (Conns test_listening)"
      "\<forall>c \<in> set (Conns test_listening). unix_good c" "bHasClients test_listening" "0 \<in> set (Clients test_listening)"
    by (simp_all add: test_listening_def)
  have ids: "distinct (map UpdItemId (OutUpdatedItems (fst (GetUpdates test_daemon))))" by code_simp
  have app: "AppMap test_daemon = [(''/usr/bin/curl'', 0)]" "IsActive (AppHeap test_daemon ! 0)" by code_simp+
  then have k: "(''/usr/bin/curl'', 0) \<in> set (AppMap test_daemon)" by simp
  show ?thesis
    using client_shows_daemon_traffic [OF test_comm_fits(1,2) test_codec_sound _ decode s run ids k app(2)] run(1) by auto
qed

end
