(* ===== verification/Timers.thy ===== *)
theory Timers
  imports Waechter_Prelude
begin

text \<open>
  \<^verbatim>\<open>Util/Time.hpp\<close> and \<^verbatim>\<open>Time.cpp\<close>: the timers of the daemon. A timer either adds up the time between updates or fires on the
  boundaries of the wall clock. A \<^verbatim>\<open>double\<close> is a real number and every sum of two is rounded by a function that
  is a parameter; the wall clock is an argument, read once per timer. A callback is named by the id of its timer.
\<close>

section \<open>Model\<close>

record WTimer =
  Interval :: real
  ElapsedTime :: real
  TimerId :: int
  AlignToWallClock :: bool
  NextWallClockFireTime :: int

text \<open>Conversion to \<^verbatim>\<open>int64_t\<close> and division, both towards zero; a division by zero ends the program.\<close>

definition trunc_int :: "real \<Rightarrow> int" where
  "trunc_int x = (if x < 0 then - \<lfloor>- x\<rfloor> else \<lfloor>x\<rfloor>)"

definition trunc_div :: "int \<Rightarrow> int \<Rightarrow> int" where
  "trunc_div a b = (if (a < 0) = (b < 0) then \<bar>a\<bar> div \<bar>b\<bar> else - (\<bar>a\<bar> div \<bar>b\<bar>))"

definition WTimer_new :: "real \<Rightarrow> int \<Rightarrow> bool \<Rightarrow> int \<Rightarrow> WTimer option" where
  "WTimer_new IntervalSeconds NewId Align Now0 =
     (let t = \<lparr>Interval = IntervalSeconds, ElapsedTime = 0, TimerId = NewId, AlignToWallClock = Align, NextWallClockFireTime = 0\<rparr> in
      if Align then
        (let IntervalSecs = trunc_int IntervalSeconds in
         if IntervalSecs = 0 then None
         else Some (t\<lparr>NextWallClockFireTime := (trunc_div Now0 IntervalSecs + 1) * IntervalSecs\<rparr>))
      else Some t)"

definition TimerUpdate :: "(real \<Rightarrow> real) \<Rightarrow> int \<Rightarrow> real \<Rightarrow> WTimer \<Rightarrow> bool \<times> WTimer" where
  "TimerUpdate rnd Now0 DeltaTime t =
     (if AlignToWallClock t then
        (if Now0 \<ge> NextWallClockFireTime t
         then (True, t\<lparr>NextWallClockFireTime := NextWallClockFireTime t + trunc_int (Interval t)\<rparr>)
         else (False, t))
      else
        let e = rnd (ElapsedTime t + DeltaTime) in
        if e \<ge> Interval t then (True, t\<lparr>ElapsedTime := rnd (e - Interval t)\<rparr>)
        else (False, t\<lparr>ElapsedTime := e\<rparr>))"

record WTimerManager =
  Timers :: "WTimer list"
  LastUpdateTime :: real
  TimerIdCounter :: int

definition WTimerManager_init :: WTimerManager where
  "WTimerManager_init = \<lparr>Timers = [], LastUpdateTime = 0, TimerIdCounter = 0\<rparr>"

definition AddTimer :: "real \<Rightarrow> WTimerManager \<Rightarrow> (int \<times> WTimerManager) option" where
  "AddTimer IntervalSeconds m =
     (case WTimer_new IntervalSeconds (TimerIdCounter m) False 0 of
        None \<Rightarrow> None
      | Some t \<Rightarrow> Some (TimerIdCounter m, m\<lparr>Timers := Timers m @ [t], TimerIdCounter := TimerIdCounter m + 1\<rparr>))"

definition AddAlignedTimer :: "real \<Rightarrow> int \<Rightarrow> WTimerManager \<Rightarrow> (int \<times> WTimerManager) option" where
  "AddAlignedTimer IntervalSeconds Now0 m =
     (case WTimer_new IntervalSeconds (TimerIdCounter m) True Now0 of
        None \<Rightarrow> None
      | Some t \<Rightarrow> Some (TimerIdCounter m, m\<lparr>Timers := Timers m @ [t], TimerIdCounter := TimerIdCounter m + 1\<rparr>))"

definition RemoveTimer :: "int \<Rightarrow> WTimerManager \<Rightarrow> WTimerManager" where
  "RemoveTimer NewId m = (if Timers m = [] then m else m\<lparr>Timers := filter (\<lambda>t. TimerId t \<noteq> NewId) (Timers m)\<rparr>)"

definition Start :: "real \<Rightarrow> WTimerManager \<Rightarrow> WTimerManager" where
  "Start CurrentTime m = m\<lparr>LastUpdateTime := CurrentTime\<rparr>"

text \<open>The ids of the timers whose callback ran, in order; \<open>clock\<close> is what each timer reads.\<close>

definition UpdateTimers :: "(real \<Rightarrow> real) \<Rightarrow> (int \<Rightarrow> int) \<Rightarrow> real \<Rightarrow> WTimerManager \<Rightarrow> int list \<times> WTimerManager" where
  "UpdateTimers rnd clock CurrentTime m =
     (let Delta = rnd (CurrentTime - LastUpdateTime m);
          rs = map (\<lambda>t. TimerUpdate rnd (clock (TimerId t)) Delta t) (Timers m)
      in (map (\<lambda>(f, t). TimerId t) (filter fst rs), m\<lparr>Timers := map snd rs, LastUpdateTime := CurrentTime\<rparr>))"

text \<open>The three timers of the daemon and its loop, which adds a tenth of a second per turn; \<^verbatim>\<open>0.1\<close> is the double next to it.\<close>

definition PeriodicTimers :: "int \<Rightarrow> WTimerManager option" where
  "PeriodicTimers Now0 =
     (case AddTimer 1 (Start 0 WTimerManager_init) of None \<Rightarrow> None
      | Some (_, m1) \<Rightarrow> (case AddTimer 5 m1 of None \<Rightarrow> None
        | Some (_, m2) \<Rightarrow> map_option snd (AddAlignedTimer 3600 Now0 m2)))"

fun PeriodicLoop :: "(real \<Rightarrow> real) \<Rightarrow> real \<Rightarrow> (int \<Rightarrow> int) list \<Rightarrow> real \<Rightarrow> WTimerManager \<Rightarrow> int list list" where
  "PeriodicLoop rnd tenth [] Time m = []"
| "PeriodicLoop rnd tenth (clock # clocks) Time m =
     (let Time1 = rnd (Time + tenth); (fired, m1) = UpdateTimers rnd clock Time1 m in fired # PeriodicLoop rnd tenth clocks Time1 m1)"

section \<open>A timer on the wall clock\<close>

text \<open>The updates of one timer at the given readings of the clock.\<close>

fun aligned_run :: "(real \<Rightarrow> real) \<Rightarrow> (int \<times> real) list \<Rightarrow> WTimer \<Rightarrow> bool list \<times> WTimer" where
  "aligned_run rnd [] t = ([], t)"
| "aligned_run rnd ((now, d) # xs) t =
     (let (f, t1) = TimerUpdate rnd now d t; (fs, t2) = aligned_run rnd xs t1 in (f # fs, t2))"

text \<open>A timer is on time when its next boundary is the next multiple of the interval after the last reading.\<close>

definition on_time :: "int \<Rightarrow> int \<Rightarrow> WTimer \<Rightarrow> bool" where
  "on_time k prev t \<longleftrightarrow> AlignToWallClock t \<and> trunc_int (Interval t) = k \<and> NextWallClockFireTime t = (prev div k + 1) * k"

lemma trunc_div_nonneg: "0 \<le> a \<Longrightarrow> 0 < b \<Longrightarrow> trunc_div a b = a div b"
  by (simp add: trunc_div_def)

lemma WTimer_new_on_time:
  "WTimer_new r i True now = Some t \<Longrightarrow> trunc_int r = k \<Longrightarrow> 0 < k \<Longrightarrow> 0 \<le> now \<Longrightarrow> on_time k now t"
  by (auto simp: WTimer_new_def on_time_def trunc_div_nonneg Let_def split: if_splits)

text \<open>The boundaries that a list of readings crosses.\<close>

fun crossings :: "int \<Rightarrow> int \<Rightarrow> int list \<Rightarrow> bool list" where
  "crossings k prev [] = []"
| "crossings k prev (now # xs) = (prev div k < now div k) # crossings k now xs"

text \<open>No reading lies behind the one before or skips a whole period.\<close>

fun steady :: "int \<Rightarrow> int \<Rightarrow> int list \<Rightarrow> bool" where
  "steady k prev [] \<longleftrightarrow> True"
| "steady k prev (now # xs) \<longleftrightarrow> prev \<le> now \<and> now div k \<le> prev div k + 1 \<and> steady k now xs"


lemma le_div_iff_mult: "0 < (k :: int) \<Longrightarrow> q \<le> n div k \<longleftrightarrow> q * k \<le> n"
proof
  assume k: "0 < k" and "q * k \<le> n"
  then have "(q * k) div k \<le> n div k" by (intro zdiv_mono1)
  then show "q \<le> n div k" using k by simp
next
  assume k: "0 < k" and "q \<le> n div k"
  then have "q * k \<le> (n div k) * k" by (intro mult_right_mono) simp_all
  also have "\<dots> \<le> n" using k pos_mod_sign [of k n] minus_mod_eq_div_mult [of n k] by linarith
  finally show "q * k \<le> n" .
qed

lemma boundary_reached: "0 < (k :: int) \<Longrightarrow> (prev div k + 1) * k \<le> now \<longleftrightarrow> prev div k < now div k"
  using le_div_iff_mult [of k "prev div k + 1" now] by linarith

lemma TimerUpdate_on_time:
  assumes "0 < k" "on_time k prev t" "prev \<le> now" "now div k \<le> prev div k + 1" "TimerUpdate rnd now d t = (f, t1)"
  shows "f \<longleftrightarrow> prev div k < now div k" and "on_time k now t1"
proof -
  note due = boundary_reached [OF assms(1), of prev now]
  have mono: "prev div k \<le> now div k" using assms(1,3) by (intro zdiv_mono1)
  show "f \<longleftrightarrow> prev div k < now div k" using assms(2,5) due by (auto simp: TimerUpdate_def on_time_def split: if_splits)
  show "on_time k now t1"
  proof (cases "prev div k < now div k")
    case True
    then have "now div k = prev div k + 1" using assms(4) by linarith
    then show ?thesis using assms(2,5) due True by (auto simp: TimerUpdate_def on_time_def algebra_simps split: if_splits)
  next
    case False
    then have "now div k = prev div k" using mono by linarith
    then show ?thesis using assms(2,5) due False by (auto simp: TimerUpdate_def on_time_def split: if_splits)
  qed
qed

lemma aligned_run_crossings:
  assumes "0 < k"
  shows "on_time k prev t \<Longrightarrow> steady k prev (map fst xs) \<Longrightarrow> fst (aligned_run rnd xs t) = crossings k prev (map fst xs)"
proof (induction xs arbitrary: prev t)
  case (Cons x xs)
  obtain now d where x: "x = (now, d)" by force
  obtain f t1 where u: "TimerUpdate rnd now d t = (f, t1)" by force
  have "f \<longleftrightarrow> prev div k < now div k" "on_time k now t1"
    using TimerUpdate_on_time [OF assms Cons.prems(1) _ _ u] Cons.prems(2) x by simp_all
  then show ?case using Cons.IH [of now t1] Cons.prems(2) x u by (simp add: case_prod_unfold)
qed simp

text \<open>After a jump of the clock over several boundaries a timer fires in each of the following updates until it has caught up,
  however close together they are.\<close>

lemma catches_up:
  assumes "AlignToWallClock t" "0 < trunc_int (Interval t)" "NextWallClockFireTime t + int n * trunc_int (Interval t) \<le> now + trunc_int (Interval t)"
  shows "fst (aligned_run rnd (replicate n (now, d)) t) = replicate n True"
  using assms
proof (induction n arbitrary: t)
  case (Suc n)
  have "0 \<le> int n * trunc_int (Interval t)" using Suc.prems(2) by simp
  then have due: "NextWallClockFireTime t \<le> now" using Suc.prems(3) by (simp add: algebra_simps)
  let ?t = "t\<lparr>NextWallClockFireTime := NextWallClockFireTime t + trunc_int (Interval t)\<rparr>"
  have "TimerUpdate rnd now d t = (True, ?t)" using Suc.prems(1) due by (simp add: TimerUpdate_def)
  then show ?case using Suc.IH [of ?t] Suc.prems by (simp add: case_prod_unfold algebra_simps)
qed simp

section \<open>The timers of the daemon\<close>

definition exact :: "real \<Rightarrow> real" where
  "exact x = x"

text \<open>The three timers after \<open>n\<close> turns of the loop, without rounding.\<close>

definition loop_state :: "nat \<Rightarrow> int \<Rightarrow> WTimerManager \<Rightarrow> bool" where
  "loop_state n prev m \<longleftrightarrow> (\<exists>t. on_time 3600 prev t \<and> TimerId t = 2 \<and> LastUpdateTime m = real n / 10 \<and>
     Timers m = [\<lparr>Interval = 1, ElapsedTime = real (n mod 10) / 10, TimerId = 0, AlignToWallClock = False, NextWallClockFireTime = 0\<rparr>,
                 \<lparr>Interval = 5, ElapsedTime = real (n mod 50) / 10, TimerId = 1, AlignToWallClock = False, NextWallClockFireTime = 0\<rparr>, t])"

lemma PeriodicTimers_state:
  assumes "0 \<le> now" "PeriodicTimers now = Some m"
  shows "loop_state 0 now m"
proof -
  have k: "trunc_int 3600 = 3600" by (simp add: trunc_int_def)
  obtain t where t: "WTimer_new 3600 2 True now = Some t"
    "m = \<lparr>Timers = [\<lparr>Interval = 1, ElapsedTime = 0, TimerId = 0, AlignToWallClock = False, NextWallClockFireTime = 0\<rparr>,
                 \<lparr>Interval = 5, ElapsedTime = 0, TimerId = 1, AlignToWallClock = False, NextWallClockFireTime = 0\<rparr>, t], LastUpdateTime = 0, TimerIdCounter = 3\<rparr>"
    using assms(2) by (auto simp: PeriodicTimers_def AddTimer_def AddAlignedTimer_def Start_def WTimerManager_init_def WTimer_new_def [of _ _ False] split: option.splits)
  have "on_time 3600 now t" by (rule WTimer_new_on_time [OF t(1) k _ assms(1)]) simp
  moreover have "TimerId t = 2" using t(1) by (auto simp: WTimer_new_def Let_def split: if_splits)
  ultimately show ?thesis unfolding loop_state_def using t(2) by auto
qed

lemma elapsed_step:
  fixes p :: nat
  assumes "0 < p"
  shows "(real p / 10 \<le> real (n mod p) / 10 + 1 / 10) \<longleftrightarrow> p dvd Suc n"
    and "real (Suc n mod p) / 10 = (if p dvd Suc n then real (n mod p) / 10 + 1 / 10 - real p / 10 else real (n mod p) / 10 + 1 / 10)"
proof -
  have lt: "n mod p < p" using assms by simp
  have suc: "Suc n mod p = (if Suc (n mod p) = p then 0 else Suc (n mod p))" by (simp add: mod_Suc)
  have iff: "p dvd Suc n \<longleftrightarrow> Suc (n mod p) = p" using suc by (auto simp: dvd_eq_mod_eq_0)
  have "(real p / 10 \<le> real (n mod p) / 10 + 1 / 10) \<longleftrightarrow> real p \<le> real (Suc (n mod p))" by (simp add: field_simps)
  also have "\<dots> \<longleftrightarrow> p \<le> Suc (n mod p)" by (rule of_nat_le_iff)
  also have "\<dots> \<longleftrightarrow> p dvd Suc n" using lt iff by linarith
  finally show "(real p / 10 \<le> real (n mod p) / 10 + 1 / 10) \<longleftrightarrow> p dvd Suc n" .
  show "real (Suc n mod p) / 10 = (if p dvd Suc n then real (n mod p) / 10 + 1 / 10 - real p / 10 else real (n mod p) / 10 + 1 / 10)"
  proof (cases "p dvd Suc n")
    case True
    then have "p = Suc (n mod p)" using iff by simp
    then have "real p = real (Suc (n mod p))" by (rule arg_cong)
    then have "real p = real (n mod p) + 1" by linarith
    then show ?thesis using True suc iff by (simp add: field_simps)
  next
    case False
    then show ?thesis using suc iff by (simp add: field_simps)
  qed
qed

lemma loop_step:
  assumes "loop_state n prev m" "prev \<le> clock 2" "clock 2 div 3600 \<le> prev div 3600 + 1"
    and "UpdateTimers exact clock (real (Suc n) / 10) m = (fired, m1)"
  shows "loop_state (Suc n) (clock 2) m1"
    and "(0 \<in> set fired \<longleftrightarrow> 10 dvd Suc n) \<and> (1 \<in> set fired \<longleftrightarrow> 50 dvd Suc n) \<and> (2 \<in> set fired \<longleftrightarrow> prev div 3600 < clock 2 div 3600)"
proof -
  obtain t where t: "on_time 3600 prev t" "TimerId t = 2" "LastUpdateTime m = real n / 10"
    "Timers m = [\<lparr>Interval = 1, ElapsedTime = real (n mod 10) / 10, TimerId = 0, AlignToWallClock = False, NextWallClockFireTime = 0\<rparr>,
                 \<lparr>Interval = 5, ElapsedTime = real (n mod 50) / 10, TimerId = 1, AlignToWallClock = False, NextWallClockFireTime = 0\<rparr>, t]"
    using assms(1) by (auto simp: loop_state_def)
  have delta: "exact (real (Suc n) / 10 - LastUpdateTime m) = 1 / 10" by (simp add: exact_def t(3) field_simps)
  obtain f t1 where u: "TimerUpdate exact (clock 2) (1 / 10) t = (f, t1)" by force
  have f: "f \<longleftrightarrow> prev div 3600 < clock 2 div 3600" "on_time 3600 (clock 2) t1" "TimerId t1 = 2"
    using TimerUpdate_on_time [OF _ t(1) assms(2,3) u] t(1,2) u by (auto simp: TimerUpdate_def on_time_def split: if_splits)
  note e1 = elapsed_step [of 10 n] and e5 = elapsed_step [of 50 n]
  have u1: "TimerUpdate exact c (1 / 10) \<lparr>Interval = 1, ElapsedTime = real (n mod 10) / 10, TimerId = 0, AlignToWallClock = False, NextWallClockFireTime = 0\<rparr>
    = (10 dvd Suc n, \<lparr>Interval = 1, ElapsedTime = real (Suc n mod 10) / 10, TimerId = 0, AlignToWallClock = False, NextWallClockFireTime = 0\<rparr>)" for c
    using e1 by (simp add: TimerUpdate_def Let_def exact_def)
  have u5: "TimerUpdate exact c (1 / 10) \<lparr>Interval = 5, ElapsedTime = real (n mod 50) / 10, TimerId = 1, AlignToWallClock = False, NextWallClockFireTime = 0\<rparr>
    = (50 dvd Suc n, \<lparr>Interval = 5, ElapsedTime = real (Suc n mod 50) / 10, TimerId = 1, AlignToWallClock = False, NextWallClockFireTime = 0\<rparr>)" for c
    using e5 by (simp add: TimerUpdate_def Let_def exact_def)
  have m1: "m1 = m\<lparr>Timers := [\<lparr>Interval = 1, ElapsedTime = real (Suc n mod 10) / 10, TimerId = 0, AlignToWallClock = False, NextWallClockFireTime = 0\<rparr>,
                 \<lparr>Interval = 5, ElapsedTime = real (Suc n mod 50) / 10, TimerId = 1, AlignToWallClock = False, NextWallClockFireTime = 0\<rparr>, t1],
       LastUpdateTime := real (Suc n) / 10\<rparr>"
    "fired = (if 10 dvd Suc n then [0] else []) @ (if 50 dvd Suc n then [1] else []) @ (if f then [2] else [])"
    using assms(4) unfolding UpdateTimers_def delta Let_def t(4) list.map WTimer.simps u1 u5 t(2) u
    by (cases f; cases "10 dvd Suc n"; cases "50 dvd Suc n"; simp add: f(3))+
  show "loop_state (Suc n) (clock 2) m1" unfolding loop_state_def using m1(1) f(2,3) by auto
  show "(0 \<in> set fired \<longleftrightarrow> 10 dvd Suc n) \<and> (1 \<in> set fired \<longleftrightarrow> 50 dvd Suc n) \<and> (2 \<in> set fired \<longleftrightarrow> prev div 3600 < clock 2 div 3600)"
    using m1(2) f(1) by auto
qed

lemma loop_run:
  "loop_state n prev m \<Longrightarrow> steady 3600 prev (map (\<lambda>c. c 2) clocks) \<Longrightarrow>
    map (\<lambda>fired. (0 \<in> set fired, 1 \<in> set fired)) (PeriodicLoop exact (1 / 10) clocks (real n / 10) m)
      = map (\<lambda>j. (10 dvd j, 50 dvd j)) [Suc n..<Suc n + length clocks]
    \<and> map (\<lambda>fired. 2 \<in> set fired) (PeriodicLoop exact (1 / 10) clocks (real n / 10) m) = crossings 3600 prev (map (\<lambda>c. c 2) clocks)"
proof (induction clocks arbitrary: n prev m)
  case (Cons clock clocks)
  obtain fired m1 where u: "UpdateTimers exact clock (real (Suc n) / 10) m = (fired, m1)" by force
  have time: "exact (real n / 10 + 1 / 10) = real (Suc n) / 10" unfolding exact_def by (simp add: field_simps)
  have steady: "prev \<le> clock 2" "clock 2 div 3600 \<le> prev div 3600 + 1" using Cons.prems(2) by simp_all
  have loop: "PeriodicLoop exact (1 / 10) (clock # clocks) (real n / 10) m = fired # PeriodicLoop exact (1 / 10) clocks (real (Suc n) / 10) m1"
    unfolding PeriodicLoop.simps time Let_def u by simp
  have "steady 3600 (clock 2) (map (\<lambda>c. c 2) clocks)" using Cons.prems(2) by simp
  note IH = Cons.IH [OF loop_step(1) [OF Cons.prems(1) steady u] this]
  have j: "Suc n + length (clock # clocks) = Suc (Suc n) + length clocks" by simp
  have upt: "[Suc n..<Suc n + length (clock # clocks)] = Suc n # [Suc (Suc n)..<Suc (Suc n) + length clocks]"
    unfolding j by (rule upt_conv_Cons) simp
  show ?case
    unfolding loop upt list.map crossings.simps conjunct1 [OF IH] conjunct2 [OF IH] using loop_step(2) [OF Cons.prems(1) steady u] by blast
qed simp


lemma short_interval_fails: "0 \<le> r \<Longrightarrow> r < 1 \<Longrightarrow> AddAlignedTimer r now m = None"
proof -
  assume "0 \<le> r" "r < 1"
  then have "trunc_int r = 0" by (simp add: trunc_int_def floor_eq_iff)
  then show ?thesis by (simp add: AddAlignedTimer_def WTimer_new_def)
qed


end
