(* ===== verification/Db_Migrations.thy ===== *)
theory Db_Migrations
  imports Socket_State
begin

text \<open>
  \<^verbatim>\<open>Daemon/Db/DbMigrations.hpp\<close>: bringing the schema of the database up to date. The database and its SQL are a parameter: a
  statement changes a schema of type \<open>'d\<close> or fails, a transaction that is rolled back leaves what was there. Directories and
  files are arguments. The table of applied versions is a list of rows, its version the primary key.
\<close>

section \<open>Model\<close>

record 'd migration_db =
  Schema :: 'd
  MigrationTable :: "(int \<times> int) list"

type_synonym 'd sql = "string \<Rightarrow> 'd \<Rightarrow> 'd option"

definition blank :: "char \<Rightarrow> bool" where
  "blank c \<longleftrightarrow> c = CHR '' '' \<or> c = CHR 0x09 \<or> c = CHR 0x0D \<or> c = CHR 0x0A"

text \<open>The pieces that \<^verbatim>\<open>std::getline\<close> reads up to a delimiter; nothing follows a delimiter at the end.\<close>

function getlines :: "char \<Rightarrow> string \<Rightarrow> string list" where
  "getlines d s =
     (if s = [] then []
      else takeWhile (\<lambda>c. c \<noteq> d) s # getlines d (drop (length (takeWhile (\<lambda>c. c \<noteq> d) s) + 1) s))"
  by pat_completeness auto
termination
  by (relation "measure (\<lambda>(d, s). length s)") auto

declare getlines.simps [simp del]

definition statements :: "string \<Rightarrow> string list" where
  "statements Sql = filter (\<lambda>s. s \<noteq> []) (map (dropWhile blank) (getlines (CHR '';'') Sql))"

text \<open>\<open>None\<close> is an exception of the database.\<close>

fun execute_all :: "'d sql \<Rightarrow> string list \<Rightarrow> 'd \<Rightarrow> 'd option" where
  "execute_all R [] db = Some db"
| "execute_all R (s # ss) db = (case R s db of None \<Rightarrow> None | Some db1 \<Rightarrow> execute_all R ss db1)"

definition ExecuteStatements :: "'d sql \<Rightarrow> string \<Rightarrow> 'd \<Rightarrow> 'd option" where
  "ExecuteStatements R Sql db = execute_all R (statements Sql) db"

record dir_entry =
  FileName :: string
  IsRegular :: bool

text \<open>The version of a file name; the outer \<open>None\<close> is the exception of \<^verbatim>\<open>stoll\<close> for a number that does not fit.\<close>

definition entry_version :: "bool \<Rightarrow> dir_entry \<Rightarrow> int option option" where
  "entry_version Sqlite e =
     (let FName = FileName e; ds = takeWhile (is_digit 10) FName in
      if \<not> IsRegular e \<or> \<not> EndsWith FName ''.sql'' \<or> (EndsWith FName ''.sqlite.sql'' \<and> \<not> Sqlite) \<or> ds = [] then Some None
      else if digits_value 10 ds \<ge> 2 ^ 63 then None
      else Some (Some (int (digits_value 10 ds))))"

fun dir_migrations :: "bool \<Rightarrow> string \<Rightarrow> dir_entry list \<Rightarrow> (int \<times> string) list option" where
  "dir_migrations Sqlite Dir [] = Some []"
| "dir_migrations Sqlite Dir (e # es) =
     (case entry_version Sqlite e of
        None \<Rightarrow> None
      | Some v \<Rightarrow> map_option (\<lambda>ms. case v of None \<Rightarrow> ms | Some n \<Rightarrow> (n, Dir @ ''/'' @ FileName e) # ms) (dir_migrations Sqlite Dir es))"

text \<open>The first directory that has applicable files is used.\<close>

fun find_in :: "bool \<Rightarrow> (string \<Rightarrow> dir_entry list option) \<Rightarrow> string list \<Rightarrow> (int \<times> string) list option" where
  "find_in Sqlite dirs [] = Some []"
| "find_in Sqlite dirs (Dir # Dirs) =
     (case dirs Dir of
        None \<Rightarrow> find_in Sqlite dirs Dirs
      | Some es \<Rightarrow> (case dir_migrations Sqlite Dir es of
            None \<Rightarrow> None
          | Some ms \<Rightarrow> if ms = [] then find_in Sqlite dirs Dirs else Some ms))"

definition FindMigrations :: "bool \<Rightarrow> (string \<Rightarrow> dir_entry list option) \<Rightarrow> (int \<times> string) list option" where
  "FindMigrations Sqlite dirs = find_in Sqlite dirs [''./migrations'', ''/usr/share/waechter/migrations'']"

definition CurrentVersion :: "'d migration_db \<Rightarrow> int" where
  "CurrentVersion db = (if MigrationTable db = [] then - 1 else Max (fst ` set (MigrationTable db)))"

text \<open>The row of the version; the primary key refuses a second one.\<close>

definition record_version :: "int \<Rightarrow> int \<Rightarrow> 'd migration_db \<Rightarrow> 'd migration_db option" where
  "record_version Version Now0 db =
     (if Version \<in> fst ` set (MigrationTable db) then None
      else Some (db\<lparr>MigrationTable := MigrationTable db @ [(Version, Now0)]\<rparr>))"

text \<open>One migration in its transaction. A file that cannot be opened is reported, and read as empty.\<close>

definition apply_migration :: "'d sql \<Rightarrow> (string \<Rightarrow> string option) \<Rightarrow> int \<Rightarrow> int \<times> string \<Rightarrow> 'd migration_db \<Rightarrow> 'd migration_db" where
  "apply_migration R read Now0 m db =
     (let MigrationSql = (case read (snd m) of None \<Rightarrow> [] | Some s \<Rightarrow> s) in
      case ExecuteStatements R MigrationSql (Schema db) of
        None \<Rightarrow> db
      | Some sch \<Rightarrow> (case record_version (fst m) Now0 (db\<lparr>Schema := sch\<rparr>) of None \<Rightarrow> db | Some db1 \<Rightarrow> db1))"

definition pending :: "int \<Rightarrow> (int \<times> string) list \<Rightarrow> (int \<times> string) list" where
  "pending Current Migrations = filter (\<lambda>m. Current < fst m) (sort_key fst Migrations)"

definition Apply :: "'d sql \<Rightarrow> bool \<Rightarrow> (string \<Rightarrow> dir_entry list option) \<Rightarrow> (string \<Rightarrow> string option) \<Rightarrow> int \<Rightarrow> 'd migration_db \<Rightarrow> 'd migration_db option" where
  "Apply R Sqlite dirs read Now0 db =
     (case FindMigrations Sqlite dirs of
        None \<Rightarrow> None
      | Some Migrations \<Rightarrow> Some (fold (apply_migration R read Now0) (pending (CurrentVersion db) Migrations) db))"

section \<open>What a run does\<close>

lemma pending_versions: "m \<in> set (pending c ms) \<longleftrightarrow> m \<in> set ms \<and> c < fst m"
  by (auto simp: pending_def)

lemma pending_sorted: "sorted (map fst (pending c ms))"
  by (simp add: pending_def sorted_filter)

lemma pending_distinct: "distinct (map fst ms) \<Longrightarrow> distinct (map fst (pending c ms))"
proof -
  assume "distinct (map fst ms)"
  then have "distinct (map fst (sort_key fst ms))"
    by (metis distinct_map distinct_sort set_sort)
  then show ?thesis by (simp add: pending_def distinct_map_filter)
qed

lemma CurrentVersion_upper: "(v, t) \<in> set (MigrationTable db) \<Longrightarrow> v \<le> CurrentVersion db"
  unfolding CurrentVersion_def by (auto intro!: Max_ge image_eqI [of v fst "(v, t)"])

text \<open>Whether a migration works, on the database it is run on.\<close>

definition works :: "'d sql \<Rightarrow> (string \<Rightarrow> string option) \<Rightarrow> int \<times> string \<Rightarrow> 'd \<Rightarrow> bool" where
  "works R read m sch \<longleftrightarrow> ExecuteStatements R (case read (snd m) of None \<Rightarrow> [] | Some s \<Rightarrow> s) sch \<noteq> None"

definition migrated :: "'d sql \<Rightarrow> (string \<Rightarrow> string option) \<Rightarrow> int \<times> string \<Rightarrow> 'd \<Rightarrow> 'd" where
  "migrated R read m sch = (case ExecuteStatements R (case read (snd m) of None \<Rightarrow> [] | Some s \<Rightarrow> s) sch of None \<Rightarrow> sch | Some s \<Rightarrow> s)"

text \<open>The migrations that took effect, for schemas that change on the way.\<close>

fun effective :: "'d sql \<Rightarrow> (string \<Rightarrow> string option) \<Rightarrow> (int \<times> string) list \<Rightarrow> 'd \<Rightarrow> int list" where
  "effective R read [] sch = []"
| "effective R read (m # ms) sch = (if works R read m sch then fst m # effective R read ms (migrated R read m sch) else effective R read ms sch)"

lemma apply_migration_cases:
  assumes "fst m \<notin> fst ` set (MigrationTable db)"
  shows "apply_migration R read now m db = (if works R read m (Schema db)
    then \<lparr>Schema = migrated R read m (Schema db), MigrationTable = MigrationTable db @ [(fst m, now)]\<rparr> else db)"
  using assms by (cases db) (auto simp: apply_migration_def works_def migrated_def record_version_def Let_def split: option.splits)

lemma fold_apply:
  "distinct (map fst ms) \<Longrightarrow> fst ` set ms \<inter> fst ` set (MigrationTable db) = {} \<Longrightarrow>
    fold (apply_migration R read now) ms db =
      \<lparr>Schema = fold (migrated R read) ms (Schema db), MigrationTable = MigrationTable db @ map (\<lambda>v. (v, now)) (effective R read ms (Schema db))\<rparr>"
proof (induction ms arbitrary: db)
  case (Cons m ms)
  have new: "fst m \<notin> fst ` set (MigrationTable db)" using Cons.prems(2) by auto
  note step = apply_migration_cases [OF new, of R read now]
  show ?case
  proof (cases "works R read m (Schema db)")
    case True
    have "fst ` set ms \<inter> fst ` set (MigrationTable (apply_migration R read now m db)) = {}"
      using Cons.prems True step by (auto simp: image_iff)
    then show ?thesis using Cons.IH [of "apply_migration R read now m db"] Cons.prems(1) True step by simp
  next
    case False
    then have "migrated R read m (Schema db) = Schema db" by (simp add: works_def migrated_def)
    then show ?thesis using Cons.IH [of db] Cons.prems False step by (auto simp: image_iff)
  qed
qed simp

lemma effective_subset: "set (effective R read ms sch) \<subseteq> fst ` set ms"
  by (induction ms arbitrary: sch) auto

lemma Apply_runs:
  assumes "FindMigrations Sqlite dirs = Some ms" "distinct (map fst ms)"
  shows "Apply R Sqlite dirs read now db = Some \<lparr>Schema = fold (migrated R read) (pending (CurrentVersion db) ms) (Schema db),
    MigrationTable = MigrationTable db @ map (\<lambda>v. (v, now)) (effective R read (pending (CurrentVersion db) ms) (Schema db))\<rparr>"
proof -
  have "fst ` set (pending (CurrentVersion db) ms) \<inter> fst ` set (MigrationTable db) = {}"
    using CurrentVersion_upper [of _ _ db] by (force simp: pending_versions)
  then show ?thesis using assms fold_apply [OF pending_distinct [OF assms(2)]] by (simp add: Apply_def)
qed

lemma effective_all:
  assumes "\<forall>ms1 m ms2. ms = ms1 @ m # ms2 \<longrightarrow> works R read m (fold (migrated R read) ms1 sch)"
  shows "effective R read ms sch = map fst ms"
  using assms
proof (induction ms arbitrary: sch)
  case (Cons m ms)
  have w: "works R read m sch" using Cons.prems [rule_format, of "[]" m ms] by simp
  have "works R read m' (fold (migrated R read) ms1 (migrated R read m sch))" if "ms = ms1 @ m' # ms2" for ms1 m' ms2
    using Cons.prems [rule_format, of "m # ms1" m' ms2] that by simp
  then have "effective R read ms (migrated R read m sch) = map fst ms" by (intro Cons.IH) blast
  then show ?case using w by simp
qed simp

lemma CurrentVersion_append:
  "CurrentVersion \<lparr>Schema = sch, MigrationTable = T @ map (\<lambda>v. (v, now)) vs\<rparr> = (if T = [] \<and> vs = [] then - 1 else Max (fst ` set T \<union> set vs))"
  by (simp add: CurrentVersion_def image_Un image_image)


lemma versions_run:
  assumes "FindMigrations Sqlite dirs = Some ms" "distinct (map fst ms)" "Apply R Sqlite dirs read now db = Some db1"
  shows "fst ` set (MigrationTable db1) = fst ` set (MigrationTable db) \<union> set (effective R read (pending (CurrentVersion db) ms) (Schema db))"
  using Apply_runs [OF assms(1,2), of R read now db] assms(3) by (auto simp: image_Un image_image)

lemma CurrentVersion_mono: "v \<in> fst ` set (MigrationTable db) \<Longrightarrow> v \<le> CurrentVersion db"
  using CurrentVersion_upper by force

lemma effective_append: "effective R read (xs @ ys) sch = effective R read xs sch @ effective R read ys (fold (migrated R read) xs sch)"
proof (induction xs arbitrary: sch)
  case (Cons m xs)
  have "\<not> works R read m sch \<Longrightarrow> migrated R read m sch = sch" by (simp add: works_def migrated_def)
  then show ?case using Cons by simp
qed simp

text \<open>C30. When every migration works, a run applies exactly the files with a version above the last applied one, each once and in
  the order of their versions, and another run changes nothing.\<close>

theorem migrations_applied_once:
  assumes "FindMigrations Sqlite dirs = Some ms" and "distinct (map fst ms)"
    and "\<forall>ms1 m ms2. pending (CurrentVersion db) ms = ms1 @ m # ms2 \<longrightarrow> works R read m (fold (migrated R read) ms1 (Schema db))"
    and "Apply R Sqlite dirs read now db = Some db1"
  shows "MigrationTable db1 = MigrationTable db @ map (\<lambda>m. (fst m, now)) (pending (CurrentVersion db) ms)
    \<and> Schema db1 = fold (migrated R read) (pending (CurrentVersion db) ms) (Schema db)
    \<and> sorted (map fst (pending (CurrentVersion db) ms)) \<and> set (pending (CurrentVersion db) ms) = {m \<in> set ms. CurrentVersion db < fst m}
    \<and> Apply R Sqlite dirs read now2 db1 = Some db1"
proof -
  note eff = effective_all [OF assms(3)]
  have db1: "db1 = \<lparr>Schema = fold (migrated R read) (pending (CurrentVersion db) ms) (Schema db),
      MigrationTable = MigrationTable db @ map (\<lambda>m. (fst m, now)) (pending (CurrentVersion db) ms)\<rparr>"
    using Apply_runs [OF assms(1,2), of R read now db] assms(4) eff by (simp add: comp_def)
  have "fst m \<le> CurrentVersion db1" if "m \<in> set ms" for m
  proof (cases "CurrentVersion db < fst m")
    case True
    then have "fst m \<in> fst ` set (MigrationTable db1)" using that db1 pending_versions [of m] by (auto simp: image_Un image_image)
    then show ?thesis by (rule CurrentVersion_mono)
  next
    case False
    show ?thesis
    proof (cases "MigrationTable db = []")
      case True
      then have low: "fst m \<le> - 1" using False by (simp add: CurrentVersion_def)
      show ?thesis
      proof (cases "MigrationTable db1 = []")
        case no: False
        then obtain v w where v: "(v, w) \<in> set (MigrationTable db1)" by (cases "MigrationTable db1") auto
        then have "CurrentVersion db < v" using db1 True by (auto simp: pending_versions)
        then show ?thesis using CurrentVersion_upper [OF v] False by linarith
      qed (use low in \<open>simp add: CurrentVersion_def\<close>)
    next
      case nonempty: False
      then have "CurrentVersion db \<in> fst ` set (MigrationTable db)" unfolding CurrentVersion_def by (simp add: Max_in del: set_map)
      then have "CurrentVersion db \<in> fst ` set (MigrationTable db1)" using db1 by auto
      then show ?thesis using CurrentVersion_mono [of "CurrentVersion db" db1] False by simp
    qed
  qed
  then have "pending (CurrentVersion db1) ms = []" by (auto simp: pending_def filter_empty_conv not_less)
  then have "Apply R Sqlite dirs read now2 db1 = Some db1" using assms(1) by (simp add: Apply_def)
  then show ?thesis using db1 pending_sorted by (auto simp: pending_versions)
qed

text \<open>C31. A migration that fails is rolled back, but the later ones are applied all the same, and since a run starts after the
  highest version it is never tried again, even when its file has been repaired.\<close>

theorem failed_migration_skipped_for_ever:
  assumes "FindMigrations Sqlite dirs = Some ms" and "distinct (map fst ms)"
    and "pending (CurrentVersion db) ms = pre @ m # mid @ m' # post"
    and "\<not> works R read m (fold (migrated R read) pre (Schema db))"
    and "works R read m' (fold (migrated R read) (pre @ m # mid) (Schema db))"
    and "Apply R Sqlite dirs read now db = Some db1" and "Apply R' Sqlite dirs read' now' db1 = Some db2"
  shows "fst m \<notin> fst ` set (MigrationTable db1) \<and> fst m \<notin> fst ` set (MigrationTable db2) \<and> fst m < CurrentVersion db2"
proof -
  let ?p = "pending (CurrentVersion db) ms"
  have dist: "distinct (map fst ?p)" by (rule pending_distinct [OF assms(2)])
  have sorted: "fst m < fst m'" using pending_sorted [of "CurrentVersion db" ms] dist unfolding assms(3) by (auto simp: sorted_append)
  have eff: "effective R read ?p (Schema db) = effective R read pre (Schema db)
      @ effective R read (mid @ m' # post) (fold (migrated R read) pre (Schema db))"
    using assms(4) unfolding assms(3) effective_append [of R read pre "m # mid @ m' # post"] by simp
  have m: "fst m \<notin> set (effective R read ?p (Schema db))"
  proof -
    have "fst m \<notin> fst ` set pre" "fst m \<notin> fst ` set (mid @ m' # post)" using dist unfolding assms(3) by auto
    moreover have "set (effective R read pre (Schema db)) \<subseteq> fst ` set pre" by (rule effective_subset)
    moreover have "set (effective R read (mid @ m' # post) (fold (migrated R read) pre (Schema db))) \<subseteq> fst ` set (mid @ m' # post)" by (rule effective_subset)
    ultimately show ?thesis unfolding eff by auto
  qed
  have same: "migrated R read m (fold (migrated R read) pre (Schema db)) = fold (migrated R read) pre (Schema db)"
    using assms(4) by (simp add: works_def migrated_def)
  have m': "fst m' \<in> set (effective R read ?p (Schema db))" using assms(5) same unfolding eff effective_append [of R read mid "m' # post"] by simp
  have old: "fst m \<notin> fst ` set (MigrationTable db)"
    using CurrentVersion_mono [of "fst m" db] pending_versions [of m "CurrentVersion db" ms] assms(3) by force
  note v1 = versions_run [OF assms(1,2,6)] and v2 = versions_run [OF assms(1,2,7)]
  have 1: "fst m \<notin> fst ` set (MigrationTable db1)" using v1 m old by simp
  have high: "fst m' \<in> fst ` set (MigrationTable db1)" using v1 m' by simp
  then have "fst m < CurrentVersion db1" using CurrentVersion_mono [of "fst m'" db1] sorted by linarith
  moreover have "v \<in> set (effective R' read' (pending (CurrentVersion db1) ms) (Schema db1)) \<Longrightarrow> CurrentVersion db1 < v" for v
    using effective_subset [of R' read' "pending (CurrentVersion db1) ms" "Schema db1"] pending_versions [of _ "CurrentVersion db1" ms] by fastforce
  ultimately have 2: "fst m \<notin> fst ` set (MigrationTable db2)" using v2 1 by (metis Un_iff not_less_iff_gr_or_eq)
  have "fst m' \<in> fst ` set (MigrationTable db2)" using v2 high by simp
  then have "fst m < CurrentVersion db2" using CurrentVersion_mono [of "fst m'" db2] sorted by linarith
  then show ?thesis using 1 2 by simp
qed

text \<open>A file that cannot be opened counts as applied.\<close>

lemma unreadable_migration_recorded:
  assumes "read (snd m) = None" "fst m \<notin> fst ` set (MigrationTable db)"
  shows "apply_migration R read now m db = db\<lparr>MigrationTable := MigrationTable db @ [(fst m, now)]\<rparr>"
proof -
  have "getlines (CHR '';'') [] = []" by (simp add: getlines.simps)
  then show ?thesis using assms by (simp add: apply_migration_def ExecuteStatements_def statements_def record_version_def Let_def)
qed

section \<open>A concrete database\<close>

text \<open>The schema is the list of statements that ran; one that begins with \<open>X\<close> fails.\<close>

definition test_sql :: "string list sql" where
  "test_sql s db = (if hd s = CHR ''X'' then None else Some (db @ [s]))"

definition test_dirs :: "string \<Rightarrow> dir_entry list option" where
  "test_dirs d = (if d = ''./migrations'' then Some [\<lparr>FileName = ''0002_b.sql'', IsRegular = True\<rparr>, \<lparr>FileName = ''0001_a.sqlite.sql'', IsRegular = True\<rparr>,
     \<lparr>FileName = ''readme'', IsRegular = True\<rparr>] else None)"

definition test_files_of :: "string \<Rightarrow> string \<Rightarrow> string option" where
  "test_files_of first f = (if f = ''./migrations/0001_a.sqlite.sql'' then Some first else Some ''B; C;'')"

abbreviation "test_empty_db \<equiv> \<lparr>Schema = [], MigrationTable = []\<rparr> :: string list migration_db"

lemma test_found: "FindMigrations True test_dirs = Some [(2, ''./migrations/0002_b.sql''), (1, ''./migrations/0001_a.sqlite.sql'')]"
proof -
  have "entry_version True \<lparr>FileName = ''0002_b.sql'', IsRegular = True\<rparr> = Some (Some 2)"
    "entry_version True \<lparr>FileName = ''0001_a.sqlite.sql'', IsRegular = True\<rparr> = Some (Some 1)"
    "entry_version True \<lparr>FileName = ''readme'', IsRegular = True\<rparr> = Some None"
    by (simp_all add: entry_version_def EndsWith_def is_digit_def digit_def digits_value_def)
  then show ?thesis by (simp add: FindMigrations_def test_dirs_def)
qed

lemma test_apply: "Apply R True test_dirs read now db = Some (fold (apply_migration R read now) (pending (CurrentVersion db) [(2, ''./migrations/0002_b.sql''), (1, ''./migrations/0001_a.sqlite.sql'')]) db)"
  by (simp add: Apply_def test_found)

lemma test_pending: "pending (CurrentVersion test_empty_db) [(2, ''./migrations/0002_b.sql''), (1, ''./migrations/0001_a.sqlite.sql'')]
    = [(1, ''./migrations/0001_a.sqlite.sql''), (2, ''./migrations/0002_b.sql'')]"
  by (simp add: pending_def CurrentVersion_def)

theorem migrations_applied_once_witness:
  "Apply test_sql True test_dirs (test_files_of ''A'') 7 test_empty_db = Some \<lparr>Schema = [''A'', ''B'', ''C''], MigrationTable = [(1, 7), (2, 7)]\<rparr>
    \<and> Apply test_sql True test_dirs (test_files_of ''A'') 8 \<lparr>Schema = [''A'', ''B'', ''C''], MigrationTable = [(1, 7), (2, 7)]\<rparr>
        = Some \<lparr>Schema = [''A'', ''B'', ''C''], MigrationTable = [(1, 7), (2, 7)]\<rparr>"
proof -
  let ?ms = "[(2 :: int, ''./migrations/0002_b.sql''), (1, ''./migrations/0001_a.sqlite.sql'')]"
  let ?db1 = "\<lparr>Schema = [''A'', ''B'', ''C''], MigrationTable = [(1 :: int, 7 :: int), (2, 7)]\<rparr>"
  have run: "Apply test_sql True test_dirs (test_files_of ''A'') 7 test_empty_db = Some ?db1"
    unfolding test_apply test_pending by code_simp
  have w: "works test_sql (test_files_of ''A'') (1, ''./migrations/0001_a.sqlite.sql'') []" "works test_sql (test_files_of ''A'') (2, ''./migrations/0002_b.sql'') [''A'']"
    "migrated test_sql (test_files_of ''A'') (1, ''./migrations/0001_a.sqlite.sql'') [] = [''A'']"
    by code_simp+
  have "\<forall>ms1 m ms2. pending (CurrentVersion test_empty_db) ?ms = ms1 @ m # ms2 \<longrightarrow>
      works test_sql (test_files_of ''A'') m (fold (migrated test_sql (test_files_of ''A'')) ms1 (Schema test_empty_db))"
    unfolding test_pending using w by (auto simp: Cons_eq_append_conv)
  note w = migrations_applied_once [OF test_found _ this run, of 8]
  have "Apply test_sql True test_dirs (test_files_of ''A'') 8 ?db1 = Some ?db1" by (intro w [THEN conjunct2, THEN conjunct2, THEN conjunct2, THEN conjunct2]) simp
  then show ?thesis using run by blast
qed

theorem failed_migration_skipped_for_ever_witness:
  "1 \<notin> fst ` set (MigrationTable (the (Apply test_sql True test_dirs (test_files_of ''A'') 8 (the (Apply test_sql True test_dirs (test_files_of ''X'') 7 test_empty_db)))))"
proof -
  let ?m = "(1 :: int, ''./migrations/0001_a.sqlite.sql'')" and ?m' = "(2 :: int, ''./migrations/0002_b.sql'')"
  have run: "Apply test_sql True test_dirs (test_files_of ''X'') 7 test_empty_db = Some \<lparr>Schema = [''B'', ''C''], MigrationTable = [(2, 7)]\<rparr>"
    "Apply test_sql True test_dirs (test_files_of ''A'') 8 \<lparr>Schema = [''B'', ''C''], MigrationTable = [(2, 7)]\<rparr> = Some \<lparr>Schema = [''B'', ''C''], MigrationTable = [(2, 7)]\<rparr>"
    unfolding test_apply test_pending by code_simp (simp add: pending_def CurrentVersion_def)
  have w: "\<not> works test_sql (test_files_of ''X'') ?m []" "works test_sql (test_files_of ''X'') ?m' []" "migrated test_sql (test_files_of ''X'') ?m [] = []"
    by code_simp+
  have p: "pending (CurrentVersion test_empty_db) [?m', ?m] = [] @ ?m # [] @ ?m' # []" using test_pending by simp
  from failed_migration_skipped_for_ever [OF test_found _ p _ _ run] w show ?thesis using run by simp
qed

end
