(* ===== verification/Resolver.thy ===== *)
theory Resolver
  imports IP_Address "HOL-Library.Multiset"
begin

text \<open>
  \<^verbatim>\<open>Daemon/Net/Resolver.cpp\<close>: the thread that resolves addresses to host names, with a cache that is bounded by an
  estimate of its memory. What \<^verbatim>\<open>getnameinfo\<close> and \<^verbatim>\<open>inet_ntop\<close> make of an address and the order in which the hash map is walked
  are parameters. A request is its address; finishing its promise is its reply.
\<close>

section \<open>Model\<close>

record resolver_env =
  NameInfo :: "WIPAddress \<Rightarrow> string"
  AddressText :: "WIPAddress \<Rightarrow> string"
  MapOrder :: "(WIPAddress, string) umap \<Rightarrow> (WIPAddress, string) umap"

record WResolver =
  ResolvedAddresses :: "(WIPAddress, string) umap"
  CurrentCacheRamUsage :: u64
  PendingAddresses :: "WIPAddress list"

definition WResolver_init :: WResolver where
  "WResolver_init = \<lparr>ResolvedAddresses = [], CurrentCacheRamUsage = 0, PendingAddresses = []\<rparr>"

abbreviation MaxCacheRamUsage :: u64 where "MaxCacheRamUsage \<equiv> 1048576"

text \<open>\<^verbatim>\<open>sizeof(WIPAddress) + strlen(Host) + 1 + sizeof(std::string)\<close>.\<close>

definition entry_size :: "string \<Rightarrow> nat" where
  "entry_size Host = 17 + length Host + 1 + 32"

text \<open>The buffer after the call: empty when there is no name or the family is unknown.\<close>

definition HostOf :: "resolver_env \<Rightarrow> WIPAddress \<Rightarrow> string" where
  "HostOf E A = (if Family A = IPv6 \<or> Family A = IPv4 then NameInfo E A else [])"

fun drop_entries :: "(WIPAddress, string) umap \<Rightarrow> u64 \<Rightarrow> (WIPAddress, string) umap \<times> u64" where
  "drop_entries [] usage = ([], usage)"
| "drop_entries ((A, h) # xs) usage =
     (if usage > MaxCacheRamUsage div 2 then drop_entries xs (usage - of_nat (entry_size h)) else ((A, h) # xs, usage))"

definition ResolveOne :: "resolver_env \<Rightarrow> WIPAddress \<Rightarrow> WResolver \<Rightarrow> string \<times> WResolver" where
  "ResolveOne E A s =
     (let Host = HostOf E A;
          usage = CurrentCacheRamUsage s + of_nat (entry_size Host);
          (cache, usage1) = (if usage > MaxCacheRamUsage then drop_entries (MapOrder E (ResolvedAddresses s)) usage else (ResolvedAddresses s, usage));
          Name = (if Host = AddressText E A then [] else Host)
      in (Name, s\<lparr>ResolvedAddresses := AList.update A Name cache, CurrentCacheRamUsage := usage1\<rparr>))"

text \<open>One turn of the thread: the request, whether it was looked up, and its reply.\<close>

definition ResolverTurn :: "resolver_env \<Rightarrow> WResolver \<Rightarrow> (WIPAddress \<times> bool \<times> string) option \<times> WResolver" where
  "ResolverTurn E s =
     (case PendingAddresses s of
        [] \<Rightarrow> (None, s)
      | A # q \<Rightarrow>
          let s1 = s\<lparr>PendingAddresses := q\<rparr> in
          if IsZero A then (Some (A, False, []), s1)
          else case map_of (ResolvedAddresses s1) A of
              Some h \<Rightarrow> (Some (A, False, h), s1)
            | None \<Rightarrow> let (r, s2) = ResolveOne E A s1 in (Some (A, True, r), s2))"

definition Resolve :: "WIPAddress \<Rightarrow> WResolver \<Rightarrow> WResolver" where
  "Resolve A s = s\<lparr>PendingAddresses := PendingAddresses s @ [A]\<rparr>"

text \<open>Requests and turns in any order, with what was replied.\<close>

datatype resolver_op = Request WIPAddress | Turn

fun resolver_run :: "resolver_env \<Rightarrow> resolver_op list \<Rightarrow> WResolver \<Rightarrow> (WIPAddress \<times> bool \<times> string) list \<times> WResolver" where
  "resolver_run E [] s = ([], s)"
| "resolver_run E (Request A # ops) s = resolver_run E ops (Resolve A s)"
| "resolver_run E (Turn # ops) s =
     (let (r, s1) = ResolverTurn E s; (rs, s2) = resolver_run E ops s1 in ((case r of None \<Rightarrow> rs | Some x \<Rightarrow> x # rs), s2))"

section \<open>Replies and the estimate\<close>

definition answer :: "resolver_env \<Rightarrow> WIPAddress \<Rightarrow> string" where
  "answer E A = (if IsZero A \<or> HostOf E A = AddressText E A then [] else HostOf E A)"

text \<open>What a lookup adds to the estimate beyond the entry that it stores.\<close>

definition leak :: "resolver_env \<Rightarrow> WIPAddress \<Rightarrow> nat" where
  "leak E A = (if HostOf E A = AddressText E A then length (HostOf E A) else 0)"

fun requested :: "resolver_op list \<Rightarrow> WIPAddress list" where
  "requested [] = []"
| "requested (Request A # ops) = A # requested ops"
| "requested (Turn # ops) = requested ops"

definition looked_up :: "(WIPAddress \<times> bool \<times> string) list \<Rightarrow> WIPAddress list" where
  "looked_up rs = map fst (filter (fst \<circ> snd) rs)"

definition replies :: "(WIPAddress \<times> bool \<times> string) list \<Rightarrow> (WIPAddress \<times> string) list" where
  "replies rs = map (\<lambda>(A, _, h). (A, h)) rs"

definition cache_ok :: "resolver_env \<Rightarrow> WResolver \<Rightarrow> bool" where
  "cache_ok E s \<longleftrightarrow> (\<forall>(A, h) \<in> set (ResolvedAddresses s). \<not> IsZero A \<and> h = answer E A)"

definition same_entries :: "resolver_env \<Rightarrow> bool" where
  "same_entries E \<longleftrightarrow> (\<forall>c. mset (MapOrder E c) = mset c)"

definition entries_size :: "(WIPAddress, string) umap \<Rightarrow> nat" where
  "entries_size c = sum_list (map (entry_size \<circ> snd) c)"

lemma entries_size_simps [simp]:
  "entries_size [] = 0" "entries_size (x # c) = entry_size (snd x) + entries_size c" "entries_size (c @ d) = entries_size c + entries_size d"
  by (simp_all add: entries_size_def)

lemma entries_size_mset: "mset c = mset d \<Longrightarrow> entries_size c = entries_size d"
  unfolding entries_size_def by (metis mset_map sum_mset_sum_list)

lemma drop_entries_size: "snd (drop_entries c u) + of_nat (entries_size c) = u + of_nat (entries_size (fst (drop_entries c u)))"
  by (induction c u rule: drop_entries.induct) (simp_all add: algebra_simps)

lemma drop_entries_subset: "set (fst (drop_entries c u)) \<subseteq> set c"
  by (induction c u rule: drop_entries.induct) auto

lemma resolver_update_fresh: "k \<notin> fst ` set c \<Longrightarrow> AList.update k v c = c @ [(k, v)]"
  by (induction c) auto

text \<open>A lookup replies with the answer, keeps the cache right, and moves the estimate as the cache, but for the leak.\<close>

lemma ResolveOne_step:
  assumes "same_entries E" "cache_ok E s" "\<not> IsZero A" "A \<notin> fst ` set (ResolvedAddresses s)" "ResolveOne E A s = (r, s1)"
  shows "r = answer E A \<and> cache_ok E s1 \<and> PendingAddresses s1 = PendingAddresses s
    \<and> CurrentCacheRamUsage s1 + of_nat (entries_size (ResolvedAddresses s))
      = CurrentCacheRamUsage s + of_nat (entries_size (ResolvedAddresses s1)) + of_nat (leak E A)"
proof -
  let ?Host = "HostOf E A" and ?c = "ResolvedAddresses s"
  let ?u = "CurrentCacheRamUsage s + of_nat (entry_size ?Host)"
  obtain c1 u1 where drop: "(if ?u > MaxCacheRamUsage then drop_entries (MapOrder E ?c) ?u else (?c, ?u)) = (c1, u1)" by fastforce
  have order: "mset (MapOrder E ?c) = mset ?c" using assms(1) by (simp add: same_entries_def)
  then have sets: "set (MapOrder E ?c) = set ?c" by (rule mset_eq_setD)
  have sub: "set c1 \<subseteq> set ?c"
  proof (cases "?u > MaxCacheRamUsage")
    case True
    then show ?thesis using drop drop_entries_subset [of "MapOrder E ?c" ?u] sets by simp
  qed (use drop in simp)
  have size: "u1 + of_nat (entries_size ?c) = ?u + of_nat (entries_size c1)"
  proof (cases "?u > MaxCacheRamUsage")
    case True
    then show ?thesis using drop drop_entries_size [of "MapOrder E ?c" ?u] entries_size_mset [OF order] by simp
  qed (use drop in simp)
  have fresh: "A \<notin> fst ` set c1" using sub assms(4) by auto
  have ans: "answer E A = (if ?Host = AddressText E A then [] else ?Host)" using assms(3) by (simp add: answer_def)
  have run: "ResolveOne E A s = (answer E A, s\<lparr>ResolvedAddresses := c1 @ [(A, answer E A)], CurrentCacheRamUsage := u1\<rparr>)"
    unfolding ResolveOne_def Let_def drop by (simp add: ans resolver_update_fresh [OF fresh])
  have leak: "entry_size (answer E A) + leak E A = entry_size ?Host" by (simp add: ans leak_def entry_size_def)
  have eq: "u1 + of_nat (entries_size ?c) = CurrentCacheRamUsage s + (of_nat (entries_size c1) + of_nat (entry_size (answer E A)) + of_nat (leak E A))"
    unfolding size leak [symmetric] by simp
  then show ?thesis using assms(2,3,5) sub unfolding run by (auto simp: cache_ok_def)
qed

text \<open>One turn takes the first request and replies to it.\<close>

definition turn_ok :: "resolver_env \<Rightarrow> WResolver \<Rightarrow> (WIPAddress \<times> bool \<times> string) list \<Rightarrow> WResolver \<Rightarrow> bool" where
  "turn_ok E s rs s1 \<longleftrightarrow> cache_ok E s1 \<and> replies rs @ map (\<lambda>A. (A, answer E A)) (PendingAddresses s1) = map (\<lambda>A. (A, answer E A)) (PendingAddresses s)
    \<and> CurrentCacheRamUsage s1 + of_nat (entries_size (ResolvedAddresses s))
      = CurrentCacheRamUsage s + of_nat (entries_size (ResolvedAddresses s1)) + of_nat (sum_list (map (leak E) (looked_up rs)))"

lemma ResolverTurn_step:
  assumes "same_entries E" "cache_ok E s" "ResolverTurn E s = (r, s1)"
  shows "turn_ok E s (case r of None \<Rightarrow> [] | Some x \<Rightarrow> [x]) s1"
proof (cases "PendingAddresses s")
  case Nil
  then show ?thesis using assms(2,3) by (auto simp: ResolverTurn_def turn_ok_def replies_def looked_up_def)
next
  case (Cons A q)
  let ?s = "s\<lparr>PendingAddresses := q\<rparr>"
  show ?thesis
  proof (cases "IsZero A \<or> map_of (ResolvedAddresses s) A \<noteq> None")
    case True
    have "map_of (ResolvedAddresses s) A = Some h \<Longrightarrow> h = answer E A" for h
      using assms(2) unfolding cache_ok_def by (blast dest: map_of_SomeD)
    moreover have "IsZero A \<Longrightarrow> answer E A = []" by (simp add: answer_def)
    ultimately have "r = Some (A, False, answer E A)" "s1 = ?s"
      using assms(3) Cons True by (auto simp: ResolverTurn_def Let_def split: if_splits)
    then show ?thesis using assms(2) Cons by (simp add: turn_ok_def replies_def looked_up_def cache_ok_def)
  next
    case False
    obtain h s2 where one: "ResolveOne E A ?s = (h, s2)" by fastforce
    have "A \<notin> fst ` set (ResolvedAddresses ?s)" using False by (auto simp: map_of_eq_None_iff)
    note step = ResolveOne_step [OF assms(1) _ _ this one]
    have "cache_ok E ?s" using assms(2) by (simp add: cache_ok_def)
    with step False have step: "h = answer E A \<and> cache_ok E s2 \<and> PendingAddresses s2 = q
      \<and> CurrentCacheRamUsage s2 + of_nat (entries_size (ResolvedAddresses s))
        = CurrentCacheRamUsage s + of_nat (entries_size (ResolvedAddresses s2)) + of_nat (leak E A)" by simp
    have "r = Some (A, True, h)" "s1 = s2" using assms(3) Cons False one by (auto simp: ResolverTurn_def)
    then show ?thesis using step Cons by (simp add: turn_ok_def replies_def looked_up_def)
  qed
qed

lemma usage_trans:
  fixes u0 :: u64
  assumes "u1 + a = u0 + b + l" "u2 + b = u1 + c + k"
  shows "u2 + a = u0 + c + (l + k)"
proof -
  have "u1 = u0 + b + l - a" "u2 = u1 + c + k - b" using assms by (simp_all add: eq_diff_eq)
  then show ?thesis by simp
qed

lemma turn_ok_trans:
  assumes "turn_ok E s rs s1" "turn_ok E s1 rs' s2"
  shows "turn_ok E s (rs @ rs') s2"
proof -
  note 1 = assms [unfolded turn_ok_def]
  note use = usage_trans [OF conjunct2 [OF conjunct2 [OF 1(1)]] conjunct2 [OF conjunct2 [OF 1(2)]]]
  have looked: "sum_list (map (leak E) (looked_up (rs @ rs'))) = sum_list (map (leak E) (looked_up rs)) + sum_list (map (leak E) (looked_up rs'))"
    by (simp add: looked_up_def)
  have "replies (rs @ rs') = replies rs @ replies rs'" by (simp add: replies_def)
  then show ?thesis unfolding turn_ok_def looked of_nat_add using 1 use by simp
qed

lemma resolver_run_step:
  assumes "same_entries E" "cache_ok E s" "resolver_run E ops s = (rs, s1)"
  shows "turn_ok E (s\<lparr>PendingAddresses := PendingAddresses s @ requested ops\<rparr>) rs s1"
  using assms
proof (induction E ops s arbitrary: rs s1 rule: resolver_run.induct)
  case (1 E s)
  then show ?case by (auto simp: turn_ok_def replies_def looked_up_def)
next
  case (2 E A ops s)
  then show ?case by (simp add: Resolve_def cache_ok_def)
next
  case (3 E ops s)
  obtain r s2 where turn: "ResolverTurn E s = (r, s2)" by fastforce
  obtain rs2 s3 where run: "resolver_run E ops s2 = (rs2, s3)" by fastforce
  have res: "rs = (case r of None \<Rightarrow> [] | Some x \<Rightarrow> [x]) @ rs2" "s1 = s3" using 3(4) turn run by (auto split: option.splits)
  note step = ResolverTurn_step [OF 3(2,3) turn]
  have "turn_ok E (s2\<lparr>PendingAddresses := PendingAddresses s2 @ requested ops\<rparr>) rs2 s3"
    using 3(1) [OF turn [symmetric] refl] step run 3(2) by (auto simp: turn_ok_def)
  moreover have "turn_ok E (s\<lparr>PendingAddresses := PendingAddresses s @ requested ops\<rparr>) (case r of None \<Rightarrow> [] | Some x \<Rightarrow> [x])
      (s2\<lparr>PendingAddresses := PendingAddresses s2 @ requested ops\<rparr>)"
    using step by (auto simp: turn_ok_def cache_ok_def)
  ultimately show ?case using turn_ok_trans res by fastforce
qed


text \<open>Once the leak is larger than half of the limit, a lookup over the limit empties the whole cache, so every further new address
  does.\<close>

lemma drop_entries_all:
  "unat u = entries_size c + l \<Longrightarrow> 524288 < l \<Longrightarrow> fst (drop_entries c u) = []"
proof (induction c u rule: drop_entries.induct)
  case (2 A h xs usage)
  have big: "524288 < unat usage" using 2(2,3) by simp
  then have over: "usage > MaxCacheRamUsage div 2" by (simp add: word_less_nat_alt)
  have "unat usage < 2 ^ LENGTH(64)" by (rule unsigned_less)
  then have e: "unat (of_nat (entry_size h) :: u64) = entry_size h" using 2(2) by (simp add: unat_of_nat)
  have "unat (usage - of_nat (entry_size h)) = entries_size xs + l"
    using 2(2) e by (subst unat_sub) (simp_all add: word_le_nat_alt)
  then show ?case using 2(1) [OF over _ 2(3)] over by simp
qed simp

lemma leak_empties_cache:
  assumes "same_entries E" "A \<notin> fst ` set (ResolvedAddresses s)"
    and "unat (CurrentCacheRamUsage s) = entries_size (ResolvedAddresses s) + l" "1048576 < l"
    and "unat (CurrentCacheRamUsage s) + entry_size (HostOf E A) < 2 ^ 64"
  shows "\<exists>h. ResolvedAddresses (snd (ResolveOne E A s)) = [(A, h)]"
proof -
  let ?c = "MapOrder E (ResolvedAddresses s)" and ?u = "CurrentCacheRamUsage s + of_nat (entry_size (HostOf E A))"
  have "unat (of_nat (entry_size (HostOf E A)) :: u64) = entry_size (HostOf E A)" using assms(5) by (simp add: unat_of_nat)
  then have u: "unat ?u = unat (CurrentCacheRamUsage s) + entry_size (HostOf E A)"
    unfolding unat_word_ariths using assms(5) by simp
  have "entries_size ?c = entries_size (ResolvedAddresses s)" using assms(1) unfolding same_entries_def by (intro entries_size_mset) blast
  then have empty: "fst (drop_entries ?c ?u) = []"
    using drop_entries_all [of ?u ?c "l + entry_size (HostOf E A)"] u assms(3,4) by simp
  have "?u > MaxCacheRamUsage" using u assms(3,4) by (simp add: word_less_nat_alt)
  then show ?thesis using empty by (cases "drop_entries ?c ?u") (auto simp: ResolveOne_def Let_def)
qed

section \<open>A concrete resolver\<close>

definition test_resolver :: resolver_env where
  "test_resolver = \<lparr>NameInfo = (\<lambda>A. if Bytes A ! 3 = 1 then ''one'' else ''10.0.0.2''), AddressText = (\<lambda>A. if Bytes A ! 3 = 1 then ''10.0.0.1'' else ''10.0.0.2''),
     MapOrder = rev\<rparr>"

definition test_host :: "u8 \<Rightarrow> WIPAddress" where
  "test_host b = \<lparr>Bytes = [10, 0, 0, b] @ replicate 12 0, Family = IPv4\<rparr>"


end
