(* ===== verification/Client_History.thy ===== *)
theory Client_History
  imports Connection_History Client_Tree
begin

text \<open>
  \<^verbatim>\<open>Gui/Windows/ConnectionHistoryWindow.cpp\<close>: the list of connections that a client shows. It is filled when the client
  connects and follows the updates of the daemon. The text of a time is a parameter, and so are the bytes of a message, of type \<open>'b\<close>, with their archive; the application
  of an entry is looked up in the tree of the client (\<open>Client_Tree\<close>). The second half puts the client next to the history of the
  daemon (\<open>Connection_History\<close>): when the two agree, and when they do not.
\<close>

section \<open>The list of a client\<close>

record WConnectionHistoryListItem =
  ListApp :: "addr option"
  ListConnectionId :: WTrafficItemId
  ListEndpoint :: WEndpoint
  ListIn :: WBytes
  ListOut :: WBytes
  ListStart :: string
  ListEnd :: string

type_synonym history_items = "WConnectionHistoryListItem list"
type_synonym time_text = "int \<Rightarrow> string"

definition end_text :: "time_text \<Rightarrow> int \<Rightarrow> string" where
  "end_text fmt t = (if t > 0 then fmt t else ''n/a'')"

definition item_app :: "WTrafficTree \<Rightarrow> WTrafficItemId \<Rightarrow> addr option" where
  "item_app T AppId = (if AppId > 0 then (case GetItemFromId AppId T of Some (AppPtr a) \<Rightarrow> Some a | _ \<Rightarrow> None) else None)"

definition PushNewItem :: "time_text \<Rightarrow> WTrafficTree \<Rightarrow> WNewConnectionHistoryEntry \<Rightarrow> history_items \<Rightarrow> history_items" where
  "PushNewItem fmt T NewEntry HistoryItems =
     (let ListItem = \<lparr>ListApp = item_app T (NewAppId NewEntry), ListConnectionId = NewConnectionId NewEntry,
            ListEndpoint = NewRemoteEndpoint NewEntry, ListIn = NewIn NewEntry, ListOut = NewOut NewEntry,
            ListStart = fmt (NewStart NewEntry), ListEnd = end_text fmt (NewEnd NewEntry)\<rparr>;
          Items = HistoryItems @ [ListItem]
      in if length Items > kMaxHistorySize then tl Items else Items)"

definition Initialize :: "time_text \<Rightarrow> WTrafficTree \<Rightarrow> ('b \<Rightarrow> WConnectionHistoryUpdate option) \<Rightarrow> 'b \<Rightarrow> history_items" where
  "Initialize fmt T decode Buf =
     (case decode Buf of None \<Rightarrow> [] | Some U \<Rightarrow> fold (PushNewItem fmt T) (NewEntries U) [])"

definition apply_change :: "time_text \<Rightarrow> (WTrafficItemId, WConnectionHistoryChange) umap \<Rightarrow> WConnectionHistoryListItem \<Rightarrow> WConnectionHistoryListItem" where
  "apply_change fmt cs Item =
     (case map_of cs (ListConnectionId Item) of
        None \<Rightarrow> Item
      | Some Change \<Rightarrow> Item\<lparr>ListIn := NewDataIn Change, ListOut := NewDataOut Change,
          ListEnd := (if NewEndTime Change > 0 then fmt (NewEndTime Change) else ListEnd Item)\<rparr>)"

definition HandleUpdate :: "time_text \<Rightarrow> WTrafficTree \<Rightarrow> ('b \<Rightarrow> WConnectionHistoryUpdate option) \<Rightarrow> 'b \<Rightarrow> history_items \<Rightarrow> history_items" where
  "HandleUpdate fmt T decode Buf HistoryItems =
     (case decode Buf of
        None \<Rightarrow> HistoryItems
      | Some U \<Rightarrow> map (apply_change fmt (Changes U)) (fold (PushNewItem fmt T) (NewEntries U) HistoryItems))"

text \<open>The rows of the table: connections with traffic, to a proper remote endpoint.\<close>

definition DrawnItems :: "history_items \<Rightarrow> history_items" where
  "DrawnItems = filter (\<lambda>Item. \<not> (ListIn Item = 0 \<and> ListOut Item = 0)
     \<and> \<not> (IsZero (Address (ListEndpoint Item)) \<or> IsBroadcast (Address (ListEndpoint Item)) \<or> Port (ListEndpoint Item) = 0))"

section \<open>Daemon and client\<close>

text \<open>Signals of the map and turns of the update loop, in any order, each with the system map and the client's tree of its moment. An
  update is sent when it has changes (\<^verbatim>\<open>WDaemon::BroadcastUpdates\<close>).\<close>

datatype history_op = HistoryEvent history_env net_event WSystemMap | HistoryTick WSystemMap WTrafficTree

record 'b history_wire =
  EncodeHistory :: "WConnectionHistoryUpdate \<Rightarrow> 'b"
  DecodeHistory :: "'b \<Rightarrow> WConnectionHistoryUpdate option"
  FormatUnixTime :: time_text

fun mirror_op :: "'b history_wire \<Rightarrow> history_op \<Rightarrow> WConnectionHistory \<times> history_items \<Rightarrow> WConnectionHistory \<times> history_items" where
  "mirror_op W (HistoryEvent env Ev M) (H, items) = (snd (on_network_event env Ev (M, H)), items)"
| "mirror_op W (HistoryTick M T) (H, items) =
     (let (U, H1) = HistoryUpdate M H in
      (H1, if Changes U \<noteq> [] then HandleUpdate (FormatUnixTime W) T (DecodeHistory W) (EncodeHistory W U) items else items))"

definition mirror_run :: "'b history_wire \<Rightarrow> history_op list \<Rightarrow> WConnectionHistory \<times> history_items \<Rightarrow> WConnectionHistory \<times> history_items" where
  "mirror_run W ops = fold (mirror_op W) ops"

fun history_after :: "history_op \<Rightarrow> WConnectionHistory \<Rightarrow> WConnectionHistory" where
  "history_after (HistoryEvent env Ev M) H = snd (on_network_event env Ev (M, H))"
| "history_after (HistoryTick M T) H = snd (HistoryUpdate M H)"

text \<open>No update with new entries is withheld for want of changes.\<close>

fun all_sent :: "history_op list \<Rightarrow> WConnectionHistory \<Rightarrow> bool" where
  "all_sent [] H \<longleftrightarrow> True"
| "all_sent (op # ops) H \<longleftrightarrow>
     (case op of HistoryEvent _ _ _ \<Rightarrow> True
      | HistoryTick M T \<Rightarrow> NewEntries (fst (HistoryUpdate M H)) \<noteq> [] \<longrightarrow> Changes (fst (HistoryUpdate M H)) \<noteq> [])
     \<and> all_sent ops (history_after op H)"

text \<open>What is shown of an entry, apart from its application.\<close>

definition entry_view :: "time_text \<Rightarrow> WConnectionHistoryEntry \<Rightarrow> WTrafficItemId \<times> WEndpoint \<times> WBytes \<times> WBytes \<times> string \<times> string" where
  "entry_view fmt e = (ConnectionId e, EntryEndpoint e, DataIn e, DataOut e, fmt (StartTime e), end_text fmt (EndTime e))"

definition item_view :: "WConnectionHistoryListItem \<Rightarrow> WTrafficItemId \<times> WEndpoint \<times> WBytes \<times> WBytes \<times> string \<times> string" where
  "item_view x = (ListConnectionId x, ListEndpoint x, ListIn x, ListOut x, ListStart x, ListEnd x)"

definition history_view :: "time_text \<Rightarrow> WConnectionHistory \<Rightarrow> (WTrafficItemId \<times> WEndpoint \<times> WBytes \<times> WBytes \<times> string \<times> string) list" where
  "history_view fmt H = map (\<lambda>i. entry_view fmt (EntryHeap H ! i)) (History H)"

definition connection_ids :: "WConnectionHistory \<Rightarrow> WTrafficItemId list" where
  "connection_ids H = map (\<lambda>i. ConnectionId (EntryHeap H ! i)) (History H)"

section \<open>What happens between two updates\<close>

definition entry_grows :: "WConnectionHistoryEntry \<Rightarrow> WConnectionHistoryEntry \<Rightarrow> bool" where
  "entry_grows e e' \<longleftrightarrow> e' = e \<or> (EntryState e = ES_Open \<and> (\<exists>t. e' = e\<lparr>EntryState := ES_Pending_Close, EndTime := t\<rparr>))"

definition heap_grows :: "WConnectionHistory \<Rightarrow> WConnectionHistory \<Rightarrow> bool" where
  "heap_grows H H' \<longleftrightarrow> length (EntryHeap H) \<le> length (EntryHeap H') \<and> (\<forall>i < length (EntryHeap H). entry_grows (EntryHeap H ! i) (EntryHeap H' ! i))"

text \<open>New entries go to the end of the list and are counted, as long as it is not full.\<close>

definition list_grows :: "WConnectionHistory \<Rightarrow> WConnectionHistory \<Rightarrow> bool" where
  "list_grows H H' \<longleftrightarrow> length (History H) \<le> length (History H') \<and> (length (History H') < 512 \<longrightarrow>
     (\<exists>new. History H' = History H @ new \<and> unat (NewItemCounter H') = unat (NewItemCounter H) + length new))"

text \<open>An open entry has no end; an entry that is not open has lost its set.\<close>

definition entry_ok :: "nat \<Rightarrow> addr set \<Rightarrow> WConnectionHistoryEntry \<Rightarrow> bool" where
  "entry_ok n A e \<longleftrightarrow> (EntryState e = ES_Open \<longrightarrow> EndTime e = 0) \<and> EntrySet e < n \<and> (EntryState e \<noteq> ES_Open \<longrightarrow> EntrySet e \<notin> A)"

definition closing_ok :: "WConnectionHistory \<Rightarrow> bool" where
  "closing_ok H \<longleftrightarrow> list_all (entry_ok (length (SetHeap H)) (snd ` set (ActiveConnections H))) (EntryHeap H)"

lemma entry_ok_mono: "entry_ok n A e \<Longrightarrow> n \<le> n' \<Longrightarrow> A' \<subseteq> A \<union> {n..} \<Longrightarrow> entry_ok n' A' e"
  by (auto simp: entry_ok_def)

lemma closing_ok_mono:
  "closing_ok H \<Longrightarrow> length (SetHeap H) \<le> n \<Longrightarrow> A \<subseteq> snd ` set (ActiveConnections H) \<union> {length (SetHeap H)..} \<Longrightarrow> list_all (entry_ok n A) (EntryHeap H)"
  unfolding closing_ok_def by (erule list.pred_mono_strong) (rule entry_ok_mono)

lemma heap_grows_refl: "heap_grows H H"
  by (simp add: heap_grows_def entry_grows_def)

lemma entry_grows_trans: "entry_grows a b \<Longrightarrow> entry_grows b c \<Longrightarrow> entry_grows a c"
  by (auto simp: entry_grows_def)

lemma heap_grows_trans: "heap_grows H H1 \<Longrightarrow> heap_grows H1 H2 \<Longrightarrow> heap_grows H H2"
  unfolding heap_grows_def by (meson entry_grows_trans le_trans less_le_trans)

lemma list_grows_refl: "list_grows H H"
  by (simp add: list_grows_def)

lemma list_grows_trans: "list_grows H H1 \<Longrightarrow> list_grows H1 H2 \<Longrightarrow> list_grows H H2"
  unfolding list_grows_def by (auto simp: le_less_trans)

lemma list_grows_same: "History H' = History H \<Longrightarrow> NewItemCounter H' = NewItemCounter H \<Longrightarrow> list_grows H H'"
  by (simp add: list_grows_def)

lemma entry_grows_keeps:
  "entry_grows e e' \<Longrightarrow> ConnectionId e' = ConnectionId e \<and> EntrySet e' = EntrySet e"
  by (auto simp: entry_grows_def)

lemma alist_update_new: "map_of m k = None \<Longrightarrow> AList.update k v m = m @ [(k, v)]"
  by (induction m) (auto split: if_splits)

lemma track_grows:
  assumes ok: "history_ok H"
  shows "heap_grows H (snd (track env App Key Item M H)) \<and> list_grows H (snd (track env App Key Item M H))"
proof (cases "map_of (ActiveConnections H) Key")
  case (Some k)
  then show ?thesis
    by (auto simp: track_def Some heap_grows_refl list_grows_refl heap_grows_def entry_grows_def intro!: list_grows_same)
next
  case None
  have l: "length (History H) \<le> 512" "unat (NewItemCounter H) \<le> length (History H)"
    using ok by (simp_all add: history_ok_def list_ok_def)
  then have "unat (NewItemCounter H + 1) = unat (NewItemCounter H) + 1"
    by (subst unat_plus_if_size) (simp_all add: word_size)
  then show ?thesis
    using l(1)
    by (auto simp: track_def None Push_def take_id_def Let_def heap_grows_def entry_grows_def list_grows_def nth_append)
qed

lemma track_closing:
  assumes "closing_ok H"
  shows "closing_ok (snd (track env App Key Item M H))"
proof (cases "map_of (ActiveConnections H) Key")
  case (Some k)
  then show ?thesis using assms by (simp add: track_def closing_ok_def)
next
  case None
  have old: "list_all (entry_ok (Suc (length (SetHeap H))) (insert (length (SetHeap H)) (snd ` set (ActiveConnections H)))) (EntryHeap H)"
    by (rule closing_ok_mono [OF assms]) auto
  show ?thesis
    using old unfolding track_def None
    by (simp add: Push_def take_id_def Let_def closing_ok_def alist_update_new [OF None] image_Un entry_ok_def)
qed

text \<open>A set whose last member goes leaves the map, and its entry is about to close.\<close>

lemma untrack_cases:
  assumes "history_ok H" "map_of (ActiveConnections H) Key = Some k"
  obtains (kept) "History (untrack env Key Item M H) = History H" "NewItemCounter (untrack env Key Item M H) = NewItemCounter H"
      "EntryHeap (untrack env Key Item M H) = EntryHeap H" "snd ` set (ActiveConnections (untrack env Key Item M H)) \<subseteq> snd ` set (ActiveConnections H)"
      "length (SetHeap (untrack env Key Item M H)) = length (SetHeap H)"
    | (closed) e where "History (untrack env Key Item M H) = History H" "NewItemCounter (untrack env Key Item M H) = NewItemCounter H"
      "e < length (EntryHeap H)" "EntryState (EntryHeap H ! e) = ES_Open" "EntrySet (EntryHeap H ! e) = k"
      "EntryHeap (untrack env Key Item M H) = (EntryHeap H)[e := (EntryHeap H ! e)\<lparr>EntryState := ES_Pending_Close, EndTime := NowSeconds env\<rparr>]"
      "snd ` set (ActiveConnections (untrack env Key Item M H)) \<subseteq> snd ` set (ActiveConnections H) - {k}"
      "length (SetHeap (untrack env Key Item M H)) = length (SetHeap H)"
proof -
  note d = history_okD [OF assms(1)]
  have k: "set_ok H Key k" by (rule d(3) [OF assms(2)])
  then have kl: "k < length (SetHeap H)" by (simp add: set_ok_def)
  obtain i out where t: "item_totals M Item = (i, out)" by force
  let ?H1 = "upd_set k (\<lambda>s. s\<lparr>BaseDataIn := BaseDataIn s + i, BaseDataOut := BaseDataOut s + out,
     Connections := filter (\<lambda>x. x \<noteq> Item) (Connections s)\<rparr>) H"
  let ?H2 = "?H1\<lparr>ActiveConnections := AList.delete Key (ActiveConnections ?H1)\<rparr>"
  let ?U = "untrack env Key Item M H"
  have U: "?U = (if Connections (SetHeap ?H1 ! k) = [] then HandleEmptySet env k M ?H2 else ?H1)"
    by (simp add: untrack_def assms(2) t Let_def)
  have sub: "set (AList.delete Key (ActiveConnections H)) \<subseteq> set (ActiveConnections H)"
    by (induction "ActiveConnections H") (auto simp: AList.delete_eq)
  have gone: "k \<notin> snd ` set (AList.delete Key (ActiveConnections H))"
  proof
    assume "k \<in> snd ` set (AList.delete Key (ActiveConnections H))"
    then obtain K where "(K, k) \<in> set (AList.delete Key (ActiveConnections H))" by auto
    then have "map_of (AList.delete Key (ActiveConnections H)) K = Some k"
      by (intro map_of_is_SomeI um_distinct_delete d(2))
    then show False using d(4) [of K k Key] assms(2) by (auto split: if_splits)
  qed
  have par: "ParentEntry (SetHeap ?H2 ! k) = ParentEntry (SetHeap H ! k)" using kl by simp
  show thesis
  proof (cases "Connections (SetHeap ?H1 ! k) = []")
    case False
    then have "?U = ?H1" by (simp add: U)
    then show thesis by (intro kept) simp_all
  next
    case True
    then have U: "?U = HandleEmptySet env k M ?H2" by (simp add: U)
    show thesis
    proof (cases "ParentEntry (SetHeap H ! k)")
      case None
      then have "EntryHeap ?U = EntryHeap H" using par by (simp add: U HandleEmptySet_def)
      then show thesis using sub by (intro kept) (auto simp: U)
    next
      case (Some e)
      then have e: "e < length (EntryHeap H)" "EntryState (EntryHeap H ! e) = ES_Open" "EntrySet (EntryHeap H ! e) = k"
        using k by (auto simp: set_ok_def)
      then have "EntryHeap ?U = (EntryHeap H)[e := (EntryHeap H ! e)\<lparr>EntryState := ES_Pending_Close, EndTime := NowSeconds env\<rparr>]"
        using par Some by (simp add: U HandleEmptySet_def WriteToDatabase_def Let_def upd_entry_def upd_set_def)
      moreover have "ActiveConnections ?U = AList.delete Key (ActiveConnections H)" by (simp add: U)
      then have "snd ` set (ActiveConnections ?U) \<subseteq> snd ` set (ActiveConnections H) - {k}" using sub gone by (simp only:) blast
      ultimately show thesis using e by (intro closed [of e]) (simp_all add: U)
    qed
  qed
qed

lemma untrack_grows:
  assumes "history_ok H"
  shows "heap_grows H (untrack env Key Item M H) \<and> list_grows H (untrack env Key Item M H)"
proof (cases "map_of (ActiveConnections H) Key")
  case None
  then show ?thesis by (simp add: untrack_def heap_grows_refl list_grows_refl)
next
  case (Some k)
  then show ?thesis
    by (cases rule: untrack_cases [OF assms Some, of env Item M])
      (auto simp: heap_grows_def entry_grows_def nth_list_update intro!: list_grows_same)
qed

lemma untrack_closing:
  assumes "history_ok H" "closing_ok H"
  shows "closing_ok (untrack env Key Item M H)"
proof (cases "map_of (ActiveConnections H) Key")
  case None
  then show ?thesis using assms(2) by (simp add: untrack_def)
next
  case (Some k)
  let ?U = "untrack env Key Item M H"
  show ?thesis
  proof (cases rule: untrack_cases [OF assms(1) Some, of env Item M, case_names kept closed])
    case kept
    have "list_all (entry_ok (length (SetHeap ?U)) (snd ` set (ActiveConnections ?U))) (EntryHeap H)"
      using kept(4,5) by (intro closing_ok_mono [OF assms(2)]) auto
    then show ?thesis using kept(3) by (simp add: closing_ok_def)
  next
    case (closed e)
    have old: "list_all (entry_ok (length (SetHeap ?U)) (snd ` set (ActiveConnections ?U))) (EntryHeap H)"
      using closed(7,8) by (intro closing_ok_mono [OF assms(2)]) auto
    then have "entry_ok (length (SetHeap ?U)) (snd ` set (ActiveConnections ?U)) (EntryHeap H ! e)"
      using closed(3) by (simp add: list_all_length)
    then have "entry_ok (length (SetHeap ?U)) (snd ` set (ActiveConnections ?U)) ((EntryHeap H ! e)\<lparr>EntryState := ES_Pending_Close, EndTime := NowSeconds env\<rparr>)"
      using closed(5,7) by (auto simp: entry_ok_def)
    then show ?thesis using old unfolding closing_ok_def closed(6) by (auto simp: list_all_iff dest!: set_update_subset_insert [THEN subsetD])
  qed
qed

lemma event_grows:
  assumes "history_ok H" "closing_ok H"
  shows "heap_grows H (snd (on_network_event env Ev (M, H))) \<and> list_grows H (snd (on_network_event env Ev (M, H)))
    \<and> closing_ok (snd (on_network_event env Ev (M, H)))"
proof -
  have fold: "heap_grows H' (fold (\<lambda>(TE, t). untrack env (A, TE) (TupleRef t) M) ts H') \<and> list_grows H' (fold (\<lambda>(TE, t). untrack env (A, TE) (TupleRef t) M) ts H')
      \<and> closing_ok (fold (\<lambda>(TE, t). untrack env (A, TE) (TupleRef t) M) ts H')" if "history_ok H'" "closing_ok H'" for A ts H'
    using that
  proof (induction ts arbitrary: H')
    case (Cons p ts)
    let ?H = "untrack env (A, fst p) (TupleRef (snd p)) M H'"
    have 1: "heap_grows H' ?H" "list_grows H' ?H" "closing_ok ?H" "history_ok ?H"
      using untrack_grows [OF Cons.prems(1)] untrack_closing [OF Cons.prems] history_ok_untrack [OF Cons.prems(1)] by auto
    then show ?case using Cons.IH [OF 1(4,3)] heap_grows_trans list_grows_trans by (auto simp: case_prod_unfold)
  qed (simp add: heap_grows_refl list_grows_refl)
  note one = untrack_grows [OF assms(1)] untrack_closing [OF assms] history_ok_untrack [OF assms(1)]
  show ?thesis
  proof (cases Ev)
    case (EvSocketRemoved s)
    let ?A = "ApplicationPath (app_item M (socket_app M s))"
    let ?H = "untrack env (?A, RemoteEndpoint (SocketTuple (sock_item M s))) (SockRef s) M H"
    have "heap_grows H ?H" "list_grows H ?H" "closing_ok ?H" "history_ok ?H" using one by auto
    note first = this
    note rest = fold [OF first(4,3), of ?A "UDPPerConnectionCounters (SockHeap M ! s)"]
    show ?thesis
      using heap_grows_trans [OF first(1) conjunct1 [OF rest]] list_grows_trans [OF first(2) conjunct1 [OF conjunct2 [OF rest]]] rest
      by (simp add: EvSocketRemoved Connection_History.OnSocketRemoved_def Let_def)
  qed (use assms one track_grows [OF assms(1)] track_closing [OF assms(2)] in
      \<open>auto simp: Connection_History.OnSocketConnected_def OnUDPTupleCreated_def OnUDPTupleRemoved_def Let_def heap_grows_refl list_grows_refl\<close>)
qed
section \<open>What an update does\<close>

lemma EntryUpdate_cong:
  "SetHeap H' = SetHeap H \<Longrightarrow> ActiveConnections H' = ActiveConnections H \<Longrightarrow> EntryUpdate M H' e = EntryUpdate M H e"
  by (simp add: EntryUpdate_def lock_set_def)

lemma EntryUpdate_ok: "entry_ok n A e \<Longrightarrow> entry_ok n A (snd (EntryUpdate M H e))"
  by (auto simp: entry_ok_def EntryUpdate_def close_pending_def Let_def split: option.split)

definition updated :: "WSystemMap \<Rightarrow> WConnectionHistory \<Rightarrow> addr \<Rightarrow> WConnectionHistoryEntry" where
  "updated M H i = snd (EntryUpdate M H (EntryHeap H ! i))"

definition changes :: "WSystemMap \<Rightarrow> WConnectionHistory \<Rightarrow> addr \<Rightarrow> bool" where
  "changes M H i = fst (EntryUpdate M H (EntryHeap H ! i))"

text \<open>The loop over the entries: every one of the list is updated once, and the changes are those of the entries that changed.\<close>

definition update_spec :: "WSystemMap \<Rightarrow> addr list \<Rightarrow> (WTrafficItemId, WConnectionHistoryChange) umap \<Rightarrow> WConnectionHistory \<Rightarrow>
    (WTrafficItemId, WConnectionHistoryChange) umap \<Rightarrow> WConnectionHistory \<Rightarrow> bool" where
  "update_spec M is cs H cs' H' \<longleftrightarrow> SetHeap H' = SetHeap H \<and> ActiveConnections H' = ActiveConnections H \<and> length (EntryHeap H') = length (EntryHeap H)
     \<and> (\<forall>i < length (EntryHeap H). EntryHeap H' ! i = (if i \<in> set is then updated M H i else EntryHeap H ! i))
     \<and> (\<forall>i \<in> set is. map_of cs' (ConnectionId (EntryHeap H ! i)) =
          (if changes M H i then Some (change_of (updated M H i)) else map_of cs (ConnectionId (EntryHeap H ! i))))
     \<and> (\<forall>c. c \<notin> (\<lambda>i. ConnectionId (EntryHeap H ! i)) ` set is \<longrightarrow> map_of cs' c = map_of cs c)"

lemma fold_update_spec:
  assumes "\<forall>i \<in> set is. i < length (EntryHeap H)" "distinct (map (\<lambda>i. ConnectionId (EntryHeap H ! i)) is)"
    "fold (update_entry M) is (cs, H) = (cs', H')"
  shows "update_spec M is cs H cs' H'"
  using assms
proof (induction "is" arbitrary: cs H)
  case (Cons i "is")
  let ?H = "upd_entry i (\<lambda>_. updated M H i) H"
  let ?cs = "if changes M H i then AList.update (ConnectionId (EntryHeap H ! i)) (change_of (updated M H i)) cs else cs"
  have i: "i < length (EntryHeap H)" "i \<notin> set is" using Cons.prems(1,2) by auto
  have keep: "ConnectionId (updated M H i) = ConnectionId (EntryHeap H ! i)" by (simp add: updated_def EntryUpdate_keeps)
  have step: "update_entry M i (cs, H) = (?cs, ?H)"
    using keep by (auto simp: update_entry_def updated_def changes_def Let_def split: prod.splits)
  have nth: "j < length (EntryHeap H) \<Longrightarrow> EntryHeap ?H ! j = (if j = i then updated M H i else EntryHeap H ! j)" for j
    using i(1) by simp
  have others: "j \<in> set is \<Longrightarrow> EntryHeap ?H ! j = EntryHeap H ! j" for j
    using Cons.prems(1) i nth by auto
  then have ids: "map (\<lambda>j. ConnectionId (EntryHeap ?H ! j)) is = map (\<lambda>j. ConnectionId (EntryHeap H ! j)) is" by simp
  have "update_spec M is ?cs ?H cs' H'"
    using Cons.prems step i by (intro Cons.IH) (simp_all only: ids, simp_all)
  note spec = this [unfolded update_spec_def]
  have same: "j \<in> set is \<Longrightarrow> updated M ?H j = updated M H j \<and> changes M ?H j = changes M H j" for j
    using others EntryUpdate_cong [of ?H H M] by (simp add: updated_def changes_def)
  have fresh: "j \<in> set is \<Longrightarrow> ConnectionId (EntryHeap H ! j) \<noteq> ConnectionId (EntryHeap H ! i)" for j
    using Cons.prems(2) by (auto simp: image_iff)
  have img: "(\<lambda>j. ConnectionId (EntryHeap ?H ! j)) ` set is = (\<lambda>j. ConnectionId (EntryHeap H ! j)) ` set is"
    using others by auto
  have heap: "\<forall>j < length (EntryHeap H). EntryHeap H' ! j = (if j \<in> set (i # is) then updated M H j else EntryHeap H ! j)"
  proof (intro allI impI)
    fix j assume j: "j < length (EntryHeap H)"
    have "EntryHeap H' ! j = (if j \<in> set is then updated M ?H j else EntryHeap ?H ! j)" using spec j by simp
    then show "EntryHeap H' ! j = (if j \<in> set (i # is) then updated M H j else EntryHeap H ! j)"
      using nth [OF j] same [of j] i(2) by (cases "j = i"; cases "j \<in> set is") (simp_all del: heap_nth)
  qed
  have new: "map_of cs' (ConnectionId (EntryHeap H ! i)) = map_of ?cs (ConnectionId (EntryHeap H ! i))"
    using spec fresh unfolding img by (metis (no_types, lifting) imageE)
  have old: "map_of cs' (ConnectionId (EntryHeap H ! j)) =
      (if changes M H j then Some (change_of (updated M H j)) else map_of cs (ConnectionId (EntryHeap H ! j)))" if "j \<in> set is" for j
  proof -
    have "map_of ?cs (ConnectionId (EntryHeap H ! j)) = map_of cs (ConnectionId (EntryHeap H ! j))"
      using fresh [OF that] by (simp add: um_map_of_update)
    moreover have "map_of cs' (ConnectionId (EntryHeap ?H ! j)) =
        (if changes M ?H j then Some (change_of (updated M ?H j)) else map_of ?cs (ConnectionId (EntryHeap ?H ! j)))"
      using spec that by blast
    ultimately show ?thesis unfolding others [OF that] conjunct1 [OF same [OF that]] conjunct2 [OF same [OF that]] by presburger
  qed
  have rest: "\<forall>c. c \<notin> (\<lambda>i. ConnectionId (EntryHeap H ! i)) ` set (i # is) \<longrightarrow> map_of cs' c = map_of cs c"
    using spec unfolding img by auto
  show ?case using spec heap new old rest unfolding update_spec_def by auto
qed (simp add: update_spec_def)

section \<open>The client follows\<close>

text \<open>An item shows its entry; the end of an entry that is about to close it has not been told.\<close>

definition item_follows :: "time_text \<Rightarrow> WConnectionHistoryEntry \<Rightarrow> WConnectionHistoryListItem \<Rightarrow> bool" where
  "item_follows fmt e x \<longleftrightarrow> item_view x = entry_view fmt e \<or> (EntryState e = ES_Pending_Close \<and> item_view x = entry_view fmt (e\<lparr>EndTime := 0\<rparr>))"

definition in_sync :: "time_text \<Rightarrow> WConnectionHistory \<Rightarrow> history_items \<Rightarrow> bool" where
  "in_sync fmt H items \<longleftrightarrow>
     list_all2 (\<lambda>i. item_follows fmt (EntryHeap H ! i)) (take (length (History H) - unat (NewItemCounter H)) (History H)) items"

lemma follows_grows:
  "entry_grows e e' \<Longrightarrow> (EntryState e = ES_Open \<Longrightarrow> EndTime e = 0) \<Longrightarrow> item_follows fmt e x \<Longrightarrow> item_follows fmt e' x"
  by (auto simp: entry_grows_def item_follows_def entry_view_def)

lemma grows_in_sync:
  assumes "heap_grows H H'" "list_grows H H'" "closing_ok H" "list_ok H" "length (History H') < 512" "in_sync fmt H items"
  shows "in_sync fmt H' items"
proof -
  obtain new where new: "History H' = History H @ new" "unat (NewItemCounter H') = unat (NewItemCounter H) + length new"
    using assms(2,5) by (auto simp: list_grows_def)
  have same: "take (length (History H') - unat (NewItemCounter H')) (History H') = take (length (History H) - unat (NewItemCounter H)) (History H)"
    using assms(4) new by (simp add: list_ok_def)
  have "item_follows fmt (EntryHeap H' ! i) x" if "i \<in> set (History H)" "item_follows fmt (EntryHeap H ! i) x" for i x
  proof -
    have i: "i < length (EntryHeap H)" using that(1) assms(4) by (simp add: list_ok_def)
    have "entry_ok (length (SetHeap H)) (snd ` set (ActiveConnections H)) (EntryHeap H ! i)"
      using assms(3) i by (simp add: closing_ok_def list_all_length)
    then have "EntryState (EntryHeap H ! i) = ES_Open \<Longrightarrow> EndTime (EntryHeap H ! i) = 0" by (simp add: entry_ok_def)
    moreover have "entry_grows (EntryHeap H ! i) (EntryHeap H' ! i)" using assms(1) i by (simp add: heap_grows_def)
    ultimately show ?thesis using follows_grows that(2) by blast
  qed
  note one = this
  show ?thesis
    unfolding in_sync_def same
  proof (rule list.rel_mono_strong [OF assms(6) [unfolded in_sync_def]])
    fix i x
    assume "i \<in> set (take (length (History H) - unat (NewItemCounter H)) (History H))" "item_follows fmt (EntryHeap H ! i) x"
    then show "item_follows fmt (EntryHeap H' ! i) x" using one in_set_takeD by metis
  qed
qed

text \<open>A change that is told brings an item up to date, and so does none for an entry that did not change.\<close>

lemma apply_change_updated:
  assumes "entry_ok n (snd ` set (ActiveConnections H)) e" "item_follows fmt e x"
    "map_of cs (ConnectionId e) = (if fst (EntryUpdate M H e) then Some (change_of (snd (EntryUpdate M H e))) else None)"
  shows "item_view (apply_change fmt cs x) = entry_view fmt (snd (EntryUpdate M H e))"
proof -
  have Ident: "ListConnectionId x = ConnectionId e" using assms(2) by (auto simp: item_follows_def item_view_def entry_view_def)
  show ?thesis
  proof (cases "EntryState e = ES_Open")
    case True
    then have "item_view x = entry_view fmt e" "EndTime e = 0" using assms(1,2) by (auto simp: item_follows_def entry_ok_def)
    then show ?thesis
      using assms(3) Ident True
      by (auto simp: apply_change_def EntryUpdate_def close_pending_def change_of_def item_view_def entry_view_def end_text_def Let_def
          split: option.splits if_splits)
  next
    case False
    then have "lock_set H (EntrySet e) = None" using assms(1) by (auto simp: entry_ok_def lock_set_def)
    then have "EntryUpdate M H e = close_pending e" by (simp add: EntryUpdate_def)
    then show ?thesis
      using assms(2,3) Ident
      by (auto simp: apply_change_def close_pending_def change_of_def item_view_def entry_view_def end_text_def item_follows_def split: if_splits)
  qed
qed

lemma apply_change_current:
  "item_view x = entry_view fmt e \<Longrightarrow> map_of cs (ConnectionId e) = None \<or> map_of cs (ConnectionId e) = Some (change_of e)
    \<Longrightarrow> item_view (apply_change fmt cs x) = entry_view fmt e"
  by (auto simp: apply_change_def item_view_def entry_view_def change_of_def end_text_def)

definition new_view :: "time_text \<Rightarrow> WNewConnectionHistoryEntry \<Rightarrow> WTrafficItemId \<times> WEndpoint \<times> WBytes \<times> WBytes \<times> string \<times> string" where
  "new_view fmt n = (NewConnectionId n, NewRemoteEndpoint n, NewIn n, NewOut n, fmt (NewStart n), end_text fmt (NewEnd n))"

lemma new_view_entry: "new_view fmt (new_entry M H i) = entry_view fmt (EntryHeap H ! i)"
  by (simp add: new_view_def new_entry_def entry_view_def Let_def)

lemma PushNewItems:
  "length items + length ns \<le> 512 \<Longrightarrow> \<exists>pushed. fold (PushNewItem fmt T) ns items = items @ pushed \<and> map item_view pushed = map (new_view fmt) ns"
proof (induction ns arbitrary: items)
  case (Cons n ns)
  let ?x = "\<lparr>ListApp = item_app T (NewAppId n), ListConnectionId = NewConnectionId n, ListEndpoint = NewRemoteEndpoint n,
     ListIn = NewIn n, ListOut = NewOut n, ListStart = fmt (NewStart n), ListEnd = end_text fmt (NewEnd n)\<rparr>"
  have push: "PushNewItem fmt T n items = items @ [?x]" using Cons.prems by (simp add: PushNewItem_def)
  obtain pushed where "fold (PushNewItem fmt T) ns (items @ [?x]) = (items @ [?x]) @ pushed" "map item_view pushed = map (new_view fmt) ns"
    using Cons.IH [of "items @ [?x]"] Cons.prems by auto
  moreover have "item_view ?x = new_view fmt n" by (simp add: item_view_def new_view_def)
  ultimately show ?case using push by (intro exI [of _ "?x # pushed"]) simp
qed simp

section \<open>One update\<close>

lemma connection_ids_indices: "connection_ids H = map (\<lambda>i. ConnectionId (EntryHeap H ! i)) (History H)"
  by (simp add: connection_ids_def)

lemma HistoryUpdate_spec:
  assumes ok: "history_ok H" and ids: "distinct (connection_ids H)"
  obtains cs H1 where "HistoryUpdate M H = (\<lparr>Changes = cs, NewEntries = map (new_entry M H1) (drop (length (History H) - unat (NewItemCounter H)) (History H))\<rparr>,
      H1\<lparr>NewItemCounter := 0\<rparr>)" "update_spec M (History H) [] H cs H1" "History H1 = History H"
proof -
  have l: "length (History H) \<le> 512" "unat (NewItemCounter H) \<le> length (History H)" "\<forall>i\<in>set (History H). i < length (EntryHeap H)"
    using ok by (simp_all add: history_ok_def list_ok_def)
  obtain cs H1 where F: "fold (update_entry M) (History H) ([], H) = (cs, H1)" by fastforce
  have H1: "History H1 = History H" "NewItemCounter H1 = NewItemCounter H" using fold_update_entry [OF ok l(3), of M "[]"] F by simp_all
  have spec: "update_spec M (History H) [] H cs H1"
    using ids by (intro fold_update_spec [OF l(3) _ F]) (simp add: connection_ids_indices)
  have "unat (of_nat (length (History H)) :: u32) = length (History H)" using l(1) by (simp add: unat_of_nat)
  then have m: "unat (min (NewItemCounter H) (of_nat (length (History H)))) = unat (NewItemCounter H)"
    using l(2) by (simp add: min_def word_le_nat_alt)
  have zero: "\<not> 0 < NewItemCounter H \<Longrightarrow> H1\<lparr>NewItemCounter := 0\<rparr> = H1 \<and> unat (NewItemCounter H) = 0"
    using H1(2) by (cases H1) (simp add: word_gt_0)
  have "HistoryUpdate M H = (\<lparr>Changes = cs, NewEntries = map (new_entry M H1) (drop (length (History H) - unat (NewItemCounter H)) (History H))\<rparr>,
      H1\<lparr>NewItemCounter := 0\<rparr>)"
    using zero by (cases "0 < NewItemCounter H") (simp_all add: HistoryUpdate_def F H1 m Let_def)
  then show thesis using spec H1(1) that by blast
qed

lemma update_spec_frame:
  assumes "update_spec M (History H) [] H cs H1" "History H1 = History H" "list_ok H"
  shows "connection_ids H1 = connection_ids H" "closing_ok H \<Longrightarrow> closing_ok H1"
    "i \<in> set (History H) \<Longrightarrow> EntryHeap H1 ! i = updated M H i"
    "i \<in> set (History H) \<Longrightarrow> map_of cs (ConnectionId (EntryHeap H ! i)) = (if changes M H i then Some (change_of (updated M H i)) else None)"
proof -
  note spec = assms(1) [unfolded update_spec_def]
  have l: "i \<in> set (History H) \<Longrightarrow> i < length (EntryHeap H)" for i using assms(3) by (simp add: list_ok_def)
  show up: "i \<in> set (History H) \<Longrightarrow> EntryHeap H1 ! i = updated M H i" for i using spec l by simp
  show "connection_ids H1 = connection_ids H"
    unfolding connection_ids_def assms(2) by (rule map_cong [OF refl]) (simp add: up updated_def EntryUpdate_keeps)
  show "i \<in> set (History H) \<Longrightarrow> map_of cs (ConnectionId (EntryHeap H ! i)) = (if changes M H i then Some (change_of (updated M H i)) else None)" for i
    using spec by simp
  show "closing_ok H1" if "closing_ok H"
    unfolding closing_ok_def list_all_length
  proof (intro allI impI)
    fix i assume i: "i < length (EntryHeap H1)"
    then have "entry_ok (length (SetHeap H)) (snd ` set (ActiveConnections H)) (EntryHeap H ! i)"
      using that spec by (simp add: closing_ok_def list_all_length)
    moreover from this have "entry_ok (length (SetHeap H)) (snd ` set (ActiveConnections H)) (updated M H i)"
      unfolding updated_def by (rule EntryUpdate_ok)
    moreover have "EntryHeap H1 ! i = updated M H i \<or> EntryHeap H1 ! i = EntryHeap H ! i" using spec i by auto
    ultimately show "entry_ok (length (SetHeap H1)) (snd ` set (ActiveConnections H1)) (EntryHeap H1 ! i)" using spec by auto
  qed
qed

text \<open>After an update that was sent the client shows the entries of the daemon.\<close>

lemma update_brings_in_sync:
  assumes ok: "history_ok H" "closing_ok H" and ids: "distinct (connection_ids H)" and sync: "in_sync fmt H items"
    and up: "HistoryUpdate M H = (U, H1)"
  shows "map item_view (map (apply_change fmt (Changes U)) (fold (PushNewItem fmt T) (NewEntries U) items)) = history_view fmt H1"
    "in_sync fmt H1 items' \<longleftrightarrow> list_all2 (\<lambda>i. item_follows fmt (EntryHeap H1 ! i)) (History H1) items'"
    "History H1 = History H" "connection_ids H1 = connection_ids H" "closing_ok H1" "NewItemCounter H1 = 0"
proof -
  obtain cs H2 where U: "U = \<lparr>Changes = cs, NewEntries = map (new_entry M H2) (drop (length (History H) - unat (NewItemCounter H)) (History H))\<rparr>"
    and H1: "H1 = H2\<lparr>NewItemCounter := 0\<rparr>" and spec: "update_spec M (History H) [] H cs H2" and hist: "History H2 = History H"
    using HistoryUpdate_spec [OF ok(1) ids, of M] up by (metis Pair_inject)
  have list: "list_ok H" using ok(1) by (simp add: history_ok_def)
  note frame = update_spec_frame [OF spec hist list]
  have view: "entry_view fmt (EntryHeap H1 ! i) = entry_view fmt (updated M H i)" if "i \<in> set (History H)" for i
    using frame(3) [OF that] by (simp add: H1)
  let ?k = "length (History H) - unat (NewItemCounter H)"
  have l: "length (History H) \<le> 512" "unat (NewItemCounter H) \<le> length (History H)" "\<forall>i\<in>set (History H). i < length (EntryHeap H)"
    using list by (simp_all add: list_ok_def)
  have len: "length items = ?k" using sync l(2) by (auto simp: in_sync_def dest: list_all2_lengthD)
  obtain pushed where pushed: "fold (PushNewItem fmt T) (NewEntries U) items = items @ pushed" "map item_view pushed = map (new_view fmt) (NewEntries U)"
    using PushNewItems [of items "NewEntries U" fmt T] len l by (auto simp: U)
  have old: "item_view (apply_change fmt cs x) = entry_view fmt (EntryHeap H1 ! i)"
    if "item_follows fmt (EntryHeap H ! i) x" "i \<in> set (History H)" for i x
  proof -
    have "entry_ok (length (SetHeap H)) (snd ` set (ActiveConnections H)) (EntryHeap H ! i)"
      using ok(2) l(3) that(2) by (simp add: closing_ok_def list_all_length)
    then show ?thesis
      using apply_change_updated [OF _ that(1), of _ H cs M] frame(4) [OF that(2)] view [OF that(2)] by (simp add: updated_def changes_def)
  qed
  have "list_all2 (\<lambda>i x. item_view (apply_change fmt cs x) = entry_view fmt (EntryHeap H1 ! i)) (take ?k (History H)) items"
  proof (rule list.rel_mono_strong [OF sync [unfolded in_sync_def]])
    fix i x assume "i \<in> set (take ?k (History H))" "item_follows fmt (EntryHeap H ! i) x"
    then show "item_view (apply_change fmt cs x) = entry_view fmt (EntryHeap H1 ! i)" using old in_set_takeD by metis
  qed
  then have first: "map (item_view \<circ> apply_change fmt cs) items = map (\<lambda>i. entry_view fmt (EntryHeap H1 ! i)) (take ?k (History H))"
    by (auto simp: list_all2_conv_all_nth intro!: nth_equalityI)
  have "map (item_view \<circ> apply_change fmt cs) pushed = map (\<lambda>i. entry_view fmt (EntryHeap H1 ! i)) (drop ?k (History H))"
  proof (rule nth_equalityI)
    show "length (map (item_view \<circ> apply_change fmt cs) pushed) = length (map (\<lambda>i. entry_view fmt (EntryHeap H1 ! i)) (drop ?k (History H)))"
      using arg_cong [OF pushed(2), of length] by (simp add: U)
    fix j assume j: "j < length (map (item_view \<circ> apply_change fmt cs) pushed)"
    let ?i = "drop ?k (History H) ! j"
    have jl: "j < length pushed" "j < length (NewEntries U)" using j arg_cong [OF pushed(2), of length] by simp_all
    then have i: "?i \<in> set (History H)" by (intro in_set_dropD [OF nth_mem]) (simp add: U)
    have "item_view (pushed ! j) = new_view fmt (NewEntries U ! j)" using arg_cong [OF pushed(2), of "\<lambda>xs. xs ! j"] jl by simp
    also have "\<dots> = entry_view fmt (updated M H ?i)" using jl(2) frame(3) [OF i] by (simp add: U new_view_entry)
    finally have "item_view (apply_change fmt cs (pushed ! j)) = entry_view fmt (updated M H ?i)"
      using frame(4) [OF i] by (intro apply_change_current) (auto simp: updated_def EntryUpdate_keeps)
    then show "map (item_view \<circ> apply_change fmt cs) pushed ! j = map (\<lambda>i. entry_view fmt (EntryHeap H1 ! i)) (drop ?k (History H)) ! j"
      using jl view [OF i] by (simp add: U)
  qed
  then have "map (item_view \<circ> apply_change fmt cs) (items @ pushed) = map (\<lambda>i. entry_view fmt (EntryHeap H1 ! i)) (take ?k (History H) @ drop ?k (History H))"
    using first by (simp only: map_append)
  then show "map item_view (map (apply_change fmt (Changes U)) (fold (PushNewItem fmt T) (NewEntries U) items)) = history_view fmt H1"
    unfolding pushed(1) map_map by (simp only: append_take_drop_id history_view_def) (simp add: U H1 hist comp_def del: map_append)
  show "History H1 = History H" "NewItemCounter H1 = 0" "connection_ids H1 = connection_ids H" "closing_ok H1"
    using hist frame(1,2) ok(2) by (simp_all add: H1 connection_ids_def closing_ok_def)
  then show "in_sync fmt H1 items' \<longleftrightarrow> list_all2 (\<lambda>i. item_follows fmt (EntryHeap H1 ! i)) (History H1) items'"
    by (simp add: in_sync_def)
qed

lemma view_follows: "map item_view items = history_view fmt H \<Longrightarrow> list_all2 (\<lambda>i. item_follows fmt (EntryHeap H ! i)) (History H) items"
  unfolding list_all2_conv_all_nth history_view_def
  by (metis (no_types, lifting) item_follows_def length_map nth_map)

section \<open>Whole runs\<close>

lemma update_entry_frame:
  assumes "i < length (EntryHeap H)"
  shows "ConnectionId (EntryHeap (snd (update_entry M i (cs, H))) ! j) = ConnectionId (EntryHeap H ! j)"
    "closing_ok H \<Longrightarrow> closing_ok (snd (update_entry M i (cs, H)))"
    "length (EntryHeap (snd (update_entry M i (cs, H)))) = length (EntryHeap H)"
proof -
  let ?e = "snd (EntryUpdate M H (EntryHeap H ! i))"
  show "ConnectionId (EntryHeap (snd (update_entry M i (cs, H))) ! j) = ConnectionId (EntryHeap H ! j)"
    using assms by (simp add: update_entry_snd EntryUpdate_keeps)
  show "closing_ok (snd (update_entry M i (cs, H)))" if "closing_ok H"
  proof -
    have "entry_ok (length (SetHeap H)) (snd ` set (ActiveConnections H)) ?e"
      using that assms by (intro EntryUpdate_ok) (simp add: closing_ok_def list_all_length)
    then show ?thesis
      using that by (auto simp: update_entry_snd closing_ok_def upd_entry_def list_all_iff dest!: set_update_subset_insert [THEN subsetD])
  qed
qed (simp add: update_entry_snd)

lemma fold_update_frame:
  "\<forall>i\<in>set is. i < length (EntryHeap H) \<Longrightarrow>
    (\<forall>j. ConnectionId (EntryHeap (snd (fold (update_entry M) is (cs, H))) ! j) = ConnectionId (EntryHeap H ! j))
    \<and> (closing_ok H \<longrightarrow> closing_ok (snd (fold (update_entry M) is (cs, H))))"
proof (induction "is" arbitrary: cs H)
  case (Cons i "is")
  then have i: "i < length (EntryHeap H)" by simp
  obtain cs1 H1 where u: "update_entry M i (cs, H) = (cs1, H1)" by fastforce
  note f = update_entry_frame [OF i, of M cs, unfolded u, simplified]
  show ?case using Cons.IH [of H1 cs1] Cons.prems f by (simp add: u)
qed simp

lemma tick_frame:
  assumes "history_ok H"
  shows "connection_ids (snd (HistoryUpdate M H)) = connection_ids H" "History (snd (HistoryUpdate M H)) = History H"
    "closing_ok H \<Longrightarrow> closing_ok (snd (HistoryUpdate M H))"
proof -
  obtain cs H1 where F: "fold (update_entry M) (History H) ([], H) = (cs, H1)" by fastforce
  have l: "\<forall>i\<in>set (History H). i < length (EntryHeap H)" using assms by (simp add: history_ok_def list_ok_def)
  note f = fold_update_frame [OF l, of M "[]", unfolded F, simplified] and h = fold_update_entry [OF assms l, of M "[]", unfolded F, simplified]
  have "snd (HistoryUpdate M H) = H1 \<or> snd (HistoryUpdate M H) = H1\<lparr>NewItemCounter := 0\<rparr>" by (auto simp: HistoryUpdate_def F Let_def)
  then show "connection_ids (snd (HistoryUpdate M H)) = connection_ids H" "History (snd (HistoryUpdate M H)) = History H"
    "closing_ok H \<Longrightarrow> closing_ok (snd (HistoryUpdate M H))"
    using f h by (auto simp: connection_ids_def closing_ok_def)
qed

interpretation history_close: state_machine history_initial history_step "\<lambda>H. history_ok H \<and> closing_ok H"
proof
  show "history_ok H \<and> closing_ok H" if "history_initial H" for H
    using that history_sm.invar_initial by (simp add: history_initial_def closing_ok_def)
  show "history_ok H' \<and> closing_ok H'" if "history_ok H \<and> closing_ok H" "history_step H H'" for H H'
    using that(2)
  proof cases
    case (step_event env E M)
    then show ?thesis using that(1) event_grows [of H env E M] history_ok_event [of H env E M] by simp
  next
    case (step_update M)
    then show ?thesis using that(1) tick_frame(3) [of H M] history_ok_update [of H M] by simp
  qed
qed

lemma after_step: "history_step H (history_after op H)"
  by (cases op) (auto intro: step_event step_update)

lemma after_grows:
  assumes "history_ok H" "closing_ok H"
  shows "length (History H) \<le> length (History (history_after op H))
    \<and> (length (History (history_after op H)) < 512 \<longrightarrow> (\<exists>new. connection_ids (history_after op H) = connection_ids H @ new))"
proof (cases op)
  case (HistoryEvent env Ev M)
  let ?H = "snd (on_network_event env Ev (M, H))"
  note g = event_grows [OF assms, of env Ev M]
  have "\<exists>new. connection_ids ?H = connection_ids H @ new" if short: "length (History ?H) < 512"
  proof -
    obtain new where new: "History ?H = History H @ new" using g short by (auto simp: list_grows_def)
    have "ConnectionId (EntryHeap ?H ! i) = ConnectionId (EntryHeap H ! i)" if "i \<in> set (History H)" for i
      using g that assms(1) entry_grows_keeps by (auto simp: heap_grows_def history_ok_def list_ok_def)
    then show ?thesis by (simp add: connection_ids_def new)
  qed
  then show ?thesis using HistoryEvent g by (simp add: list_grows_def)
qed (use tick_frame [OF assms(1)] in simp)

definition history_run :: "history_op list \<Rightarrow> WConnectionHistory \<Rightarrow> WConnectionHistory" where
  "history_run ops = fold history_after ops"

lemma run_grows:
  assumes "history_ok H \<and> closing_ok H"
  shows "history_ok (history_run ops H) \<and> closing_ok (history_run ops H) \<and> length (History H) \<le> length (History (history_run ops H))
    \<and> (length (History (history_run ops H)) < 512 \<longrightarrow> (\<exists>new. connection_ids (history_run ops H) = connection_ids H @ new))"
  using assms
proof (induction ops arbitrary: H)
  case (Cons op ops)
  let ?H = "history_after op H"
  note IH = Cons.IH [OF history_close.invar_step [OF Cons.prems after_step [of H op]]]
  have "\<exists>new. connection_ids (history_run ops ?H) = connection_ids H @ new" if "length (History (history_run ops ?H)) < 512"
    using IH after_grows [of H op] Cons.prems that by fastforce
  then show ?case using IH after_grows [of H op] Cons.prems by (simp add: history_run_def)
qed (simp add: history_run_def)

lemma apply_no_change: "apply_change fmt [] = (\<lambda>x. x)"
  by (simp add: apply_change_def fun_eq_iff)

lemma mirror_op_in_sync:
  assumes "history_ok H" "closing_ok H" "in_sync (FormatUnixTime W) H items" "all_sent [op] H"
    and "\<forall>U. DecodeHistory W (EncodeHistory W U) = Some U"
    and "length (History (history_after op H)) < 512" "distinct (connection_ids (history_after op H))"
  shows "\<exists>items'. mirror_op W op (H, items) = (history_after op H, items') \<and> in_sync (FormatUnixTime W) (history_after op H) items'
    \<and> ((\<exists>M T. op = HistoryTick M T) \<longrightarrow> map item_view items' = history_view (FormatUnixTime W) (history_after op H))"
proof (cases op)
  case (HistoryEvent env Ev M)
  have "list_ok H" using assms(1) by (simp add: history_ok_def)
  then show ?thesis using assms(2-6) event_grows [OF assms(1,2), of env Ev M] grows_in_sync HistoryEvent by auto
next
  case (HistoryTick M T)
  obtain U H1 where up: "HistoryUpdate M H = (U, H1)" by fastforce
  have ids: "distinct (connection_ids H)" using assms(7) tick_frame(1) [OF assms(1), of M] HistoryTick by simp
  note u = update_brings_in_sync [OF assms(1,2) ids assms(3) up]
  let ?new = "map (apply_change (FormatUnixTime W) (Changes U)) (fold (PushNewItem (FormatUnixTime W) T) (NewEntries U) items)"
  have view: "map item_view ?new = history_view (FormatUnixTime W) H1" by (rule u(1))
  have none: "Changes U = [] \<Longrightarrow> ?new = items" using assms(4) HistoryTick up by (simp add: apply_no_change)
  have "mirror_op W op (H, items) = (H1, ?new)" using none assms(5) HistoryTick up by (simp add: HandleUpdate_def)
  moreover have "in_sync (FormatUnixTime W) H1 ?new" using u(2) u(3) view_follows [OF view] by simp
  ultimately show ?thesis using view HistoryTick up by simp
qed

lemma all_sent_Cons: "all_sent (op # ops) H \<longleftrightarrow> all_sent [op] H \<and> all_sent ops (history_after op H)"
  by simp

lemma mirror_run_in_sync:
  assumes "history_ok H \<and> closing_ok H" "in_sync (FormatUnixTime W) H items" "all_sent ops H"
    and "\<forall>U. DecodeHistory W (EncodeHistory W U) = Some U"
    and "length (History (history_run ops H)) < 512" "distinct (connection_ids (history_run ops H))"
  shows "\<exists>items'. mirror_run W ops (H, items) = (history_run ops H, items') \<and> in_sync (FormatUnixTime W) (history_run ops H) items'"
  using assms
proof (induction ops arbitrary: H items)
  case (Cons op ops)
  let ?H = "history_after op H"
  have run: "history_run (op # ops) H = history_run ops ?H" by (simp add: history_run_def)
  have ok: "history_ok ?H \<and> closing_ok ?H" by (rule history_close.invar_step [OF Cons.prems(1) after_step])
  note g = run_grows [OF ok, of ops]
  have sent: "all_sent [op] H" "all_sent ops ?H" using Cons.prems(3) all_sent_Cons by blast+
  have "length (History ?H) < 512" "distinct (connection_ids ?H)" using g Cons.prems(5,6) unfolding run by (auto simp: le_less_trans)
  then obtain items1 where one: "mirror_op W op (H, items) = (?H, items1)" "in_sync (FormatUnixTime W) ?H items1"
    using mirror_op_in_sync [OF _ _ Cons.prems(2) sent(1) assms(4)] Cons.prems(1) by blast
  show ?case using Cons.IH [OF ok one(2) sent(2) assms(4)] Cons.prems(5,6) one(1) unfolding run by (simp add: mirror_run_def)
qed (simp add: mirror_run_def history_run_def)

lemma Initialize_view:
  assumes "list_ok H" "DecodeHistory W (EncodeHistory W (HistorySerialize M H)) = Some (HistorySerialize M H)"
  shows "map item_view (Initialize (FormatUnixTime W) T (DecodeHistory W) (EncodeHistory W (HistorySerialize M H))) = history_view (FormatUnixTime W) H"
proof -
  have "length (NewEntries (HistorySerialize M H)) \<le> 512" using assms(1) by (simp add: HistorySerialize_def list_ok_def)
  then obtain pushed where "fold (PushNewItem (FormatUnixTime W) T) (NewEntries (HistorySerialize M H)) [] = pushed"
      "map item_view pushed = map (new_view (FormatUnixTime W)) (NewEntries (HistorySerialize M H))"
    using PushNewItems [of "[]"] by (metis append_Nil add_0 list.size(3))
  then show ?thesis using assms(2) by (simp add: Initialize_def HistorySerialize_def history_view_def new_view_entry comp_def)
qed

text \<open>C19. The history that a client shows is that of the daemon: whatever connections come and go after a client was initialised, right after
  an update both have the same connections in the same order, with the same remote endpoints, byte counts, starts and ends, as
  long as the daemon's list is not full, connections have different ids, nothing waited to be announced when the client
  connected, and no update with new entries was withheld.\<close>

theorem client_history_mirrors_daemon:
  assumes "reachable history_initial history_step H" and "NewItemCounter H = 0"
    and "\<forall>U. DecodeHistory W (EncodeHistory W U) = Some U"
    and "all_sent (ops @ [HistoryTick M T]) H"
    and "mirror_run W (ops @ [HistoryTick M T])
        (H, Initialize (FormatUnixTime W) T0 (DecodeHistory W) (EncodeHistory W (HistorySerialize M0 H))) = (H', items)"
    and "length (History H') < 512" and "distinct (connection_ids H')"
  shows "map item_view items = history_view (FormatUnixTime W) H'"
proof -
  let ?init = "Initialize (FormatUnixTime W) T0 (DecodeHistory W) (EncodeHistory W (HistorySerialize M0 H))"
  have ok: "history_ok H \<and> closing_ok H" using assms(1) by (rule history_close.reachable_invar)
  have "map item_view ?init = history_view (FormatUnixTime W) H"
    using assms(3) ok by (intro Initialize_view) (simp_all add: history_ok_def)
  then have init: "in_sync (FormatUnixTime W) H ?init" using view_follows assms(2) by (simp add: in_sync_def)
  have sent: "all_sent ops H \<and> all_sent [HistoryTick M T] (history_run ops H)"
    using assms(4) unfolding history_run_def by (induction ops arbitrary: H) auto
  let ?H = "history_run ops H"
  have H': "H' = history_after (HistoryTick M T) ?H"
  proof -
    have "fst (mirror_op W op (G, xs)) = history_after op G" for op G xs by (cases op) (simp_all add: case_prod_unfold Let_def)
    then have "fst (fold (mirror_op W) os (G, xs)) = fold history_after os G" for os G xs
    proof (induction os arbitrary: G xs)
      case (Cons op os)
      then show ?case using \<open>\<And>op G xs. fst (mirror_op W op (G, xs)) = history_after op G\<close> [of op G xs] by (cases "mirror_op W op (G, xs)") simp
    qed simp
    from this [of "ops @ [HistoryTick M T]" H ?init] show ?thesis using assms(5) by (simp add: mirror_run_def history_run_def)
  qed
  note okr = run_grows [OF ok, of ops]
  then have okH: "history_ok ?H" "closing_ok ?H" by simp_all
  have "length (History ?H) < 512" "distinct (connection_ids ?H)"
    using assms(6,7) tick_frame(1,2) [OF okH(1), of M] unfolding H' by simp_all
  then obtain items1 where run: "mirror_run W ops (H, ?init) = (?H, items1)" "in_sync (FormatUnixTime W) ?H items1"
    using mirror_run_in_sync [OF ok init _ assms(3)] sent by blast
  obtain items2 where tick: "mirror_op W (HistoryTick M T) (?H, items1) = (H', items2)" "map item_view items2 = history_view (FormatUnixTime W) H'"
    using mirror_op_in_sync [OF okH run(2) conjunct2 [OF sent] assms(3)] assms(6,7) unfolding H' by blast
  have "mirror_run W (ops @ [HistoryTick M T]) (H, ?init) = mirror_op W (HistoryTick M T) (mirror_run W ops (H, ?init))"
    by (simp add: mirror_run_def)
  then show ?thesis using tick assms(5) run(1) by simp
qed

lemma Push_full:
  assumes "length (History H) = 512" "NewItemCounter H = 0"
  shows "length (History (snd (snd (Push env App k Remote M H)))) = 512 \<and> NewItemCounter (snd (snd (Push env App k Remote M H))) = 0
    \<and> (\<not> IsIgnoredConnectionHistoryApp env (ApplicationName (app_item M App)) \<longrightarrow> \<not> IsIgnoredConnectionHistoryPort env (Port Remote) \<longrightarrow>
      last (History (snd (snd (Push env App k Remote M H)))) = length (EntryHeap H))"
proof -
  have "History H \<noteq> []" using assms(1) by auto
  then show ?thesis using assms by (simp add: Push_def take_id_def Let_def tl_append2)
qed

lemma track_new:
  "map_of (ActiveConnections H) Key = None \<Longrightarrow>
    \<exists>k H1. length (EntryHeap H1) = length (EntryHeap H) \<and> History H1 = History H \<and> NewItemCounter H1 = NewItemCounter H
      \<and> History (snd (track env App Key Item M H)) = History (snd (snd (Push env App k (snd Key) M H1)))
      \<and> NewItemCounter (snd (track env App Key Item M H)) = NewItemCounter (snd (snd (Push env App k (snd Key) M H1)))"
  by (intro exI [of _ "length (SetHeap H)"] exI [of _ "H\<lparr>SetHeap := SetHeap H @ [\<lparr>Connections = [Item], BaseDataIn = 0, BaseDataOut = 0, ParentEntry = None\<rparr>],
        ActiveConnections := AList.update Key (length (SetHeap H)) (ActiveConnections H)\<rparr>"])
    (simp add: track_def Let_def case_prod_unfold)

lemma track_full:
  assumes "length (History H) = 512" "NewItemCounter H = 0"
  shows "length (History (snd (track env App Key Item M H))) = 512 \<and> NewItemCounter (snd (track env App Key Item M H)) = 0
    \<and> (map_of (ActiveConnections H) Key = None \<longrightarrow> \<not> IsIgnoredConnectionHistoryApp env (ApplicationName (app_item M App)) \<longrightarrow>
      \<not> IsIgnoredConnectionHistoryPort env (Port (snd Key)) \<longrightarrow> last (History (snd (track env App Key Item M H))) = length (EntryHeap H))"
proof (cases "map_of (ActiveConnections H) Key")
  case None
  obtain k H1 where "length (EntryHeap H1) = length (EntryHeap H)" "History H1 = History H" "NewItemCounter H1 = NewItemCounter H"
    "History (snd (track env App Key Item M H)) = History (snd (snd (Push env App k (snd Key) M H1)))"
    "NewItemCounter (snd (track env App Key Item M H)) = NewItemCounter (snd (snd (Push env App k (snd Key) M H1)))"
    using track_new [OF None] by blast
  then show ?thesis using Push_full [of H1 env App k "snd Key" M] assms by simp
next
  case (Some k)
  then show ?thesis using assms by (simp add: track_def)
qed

definition list_full :: "WConnectionHistory \<Rightarrow> bool" where
  "list_full H \<longleftrightarrow> length (History H) = 512 \<and> NewItemCounter H = 0"

lemma untrack_full: "list_full H \<Longrightarrow> list_full (untrack env Key Item M H)"
  by (simp add: list_full_def untrack_def Let_def case_prod_unfold split: option.split)

lemma event_full:
  assumes "list_full H"
  shows "list_full (snd (on_network_event env Ev (M, H)))"
proof -
  have tr: "list_full (snd (track env App Key Item M H))" for App Key Item
    using track_full [of H env App Key Item M] assms by (simp add: list_full_def)
  have un: "list_full (untrack env Key Item M H)" for Key Item using assms by (rule untrack_full)
  have rem: "list_full (fold (\<lambda>(TE, t). untrack env (A, TE) (TupleRef t) M) ts G)" if "list_full G" for A ts G
    using that by (induction ts arbitrary: G) (simp_all add: untrack_full case_prod_unfold)
  show ?thesis
  proof (cases Ev)
    case (EvSocketRemoved s)
    show ?thesis using rem [OF un] by (simp add: EvSocketRemoved Connection_History.OnSocketRemoved_def Let_def)
  next
    case (EvSocketConnected s)
    show ?thesis using tr assms by (simp add: EvSocketConnected Connection_History.OnSocketConnected_def Let_def)
  next
    case (EvUDPTupleCreated t)
    show ?thesis using tr by (simp add: EvUDPTupleCreated OnUDPTupleCreated_def Let_def)
  next
    case (EvUDPTupleRemoved t)
    show ?thesis using un by (simp add: EvUDPTupleRemoved OnUDPTupleRemoved_def)
  qed (use assms in simp_all)
qed

lemma update_full:
  assumes "list_full H"
  shows "list_full (snd (HistoryUpdate M H)) \<and> NewEntries (fst (HistoryUpdate M H)) = []"
proof -
  have "History (snd (fold (update_entry M) is (cs, H))) = History H \<and> NewItemCounter (snd (fold (update_entry M) is (cs, H))) = NewItemCounter H" for "is" cs
  proof (induction "is" arbitrary: cs H)
    case (Cons i "is")
    then show ?case using update_entry_snd [of M i cs H] by (cases "update_entry M i (cs, H)") simp
  qed simp
  then show ?thesis using assms by (simp add: list_full_def HistoryUpdate_def case_prod_unfold Let_def)
qed

lemma run_full: "list_full H \<Longrightarrow> list_full (history_run ops H)"
  unfolding history_run_def
proof (induction ops arbitrary: H)
  case (Cons op ops)
  have "list_full (history_after op H)" using Cons.prems event_full update_full by (cases op) simp_all
  then show ?case using Cons.IH by simp
qed simp

text \<open>C20. Once the list is full no client hears of new connections: with 512 entries and none of them waiting to be announced, whatever happens, no
  later update has a new entry, although a new connection is entered into the list as before. The counter of new entries is
  raised for the entry that is added and lowered for the one that is dropped.\<close>

theorem full_history_announces_nothing:
  assumes "length (History H) = 512" and "NewItemCounter H = 0"
  shows "NewEntries (fst (HistoryUpdate M (history_run ops H))) = [] \<and>
    (map_of (ActiveConnections (history_run ops H)) Key = None \<longrightarrow>
     \<not> IsIgnoredConnectionHistoryApp env (ApplicationName (app_item M App)) \<longrightarrow> \<not> IsIgnoredConnectionHistoryPort env (Port (snd Key)) \<longrightarrow>
     last (History (snd (track env App Key Item M (history_run ops H)))) = length (EntryHeap (history_run ops H)))"
proof -
  have full: "list_full (history_run ops H)" using assms by (intro run_full) (simp add: list_full_def)
  then show ?thesis using update_full [OF full] track_full [of "history_run ops H" env App Key Item M] by (simp add: list_full_def)
qed

text \<open>C21. A client that connects while new entries wait to be announced shows them twice: it is sent the whole list, which has them,
  and the next update appends them once more. Without a client no update runs, so this is the whole list for
  the first one.\<close>

theorem waiting_entries_shown_twice:
  assumes "reachable history_initial history_step H" and "distinct (connection_ids H)"
    and "length (History H) + unat (NewItemCounter H) \<le> 512"
    and "\<forall>U. DecodeHistory W (EncodeHistory W U) = Some U"
    and "HistoryUpdate M H = (U, H1)" and "Changes U \<noteq> []"
  shows "map ListConnectionId (snd (mirror_op W (HistoryTick M T)
        (H, Initialize (FormatUnixTime W) T0 (DecodeHistory W) (EncodeHistory W (HistorySerialize M0 H))))) =
      connection_ids H @ drop (length (History H) - unat (NewItemCounter H)) (connection_ids H)"
proof -
  let ?f = "FormatUnixTime W"
  let ?init = "Initialize ?f T0 (DecodeHistory W) (EncodeHistory W (HistorySerialize M0 H))"
  have ok: "history_ok H" using assms(1) by (rule history_sm.reachable_invar)
  then have list: "list_ok H" by (simp add: history_ok_def)
  have init: "map item_view ?init = history_view ?f H" using assms(4) by (intro Initialize_view [OF list]) simp
  then have len: "length ?init = length (History H)" by (metis history_view_def length_map)
  have ids0: "map ListConnectionId ?init = connection_ids H"
  proof -
    have "map fst (map item_view ?init) = map fst (history_view ?f H)" using init by simp
    then show ?thesis by (simp add: item_view_def history_view_def entry_view_def connection_ids_def comp_def)
  qed
  obtain cs H2 where U: "U = \<lparr>Changes = cs, NewEntries = map (new_entry M H2) (drop (length (History H) - unat (NewItemCounter H)) (History H))\<rparr>"
    and spec: "update_spec M (History H) [] H cs H2" and hist: "History H2 = History H"
    using HistoryUpdate_spec [OF ok assms(2), of M] assms(5) by (metis Pair_inject)
  obtain pushed where pushed: "fold (PushNewItem ?f T) (NewEntries U) ?init = ?init @ pushed" "map item_view pushed = map (new_view ?f) (NewEntries U)"
    using PushNewItems [of ?init "NewEntries U" ?f T] len assms(3) list by (auto simp: U list_ok_def)
  have "map fst (map item_view pushed) = map fst (map (new_view ?f) (NewEntries U))" using pushed(2) by simp
  then have "map ListConnectionId pushed = drop (length (History H) - unat (NewItemCounter H)) (connection_ids H2)"
    by (simp add: U item_view_def new_view_def new_entry_def connection_ids_def hist comp_def Let_def drop_map)
  then have "map ListConnectionId (?init @ pushed) = connection_ids H @ drop (length (History H) - unat (NewItemCounter H)) (connection_ids H)"
    using ids0 update_spec_frame(1) [OF spec hist list] by simp
  moreover have "ListConnectionId (apply_change f cs x) = ListConnectionId x" for f cs x by (simp add: apply_change_def split: option.split)
  ultimately show ?thesis using assms(4-6) pushed(1) by (simp add: HandleUpdate_def comp_def)
qed

section \<open>A concrete client\<close>

definition test_wire :: "WConnectionHistoryUpdate history_wire" where
  "test_wire = \<lparr>EncodeHistory = (\<lambda>U. U), DecodeHistory = Some, FormatUnixTime = (\<lambda>_. ''noon'')\<rparr>"

definition no_history :: WConnectionHistory where
  "no_history = \<lparr>NewItemCounter = 0, History = [], ActiveConnections = [], SetHeap = [], EntryHeap = [], HistoryRows = []\<rparr>"

definition test_connect :: history_op where
  "test_connect = HistoryEvent (test_history_env 5) (EvSocketConnected 0) test_history_map"

lemma test_wire_decodes: "\<forall>U. DecodeHistory test_wire (EncodeHistory test_wire U) = Some U"
  by (simp add: test_wire_def)

lemma no_history_reachable: "reachable history_initial history_step no_history"
  by (rule reach_start) (simp add: history_initial_def no_history_def)

lemma test_connect_after: "history_after test_connect no_history = test_history"
  by (simp add: test_connect_def no_history_def test_history_def)

theorem client_history_mirrors_daemon_witness:
  "map item_view (snd (mirror_run test_wire ([test_connect] @ [HistoryTick test_history_map WTrafficTree_init])
      (no_history, Initialize (FormatUnixTime test_wire) WTrafficTree_init (DecodeHistory test_wire) (EncodeHistory test_wire (HistorySerialize test_history_map no_history)))))
    = [(4, WEndpoint_init\<lparr>Port := 443\<rparr>, 1000, 50, ''noon'', ''n/a'')]"
proof -
  let ?run = "mirror_run test_wire ([test_connect] @ [HistoryTick test_history_map WTrafficTree_init])
      (no_history, Initialize (FormatUnixTime test_wire) WTrafficTree_init (DecodeHistory test_wire) (EncodeHistory test_wire (HistorySerialize test_history_map no_history)))"
  have sent: "all_sent ([test_connect] @ [HistoryTick test_history_map WTrafficTree_init]) no_history" by code_simp
  have fin: "length (History (fst ?run)) < 512" "distinct (connection_ids (fst ?run))" by code_simp+
  have zero: "NewItemCounter no_history = 0" by (simp add: no_history_def)
  have "map item_view (snd ?run) = history_view (FormatUnixTime test_wire) (fst ?run)"
    by (rule client_history_mirrors_daemon [OF no_history_reachable zero test_wire_decodes sent _ fin]) (rule surjective_pairing)
  also have "\<dots> = [(4, WEndpoint_init\<lparr>Port := 443\<rparr>, 1000, 50, ''noon'', ''n/a'')]" by code_simp
  finally show ?thesis .
qed

theorem full_history_announces_nothing_witness:
  "NewEntries (fst (HistoryUpdate test_history_map (history_run [test_connect] (no_history\<lparr>History := replicate 512 0\<rparr>)))) = []"
  using full_history_announces_nothing [of "no_history\<lparr>History := replicate 512 0\<rparr>"] by (simp add: no_history_def)

theorem waiting_entries_shown_twice_witness:
  "map ListConnectionId (snd (mirror_op test_wire (HistoryTick test_history_map WTrafficTree_init)
      (test_history, Initialize (FormatUnixTime test_wire) WTrafficTree_init (DecodeHistory test_wire) (EncodeHistory test_wire (HistorySerialize test_history_map test_history)))))
    = [4, 4]"
proof -
  have ids: "connection_ids test_history = [4]" by code_simp
  have "Changes (fst (HistoryUpdate test_history_map test_history)) \<noteq> []" by code_simp
  then show ?thesis
    using waiting_entries_shown_twice [OF reachable_test_history _ _ test_wire_decodes surjective_pairing [of "HistoryUpdate test_history_map test_history"]] ids
    by (simp add: test_history_state)
qed

end
