(* ===== verification/Spec2Isabelle.thy ===== *)
theory Spec2Isabelle
  imports Packet_Parser Client_Socket Rule_Manager Process_Names Socket_Events Socket_State IP_Link_Proc
    System_Accounting Ebpf_Lifecycle IP2Asn_Db Connection_History Stats_Requests End_To_End Daemon_Config Web_Socket Timers Db_Migrations
    Resolver Client_History
begin

text \<open>
  Waechter is a traffic monitor and firewall for Linux. Programs in the kernel (\<^verbatim>\<open>src/Source/EBPF\<close>)
  report what sockets do and drop packets by rule; a daemon (\<^verbatim>\<open>src/Source/Daemon\<close>) turns the reports
  into a tree of applications, processes, sockets and UDP tuples with traffic counters, keeps the
  user's rules and the history of connections, and serves clients over a socket; a privileged helper
  process shapes bandwidth with tc and iptables; types, framing and parsers the parts share are in
  \<^verbatim>\<open>src/Source/Util\<close>. This development models these parts, theory by theory, and proves what makes
  them correct. Paths below are relative to \<^verbatim>\<open>src/Source\<close>.

  How the parts interact. A kernel program writes a \<^verbatim>\<open>WSocketEvent\<close> into the ring buffer
  (\<open>Ebpf_Lifecycle\<close>, \<open>Ebpf_Traffic\<close>). The daemon's loop hands it to the system map (\<open>System_Map\<close>,
  \<^verbatim>\<open>UpdateData\<close>), which finds or creates the items of the socket, names the application
  (\<open>Process_Names\<close>), lets the socket item follow its state (\<open>Socket_Events\<close>), reads packet headers
  (\<open>Packet_Parser\<close>) and counts bytes (\<open>Traffic_Counter\<close>). Signals of the map drive the rule manager
  (\<open>Rule_Manager\<close>) and the connection history (\<open>Connection_History\<close>). The rule manager computes the
  effective rule of every socket, writes it to the kernel's maps (\<open>Ebpf_Maps\<close>) and asks the bandwidth
  registry (\<open>IP_Link\<close>) for marks; the registry sends messages to the helper (\<open>IP_Link_Proc\<close>), which
  also looks up sockets that existed before in the tables of \<^verbatim>\<open>/proc/net\<close> (\<open>Socket_State\<close>). Clients
  are served in frames (\<open>Client_Socket\<close>, on \<open>Byte_Buffer\<close>) or over WebSockets (\<open>Web_Socket\<close>), ask for the autonomous system of an
  address (\<open>IP2Asn_Db\<close>), and build a tree of their own from what they get (\<open>Client_Tree\<close>). A loop fires timers (\<open>Timers\<close>): each
  second it refreshes the counters and broadcasts what changed to every client (\<open>Daemon_Socket\<close>), each hour it writes a
  snapshot into the database (\<open>Statistics\<close>), whose schema the migrations set up (\<open>Db_Migrations\<close>). \<open>End_To_End\<close> follows a number from a
  counter of the daemon to the tree of a client, \<open>Client_History\<close> a connection to the list of one.

  Theories, what they model, and what is shown.

    \<^item> \<open>Waechter_Prelude\<close>: machine words, byte order, association lists for \<^verbatim>\<open>std::unordered_map\<close> (the
      iteration order is the list order; theorems start from any list), the conversion of a counter
      to a \<^verbatim>\<open>double\<close>, and the locales \<open>state_machine\<close> and \<open>kv_store\<close>.
    \<^item> \<open>IP_Address\<close> (\<^verbatim>\<open>Util/IPAddress.hpp\<close>): addresses, endpoints, socket tuples; the address classes
      equal CIDR tests and exclude each other; words of the kernel become the right IPv4 bytes, and
      IPv6 bytes in the wrong order.
    \<^item> \<open>Packet_Parser\<close> (\<^verbatim>\<open>Daemon/Net/PacketParser.cpp\<close>): no read outside the buffer on any input; a
      well-formed packet is read back; the protocol of IPv6 packets is lost.
    \<^item> \<open>Byte_Buffer\<close> (\<^verbatim>\<open>Util/Buffer.hpp\<close>): refines a byte queue (locale \<open>byte_fifo\<close>), positions stay in
      bounds.
    \<^item> \<open>Client_Socket\<close> (\<^verbatim>\<open>Util/ClientSocket.cpp\<close>, \<^verbatim>\<open>Util/Socket.hpp\<close>): framing is independent of how the
      kernel cuts the stream; what a failed send leaves on the wire.
    \<^item> \<open>Traffic_Counter\<close>, \<open>Traffic_Items\<close> (\<^verbatim>\<open>Util/TrafficCounter.hpp\<close>, \<^verbatim>\<open>Util/Data\<close>): no byte is lost between
      window and total (modulo \<open>2^64\<close>, as the code counts), what a refresh reports, when a silent item
      fades and is removed.
    \<^item> \<open>Ebpf_Maps\<close>, \<open>Ebpf_Traffic\<close>, \<open>Ebpf_Lifecycle\<close> (\<^verbatim>\<open>EBPF\<close>, \<^verbatim>\<open>Util/EBPFCommon.h\<close>): the kernel's hash
      maps as a \<open>kv_store\<close> that may refuse an insertion; the verdicts, reports and marks; whom an
      accepted connection is attributed to, in any interleaving of the programs.
    \<^item> \<open>IP_Link\<close>, \<open>IP_Link_Proc\<close> (\<^verbatim>\<open>Daemon/Net/IPLink.cpp\<close>, \<^verbatim>\<open>Daemon/Net/IPLinkProc\<close>): the helper's
      traffic classes mirror the daemon's limits for up to 65524 requests (the numbers of classes are
      16 bits wide and never reused); the helper runs only harmless command lines and works its queue
      off in order.
    \<^item> \<open>Rule_Manager\<close> (\<^verbatim>\<open>Daemon/Rules/RuleManager.cpp\<close>): inheritance of rules, and that after a change
      the kernel enforces exactly the effective rules.
    \<^item> \<open>String_Format\<close>, \<open>Process_Names\<close>, \<open>Socket_State\<close> (\<^verbatim>\<open>Util/Format.hpp\<close>, \<^verbatim>\<open>Util/Filesystem.hpp\<close>,
      \<^verbatim>\<open>Daemon/Data/SystemMap.cpp\<close>, \<^verbatim>\<open>Util/Data/SocketStateParser.cpp\<close>): string helpers, names of
      applications, parsing of the socket tables.
    \<^item> \<open>Socket_Events\<close> (\<^verbatim>\<open>Daemon/Data/Counters.cpp\<close>): clients are told of every change of a socket.
    \<^item> \<open>System_Map\<close> (\<^verbatim>\<open>Daemon/Data/SystemMap.cpp\<close>, \<^verbatim>\<open>MapUpdate.cpp\<close>, \<^verbatim>\<open>EBPF/WaechterEbpf.cpp\<close>): every operation of
      the map on explicit heaps of counters. \<open>System_Tree\<close> abstracts the state to a forest, shows that
      every operation refines an operation on forests and that tree and index always agree;
      \<open>System_Accounting\<close> shows that the traffic of an application is the sum over its processes and
      theirs over their sockets.
    \<^item> \<open>IP2Asn_Db\<close> (\<^verbatim>\<open>Util/IP2Asn\<close>, \<^verbatim>\<open>Daemon/Data/IP2Asn.cpp\<close>): index, mapped file and binary search answer as
      the table; the cache changes no answer.
    \<^item> \<open>Connection_History\<close> (\<^verbatim>\<open>Daemon/Data/ConnectionHistory.cpp\<close>): the bounded list of connections and
      what is recorded when one closes.
    \<^item> \<open>Statistics\<close>, \<open>Stats_Requests\<close>, \<open>Calendar\<close> (\<^verbatim>\<open>Daemon/Db/StatsManager.cpp\<close>, \<^verbatim>\<open>Meta/Database\<close>): the tables
      as lists of rows, what a snapshot writes, and the charts and history pages read from them; charts
      conserve bytes (locale \<open>bucketing\<close>, on the calendar of \<^verbatim>\<open>gmtime_r\<close> and \<^verbatim>\<open>timegm\<close>).
    \<^item> \<open>Client_Tree\<close> (\<^verbatim>\<open>Gui/Windows/TrafficTree.cpp\<close>, \<^verbatim>\<open>Gui/ClientRuleManager.hpp\<close>): the tree a client keeps of what it is sent,
      on heaps of shared objects; its index stays sound, its sockets follow the lists of the updates, its numbers are those sent.
    \<^item> \<open>Daemon_Config\<close>, \<open>Number_Format\<close> (\<^verbatim>\<open>Daemon/DaemonConfig.cpp\<close>, \<^verbatim>\<open>Util/Format.hpp\<close>): the configuration, read and written
      through an INI library that is a parameter, and decimal numbers; what survives a restart and what does not.
    \<^item> \<open>Web_Socket\<close> (\<^verbatim>\<open>Daemon/Communication/ClientWebSocket.cpp\<close>, \<^verbatim>\<open>DaemonWebSocket.cpp\<close>, \<^verbatim>\<open>Gui/Communication/WebSocketSource.cpp\<close>):
      connections over libwebsockets, a parameter; only authenticated connections are heard, messages arrive whole and in order.
    \<^item> \<open>Daemon_Socket\<close> (\<^verbatim>\<open>Daemon/Communication/DaemonSocket.cpp\<close>, \<^verbatim>\<open>DaemonClient.cpp\<close>, \<^verbatim>\<open>Daemon/Daemon.cpp\<close>): the clients, over any
      connection that keeps the contract \<open>client_contract\<close> (both kinds do); what each gets of the broadcasts, and how one client
      that fails stops them all.
    \<^item> \<open>End_To_End\<close>: the daemon's map, its broadcast, the frames on the socket and the client's tree put together.
    \<^item> \<open>Timers\<close> (\<^verbatim>\<open>Util/Time.cpp\<close>, \<^verbatim>\<open>Util/Time.hpp\<close>): timers by elapsed time and by the wall clock, and when the daemon's fire.
    \<^item> \<open>Client_History\<close> (\<^verbatim>\<open>Gui/Windows/ConnectionHistoryWindow.cpp\<close>): the list of connections of a client next to that of the daemon;
      when the two are equal, and the two ways in which they part.
    \<^item> \<open>Resolver\<close> (\<^verbatim>\<open>Daemon/Net/Resolver.cpp\<close>): host names with a bounded cache; what is replied, and how the estimate of the cache drifts.
    \<^item> \<open>Db_Migrations\<close> (\<^verbatim>\<open>Daemon/Db/DbMigrations.hpp\<close>): which files a start applies, on a database that is a parameter.

  Conventions. A class is a record, a reference that can be shared is an address in a heap, a map is
  an association list, an integer has its width, a \<^verbatim>\<open>double\<close> is a real number where every stored value
  is exact. Reading out of range, using an erased iterator and throwing are results (\<open>None\<close> or an
  error value), never left out. What the code asks of the system (clock, proc files, \<^verbatim>\<open>inet_pton\<close>,
  \<^verbatim>\<open>system()\<close>, answers of \<^verbatim>\<open>send\<close> and \<^verbatim>\<open>recv\<close>, whether the kernel takes a map entry) is an argument of
  the definitions. A loop that may not end is a partial function into options (\<open>ReplaceAll\<close>), all others
  are total; nothing is bounded by fuel. Several operations that share a state are a step relation;
  invariants are interpretations of \<open>state_machine\<close> on the model's own initial states and steps.

  Not modelled. The windows of the graphical client (\<^verbatim>\<open>Gui\<close>), which draw what its tree holds; SQLite itself and the
  connection to it (\<^verbatim>\<open>Daemon/Db/SqliteConnection.cpp\<close>): a table is a list of rows and a query is
  written out on it; serialisation with cereal, so a message is its value or bytes that a parameter decodes; the start of the daemon, its threads and signals
  (locks make each handler one step of the models, except in \<open>Daemon_Socket\<close>, where a log message can take a lock again and
  updates run between the steps of a new connection); loading and
  attaching the kernel programs; downloads, zlib, icons and memory statistics.
\<close>

end
